(* ===== verification/Prelude.thy ===== *)
theory Prelude
  imports Main "HOL-Library.AList" "HOL-Library.Multiset" "HOL-Library.Sublist"
    "HOL-Library.List_Lexorder" "HOL-Library.Char_ord"
begin

text \<open>
  Shared vocabulary of the development: Python strings, slices, dictionaries, sorting and
  JSON values, with the generic facts the component theories use. Nothing here is about one
  component of the program; the definitions that stand for language or standard-library
  operations (slices, \<open>str.find\<close>, \<open>dict\<close> assignment, \<open>sorted\<close>) follow Python's documented
  behaviour.
\<close>

named_theorems dict_simps \<open>facts about insertion-ordered dictionaries\<close>
named_theorems sort_simps \<open>facts about Python's stable sorts\<close>

subsection \<open>Strings and bytes\<close>

type_synonym bytes = string

definition starts_with :: "string \<Rightarrow> string \<Rightarrow> bool" where
  "starts_with s p \<longleftrightarrow> take (length p) s = p"

definition ends_with :: "string \<Rightarrow> string \<Rightarrow> bool" where
  "ends_with s p \<longleftrightarrow> length p \<le> length s \<and> drop (length s - length p) s = p"

text \<open>\<open>s.find(p)\<close> as an option: the index of the first occurrence.\<close>

fun find_sub :: "string \<Rightarrow> string \<Rightarrow> nat option" where
  "find_sub [] p = (if p = [] then Some 0 else None)"
| "find_sub (c # s) p =
     (if starts_with (c # s) p then Some 0 else map_option Suc (find_sub s p))"

definition lower_char :: "char \<Rightarrow> char" where
  "lower_char c =
     (let n = (of_char c :: nat) in if 65 \<le> n \<and> n \<le> 90 then char_of (n + 32) else c)"

definition lower :: "string \<Rightarrow> string" where
  "lower s = map lower_char s"

text \<open>\<open>sep.join(parts)\<close>.\<close>

fun join :: "string \<Rightarrow> string list \<Rightarrow> string" where
  "join sep [] = []"
| "join sep [x] = x"
| "join sep (x # y # xs) = x @ sep @ join sep (y # xs)"

lemma starts_with_prefix: "starts_with s p \<longleftrightarrow> prefix p s"
  unfolding starts_with_def by (metis append_eq_conv_conj prefix_def append_take_drop_id)

lemma ends_with_suffix: "ends_with s p \<longleftrightarrow> suffix p s"
proof
  assume "ends_with s p"
  then have "s = take (length s - length p) s @ p"
    by (metis append_take_drop_id ends_with_def)
  then show "suffix p s" by (metis suffix_def)
next
  assume "suffix p s"
  then show "ends_with s p" by (auto simp: ends_with_def suffix_def)
qed

lemma find_sub_Some:
  "find_sub s p = Some i \<Longrightarrow> i + length p \<le> length s \<and> take (length p) (drop i s) = p"
proof (induction s arbitrary: i)
  case Nil
  then show ?case by (auto split: if_splits)
next
  case (Cons c s)
  then show ?case
    by (auto simp: starts_with_def split: if_splits)
       (metis length_Cons length_take min.cobounded1)
qed

text \<open>\<open>s.split()\<close>: the maximal runs without ASCII white space.\<close>

definition py_space :: "char \<Rightarrow> bool" where
  "py_space c \<longleftrightarrow> (let n = (of_char c :: nat) in
     9 \<le> n \<and> n \<le> 13 \<or> 28 \<le> n \<and> n \<le> 32 \<or> n = 133 \<or> n = 160)"

fun split_acc :: "string \<Rightarrow> string \<Rightarrow> string list" where
  "split_acc acc [] = (if acc = [] then [] else [rev acc])"
| "split_acc acc (c # s) =
     (if py_space c then (if acc = [] then split_acc [] s else rev acc # split_acc [] s)
      else split_acc (c # acc) s)"

definition py_split :: "string \<Rightarrow> string list" where
  "py_split s = split_acc [] s"

lemma split_acc_tokens:
  "t \<in> set (split_acc acc s) \<Longrightarrow> \<forall>c \<in> set acc. \<not> py_space c \<Longrightarrow>
   t \<noteq> [] \<and> set t \<subseteq> set acc \<union> {c \<in> set s. \<not> py_space c}"
proof (induction s arbitrary: acc)
  case (Cons c s)
  show ?case
  proof (cases "py_space c")
    case True
    then show ?thesis using Cons.prems Cons.IH [of "[]"] by (auto split: if_splits)
  next
    case False
    then show ?thesis using Cons.prems Cons.IH [of "c # acc"] by auto
  qed
qed (auto split: if_splits)

lemma py_split_tokens: "t \<in> set (py_split s) \<Longrightarrow> t \<noteq> [] \<and> set t \<subseteq> {c \<in> set s. \<not> py_space c}"
  using split_acc_tokens [of t "[]" s] by (simp add: py_split_def)

text \<open>\<open>split\<close> at every character that satisfies \<open>P\<close>, and \<open>strip\<close> of such characters at both ends.\<close>

fun split_by :: "(char \<Rightarrow> bool) \<Rightarrow> string \<Rightarrow> string list" where
  "split_by P [] = [[]]"
| "split_by P (x # xs) = (if P x then [] # split_by P xs
     else case split_by P xs of [] \<Rightarrow> [[x]] | y # ys \<Rightarrow> (x # y) # ys)"

definition strip_by :: "(char \<Rightarrow> bool) \<Rightarrow> string \<Rightarrow> string" where
  "strip_by P s = rev (dropWhile P (rev (dropWhile P s)))"

subsection \<open>Slices\<close>

text \<open>\<open>xs[i:j]\<close> with Python's treatment of negative and out-of-range bounds.\<close>

definition py_clip :: "int \<Rightarrow> nat \<Rightarrow> nat" where
  "py_clip i n = nat (min (int n) (max 0 (if i < 0 then int n + i else i)))"

definition py_slice :: "'a list \<Rightarrow> int \<Rightarrow> int \<Rightarrow> 'a list" where
  "py_slice xs i j =
     (let a = py_clip i (length xs); b = py_clip j (length xs) in take (b - a) (drop a xs))"

definition py_slice_from :: "'a list \<Rightarrow> int \<Rightarrow> 'a list" where
  "py_slice_from xs i = drop (py_clip i (length xs)) xs"

lemma py_slice_nonneg:
  "0 \<le> i \<Longrightarrow> i \<le> j \<Longrightarrow> py_slice xs i j = take (nat j - nat i) (drop (nat i) xs)"
  unfolding py_slice_def py_clip_def Let_def
  by (auto simp: min_def max_def nat_diff_distrib)

subsection \<open>Dictionaries\<close>

text \<open>
  A Python \<open>dict\<close> keeps insertion order: assigning to a present key keeps its place,
  assigning to a new key appends. That is \<^const>\<open>AList.update\<close> on an association list.
\<close>

type_synonym ('k, 'v) dict = "('k \<times> 'v) list"

abbreviation dict_put :: "'k \<Rightarrow> 'v \<Rightarrow> ('k, 'v) dict \<Rightarrow> ('k, 'v) dict" where
  "dict_put \<equiv> AList.update"

abbreviation dict_del :: "'k \<Rightarrow> ('k, 'v) dict \<Rightarrow> ('k, 'v) dict" where
  "dict_del \<equiv> AList.delete"

abbreviation dict_get :: "('k, 'v) dict \<Rightarrow> 'k \<Rightarrow> 'v option" where
  "dict_get \<equiv> map_of"

abbreviation dict_keys :: "('k, 'v) dict \<Rightarrow> 'k list" where
  "dict_keys d \<equiv> map fst d"

definition dict_get_or :: "('k, 'v) dict \<Rightarrow> 'k \<Rightarrow> 'v \<Rightarrow> 'v" where
  "dict_get_or d k v = (case dict_get d k of None \<Rightarrow> v | Some w \<Rightarrow> w)"

declare update_conv' [dict_simps] delete_conv' [dict_simps]

lemma dict_put_keys [dict_simps]: "fst ` set (dict_put k v d) = insert k (fst ` set d)"
  by (induction d) auto

lemma dict_put_distinct [dict_simps]: "distinct (dict_keys d) \<Longrightarrow> distinct (dict_keys (dict_put k v d))"
  by (simp add: distinct_update)

lemma dict_put_fresh [dict_simps]: "k \<notin> set (dict_keys d) \<Longrightarrow> dict_put k v d = d @ [(k, v)]"
  by (induction d) auto

lemma dict_put_mem: "(j, w) \<in> set (dict_put k v d) \<Longrightarrow> (j, w) = (k, v) \<or> (j, w) \<in> set d"
  by (induction d) (auto split: if_splits)

lemma dict_put_last [dict_simps]:
  "k \<notin> set (dict_keys d) \<Longrightarrow> dict_put k v (d @ [(k, w)]) = d @ [(k, v)]"
  by (induction d) auto

text \<open>\<open>d[k] = d.get(k, 0) + 1\<close>, and the loop that does so for every key of a list.\<close>

definition bump :: "'k \<Rightarrow> ('k, nat) dict \<Rightarrow> ('k, nat) dict" where
  "bump k d = dict_put k (dict_get_or d k 0 + 1) d"

definition tally :: "'k list \<Rightarrow> ('k, nat) dict" where
  "tally ks = fold bump ks []"

lemma bump_get: "dict_get_or (bump j d) k 0 = dict_get_or d k 0 + (if j = k then 1 else 0)"
  by (simp add: bump_def dict_get_or_def dict_simps)

lemma tally_get_or [dict_simps]: "dict_get_or (tally ks) k 0 = count_list ks k"
proof -
  have "dict_get_or (fold bump ks d) k 0 = dict_get_or d k 0 + count_list ks k" for d
    by (induction ks arbitrary: d) (auto simp: bump_get)
  then show ?thesis by (simp add: tally_def dict_get_or_def)
qed

lemma tally_keys [dict_simps]: "fst ` set (tally ks) = set ks"
proof -
  have "fst ` set (fold bump ks d) = fst ` set d \<union> set ks" for d
    by (induction ks arbitrary: d) (auto simp: bump_def dict_put_keys)
  then show ?thesis by (simp add: tally_def)
qed

lemma tally_distinct [dict_simps]: "distinct (dict_keys (tally ks))"
proof -
  have "distinct (dict_keys d) \<Longrightarrow> distinct (dict_keys (fold bump ks d))" for d
    by (induction ks arbitrary: d) (auto simp: bump_def dict_put_distinct)
  then show ?thesis by (simp add: tally_def)
qed

lemma tally_get: "(k, n) \<in> set (tally ks) \<Longrightarrow> n = count_list ks k"
  using tally_get_or [of ks k] map_of_is_SomeI [OF tally_distinct, of k n ks]
  by (simp add: dict_get_or_def)

subsection \<open>Stable sorting\<close>

text \<open>
  \<open>sorted(xs, key=f)\<close> is \<^const>\<open>sort_key\<close>. With \<open>reverse=True\<close> Python still keeps equal
  elements in their original order: it reverses, sorts stably and reverses again.
\<close>

definition sorted_desc :: "('a \<Rightarrow> 'b::linorder) \<Rightarrow> 'a list \<Rightarrow> 'a list" where
  "sorted_desc f xs = rev (sort_key f (rev xs))"

lemma sorted_desc_mset [sort_simps, simp]: "mset (sorted_desc f xs) = mset xs"
  by (simp add: sorted_desc_def)

lemma sorted_desc_set [sort_simps, simp]: "set (sorted_desc f xs) = set xs"
  by (simp add: sorted_desc_def)

lemma sorted_desc_length [sort_simps, simp]: "length (sorted_desc f xs) = length xs"
  by (simp add: sorted_desc_def)

lemma sorted_desc_distinct [sort_simps, simp]: "distinct (sorted_desc f xs) = distinct xs"
  by (simp add: sorted_desc_def)

lemma sorted_desc_sorted: "sorted_wrt (\<lambda>x y. f y \<le> f x) (sorted_desc f xs)"
proof -
  have "sorted (map f (sort_key f (rev xs)))" by simp
  then show ?thesis by (simp add: sorted_desc_def sorted_map sorted_wrt_rev)
qed

lemma sorted_desc_stable:
  "filter (\<lambda>y. f y = k) (sorted_desc f xs) = filter (\<lambda>y. f y = k) xs"
  using sort_key_stable [of f k "rev xs"] by (simp add: sorted_desc_def rev_filter [symmetric])

lemma sorted_desc_map_set [sort_simps]: "mset (map g (sorted_desc f xs)) = mset (map g xs)"
  by simp

lemma sort_mset_eq: "mset xs = mset ys \<Longrightarrow> sort xs = sort (ys :: 'a::linorder list)"
  by (metis mset_sort properties_for_sort sorted_sort)

lemma set_filter_sort [sort_simps]: "set (filter P (sort xs)) = {x \<in> set xs. P x}"
  by auto

lemma sort_distinct_set [sort_simps]: "distinct xs \<Longrightarrow> sorted xs \<Longrightarrow> set xs = S \<Longrightarrow>
    xs = sorted_list_of_set (S :: 'a::linorder set)"
  by (metis sorted_list_of_set_sort_remdups distinct_remdups_id sorted_sort_id)

subsection \<open>Subsequences\<close>

lemma subseq_set: "subseq xs ys \<Longrightarrow> set xs \<subseteq> set ys"
  by (induction rule: list_emb.induct) auto

lemma subseq_sorted: "subseq xs ys \<Longrightarrow> sorted ys \<Longrightarrow> sorted (xs :: 'a::linorder list)"
proof (induction rule: list_emb.induct)
  case (list_emb_Cons2 x y xs ys)
  then show ?case using subseq_set [of xs ys] by auto
qed auto

lemma subseq_sorted_wrt: "subseq xs ys \<Longrightarrow> sorted_wrt P ys \<Longrightarrow> sorted_wrt P xs"
proof (induction rule: list_emb.induct)
  case (list_emb_Cons2 x y xs ys)
  then show ?case using subseq_set [of xs ys] by auto
qed auto

lemma subseq_distinct: "subseq xs ys \<Longrightarrow> distinct ys \<Longrightarrow> distinct xs"
proof (induction rule: list_emb.induct)
  case (list_emb_Cons2 x y xs ys)
  then show ?case using subseq_set [of xs ys] by auto
qed auto

subsection \<open>First occurrences\<close>

text \<open>
  The \<open>seen\<close>-set loop of the source: keep the first element of each key, in order.
\<close>

fun dedup_from :: "'k set \<Rightarrow> ('a \<Rightarrow> 'k) \<Rightarrow> 'a list \<Rightarrow> 'a list" where
  "dedup_from seen f [] = []"
| "dedup_from seen f (x # xs) =
     (if f x \<in> seen then dedup_from seen f xs
      else x # dedup_from (insert (f x) seen) f xs)"

lemma dedup_from_subseq: "subseq (dedup_from seen f xs) xs"
  by (induction xs arbitrary: seen) auto

lemma dedup_from_keys: "f ` set (dedup_from seen f xs) = f ` set xs - seen"
  by (induction xs arbitrary: seen) auto

lemma dedup_from_distinct: "distinct (map f (dedup_from seen f xs))"
proof (induction xs arbitrary: seen)
  case Nil
  then show ?case by simp
next
  case (Cons x xs)
  have "f x \<notin> f ` set (dedup_from (insert (f x) seen) f xs)"
    by (simp add: dedup_from_keys)
  with Cons show ?case by auto
qed

subsection \<open>Results\<close>

text \<open>A computation that raises is \<open>Inl\<close> of the error; \<open>bindr\<close> runs the rest on \<open>Inr\<close>.\<close>

definition bindr :: "'e + 'a \<Rightarrow> ('a \<Rightarrow> 'e + 'b) \<Rightarrow> 'e + 'b" where
  "bindr r f = (case r of Inl e \<Rightarrow> Inl e | Inr x \<Rightarrow> f x)"

lemma bindr_simps [simp]:
  "bindr (Inl e) f = Inl e"
  "bindr (Inr x) f = f x"
  by (simp_all add: bindr_def)

lemma bindr_Inr: "bindr r f = Inr y \<longleftrightarrow> (\<exists>x. r = Inr x \<and> f x = Inr y)"
  by (cases r) auto

fun map_result :: "('a \<Rightarrow> 'e + 'b) \<Rightarrow> 'a list \<Rightarrow> 'e + 'b list" where
  "map_result f [] = Inr []"
| "map_result f (x # xs) = bindr (f x) (\<lambda>y. bindr (map_result f xs) (\<lambda>ys. Inr (y # ys)))"

lemma map_result_cong [fundef_cong]:
  "xs = ys \<Longrightarrow> (\<And>x. x \<in> set ys \<Longrightarrow> f x = g x) \<Longrightarrow> map_result f xs = map_result g ys"
  by (induction xs arbitrary: ys) auto

lemma map_result_map:
  "(\<And>x. x \<in> set xs \<Longrightarrow> f (g x) = Inr x) \<Longrightarrow> map_result f (map g xs) = Inr xs"
  by (induction xs) auto

subsection \<open>JSON values\<close>

text \<open>
  The values \<open>json.load\<close> returns. The JSON text itself is written and read by the standard
  library (\<open>json.dump\<close> then \<open>json.load\<close> gives the value back), so files hold values.
\<close>

datatype json =
    JNull
  | JBool bool
  | JInt int
  | JStr string
  | JArr "json list"
  | JObj "(string \<times> json) list"

definition jget :: "(string \<times> json) list \<Rightarrow> string \<Rightarrow> json option" where
  "jget ob k = map_of ob k"

lemma jget_size: "jget ob k = Some v \<Longrightarrow> size v < size (JObj ob)"
  by (induction ob) (auto simp: jget_def split: if_splits)

text \<open>Python truthiness of a JSON value.\<close>

fun json_truthy :: "json \<Rightarrow> bool" where
  "json_truthy JNull = False"
| "json_truthy (JBool b) = b"
| "json_truthy (JInt i) = (i \<noteq> 0)"
| "json_truthy (JStr s) = (s \<noteq> [])"
| "json_truthy (JArr xs) = (xs \<noteq> [])"
| "json_truthy (JObj ob) = (ob \<noteq> [])"

end
