(* ===== verification/Merkle.thy ===== *)
theory Merkle
  imports Prelude
begin

text \<open>
  The Merkle DAG of \<open>merkle/merkle_dag.py\<close>: nodes, ignore rules, file and directory hashes,
  the recursive walk \<open>build_node\<close> with its cancellation checkpoints and its exception
  handling, the rebuilt DAG of a snapshot, and the queries on a built DAG.

  The file system is the tree the walk sees. Each entry carries what the operating system
  answers: a readable file or one whose reading fails part-way, a directory listing or a
  listing that raises, a symlink with the path it resolves to and the entry it leads to,
  something that is neither file nor directory, or a path whose status cannot be read. The
  kernel bounds the number of links in a path, so what the walk sees is finite even where links
  form a cycle. SHA-256 and the UTF-8 decoder are parameters: \<open>sha\<close> maps the digested bytes to
  the hex digest, \<open>utf\<close> is \<open>decode(errors='replace').encode()\<close> on bytes.
\<close>

subsection \<open>Nodes and the file system\<close>

datatype node =
  Node (node_path: string) (node_hash: string) (node_is_file: bool) (node_size: nat)
    (node_children: "node list")

datatype link_target = LinkError | LinkTo "string list"

datatype entry =
    RegFile "bytes + bytes"  \<comment> \<open>\<open>Inl\<close>: reading raises after these bytes\<close>
  | Directory "(string \<times> entry) list option"  \<comment> \<open>\<open>None\<close>: \<open>iterdir\<close> raises\<close>
  | Symlink link_target entry
  | Special
  | StatError

datatype walk_exn = IndexingCancelled | OsError

text \<open>
  \<open>IndexingCancelled\<close> derives from \<open>InterruptedError\<close>, which is a subclass of \<open>OSError\<close> in
  Python's exception hierarchy, as \<open>PermissionError\<close> is.
\<close>

fun is_os_error :: "walk_exn \<Rightarrow> bool" where
  "is_os_error IndexingCancelled = True"
| "is_os_error OsError = True"

record merkle_dag =
  root_path :: "string list"
  cancel_check :: "(nat \<Rightarrow> bool) option"  \<comment> \<open>the answer of the n-th poll\<close>
  polls :: nat  \<comment> \<open>polls made so far\<close>
  nodes :: "(string, node) dict"
  root_node :: "node option"
  ignore_patterns :: "string list"

definition default_ignore_patterns :: "string list" where
  "default_ignore_patterns =
    [''__pycache__'', ''.git'', ''.hg'', ''.svn'',
     ''.venv'', ''venv'', ''env'', ''.env'', ''.direnv'',
     ''node_modules'', ''.pnpm-store'', ''.yarn'',
     ''.pytest_cache'', ''.mypy_cache'', ''.ruff_cache'', ''.pytype'', ''.ipynb_checkpoints'',
     ''build'', ''dist'', ''out'', ''public'',
     ''.next'', ''.nuxt'', ''.svelte-kit'', ''.angular'', ''.astro'', ''.vite'',
     ''.cache'', ''.parcel-cache'', ''.turbo'',
     ''coverage'', ''.coverage'', ''.nyc_output'',
     ''.gradle'', ''.idea'', ''.vscode'', ''.docusaurus'', ''.vercel'', ''.serverless'',
     ''.terraform'', ''.mvn'', ''.tox'',
     ''target'', ''bin'', ''obj'',
     ''*.pyc'', ''*.pyo'', ''.DS_Store'', ''Thumbs.db'']"

definition merkle_init :: "string list \<Rightarrow> (nat \<Rightarrow> bool) option \<Rightarrow> merkle_dag" where
  "merkle_init root cancel =
     \<lparr>root_path = root, cancel_check = cancel, polls = 0, nodes = [], root_node = None,
      ignore_patterns = default_ignore_patterns\<rparr>"

subsection \<open>Ignore rules, paths and hashes\<close>

definition should_ignore :: "string list \<Rightarrow> string \<Rightarrow> bool" where
  "should_ignore pats name \<longleftrightarrow>
     list_ex (\<lambda>p. if starts_with p ''*'' then ends_with name (tl p) else name = p) pats"

definition is_within :: "string list \<Rightarrow> string list \<Rightarrow> bool" where
  "is_within child root \<longleftrightarrow> prefix root child"

definition path_name :: "string list \<Rightarrow> string" where
  "path_name parts = (if parts = [] then [] else last parts)"

definition path_str :: "string list \<Rightarrow> string" where
  "path_str parts = ''/'' @ join ''/'' parts"

definition relative_path :: "string list \<Rightarrow> string" where
  "relative_path rel = (if rel = [] then ''.'' else join ''/'' rel)"

text \<open>
  \<open>Path.suffix\<close>: from the last dot on, unless the dot is the first or the last character of
  the name.
\<close>

definition path_suffix :: "string \<Rightarrow> string" where
  "path_suffix name =
     (let ext = takeWhile (\<lambda>c. c \<noteq> CHR ''.'') (rev name); i = length name - length ext in
      if CHR ''.'' \<in> set name \<and> 1 < i \<and> ext \<noteq> [] then CHR ''.'' # rev ext else [])"

definition md_extensions :: "string list" where
  "md_extensions = [''.md'', ''.mdx'', ''.markdown'']"

definition newline :: char where
  "newline = CHR 0x0A"

definition body_content :: "(bytes \<Rightarrow> bytes) \<Rightarrow> bytes \<Rightarrow> bytes" where
  "body_content utf content =
     (let text = utf content in
      if starts_with text ''---''
      then (case find_sub (drop 3 text) (newline # ''---'') of
              None \<Rightarrow> content
            | Some i \<Rightarrow> drop (i + 3 + 4) text)
      else content)"

definition hash_file ::
    "(bytes \<Rightarrow> string) \<Rightarrow> (bytes \<Rightarrow> bytes) \<Rightarrow> string list \<Rightarrow> bytes + bytes \<Rightarrow> string \<times> nat" where
  "hash_file sha utf path content =
     (if lower (path_suffix (path_name path)) \<in> set md_extensions
      then (case content of
              Inr raw \<Rightarrow> (sha (body_content utf raw), length raw)
            | Inl _ \<Rightarrow> (sha (path_str path), 0))
      else (case content of
              Inr raw \<Rightarrow> (sha raw, length raw)
            | Inl part \<Rightarrow> (sha (part @ path_str path), length part)))"

definition hash_directory :: "(bytes \<Rightarrow> string) \<Rightarrow> string \<Rightarrow> string list \<Rightarrow> string" where
  "hash_directory sha name child_hashes = sha (name @ concat (sort child_hashes))"

subsection \<open>The walk\<close>

definition poll_cancel :: "merkle_dag \<Rightarrow> bool \<times> merkle_dag" where
  "poll_cancel dag =
     (case cancel_check dag of
        None \<Rightarrow> (False, dag)
      | Some c \<Rightarrow> (c (polls dag), dag\<lparr>polls := Suc (polls dag)\<rparr>))"

definition put_node :: "node \<Rightarrow> merkle_dag \<Rightarrow> merkle_dag" where
  "put_node n dag = dag\<lparr>nodes := dict_put (node_path n) n (nodes dag)\<rparr>"

definition dir_node :: "(bytes \<Rightarrow> string) \<Rightarrow> string list \<Rightarrow> string list \<Rightarrow> node list \<Rightarrow> node" where
  "dir_node sha root rel cs =
     Node (relative_path rel) (hash_directory sha (path_name (root @ rel)) (map node_hash cs))
       False 0 cs"

definition file_node ::
    "(bytes \<Rightarrow> string) \<Rightarrow> (bytes \<Rightarrow> bytes) \<Rightarrow> string list \<Rightarrow> string list \<Rightarrow> bytes + bytes \<Rightarrow> node" where
  "file_node sha utf root rel c =
     (let (h, n) = hash_file sha utf (root @ rel) c in Node (relative_path rel) h True n [])"

lemma size_list_sort_key [simp]: "size_list f (sort_key k xs) = size_list f xs"
proof -
  have "sum_list (map f (sort_key k xs)) = sum_list (map f xs)"
    by (metis mset_map mset_sort sum_mset_sum_list)
  then show ?thesis by (simp add: size_list_conv_sum_list)
qed

text \<open>
  \<open>build_node\<close> (lines up to the symlink test), \<open>build_body\<close> (the file and directory branches)
  and \<open>build_children\<close> (the loop over the sorted listing). The loop hands back the children it
  appended and the exception that ended it, if one did; the directory branch then applies the
  code's \<open>except (PermissionError, OSError): pass\<close>.
\<close>

function (sequential) build_node ::
    "(bytes \<Rightarrow> string) \<Rightarrow> (bytes \<Rightarrow> bytes) \<Rightarrow> string list \<Rightarrow> entry \<Rightarrow> merkle_dag \<Rightarrow>
      (walk_exn + node option) \<times> merkle_dag"
  and build_body ::
    "(bytes \<Rightarrow> string) \<Rightarrow> (bytes \<Rightarrow> bytes) \<Rightarrow> string list \<Rightarrow> entry \<Rightarrow> merkle_dag \<Rightarrow>
      (walk_exn + node option) \<times> merkle_dag"
  and build_children ::
    "(bytes \<Rightarrow> string) \<Rightarrow> (bytes \<Rightarrow> bytes) \<Rightarrow> string list \<Rightarrow> (string \<times> entry) list \<Rightarrow> merkle_dag \<Rightarrow>
      (node list \<times> walk_exn option) \<times> merkle_dag"
where
  "build_node sha utf rel e dag =
     (if should_ignore (ignore_patterns dag) (path_name (root_path dag @ rel))
      then (Inr None, dag)
      else (case e of
              Symlink LinkError _ \<Rightarrow> (Inr None, dag)
            | Symlink (LinkTo t) _ \<Rightarrow>
                (if is_within t (root_path dag) then build_body sha utf rel e dag
                 else (Inr None, dag))
            | _ \<Rightarrow> build_body sha utf rel e dag))"
| "build_body sha utf rel (RegFile c) dag =
     (let n = file_node sha utf (root_path dag) rel c in (Inr (Some n), put_node n dag))"
| "build_body sha utf rel (Directory listing) dag =
     (let (stop, dag1) = poll_cancel dag in
      if stop then (Inl IndexingCancelled, dag1)
      else (case listing of
              None \<Rightarrow>
                (let n = dir_node sha (root_path dag1) rel [] in (Inr (Some n), put_node n dag1))
            | Some kids \<Rightarrow>
                (case build_children sha utf rel (sort_key fst kids) dag1 of
                   ((cs, exn), dag2) \<Rightarrow>
                     (case exn of
                        Some x \<Rightarrow>
                          (if is_os_error x
                           then (let n = dir_node sha (root_path dag2) rel cs
                                 in (Inr (Some n), put_node n dag2))
                           else (Inl x, dag2))
                      | None \<Rightarrow>
                          (let n = dir_node sha (root_path dag2) rel cs
                           in (Inr (Some n), put_node n dag2))))))"
| "build_body sha utf rel (Symlink _ e) dag = build_body sha utf rel e dag"
| "build_body sha utf rel Special dag = (Inr None, dag)"
| "build_body sha utf rel StatError dag = (Inl OsError, dag)"
| "build_children sha utf rel [] dag = (([], None), dag)"
| "build_children sha utf rel ((name, e) # es) dag =
     (case build_node sha utf (rel @ [name]) e dag of
        (Inl x, dag1) \<Rightarrow> (([], Some x), dag1)
      | (Inr None, dag1) \<Rightarrow> build_children sha utf rel es dag1
      | (Inr (Some n), dag1) \<Rightarrow>
          (case build_children sha utf rel es dag1 of
             ((cs, exn), dag2) \<Rightarrow> ((n # cs, exn), dag2)))"
  by pat_completeness auto
termination
  by (relation "measure (\<lambda>x. case x of
        Inl (_, _, _, e, _) \<Rightarrow> 2 * size e + 1
      | Inr (Inl (_, _, _, e, _)) \<Rightarrow> 2 * size e
      | Inr (Inr (_, _, _, es, _)) \<Rightarrow> 2 * size_list (size_prod (\<lambda>_. 0) size) es)")
    auto

definition build ::
    "(bytes \<Rightarrow> string) \<Rightarrow> (bytes \<Rightarrow> bytes) \<Rightarrow> entry \<Rightarrow> merkle_dag \<Rightarrow>
      (walk_exn + unit) \<times> merkle_dag" where
  "build sha utf e dag =
     (case build_node sha utf [] e (dag\<lparr>nodes := []\<rparr>) of
        (Inl x, d) \<Rightarrow> (Inl x, d)
      | (Inr None, d) \<Rightarrow> (Inr (), d\<lparr>root_node := None\<rparr>)
      | (Inr (Some r), d) \<Rightarrow>
          (let r' = (case r of Node _ h f s cs \<Rightarrow> Node ''.'' h f s cs)
           in (Inr (), d\<lparr>root_node := Some r', nodes := dict_put ''.'' r' (nodes d)\<rparr>)))"

subsection \<open>Queries on a DAG\<close>

definition get_file_hashes :: "merkle_dag \<Rightarrow> (string, string) dict" where
  "get_file_hashes dag =
     map (\<lambda>(p, n). (p, node_hash n)) (filter (\<lambda>(p, n). node_is_file n) (nodes dag))"

definition get_all_files :: "merkle_dag \<Rightarrow> string list" where
  "get_all_files dag = map fst (filter (\<lambda>(p, n). node_is_file n) (nodes dag))"

definition get_root_hash :: "merkle_dag \<Rightarrow> string option" where
  "get_root_hash dag = map_option node_hash (root_node dag)"

definition find_node :: "merkle_dag \<Rightarrow> string \<Rightarrow> node option" where
  "find_node dag p = dict_get (nodes dag) p"

record dag_stats =
  total_nodes :: nat
  file_count :: nat
  directory_count :: nat
  total_size :: nat
  root_hash :: "string option"

definition get_stats :: "merkle_dag \<Rightarrow> dag_stats" where
  "get_stats dag =
     (let file_nodes = filter node_is_file (map snd (nodes dag));
          dir_nodes = filter (\<lambda>n. \<not> node_is_file n) (map snd (nodes dag)) in
      \<lparr>total_nodes = length (nodes dag), file_count = length file_nodes,
       directory_count = length dir_nodes, total_size = sum_list (map node_size file_nodes),
       root_hash = get_root_hash dag\<rparr>)"

subsection \<open>Serialisation\<close>

datatype dict_error = KeyError string | IllTyped string

text \<open>
  A missing key raises \<open>KeyError\<close>. A value of another JSON type than the dataclass annotates is
  \<open>IllTyped\<close>: Python would store it unchecked (or fail later), and the typed record cannot.
\<close>

definition req :: "(string \<times> json) list \<Rightarrow> string \<Rightarrow> dict_error + json" where
  "req ob k = (case jget ob k of None \<Rightarrow> Inl (KeyError k) | Some v \<Rightarrow> Inr v)"

definition as_str :: "string \<Rightarrow> json \<Rightarrow> dict_error + string" where
  "as_str k v = (case v of JStr s \<Rightarrow> Inr s | _ \<Rightarrow> Inl (IllTyped k))"

definition as_bool :: "string \<Rightarrow> json \<Rightarrow> dict_error + bool" where
  "as_bool k v = (case v of JBool b \<Rightarrow> Inr b | _ \<Rightarrow> Inl (IllTyped k))"

definition as_nat :: "string \<Rightarrow> json \<Rightarrow> dict_error + nat" where
  "as_nat k v =
     (case v of JInt i \<Rightarrow> (if 0 \<le> i then Inr (nat i) else Inl (IllTyped k)) | _ \<Rightarrow> Inl (IllTyped k))"

fun node_to_dict :: "node \<Rightarrow> json" where
  "node_to_dict (Node p h f s cs) =
     JObj [(''path'', JStr p), (''hash'', JStr h), (''is_file'', JBool f), (''size'', JInt (int s)),
           (''children'', JArr (map node_to_dict cs))]"

function (sequential) node_from_dict :: "json \<Rightarrow> dict_error + node" where
  "node_from_dict (JObj ob) =
     bindr (bindr (req ob ''path'') (as_str ''path'')) (\<lambda>p.
     bindr (bindr (req ob ''hash'') (as_str ''hash'')) (\<lambda>h.
     bindr (bindr (req ob ''is_file'') (as_bool ''is_file'')) (\<lambda>f.
     bindr (case jget ob ''size'' of None \<Rightarrow> Inr 0 | Some v \<Rightarrow> as_nat ''size'' v) (\<lambda>s.
     bindr (case jget ob ''children'' of
              None \<Rightarrow> Inr []
            | Some (JArr cs) \<Rightarrow> map_result node_from_dict cs
            | Some _ \<Rightarrow> Inl (IllTyped ''children'')) (\<lambda>cs.
     Inr (Node p h f s cs))))))"
| "node_from_dict _ = Inl (IllTyped [])"
  by pat_completeness auto
termination
proof (relation "measure size", simp)
  fix ob a cs c
  assume "jget ob ''children'' = Some a" "a = JArr cs" "c \<in> set cs"
  then have "size (JArr cs) < size (JObj ob)" and "size c < size (JArr cs)"
    using jget_size [of ob "''children''" "JArr cs"] size_list_estimation [of c cs "size c" size]
    by (auto simp: less_Suc_eq_le dest: size_list_estimation' [where f = size, OF _ order_refl])
  then show "(c, JObj ob) \<in> measure size" by simp
qed

definition dag_to_dict :: "merkle_dag \<Rightarrow> json" where
  "dag_to_dict dag =
     JObj [(''root_path'', JStr (path_str (root_path dag))),
           (''root_node'', (case root_node dag of None \<Rightarrow> JNull | Some n \<Rightarrow> node_to_dict n)),
           (''file_count'', JInt (int (file_count (get_stats dag)))),
           (''total_size'', JInt (int (total_size (get_stats dag))))]"

fun add_to_nodes :: "node \<Rightarrow> (string, node) dict \<Rightarrow> (string, node) dict" where
  "add_to_nodes (Node p h f s cs) d = fold add_to_nodes cs (dict_put p (Node p h f s cs) d)"

text \<open>\<open>resolve\<close> stands for \<open>Path(..).resolve()\<close> in the constructor.\<close>

definition dag_from_dict :: "(string \<Rightarrow> string list) \<Rightarrow> json \<Rightarrow> dict_error + merkle_dag" where
  "dag_from_dict resolve data =
     (case data of
        JObj ob \<Rightarrow>
          bindr (bindr (req ob ''root_path'') (as_str ''root_path'')) (\<lambda>rp.
          let dag = merkle_init (resolve rp) None in
          bindr (req ob ''root_node'') (\<lambda>rn.
          if json_truthy rn
          then bindr (node_from_dict rn) (\<lambda>n.
                 Inr (dag\<lparr>root_node := Some n, nodes := add_to_nodes n []\<rparr>))
          else Inr dag))
      | _ \<Rightarrow> Inl (IllTyped []))"

end
