(* ===== verification/Merkle_Walk.thy ===== *)
theory Merkle_Walk
  imports Merkle
begin

text \<open>
  What the walk of \<open>merkle_dag.py\<close> computes. The abstract specification is the visible tree
  \<open>view_of\<close> and its bottom-up hash \<open>merkle_tree\<close>, without state or exceptions; \<open>walk_view\<close> shows
  that an uncancelled walk implements it, \<open>walk_effect\<close> that the node dictionary records exactly
  the nodes of the result in post-order, whatever the cancellation does. On these rest the
  properties: the tracked files are the visible files, content changes reach the root hash,
  renames do not, cancellation is observed at the first directory only, and a DAG survives
  serialisation.
\<close>

subsection \<open>State effects of the walk\<close>

lemma is_os_error_all [simp]: "is_os_error x"
  by (cases x) auto

abbreviation walk_config :: "merkle_dag \<Rightarrow> _" where
  "walk_config dag \<equiv> (root_path dag, cancel_check dag, ignore_patterns dag, root_node dag)"

lemma put_node_simps [simp]:
  "root_path (put_node n dag) = root_path dag"
  "cancel_check (put_node n dag) = cancel_check dag"
  "ignore_patterns (put_node n dag) = ignore_patterns dag"
  "root_node (put_node n dag) = root_node dag"
  "nodes (put_node n dag) = dict_put (node_path n) n (nodes dag)"
  by (simp_all add: put_node_def)

lemma poll_cancel_simps [simp]:
  "root_path (snd (poll_cancel dag)) = root_path dag"
  "cancel_check (snd (poll_cancel dag)) = cancel_check dag"
  "ignore_patterns (snd (poll_cancel dag)) = ignore_patterns dag"
  "root_node (snd (poll_cancel dag)) = root_node dag"
  "nodes (snd (poll_cancel dag)) = nodes dag"
  by (simp_all add: poll_cancel_def split: option.splits)

text \<open>The nodes of a subtree in the order the walk records them: children first.\<close>

fun inventory :: "node \<Rightarrow> (string \<times> node) list" where
  "inventory (Node p h f s cs) = concat (map inventory cs) @ [(p, Node p h f s cs)]"

definition put_all :: "(string \<times> node) list \<Rightarrow> (string, node) dict \<Rightarrow> (string, node) dict" where
  "put_all kns d = fold (\<lambda>(p, n). dict_put p n) kns d"

definition walked :: "walk_exn + node option \<Rightarrow> (string \<times> node) list" where
  "walked r = (case r of Inr (Some n) \<Rightarrow> inventory n | _ \<Rightarrow> [])"

lemma walked_simps [simp]:
  "walked (Inl x) = []" "walked (Inr None) = []" "walked (Inr (Some n)) = inventory n"
  by (simp_all add: walked_def)

lemma put_all_append: "put_all (xs @ ys) d = put_all ys (put_all xs d)"
  by (simp add: put_all_def)

lemma put_all_simps [simp]: "put_all [] d = d" "put_all [(p, n)] d = dict_put p n d"
  by (simp_all add: put_all_def)

lemma inventory_node: "inventory n = concat (map inventory (node_children n)) @ [(node_path n, n)]"
  by (cases n) simp

lemma walk_effect:
  "walk_config (snd (build_node sha utf rel e dag)) = walk_config dag \<and>
   nodes (snd (build_node sha utf rel e dag)) =
     put_all (walked (fst (build_node sha utf rel e dag))) (nodes dag)"
  "walk_config (snd (build_body sha utf rel e dag)) = walk_config dag \<and>
   nodes (snd (build_body sha utf rel e dag)) =
     put_all (walked (fst (build_body sha utf rel e dag))) (nodes dag)"
  "walk_config (snd (build_children sha utf rel es dag)) = walk_config dag \<and>
   nodes (snd (build_children sha utf rel es dag)) =
     put_all (concat (map inventory (fst (fst (build_children sha utf rel es dag))))) (nodes dag)"
proof (induction sha utf rel e dag and sha utf rel e dag and sha utf rel es dag
    rule: build_node_build_body_build_children.induct)
  case (1 sha utf rel e dag)
  show ?case
  proof (cases "should_ignore (ignore_patterns dag) (path_name (root_path dag @ rel))")
    case False
    note ih = "1.IH" [OF False]
    show ?thesis
    proof (cases e)
      case (Symlink l e')
      with ih False show ?thesis
        by (cases l) (simp_all del: build_body.simps)
    qed (use ih False in \<open>simp_all del: build_body.simps\<close>)
  qed simp
next
  case (2 sha utf rel c dag)
  then show ?case by (auto simp: Let_def file_node_def split: prod.split)
next
  case (3 sha utf rel listing dag)
  obtain stop dag1 where p: "poll_cancel dag = (stop, dag1)" by fastforce
  then have c: "walk_config dag1 = walk_config dag" "nodes dag1 = nodes dag"
    using poll_cancel_simps [of dag] by simp_all
  show ?case
  proof (cases "stop \<or> listing = None")
    case True
    with p c show ?thesis by (auto simp: Let_def dir_node_def)
  next
    case False
    then obtain kids where k: "listing = Some kids" by auto
    obtain cs x dag2 where b: "build_children sha utf rel (sort_key fst kids) dag1 = ((cs, x), dag2)"
      by (metis surj_pair)
    have "walk_config dag2 = walk_config dag1 \<and>
        nodes dag2 = put_all (concat (map inventory cs)) (nodes dag1)"
      using "3.IH" [OF p [symmetric] refl] False k b by simp
    with p c k b False show ?thesis
      by (auto simp: Let_def dir_node_def put_all_append split: option.split)
  qed
next
  case (8 sha utf rel name e es dag)
  obtain r dag1 where b: "build_node sha utf (rel @ [name]) e dag = (r, dag1)" by fastforce
  obtain cs x dag2 where k: "build_children sha utf rel es dag1 = ((cs, x), dag2)"
    by (metis surj_pair)
  consider (a) y where "r = Inl y" | (n) "r = Inr None" | (s) m where "r = Inr (Some m)"
    by (metis sum.exhaust option.exhaust)
  then show ?case
    using 8 b k
    by cases (simp_all add: put_all_append)
qed simp_all

subsection \<open>What the walk should see\<close>

datatype view = VFile "bytes + bytes" | VDir "(string \<times> view) list"

text \<open>
  The visible tree: ignored names and links leaving the root are gone, links inside the root
  are followed, what is neither file nor directory is dropped. No state, no exceptions.
\<close>

function (sequential) view_of :: "string list \<Rightarrow> string list \<Rightarrow> string \<Rightarrow> entry \<Rightarrow> view option"
  and view_body :: "string list \<Rightarrow> string list \<Rightarrow> entry \<Rightarrow> view option"
  and view_kids :: "string list \<Rightarrow> string list \<Rightarrow> (string \<times> entry) list \<Rightarrow> (string \<times> view) list"
where
  "view_of root ig name e =
     (if should_ignore ig name then None
      else (case e of
              Symlink LinkError _ \<Rightarrow> None
            | Symlink (LinkTo t) _ \<Rightarrow> (if is_within t root then view_body root ig e else None)
            | _ \<Rightarrow> view_body root ig e))"
| "view_body root ig (RegFile c) = Some (VFile c)"
| "view_body root ig (Directory None) = Some (VDir [])"
| "view_body root ig (Directory (Some kids)) = Some (VDir (view_kids root ig (sort_key fst kids)))"
| "view_body root ig (Symlink l e) = view_body root ig e"
| "view_body root ig Special = None"
| "view_body root ig StatError = None"
| "view_kids root ig [] = []"
| "view_kids root ig ((name, e) # es) =
     (case view_of root ig name e of
        None \<Rightarrow> view_kids root ig es
      | Some v \<Rightarrow> (name, v) # view_kids root ig es)"
  by pat_completeness auto
termination
  by (relation "measure (\<lambda>x. case x of
        Inl (_, _, _, e) \<Rightarrow> 2 * size e + 1
      | Inr (Inl (_, _, e)) \<Rightarrow> 2 * size e
      | Inr (Inr (_, _, es)) \<Rightarrow> 2 * size_list (size_prod (\<lambda>_. 0) size) es)")
    auto

text \<open>The Merkle tree of a visible tree, hashed bottom-up.\<close>

fun merkle_tree ::
    "(bytes \<Rightarrow> string) \<Rightarrow> (bytes \<Rightarrow> bytes) \<Rightarrow> string list \<Rightarrow> string list \<Rightarrow> view \<Rightarrow> node" where
  "merkle_tree sha utf root rel (VFile c) = file_node sha utf root rel c"
| "merkle_tree sha utf root rel (VDir kids) =
     dir_node sha root rel (map (\<lambda>(n, v). merkle_tree sha utf root (rel @ [n]) v) kids)"

fun stat_ok :: "entry \<Rightarrow> bool" where
  "stat_ok (Directory (Some kids)) = list_all (\<lambda>(n, e). stat_ok e) kids"
| "stat_ok (Symlink l e) = stat_ok e"
| "stat_ok StatError = False"
| "stat_ok _ = True"

definition uncancelled :: "merkle_dag \<Rightarrow> bool" where
  "uncancelled dag \<longleftrightarrow> (case cancel_check dag of None \<Rightarrow> True | Some c \<Rightarrow> (\<forall>n. \<not> c n))"

lemma uncancelled_poll: "uncancelled dag \<Longrightarrow> \<not> fst (poll_cancel dag)"
  by (auto simp: uncancelled_def poll_cancel_def split: option.splits)

lemma uncancelled_config: "walk_config dag' = walk_config dag \<Longrightarrow> uncancelled dag' = uncancelled dag"
  by (simp add: uncancelled_def)

lemma path_name_snoc [simp]: "path_name (xs @ [x]) = x" "path_name (xs @ ys @ [x]) = x"
  by (simp_all add: path_name_def)

lemma stat_ok_sort [simp]: "list_all (\<lambda>(n, e). stat_ok e) (sort_key fst kids) =
    list_all (\<lambda>(n, e). stat_ok e) kids"
  by (simp add: list_all_iff)

lemma walk_view:
  "uncancelled dag \<Longrightarrow> stat_ok e \<Longrightarrow>
   fst (build_node sha utf rel e dag) =
     Inr (map_option (merkle_tree sha utf (root_path dag) rel)
           (view_of (root_path dag) (ignore_patterns dag) (path_name (root_path dag @ rel)) e))"
  "uncancelled dag \<Longrightarrow> stat_ok e \<Longrightarrow>
   fst (build_body sha utf rel e dag) =
     Inr (map_option (merkle_tree sha utf (root_path dag) rel)
           (view_body (root_path dag) (ignore_patterns dag) e))"
  "uncancelled dag \<Longrightarrow> list_all (\<lambda>(n, e). stat_ok e) es \<Longrightarrow>
   fst (build_children sha utf rel es dag) =
     (map (\<lambda>(n, v). merkle_tree sha utf (root_path dag) (rel @ [n]) v)
        (view_kids (root_path dag) (ignore_patterns dag) es), None)"
proof (induction sha utf rel e dag and sha utf rel e dag and sha utf rel es dag
    rule: build_node_build_body_build_children.induct)
  case (1 sha utf rel e dag)
  show ?case
  proof (cases "should_ignore (ignore_patterns dag) (path_name (root_path dag @ rel))")
    case False
    note ih = "1.IH" [OF False]
    show ?thesis
    proof (cases e)
      case (Symlink l e')
      with ih False "1.prems" show ?thesis
        by (cases l) (simp_all del: build_body.simps view_body.simps stat_ok.simps)
    qed (use ih False "1.prems" in \<open>simp_all del: build_body.simps view_body.simps stat_ok.simps\<close>)
  qed simp
next
  case (3 sha utf rel listing dag)
  obtain dag1 where p: "poll_cancel dag = (False, dag1)"
    using uncancelled_poll [OF "3.prems"(1)] by (metis (full_types) prod.collapse)
  then have c: "walk_config dag1 = walk_config dag"
    using poll_cancel_simps [of dag] by simp
  have u: "uncancelled dag1"
    using uncancelled_config [OF c] "3.prems"(1) by simp
  show ?case
  proof (cases listing)
    case None
    with p c show ?thesis by (simp add: Let_def)
  next
    case (Some kids)
    obtain cs x dag2 where b: "build_children sha utf rel (sort_key fst kids) dag1 = ((cs, x), dag2)"
      by (metis surj_pair)
    have "walk_config dag2 = walk_config dag1"
      using walk_effect(3) [of sha utf rel "sort_key fst kids" dag1] b by simp
    with "3.IH" [OF p [symmetric] refl _ Some u] Some p c b "3.prems" show ?thesis
      by (simp add: Let_def)
  qed
next
  case (8 sha utf rel name e es dag)
  obtain r dag1 where b: "build_node sha utf (rel @ [name]) e dag = (r, dag1)" by fastforce
  obtain cs x dag2 where k: "build_children sha utf rel es dag1 = ((cs, x), dag2)"
    by (metis surj_pair)
  have w: "walk_config dag1 = walk_config dag"
    using walk_effect(1) [of sha utf "rel @ [name]" e dag] b by simp
  then have u: "uncancelled dag1"
    using uncancelled_config "8.prems"(1) by blast
  have r: "r = Inr (map_option (merkle_tree sha utf (root_path dag) (rel @ [name]))
      (view_of (root_path dag) (ignore_patterns dag) name e))"
    using "8.IH"(1) "8.prems" b by simp
  show ?case
  proof (cases "view_of (root_path dag) (ignore_patterns dag) name e")
    case None
    with r b "8.IH"(2) [OF b [symmetric]] u w "8.prems" show ?thesis by simp
  next
    case (Some v)
    with r b "8.IH"(3) [OF b [symmetric]] u w "8.prems" k show ?thesis by simp
  qed
qed (simp_all add: Let_def)

subsection \<open>Paths name nodes uniquely\<close>

definition ok_name :: "string \<Rightarrow> bool" where
  "ok_name n \<longleftrightarrow> n \<noteq> [] \<and> CHR ''/'' \<notin> set n \<and> n \<noteq> ''.''"

fun names_ok :: "entry \<Rightarrow> bool" where
  "names_ok (Directory (Some kids)) \<longleftrightarrow>
     distinct (map fst kids) \<and> list_all (\<lambda>(n, e). ok_name n \<and> names_ok e) kids"
| "names_ok (Symlink l e) = names_ok e"
| "names_ok _ = True"

fun view_ok :: "view \<Rightarrow> bool" where
  "view_ok (VFile c) = True"
| "view_ok (VDir kids) \<longleftrightarrow>
     distinct (map fst kids) \<and> list_all (\<lambda>(n, v). ok_name n \<and> view_ok v) kids"

lemma join_takeWhile:
  "CHR ''/'' \<notin> set x \<Longrightarrow> takeWhile (\<lambda>c. c \<noteq> CHR ''/'') (join ''/'' (x # xs)) = x"
proof (cases xs)
  case Nil
  assume "CHR ''/'' \<notin> set x"
  with Nil show ?thesis by (simp add: takeWhile_eq_all_conv) metis
next
  case (Cons y ys)
  assume "CHR ''/'' \<notin> set x"
  then have "\<forall>c\<in>set x. c \<noteq> CHR ''/''" by metis
  with Cons show ?thesis by (simp add: takeWhile_append2)
qed

lemma join_length: "length (join ''/'' (x # y # ys)) > length x"
  by simp

lemma join_inj:
  "join ''/'' xs = join ''/'' ys \<Longrightarrow> \<forall>x\<in>set xs. ok_name x \<Longrightarrow> \<forall>y\<in>set ys. ok_name y \<Longrightarrow> xs = ys"
proof (induction xs arbitrary: ys)
  case Nil
  then show ?case
    by (cases ys; cases "tl ys") (auto simp: ok_name_def)
next
  case (Cons x xs)
  then obtain y zs where ys: "ys = y # zs"
    by (cases xs; cases ys) (auto simp: ok_name_def)
  have xy: "x = y"
    using join_takeWhile [of x xs] join_takeWhile [of y zs] Cons.prems ys by (simp add: ok_name_def)
  have "join ''/'' xs = join ''/'' zs \<and> (xs = [] \<longleftrightarrow> zs = [])"
    using Cons.prems(1) ys xy by (cases xs; cases zs) auto
  then show ?case using Cons ys xy by auto
qed

lemma relative_path_inj:
  "\<forall>x\<in>set p. ok_name x \<Longrightarrow> \<forall>x\<in>set q. ok_name x \<Longrightarrow> relative_path p = relative_path q \<Longrightarrow> p = q"
proof -
  assume p: "\<forall>x\<in>set p. ok_name x" and q: "\<forall>x\<in>set q. ok_name x"
    and e: "relative_path p = relative_path q"
  have dot: "join ''/'' r \<noteq> ''.''" if "\<forall>x\<in>set r. ok_name x" "r \<noteq> []" for r
    using that by (cases r; cases "tl r") (auto simp: ok_name_def Cons_eq_append_conv append_eq_Cons_conv)
  from e p q show "p = q"
    by (auto simp: relative_path_def dest: dot join_inj split: if_splits)
qed

fun paths_of :: "string list \<Rightarrow> view \<Rightarrow> string list list" where
  "paths_of rel (VFile c) = [rel]"
| "paths_of rel (VDir kids) = concat (map (\<lambda>(n, v). paths_of (rel @ [n]) v) kids) @ [rel]"

fun files_of :: "string list \<Rightarrow> view \<Rightarrow> (string list \<times> (bytes + bytes)) list" where
  "files_of rel (VFile c) = [(rel, c)]"
| "files_of rel (VDir kids) = concat (map (\<lambda>(n, v). files_of (rel @ [n]) v) kids)"

lemma paths_of_prefix:
  "view_ok v \<Longrightarrow> p \<in> set (paths_of rel v) \<Longrightarrow>
     \<exists>q. p = rel @ q \<and> (\<forall>x\<in>set q. ok_name x)"
proof (induction rel v rule: paths_of.induct)
  case (2 rel kids)
  show ?case
  proof (cases "p = rel")
    case False
    then obtain n v where nv: "(n, v) \<in> set kids" "p \<in> set (paths_of (rel @ [n]) v)"
      using 2(3) by auto
    then have "view_ok v" "ok_name n" using 2(2) by (auto simp: list_all_iff)
    with 2(1) [OF nv(1) refl] nv obtain q where "p = (rel @ [n]) @ q" "\<forall>x\<in>set q. ok_name x"
      by blast
    with \<open>ok_name n\<close> show ?thesis by (intro exI [of _ "n # q"]) auto
  qed auto
qed auto

lemma paths_of_distinct: "view_ok v \<Longrightarrow> distinct (paths_of rel v)"
proof (induction rel v rule: paths_of.induct)
  case (2 rel kids)
  have k: "distinct (map fst kids)" "\<And>n v. (n, v) \<in> set kids \<Longrightarrow> view_ok v"
    using "2.prems" by (auto simp: list_all_iff)
  have d: "\<And>n v. (n, v) \<in> set kids \<Longrightarrow> distinct (paths_of (rel @ [n]) v)"
    using "2.IH" k by blast
  have pre: "\<And>n v p. (n, v) \<in> set kids \<Longrightarrow> p \<in> set (paths_of (rel @ [n]) v) \<Longrightarrow>
      \<exists>q. p = rel @ n # q"
    using paths_of_prefix k by fastforce
  have "distinct (concat (map (\<lambda>(n, v). paths_of (rel @ [n]) v) ks))"
    if "set ks \<subseteq> set kids" "distinct (map fst ks)" for ks
    using that
  proof (induction ks)
    case (Cons a ks)
    obtain n v where a: "a = (n, v)" by fastforce
    have "set (paths_of (rel @ [n]) v) \<inter> set (paths_of (rel @ [m]) w) = {}"
      if "(m, w) \<in> set ks" for m w
    proof -
      have "m \<noteq> n" using that Cons.prems a by (auto simp: image_iff)
      then show ?thesis using pre [of n v] pre [of m w] that Cons.prems a by fastforce
    qed
    with Cons a d show ?case by (auto, blast)
  qed simp
  moreover have "rel \<notin> set (concat (map (\<lambda>(n, v). paths_of (rel @ [n]) v) kids))"
    using pre by fastforce
  ultimately show ?case using k by simp
qed simp

lemma inventory_tree:
  "map fst (inventory (merkle_tree sha utf root rel v)) = map relative_path (paths_of rel v)"
proof (induction rel v rule: paths_of.induct)
  case (1 rel c)
  then show ?case by (simp add: file_node_def split: prod.split)
next
  case (2 rel kids)
  then show ?case
    by (auto simp: dir_node_def map_concat comp_def split_def intro!: arg_cong [of _ _ concat])
qed

lemma inventory_files:
  "map (\<lambda>(p, n). (p, node_hash n))
     (filter (\<lambda>(p, n). node_is_file n) (inventory (merkle_tree sha utf root rel v))) =
   map (\<lambda>(p, c). (relative_path p, fst (hash_file sha utf (root @ p) c))) (files_of rel v)"
proof (induction rel v rule: files_of.induct)
  case (1 rel c)
  then show ?case by (simp add: file_node_def split: prod.split)
next
  case (2 rel kids)
  then show ?case
    by (auto simp: dir_node_def map_concat filter_concat comp_def split_def
        intro!: arg_cong [of _ _ concat])
qed

lemma put_all_fresh:
  "distinct (map fst d @ map fst kns) \<Longrightarrow> put_all kns d = d @ kns"
proof (induction kns arbitrary: d)
  case (Cons a kns)
  obtain p n where a: "a = (p, n)" by fastforce
  with Cons.prems have "dict_put p n d = d @ [(p, n)]" by (simp add: dict_put_fresh)
  moreover have "distinct (map fst (d @ [(p, n)]) @ map fst kns)" using Cons.prems a by auto
  ultimately show ?case using Cons.IH [of "d @ [(p, n)]"] a by (simp add: put_all_def)
qed (simp add: put_all_def)

lemma inventory_distinct:
  "view_ok v \<Longrightarrow> distinct (map fst (inventory (merkle_tree sha utf root [] v)))"
proof -
  assume v: "view_ok v"
  have "inj_on relative_path (set (paths_of [] v))"
    using paths_of_prefix [OF v, of _ "[]"] relative_path_inj by (fastforce intro!: inj_onI)
  then show ?thesis
    by (simp add: inventory_tree distinct_map paths_of_distinct [OF v])
qed

lemma view_kids_filter:
  "view_kids root ig es = List.map_filter (\<lambda>(n, e). map_option (Pair n) (view_of root ig n e)) es"
  by (induction es rule: induct_list012)
    (auto simp: List.map_filter_simps split: option.splits simp del: view_of.simps)

lemma view_kids_names: "subseq (map fst (view_kids root ig es)) (map fst es)"
  by (induction es) (auto split: option.splits simp del: view_of.simps)

lemma view_kids_names_set: "fst ` set (view_kids root ig es) \<subseteq> fst ` set es"
  by (induction es) (force split: option.splits simp del: view_of.simps)+

lemma distinct_subseq: "subseq xs ys \<Longrightarrow> distinct ys \<Longrightarrow> distinct xs"
  by (metis subseq_order.dual_order.refl sublist_imp_subseq subseq_conv_nths distinct_nthsI)

lemma view_names_ok:
  "view_of root ig name e = Some v \<Longrightarrow> names_ok e \<Longrightarrow> view_ok v"
  "view_body root ig e = Some v \<Longrightarrow> names_ok e \<Longrightarrow> view_ok v"
  "distinct (map fst es) \<Longrightarrow> list_all (\<lambda>(n, e). ok_name n \<and> names_ok e) es \<Longrightarrow>
     view_ok (VDir (view_kids root ig es))"
proof (induction root ig name e and root ig e and root ig es arbitrary: v and v and
    rule: view_of_view_body_view_kids.induct)
  case (1 root ig name e)
  show ?case
  proof (cases "should_ignore ig name")
    case True
    with "1.prems" show ?thesis by simp
  next
    case False
    note ih = "1.IH" [OF False]
    show ?thesis
    proof (cases e)
      case (Symlink l e')
      with ih False "1.prems" show ?thesis
        by (cases l) (simp_all del: view_body.simps names_ok.simps split: if_splits)
    qed (use ih False "1.prems" in \<open>simp_all del: view_body.simps names_ok.simps\<close>)
  qed
next
  case (4 root ig kids)
  have "distinct (map fst (sort_key fst kids))"
    using "4.prems" by (metis mset_map mset_sort names_ok.simps(1) mset_eq_imp_distinct_iff)
  with 4 show ?case by (auto simp: list_all_iff)
next
  case (9 root ig name e es)
  with view_kids_names_set [of root ig es] show ?case
    by (auto split: option.splits simp del: view_of.simps)
qed simp_all

definition file_digest ::
    "(bytes \<Rightarrow> string) \<Rightarrow> (bytes \<Rightarrow> bytes) \<Rightarrow> string list \<Rightarrow> string list \<times> (bytes + bytes) \<Rightarrow>
      string \<times> string" where
  "file_digest sha utf root = (\<lambda>(p, c). (relative_path p, fst (hash_file sha utf (root @ p) c)))"

definition root_view :: "merkle_dag \<Rightarrow> entry \<Rightarrow> view option" where
  "root_view dag e = view_of (root_path dag) (ignore_patterns dag) (path_name (root_path dag)) e"

lemma build_view:
  assumes u: "uncancelled dag" and ok: "stat_ok e" "names_ok e"
  shows "\<exists>dag'. build sha utf e dag = (Inr (), dag') \<and>
     root_node dag' = map_option (merkle_tree sha utf (root_path dag) []) (root_view dag e) \<and>
     nodes dag' = (case root_view dag e of None \<Rightarrow> []
                   | Some v \<Rightarrow> inventory (merkle_tree sha utf (root_path dag) [] v))"
proof -
  define d where "d = dag\<lparr>nodes := []\<rparr>"
  have d: "uncancelled d" "root_path d = root_path dag" "ignore_patterns d = ignore_patterns dag"
      "nodes d = []"
    using u by (simp_all add: d_def uncancelled_def)
  obtain r d' where b: "build_node sha utf [] e d = (r, d')" by fastforce
  have r: "r = Inr (map_option (merkle_tree sha utf (root_path dag) []) (root_view dag e))"
    using walk_view(1) [OF d(1) ok(1), of sha utf "[]"] b d by (simp add: root_view_def)
  have n: "nodes d' = put_all (walked r) []"
    using walk_effect(1) [of sha utf "[]" e d] b d by simp
  show ?thesis
  proof (cases "root_view dag e")
    case None
    with r n b show ?thesis by (simp add: build_def d_def)
  next
    case (Some v)
    let ?t = "merkle_tree sha utf (root_path dag) [] v"
    have v: "view_ok v" using Some view_names_ok(1) ok(2) unfolding root_view_def by blast
    have i: "nodes d' = inventory ?t"
      using n r Some put_all_fresh [of "[]"] inventory_distinct [OF v] by simp
    have "node_path ?t = ''.''"
      by (cases v) (simp_all add: dir_node_def file_node_def relative_path_def split: prod.split)
    then obtain h f s cs where t: "?t = Node ''.'' h f s cs" by (cases ?t) simp
    have "''.'' \<notin> set (map fst (concat (map inventory cs)))"
      using inventory_distinct [OF v, of sha utf "root_path dag"] t by auto
    then have "dict_put ''.'' ?t (inventory ?t) = inventory ?t"
      using t by (simp add: dict_put_last)
    with r i t Some b show ?thesis by (simp add: build_def d_def Let_def del: build_node.simps)
  qed
qed

subsection \<open>The tracked files\<close>

lemma build_file_hashes:
  assumes "uncancelled dag" "stat_ok e" "names_ok e"
  shows "get_file_hashes (snd (build sha utf e dag)) =
      (case root_view dag e of None \<Rightarrow> []
       | Some v \<Rightarrow> map (file_digest sha utf (root_path dag)) (files_of [] v))"
  using build_view [OF assms, of sha utf]
  by (auto simp: get_file_hashes_def inventory_files file_digest_def split: option.split)

text \<open>The node dictionary holds the nodes of the tree, each under its own path.\<close>

definition coherent :: "merkle_dag \<Rightarrow> bool" where
  "coherent dag \<longleftrightarrow> distinct (map fst (nodes dag)) \<and>
     set (nodes dag) = (case root_node dag of None \<Rightarrow> {} | Some r \<Rightarrow> set (inventory r)) \<and>
     (case root_node dag of None \<Rightarrow> True | Some r \<Rightarrow> distinct (map fst (inventory r)))"

lemma build_coherent:
  assumes "uncancelled dag" "stat_ok e" "names_ok e"
  shows "coherent (snd (build sha utf e dag))"
proof -
  have "distinct (map fst (inventory (merkle_tree sha utf (root_path dag) [] v)))"
    if "root_view dag e = Some v" for v
    using that inventory_distinct view_names_ok(1) assms(3) unfolding root_view_def by blast
  then show ?thesis
    using build_view [OF assms, of sha utf] by (auto simp: coherent_def split: option.splits)
qed


subsection \<open>Cancellation\<close>

text \<open>
  C25. Cancellation reaches the caller only when the very first poll, at the root directory,
  answers true: an \<open>IndexingCancelled\<close> raised below the root is an \<open>OSError\<close> and is swallowed by
  the \<open>except (PermissionError, OSError): pass\<close> of the directory above it, so the build returns
  normally with the rest of that directory missing.
\<close>

theorem build_cancelled_iff_first_poll:
  assumes "cancel_check dag = Some c"
  shows "fst (build sha utf (Directory listing) dag) =
    (if \<not> should_ignore (ignore_patterns dag) (path_name (root_path dag)) \<and> c (polls dag)
     then Inl IndexingCancelled else Inr ())"
  using assms
  by (auto simp: build_def poll_cancel_def Let_def split: prod.splits option.splits)

subsection \<open>Serialisation\<close>

lemma node_roundtrip: "node_from_dict (node_to_dict n) = Inr n"
proof (induction n)
  case (Node p h f s cs)
  then have "map_result node_from_dict (map node_to_dict cs) = Inr cs"
    by (intro map_result_map)
  then show ?case
    by (simp add: jget_def req_def as_str_def as_bool_def as_nat_def)
qed

fun preorder :: "node \<Rightarrow> (string \<times> node) list" where
  "preorder (Node p h f s cs) = (p, Node p h f s cs) # concat (map preorder cs)"

lemma add_to_nodes_put: "add_to_nodes n d = put_all (preorder n) d"
proof (induction n arbitrary: d)
  case (Node p h f s cs)
  have "fold add_to_nodes ns d = put_all (concat (map preorder ns)) d" if "set ns \<subseteq> set cs" for ns d
    using that
  proof (induction ns arbitrary: d)
    case (Cons a ns)
    then show ?case using Node.IH [of a] by (simp add: put_all_append)
  qed simp
  then show ?case by (simp add: put_all_def)
qed

lemma preorder_inventory: "mset (preorder n) = mset (inventory n)"
proof (induction n)
  case (Node p h f s cs)
  then have "map (\<lambda>x. mset (preorder x)) cs = map (\<lambda>x. mset (inventory x)) cs" by simp
  then show ?case by (simp only: preorder.simps inventory.simps mset.simps mset_append mset_concat
        map_map comp_def) simp
qed

lemma dag_from_to_dict:
  assumes "coherent dag" "resolve (path_str (root_path dag)) = root_path dag"
  shows "\<exists>dag'. dag_from_dict resolve (dag_to_dict dag) = Inr dag' \<and> coherent dag' \<and>
    root_path dag' = root_path dag \<and> root_node dag' = root_node dag \<and>
    map_of (nodes dag') = map_of (nodes dag) \<and>
    map_of (get_file_hashes dag') = map_of (get_file_hashes dag)"
proof (cases "root_node dag")
  case None
  with assms have "nodes dag = []" by (simp add: coherent_def)
  with None assms show ?thesis
    by (simp add: dag_from_dict_def dag_to_dict_def req_def as_str_def jget_def merkle_init_def
        coherent_def get_file_hashes_def Let_def)
next
  case (Some r)
  let ?d = "(merkle_init (root_path dag) None)\<lparr>root_node := Some r, nodes := add_to_nodes r []\<rparr>"
  have t: "json_truthy (node_to_dict r)" by (cases r) simp
  have m: "mset (map fst (preorder r)) = mset (map fst (inventory r))"
    by (simp add: preorder_inventory)
  have dst: "distinct (map fst (inventory r))" using assms(1) Some by (simp add: coherent_def)
  then have "distinct (map fst (preorder r))" using mset_eq_imp_distinct_iff [OF m] by blast
  then have n: "nodes ?d = preorder r"
    using put_all_fresh [of "[]"] by (simp add: add_to_nodes_put)
  have s: "set (preorder r) = set (inventory r)"
    using preorder_inventory by (metis set_mset_mset)
  have c: "coherent ?d" using n s dst \<open>distinct (map fst (preorder r))\<close> by (simp add: coherent_def)
  have sn: "set (nodes ?d) = set (nodes dag)" using n s assms(1) Some by (simp add: coherent_def)
  have dn: "distinct (map fst (nodes ?d))" "distinct (map fst (nodes dag))"
    using c assms(1) by (simp_all add: coherent_def)
  have e: "map_of (nodes ?d) = map_of (nodes dag)"
    using map_of_inject_set [OF dn] sn by blast
  have g: "distinct (map fst (nodes d)) \<Longrightarrow> distinct (map fst (get_file_hashes d))" for d
    by (simp add: get_file_hashes_def distinct_map_filter comp_def split_def)
  have "set (get_file_hashes ?d) = set (get_file_hashes dag)"
    using sn by (auto simp: get_file_hashes_def)
  then have h: "map_of (get_file_hashes ?d) = map_of (get_file_hashes dag)"
    using map_of_inject_set dn g by blast
  have "dag_from_dict resolve (dag_to_dict dag) = Inr ?d"
    using Some t assms(2) node_roundtrip [of r]
    by (simp add: dag_from_dict_def dag_to_dict_def req_def as_str_def jget_def Let_def)
  moreover have "root_path ?d = root_path dag" "root_node ?d = root_node dag"
    using Some by (simp_all add: merkle_init_def)
  ultimately show ?thesis using c e h by blast
qed

text \<open>
  C26. Deserialising a serialised coherent DAG gives back its tree, its node map and its file
  hashes, and a coherent DAG again; only the order of the node dictionary changes (pre-order
  instead of post-order).
\<close>

theorem dag_roundtrip:
  assumes "coherent dag" "resolve (path_str (root_path dag)) = root_path dag"
  shows "\<exists>dag'. dag_from_dict resolve (dag_to_dict dag) = Inr dag' \<and> coherent dag' \<and>
    root_path dag' = root_path dag \<and> root_node dag' = root_node dag \<and>
    map_of (nodes dag') = map_of (nodes dag) \<and>
    map_of (get_file_hashes dag') = map_of (get_file_hashes dag)"
  using assms by (rule dag_from_to_dict)

subsection \<open>What the root hash sees\<close>

fun set_file :: "view \<Rightarrow> string list \<Rightarrow> bytes + bytes \<Rightarrow> view" where
  "set_file (VFile c) [] c' = VFile c'"
| "set_file (VDir kids) (n # p) c' =
     VDir (map (\<lambda>(m, v). (m, if m = n then set_file v p c' else v)) kids)"
| "set_file v p c' = v"

text \<open>The byte strings the directories of a tree are hashed from.\<close>

fun dir_inputs ::
    "(bytes \<Rightarrow> string) \<Rightarrow> (bytes \<Rightarrow> bytes) \<Rightarrow> string list \<Rightarrow> string list \<Rightarrow> view \<Rightarrow> bytes list" where
  "dir_inputs sha utf root rel (VFile c) = []"
| "dir_inputs sha utf root rel (VDir kids) =
     (path_name (root @ rel) @
        concat (sort (map (\<lambda>(n, v). node_hash (merkle_tree sha utf root (rel @ [n]) v)) kids))) #
     concat (map (\<lambda>(n, v). dir_inputs sha utf root (rel @ [n]) v) kids)"


lemma files_of_suffix:
  "(q, c) \<in> set (files_of rel v) \<Longrightarrow> \<exists>s. q = rel @ s \<and> (s = [] \<longleftrightarrow> v = VFile c)"
proof (induction rel v rule: files_of.induct)
  case (2 rel kids)
  then obtain n v where "(n, v) \<in> set kids" "(q, c) \<in> set (files_of (rel @ [n]) v)" by auto
  with "2.IH" show ?case by fastforce
qed simp

lemma files_in_paths: "(p, c) \<in> set (files_of rel v) \<Longrightarrow> p \<in> set (paths_of rel v)"
  by (induction rel v rule: files_of.induct) (auto, fastforce)

lemma concat_chunks_eq:
  "concat xs = concat ys \<Longrightarrow> length xs = length ys \<Longrightarrow>
   \<forall>x\<in>set xs. length x = L \<Longrightarrow> \<forall>y\<in>set ys. length y = L \<Longrightarrow> xs = ys"
  by (rule concat_injective) (auto, metis set_zip_leftD set_zip_rightD)

lemma dir_hash_differs:
  assumes "\<And>x. length (sha x) = L" "inj_on sha {name @ concat (sort hs), name @ concat (sort hs')}"
    and "mset hs \<noteq> mset hs'" "length hs = length hs'" "set hs \<subseteq> range sha" "set hs' \<subseteq> range sha"
  shows "hash_directory sha name hs \<noteq> hash_directory sha name hs'"
proof
  assume "hash_directory sha name hs = hash_directory sha name hs'"
  then have "sha (name @ concat (sort hs)) = sha (name @ concat (sort hs'))"
    by (simp add: hash_directory_def)
  from inj_onD [OF assms(2) this] have "concat (sort hs) = concat (sort hs')" by simp
  moreover have r: "length x = L" if "x \<in> range sha" for x
    using that assms(1) by auto
  have "\<forall>x\<in>set (sort hs). length x = L" "\<forall>x\<in>set (sort hs'). length x = L"
    using assms(5,6) r by (simp_all add: subset_iff)
  moreover have "length (sort hs) = length (sort hs')" using assms(4) by simp
  ultimately have "sort hs = sort hs'"
    using concat_chunks_eq [of "sort hs" "sort hs'" L] by blast
  then show False using assms(3) mset_sort [of "\<lambda>x. x" hs] mset_sort [of "\<lambda>x. x" hs'] by simp
qed

lemma merkle_tree_range: "node_hash (merkle_tree sha utf root rel v) \<in> range sha"
  by (cases v)
    (auto simp: file_node_def dir_node_def hash_file_def hash_directory_def split: prod.split sum.split)

lemma node_hash_dir: "node_hash (dir_node sha root rel cs) =
    hash_directory sha (path_name (root @ rel)) (map node_hash cs)"
  by (simp add: dir_node_def)

lemma node_hash_file: "node_hash (file_node sha utf root rel c) = fst (hash_file sha utf (root @ rel) c)"
  by (simp add: file_node_def split: prod.split)

lemma merkle_tree_hash_changes:
  assumes len: "\<And>x. length (sha x) = L"
    and "(rel @ p, c) \<in> set (files_of rel v)" "view_ok v"
    and "fst (hash_file sha utf (root @ rel @ p) c) \<noteq> fst (hash_file sha utf (root @ rel @ p) c')"
    and "inj_on sha (set (dir_inputs sha utf root rel v) \<union>
                     set (dir_inputs sha utf root rel (set_file v p c')))"
  shows "node_hash (merkle_tree sha utf root rel (set_file v p c')) \<noteq>
         node_hash (merkle_tree sha utf root rel v)"
  using assms(2-)
proof (induction p arbitrary: rel v)
  case Nil
  then have "v = VFile c" using files_of_suffix [of rel c rel v] by auto
  with Nil show ?case by (simp add: node_hash_file)
next
  case (Cons n p)
  let ?h = "\<lambda>(m, w). node_hash (merkle_tree sha utf root (rel @ [m]) w)"
  obtain kids where v: "v = VDir kids"
    using Cons.prems(1) by (cases v) auto
  obtain m w where mw: "(m, w) \<in> set kids" "(rel @ n # p, c) \<in> set (files_of (rel @ [m]) w)"
    using Cons.prems(1) v by auto
  then have "m = n" using files_of_suffix [OF mw(2)] by auto
  with mw(1) obtain a b where k: "kids = a @ (n, w) # b" by (meson split_list)
  have nd: "n \<notin> fst ` set a" "n \<notin> fst ` set b" "view_ok w"
    using Cons.prems(2) v k by auto
  have upd: "map (\<lambda>(m, v). (m, if m = n then set_file v p c' else v)) xs = xs"
    if "n \<notin> fst ` set xs" for xs
    using that by (induction xs) auto
  have v': "set_file (VDir (a @ (n, w) # b)) (n # p) c' = VDir (a @ (n, set_file w p c') # b)"
    using upd nd by simp
  have sub: "inj_on sha (set (dir_inputs sha utf root (rel @ [n]) w) \<union>
      set (dir_inputs sha utf root (rel @ [n]) (set_file w p c')))"
    by (rule inj_on_subset [OF Cons.prems(4)]) (auto simp: v' v k simp del: set_file.simps)
  have "node_hash (merkle_tree sha utf root (rel @ [n]) (set_file w p c')) \<noteq>
      node_hash (merkle_tree sha utf root (rel @ [n]) w)"
    using Cons.IH [of "rel @ [n]" w] mw \<open>m = n\<close> nd Cons.prems(3) sub by simp
  then have ms: "mset (map ?h (a @ (n, set_file w p c') # b)) \<noteq> mset (map ?h (a @ (n, w) # b))"
    by simp
  have h: "node_hash (merkle_tree sha utf root rel (VDir ks)) =
      hash_directory sha (path_name (root @ rel)) (map ?h ks)" for ks
    by (simp add: node_hash_dir comp_def split_def)
  have r: "set (map ?h ks) \<subseteq> range sha" for ks
    using merkle_tree_range by fastforce
  show ?case
    unfolding v k v' h
  proof (rule dir_hash_differs [OF len _ ms _ r r])
    show "inj_on sha {path_name (root @ rel) @ concat (sort (map ?h (a @ (n, set_file w p c') # b))),
        path_name (root @ rel) @ concat (sort (map ?h (a @ (n, w) # b)))}"
      by (rule inj_on_subset [OF Cons.prems(4)]) (auto simp: v' v k simp del: set_file.simps)
  qed simp
qed

text \<open>
  C27. When the digest of one tracked file changes and nothing else does, the root hash changes,
  provided SHA-256 has fixed-length digests and does not collide on the directory inputs at hand.
\<close>

theorem content_change_changes_root_hash:
  assumes "\<And>x. length (sha x) = L"
    and "uncancelled dag" "stat_ok e" "names_ok e" "stat_ok e'" "names_ok e'"
    and "root_view dag e = Some v" "root_view dag e' = Some (set_file v p c')"
    and "(p, c) \<in> set (files_of [] v)"
    and "fst (hash_file sha utf (root_path dag @ p) c) \<noteq> fst (hash_file sha utf (root_path dag @ p) c')"
    and "inj_on sha (set (dir_inputs sha utf (root_path dag) [] v) \<union>
                     set (dir_inputs sha utf (root_path dag) [] (set_file v p c')))"
  shows "get_root_hash (snd (build sha utf e' dag)) \<noteq> get_root_hash (snd (build sha utf e dag))"
proof -
  have "view_ok v" using assms(7,4) view_names_ok(1) unfolding root_view_def by blast
  then have "node_hash (merkle_tree sha utf (root_path dag) [] (set_file v p c')) \<noteq>
      node_hash (merkle_tree sha utf (root_path dag) [] v)"
    using merkle_tree_hash_changes [OF assms(1), of "[]" p c v] assms(9-11) by simp
  then show ?thesis
    using build_view [OF assms(2,3,4), of sha utf] build_view [OF assms(2,5,6), of sha utf] assms(7,8)
    by (auto simp: get_root_hash_def)
qed

lemma view_kids_mset:
  "mset (view_kids root ig es) =
    image_mset (\<lambda>(n, v). (n, the v))
      (filter_mset (\<lambda>(n, v). v \<noteq> None) (image_mset (\<lambda>(n, e). (n, view_of root ig n e)) (mset es)))"
  by (induction es) (auto split: option.split simp del: view_of.simps)


lemma root_hash_view:
  assumes "uncancelled dag" "stat_ok e" "names_ok e" "root_view dag e = Some (VDir kids)"
  shows "get_root_hash (snd (build sha utf e dag)) =
    Some (hash_directory sha (path_name (root_path dag))
      (map (\<lambda>(n, v). node_hash (merkle_tree sha utf (root_path dag) [n] v)) kids))"
  using build_view [OF assms(1-3), of sha utf] assms(4)
  by (auto simp: get_root_hash_def node_hash_dir comp_def split_def)

lemma all_files_view:
  assumes "uncancelled dag" "stat_ok e" "names_ok e" "root_view dag e = Some v"
  shows "get_all_files (snd (build sha utf e dag)) = map (\<lambda>(p, c). relative_path p) (files_of [] v)"
proof -
  have "get_all_files d = map fst (get_file_hashes d)" for d
    by (simp add: get_all_files_def get_file_hashes_def comp_def split_def)
  then show ?thesis
    using build_file_hashes [OF assms(1-3), of sha utf] assms(4)
    by (simp add: file_digest_def comp_def split_def)
qed

definition plain_name :: "string list \<Rightarrow> string \<Rightarrow> bool" where
  "plain_name ig n \<longleftrightarrow>
     \<not> should_ignore ig n \<and> lower (path_suffix n) \<notin> set md_extensions"

lemma renamed_file_hash:
  "plain_name ig n \<Longrightarrow> node_hash (merkle_tree sha utf root [n] (VFile (Inr raw))) = sha raw"
  by (simp add: plain_name_def node_hash_file hash_file_def)

lemma top_file: "([n], c) \<in> set (files_of [] (VDir kids)) \<Longrightarrow> n \<in> fst ` set kids"
  by (force dest: files_of_suffix)

lemma rename_keeps_root_hash:
  assumes "uncancelled dag" "\<not> should_ignore (ignore_patterns dag) (path_name (root_path dag))"
    and "plain_name (ignore_patterns dag) n" "plain_name (ignore_patterns dag) n'" "n \<noteq> n'"
    and "e = Directory (Some (xs @ (n, RegFile (Inr raw)) # ys))"
    and "e' = Directory (Some (xs @ (n', RegFile (Inr raw)) # ys))"
    and "stat_ok e" "names_ok e" "names_ok e'"
  shows "get_root_hash (snd (build sha utf e' dag)) = get_root_hash (snd (build sha utf e dag)) \<and>
    n \<in> set (get_all_files (snd (build sha utf e dag))) \<and>
    n \<notin> set (get_all_files (snd (build sha utf e' dag)))"
proof -
  let ?root = "root_path dag" let ?ig = "ignore_patterns dag"
  let ?K = "\<lambda>m. view_kids ?root ?ig (sort_key fst (xs @ (m, RegFile (Inr raw)) # ys))"
  let ?h = "\<lambda>(m, v). node_hash (merkle_tree sha utf ?root [m] v)"
  have so: "stat_ok e'" using assms(6-8) by simp
  have v: "root_view dag e = Some (VDir (?K n))" "root_view dag e' = Some (VDir (?K n'))"
    using assms(2,6,7) by (simp_all add: root_view_def)
  have vm: "mset (?K m) = mset (view_kids ?root ?ig xs) + {#(m, VFile (Inr raw))#} +
      mset (view_kids ?root ?ig ys)" if "plain_name ?ig m" for m
    using that by (simp add: view_kids_mset plain_name_def)
  have "mset (map ?h (?K n)) = mset (map ?h (?K n'))"
    using vm assms(3,4) renamed_file_hash [of ?ig] by (simp add: mset_map)
  from sort_mset_eq [OF this]
  have "get_root_hash (snd (build sha utf e' dag)) = get_root_hash (snd (build sha utf e dag))"
    using root_hash_view [OF assms(1) assms(8,9) v(1), of sha utf]
      root_hash_view [OF assms(1) so assms(10) v(2), of sha utf]
    by (simp add: hash_directory_def)
  moreover have nm: "ok_name n" using assms(6,9) by simp
  have "(n, VFile (Inr raw)) \<in> set (?K n)"
    using vm [OF assms(3)] by (metis set_mset_mset union_iff union_single_eq_member add.commute)
  then have "([n], Inr raw) \<in> set (files_of [] (VDir (?K n)))" by force
  then have "n \<in> set (get_all_files (snd (build sha utf e dag)))"
    unfolding all_files_view [OF assms(1) assms(8,9) v(1)]
    by (force simp: relative_path_def image_iff)
  moreover have "n \<notin> set (get_all_files (snd (build sha utf e' dag)))"
  proof
    assume "n \<in> set (get_all_files (snd (build sha utf e' dag)))"
    then have "n \<in> (\<lambda>(p, c). relative_path p) ` set (files_of [] (VDir (?K n')))"
      unfolding all_files_view [OF assms(1) so assms(10) v(2)] by (simp only: set_map)
    then obtain p c where p: "(p, c) \<in> set (files_of [] (VDir (?K n')))" "relative_path p = n"
      by (auto simp del: files_of.simps)
    have vo: "view_ok (VDir (?K n'))"
      using v(2) assms(10) view_names_ok(1) unfolding root_view_def by blast
    have "\<forall>x\<in>set p. ok_name x"
      using paths_of_prefix [OF vo files_in_paths [OF p(1)]] by simp
    then have "p = [n]" using relative_path_inj [of p "[n]"] p(2) nm by (simp add: relative_path_def)
    then have "n \<in> fst ` set (?K n')" using top_file [of n c] p(1) by blast
    then have "n \<in> fst ` set (sort_key fst (xs @ (n', RegFile (Inr raw)) # ys))"
      using view_kids_names_set by blast
    then show False using assms(5,6,9) by auto
  qed
  ultimately show ?thesis by blast
qed

subsection \<open>Instances\<close>

definition demo_fs :: "string \<Rightarrow> bytes \<Rightarrow> entry" where
  "demo_fs n raw = Directory (Some
     [(''src'', Directory (Some [(''a.py'', RegFile (Inr ''x''))])),
      (''.git'', Directory (Some [(''HEAD'', RegFile (Inr ''ref''))])),
      (n, RegFile (Inr raw))])"

definition demo_sha :: "bytes \<Rightarrow> string" where
  "demo_sha s = take 8 (s @ ''00000000'')"

definition demo_dag :: "(nat \<Rightarrow> bool) option \<Rightarrow> merkle_dag" where
  "demo_dag c = merkle_init [''r''] c"

lemma demo_uncancelled: "uncancelled (demo_dag None)"
  by (simp add: uncancelled_def demo_dag_def merkle_init_def)

lemma demo_length: "length (demo_sha x) = 8"
  by (simp add: demo_sha_def)

lemma demo_ok:
  "stat_ok (demo_fs ''m.py'' ''1'')" "names_ok (demo_fs ''m.py'' ''1'')"
  "stat_ok (demo_fs ''m.py'' ''2'')" "names_ok (demo_fs ''m.py'' ''2'')"
  "names_ok (demo_fs ''n.py'' ''1'')"
  by code_simp+


theorem cancel_witness:
  "fst (build demo_sha id (demo_fs ''m.py'' ''1'') (demo_dag (Some (\<lambda>n. n = 1)))) = Inr () \<and>
   get_all_files (snd (build demo_sha id (demo_fs ''z.py'' ''1'') (demo_dag (Some (\<lambda>n. n = 1))))) = []"
proof -
  have "cancel_check (demo_dag (Some (\<lambda>n. n = 1))) = Some (\<lambda>n. n = 1)"
    by (simp add: demo_dag_def merkle_init_def)
  from build_cancelled_iff_first_poll [OF this, of demo_sha id]
  have "fst (build demo_sha id (demo_fs ''m.py'' ''1'') (demo_dag (Some (\<lambda>n. n = 1)))) = Inr ()"
    unfolding demo_fs_def by (simp add: demo_dag_def merkle_init_def)
  moreover have "get_all_files (snd (build demo_sha id (demo_fs ''z.py'' ''1'')
      (demo_dag (Some (\<lambda>n. n = 1))))) = []"
    by code_simp
  ultimately show ?thesis by blast
qed

theorem roundtrip_witness:
  "\<exists>dag'. dag_from_dict (\<lambda>_. [''r''])
      (dag_to_dict (snd (build demo_sha id (demo_fs ''m.py'' ''1'') (demo_dag None)))) = Inr dag' \<and>
    root_node dag' \<noteq> None"
proof -
  let ?d = "snd (build demo_sha id (demo_fs ''m.py'' ''1'') (demo_dag None))"
  have r: "root_path ?d = [''r'']" "root_node ?d \<noteq> None" by code_simp+
  show ?thesis
    using dag_roundtrip [OF build_coherent [OF demo_uncancelled demo_ok(1,2)],
        of "\<lambda>_. [''r'']" demo_sha id] r
    by auto
qed

theorem content_change_witness:
  "get_root_hash (snd (build demo_sha id (demo_fs ''m.py'' ''2'') (demo_dag None))) \<noteq>
   get_root_hash (snd (build demo_sha id (demo_fs ''m.py'' ''1'') (demo_dag None)))"
proof -
  let ?v = "VDir [(''m.py'', VFile (Inr ''1'')), (''src'', VDir [(''a.py'', VFile (Inr ''x''))])]"
  let ?e = "demo_fs ''m.py'' ''1''" and ?e' = "demo_fs ''m.py'' ''2''"
  have "root_view (demo_dag None) ?e = Some ?v" by code_simp
  moreover have "root_view (demo_dag None) ?e' = Some (set_file ?v [''m.py''] (Inr ''2''))"
    by code_simp
  moreover have "([''m.py''], Inr ''1'') \<in> set (files_of [] ?v)" by code_simp
  moreover have "fst (hash_file demo_sha id (root_path (demo_dag None) @ [''m.py'']) (Inr ''1'')) \<noteq>
      fst (hash_file demo_sha id (root_path (demo_dag None) @ [''m.py'']) (Inr ''2''))"
    by code_simp
  moreover have "inj_on demo_sha
      (set (dir_inputs demo_sha id (root_path (demo_dag None)) [] ?v) \<union>
       set (dir_inputs demo_sha id (root_path (demo_dag None)) [] (set_file ?v [''m.py''] (Inr ''2''))))"
    unfolding inj_on_def by code_simp
  ultimately show ?thesis
    by (rule content_change_changes_root_hash [OF demo_length demo_uncancelled demo_ok(1-4)])
qed

end
