(* ===== verification/ChangeDetect.thy ===== *)
theory ChangeDetect
  imports Merkle_Walk
begin

text \<open>
  The change detector of \<open>merkle/change_detector.py\<close>: the comparison of two DAGs, the lists of
  files to reindex and to remove, changed directories and change statistics. The locale
  \<open>snapshot_source\<close> is the interface the detector (and later the incremental indexer) has to the
  snapshot store: what \<open>load_snapshot\<close> returns after \<open>save_snapshot\<close>.
\<close>

subsection \<open>Definitions\<close>

record file_changes =
  added :: "string list"
  removed :: "string list"
  modified :: "string list"
  unchanged :: "string list"

definition has_changes :: "file_changes \<Rightarrow> bool" where
  "has_changes c \<longleftrightarrow> added c \<noteq> [] \<or> removed c \<noteq> [] \<or> modified c \<noteq> []"

definition total_changed :: "file_changes \<Rightarrow> nat" where
  "total_changed c = length (added c) + length (removed c) + length (modified c)"

definition changes_to_dict :: "file_changes \<Rightarrow> json" where
  "changes_to_dict c =
     (let strs = (\<lambda>xs. JArr (map JStr xs)); num = (\<lambda>n. JInt (int n)) in
      JObj [(''added'', strs (added c)), (''removed'', strs (removed c)),
            (''modified'', strs (modified c)), (''unchanged'', strs (unchanged c)),
            (''summary'', JObj
              [(''added_count'', num (length (added c))),
               (''removed_count'', num (length (removed c))),
               (''modified_count'', num (length (modified c))),
               (''unchanged_count'', num (length (unchanged c))),
               (''total_changed'', num (total_changed c))])])"

text \<open>Sorted differences and intersections of key sets, as lists.\<close>

definition compare_hashes :: "(string, string) dict \<Rightarrow> (string, string) dict \<Rightarrow> file_changes" where
  "compare_hashes old_files new_files =
     (let old_paths = dict_keys old_files; new_paths = dict_keys new_files;
          common = sort (filter (\<lambda>p. p \<in> set new_paths) old_paths);
          changed = (\<lambda>p. dict_get old_files p \<noteq> dict_get new_files p) in
      \<lparr>added = sort (filter (\<lambda>p. p \<notin> set old_paths) new_paths),
       removed = sort (filter (\<lambda>p. p \<notin> set new_paths) old_paths),
       modified = filter changed common,
       unchanged = filter (\<lambda>p. \<not> changed p) common\<rparr>)"

definition detect_changes :: "merkle_dag \<Rightarrow> merkle_dag \<Rightarrow> file_changes" where
  "detect_changes old_dag new_dag =
     compare_hashes (get_file_hashes old_dag) (get_file_hashes new_dag)"

definition get_files_to_reindex :: "file_changes \<Rightarrow> string list" where
  "get_files_to_reindex c = sort (added c @ modified c)"

definition get_files_to_remove :: "file_changes \<Rightarrow> string list" where
  "get_files_to_remove c = sort (removed c @ modified c)"

definition get_changed_directories :: "merkle_dag \<Rightarrow> merkle_dag \<Rightarrow> string list" where
  "get_changed_directories old_dag new_dag =
     sort (map fst (filter (\<lambda>(path, new_node).
       \<not> node_is_file new_node \<and>
       (case find_node old_dag path of
          None \<Rightarrow> True
        | Some old_node \<Rightarrow> node_hash old_node \<noteq> node_hash new_node)) (nodes new_dag)))"

text \<open>
  \<open>Path(s)\<close> on a relative path: the components between slashes, without empty ones and dots.
\<close>

fun split_slash :: "string \<Rightarrow> string list" where
  "split_slash [] = [[]]"
| "split_slash (c # s) =
     (if c = CHR ''/'' then [] # split_slash s
      else (case split_slash s of [] \<Rightarrow> [[c]] | w # ws \<Rightarrow> (c # w) # ws))"

definition path_parts :: "string \<Rightarrow> string list" where
  "path_parts s = filter (\<lambda>w. w \<noteq> [] \<and> w \<noteq> ''.'') (split_slash s)"

definition extension_of :: "string \<Rightarrow> string" where
  "extension_of s =
     (let ext = path_suffix (path_name (path_parts s)) in if ext = [] then ''no_extension'' else ext)"

definition directory_of :: "string \<Rightarrow> string" where
  "directory_of s =
     (let parent = butlast (path_parts s) in if parent = [] then ''root'' else join ''/'' parent)"

record change_analysis =
  file_extensions :: "(string, nat) dict"
  directories :: "(string, nat) dict"
  change_types :: "nat \<times> nat \<times> nat"

definition analyze_change_patterns :: "file_changes \<Rightarrow> change_analysis" where
  "analyze_change_patterns c =
     (let all_changed = added c @ removed c @ modified c in
      \<lparr>file_extensions = sorted_desc snd (tally (map extension_of all_changed)),
       directories = sorted_desc snd (tally (map directory_of all_changed)),
       change_types = (length (added c), length (removed c), length (modified c))\<rparr>)"

text \<open>The comparison against a loaded snapshot; without one every file counts as added.\<close>

definition changes_against :: "merkle_dag option \<Rightarrow> merkle_dag \<Rightarrow> file_changes" where
  "changes_against old dag =
     (case old of
        None \<Rightarrow> \<lparr>added = get_all_files dag, removed = [], modified = [], unchanged = []\<rparr>
      | Some old_dag \<Rightarrow> detect_changes old_dag dag)"

subsection \<open>The comparison is exact\<close>

definition changes_exact ::
    "(string \<rightharpoonup> string) \<Rightarrow> (string \<rightharpoonup> string) \<Rightarrow> file_changes \<Rightarrow> bool" where
  "changes_exact old new c \<longleftrightarrow>
     set (added c) = dom new - dom old \<and> set (removed c) = dom old - dom new \<and>
     set (modified c) = {p \<in> dom old \<inter> dom new. old p \<noteq> new p} \<and>
     set (unchanged c) = {p \<in> dom old \<inter> dom new. old p = new p} \<and>
     sorted (added c) \<and> sorted (removed c) \<and> sorted (modified c) \<and> sorted (unchanged c)"

lemma compare_hashes_exact: "changes_exact (map_of old) (map_of new) (compare_hashes old new)"
  by (auto simp: changes_exact_def compare_hashes_def Let_def dom_map_of_conv_image_fst
      intro!: sorted_wrt_filter)

lemma compare_hashes_distinct:
  "distinct (dict_keys old) \<Longrightarrow> distinct (dict_keys new) \<Longrightarrow>
   distinct (added (compare_hashes old new) @ removed (compare_hashes old new) @
             modified (compare_hashes old new) @ unchanged (compare_hashes old new))"
  by (auto simp: compare_hashes_def Let_def)

lemma exact_partition:
  assumes "changes_exact old new c"
  shows "set (added c) \<union> set (removed c) \<union> set (modified c) \<union> set (unchanged c) = dom old \<union> dom new"
  using assms by (auto simp: changes_exact_def)

text \<open>What an index of one entry per file becomes when the two lists are applied.\<close>

definition apply_changes ::
    "file_changes \<Rightarrow> (string \<rightharpoonup> 'a) \<Rightarrow> (string \<rightharpoonup> 'a) \<Rightarrow> string \<rightharpoonup> 'a" where
  "apply_changes c new idx =
     (idx |` (- set (get_files_to_remove c))) ++ (new |` set (get_files_to_reindex c))"

lemma apply_changes_exact:
  assumes "changes_exact old new c"
  shows "apply_changes c new old = new"
proof
  fix p
  have "set (get_files_to_remove c) = {p \<in> dom old. new p \<noteq> old p}"
    "set (get_files_to_reindex c) = {p \<in> dom new. new p \<noteq> old p}"
    using assms
    by (auto simp: changes_exact_def get_files_to_remove_def get_files_to_reindex_def domIff)
  then show "apply_changes c new old p = new p"
    by (cases "new p"; cases "old p")
      (auto simp: apply_changes_def map_add_def restrict_map_def split: option.splits)
qed

lemma exact_none: "changes_exact old new c \<Longrightarrow> \<not> has_changes c \<longleftrightarrow> old = new"
proof
  assume c: "changes_exact old new c" and n: "\<not> has_changes c"
  show "old = new"
  proof
    fix p
    have "p \<in> set (added c) \<union> set (removed c) \<union> set (modified c)" if "old p \<noteq> new p"
      using c that unfolding changes_exact_def by (cases "old p"; cases "new p") auto
    with n show "old p = new p" by (auto simp: has_changes_def)
  qed
next
  assume "changes_exact old new c" "old = new"
  then show "\<not> has_changes c" by (simp add: changes_exact_def has_changes_def)
qed

subsection \<open>Properties\<close>


text \<open>
  The change statistics count every changed file once: each extension's and each directory's
  number is the number of changed files with it, an extension is listed exactly when such a file
  changed, and the entries come in descending order of frequency.
\<close>

lemma change_patterns_count_files:
  "(let a = analyze_change_patterns c; fs = added c @ removed c @ modified c in
     distinct (dict_keys (file_extensions a)) \<and>
     set (file_extensions a) = {(x, length (filter (\<lambda>f. extension_of f = x) fs)) | x. x \<in> extension_of ` set fs} \<and>
     set (directories a) = {(x, length (filter (\<lambda>f. directory_of f = x) fs)) | x. x \<in> directory_of ` set fs} \<and>
     sorted_wrt (\<lambda>x y. snd y \<le> snd x) (file_extensions a) \<and>
     sorted_wrt (\<lambda>x y. snd y \<le> snd x) (directories a) \<and>
     length fs = total_changed c)"
proof -
  have t: "set (tally (map g fs)) = {(x, length (filter (\<lambda>f. g f = x) fs)) | x. x \<in> g ` set fs}"
    for g :: "string \<Rightarrow> string" and fs
  proof -
    have n: "(x, n) \<in> set (tally (map g fs)) \<Longrightarrow> n = length (filter (\<lambda>f. g f = x) fs)" for x n
      using tally_get [of x n "map g fs"]
      by (simp add: count_list_eq_length_filter filter_map comp_def) metis
    have k: "fst ` set (tally (map g fs)) = g ` set fs" by (simp add: tally_keys)
    show ?thesis
    proof (intro set_eqI iffI)
      fix y assume "y \<in> set (tally (map g fs))"
      with n [of "fst y" "snd y"] k show "y \<in> {(x, length (filter (\<lambda>f. g f = x) fs)) | x. x \<in> g ` set fs}"
        by (cases y) force
    next
      fix y assume "y \<in> {(x, length (filter (\<lambda>f. g f = x) fs)) | x. x \<in> g ` set fs}"
      then obtain x where x: "y = (x, length (filter (\<lambda>f. g f = x) fs))" "x \<in> g ` set fs" by blast
      with k obtain m where "(x, m) \<in> set (tally (map g fs))" by fastforce
      with n x(1) show "y \<in> set (tally (map g fs))" by metis
    qed
  qed
  have d: "distinct (dict_keys (sorted_desc snd (tally ks)))" for ks :: "string list"
    using tally_distinct [of ks] mset_eq_imp_distinct_iff [OF sorted_desc_map_set [of fst snd "tally ks"]]
    by blast
  show ?thesis
    unfolding analyze_change_patterns_def Let_def
    by (simp add: d t sorted_desc_sorted total_changed_def del: map_append set_append filter_append)
qed

subsection \<open>The snapshot interface\<close>

text \<open>
  What the detector relies on: a saved DAG is loaded back with the same file hashes and root
  hash, and saving one project leaves the others' snapshots alone.
\<close>

locale snapshot_source =
  fixes save :: "'s \<Rightarrow> merkle_dag \<Rightarrow> 's"
    and load :: "'s \<Rightarrow> string list \<Rightarrow> merkle_dag option"
    and storable :: "merkle_dag \<Rightarrow> bool"
    and separate :: "string list \<Rightarrow> string list \<Rightarrow> bool"
  assumes load_saved: "storable dag \<Longrightarrow>
      \<exists>d. load (save s dag) (root_path dag) = Some d \<and>
        map_of (get_file_hashes d) = map_of (get_file_hashes dag) \<and>
        get_root_hash d = get_root_hash dag"
    and load_other: "separate (root_path dag) p \<Longrightarrow> load (save s dag) p = load s p"
begin

lemma loaded_after_other_saves:
  assumes "storable dag" "\<forall>d \<in> set later. separate (root_path d) (root_path dag)"
  shows "\<exists>d. load (fold (\<lambda>d s. save s d) later (save s dag)) (root_path dag) = Some d \<and>
    map_of (get_file_hashes d) = map_of (get_file_hashes dag) \<and> get_root_hash d = get_root_hash dag"
proof -
  have "load (fold (\<lambda>d s. save s d) ds t) (root_path dag) = load t (root_path dag)"
    if "\<forall>d \<in> set ds. separate (root_path d) (root_path dag)" for ds t
    using that by (induction ds arbitrary: t) (simp_all add: load_other)
  with load_saved [OF assms(1), of s] assms(2) show ?thesis by simp
qed

lemma exact_after_other_saves:
  assumes "storable dag" "\<forall>d \<in> set later. separate (root_path d) (root_path dag)"
  shows "changes_exact (map_of (get_file_hashes dag)) (map_of (get_file_hashes new))
    (changes_against (load (fold (\<lambda>d s. save s d) later (save s dag)) (root_path dag)) new)"
  using loaded_after_other_saves [OF assms, of s] compare_hashes_exact
  by (metis (no_types, lifting) changes_against_def detect_changes_def option.simps(5))

end

end
