(* ===== verification/SnapshotStore.thy ===== *)
theory SnapshotStore
  imports ChangeDetect
begin

text \<open>
  The snapshot files of \<open>merkle/snapshot_manager.py\<close> and the two entry points of the change
  detector that read them, \<open>detect_changes_from_snapshot\<close> and \<open>quick_check\<close>.

  The storage directory is an ordered dictionary from file names to what is stored: a JSON value
  or text that is not JSON, and the modification time. MD5, \<open>Path.resolve\<close> and the clock are
  parameters. The interpretation \<open>snapshots\<close> shows that these definitions provide the interface
  \<open>snapshot_source\<close>.
\<close>

subsection \<open>Definitions\<close>

record stored =
  content :: "json option"
  mtime :: int

type_synonym snapshot_files = "(string, stored) dict"

record snapshot_manager =
  storage_dir :: "string list"
  provider :: string

definition project_key :: "(string \<Rightarrow> string list) \<Rightarrow> string \<Rightarrow> string \<Rightarrow> string" where
  "project_key resolve prov project_path =
     (let normalized = path_str (resolve project_path) in
      if prov \<noteq> [] then normalized @ '':'' @ prov else normalized)"

definition get_project_id ::
    "(bytes \<Rightarrow> string) \<Rightarrow> (string \<Rightarrow> string list) \<Rightarrow> snapshot_manager \<Rightarrow> string \<Rightarrow> string" where
  "get_project_id md5 resolve mgr project_path = md5 (project_key resolve (provider mgr) project_path)"

definition get_snapshot_path ::
    "(bytes \<Rightarrow> string) \<Rightarrow> (string \<Rightarrow> string list) \<Rightarrow> snapshot_manager \<Rightarrow> string \<Rightarrow> string" where
  "get_snapshot_path md5 resolve mgr project_path =
     get_project_id md5 resolve mgr project_path @ ''_snapshot.json''"

definition get_metadata_path ::
    "(bytes \<Rightarrow> string) \<Rightarrow> (string \<Rightarrow> string list) \<Rightarrow> snapshot_manager \<Rightarrow> string \<Rightarrow> string" where
  "get_metadata_path md5 resolve mgr project_path =
     get_project_id md5 resolve mgr project_path @ ''_metadata.json''"

record clock =
  iso_now :: string
  stamp_now :: int

definition write_file :: "clock \<Rightarrow> string \<Rightarrow> json \<Rightarrow> snapshot_files \<Rightarrow> snapshot_files" where
  "write_file t name v fs = dict_put name \<lparr>content = Some v, mtime = stamp_now t\<rparr> fs"

definition save_snapshot ::
    "(bytes \<Rightarrow> string) \<Rightarrow> (string \<Rightarrow> string list) \<Rightarrow> clock \<Rightarrow> snapshot_manager \<Rightarrow>
      merkle_dag \<Rightarrow> (string, json) dict option \<Rightarrow> snapshot_files \<Rightarrow> snapshot_files" where
  "save_snapshot md5 resolve t mgr dag metadata fs =
     (let project_path = path_str (root_path dag);
          snapshot_data = JObj [(''version'', JStr ''1.0''), (''timestamp'', JStr (iso_now t)),
                                (''dag'', dag_to_dict dag)];
          fs1 = write_file t (get_snapshot_path md5 resolve mgr project_path) snapshot_data fs;
          given = (case metadata of None \<Rightarrow> [] | Some m \<Rightarrow> m);
          extra = [(''project_path'', JStr project_path),
                   (''project_id'', JStr (get_project_id md5 resolve mgr project_path)),
                   (''last_snapshot'', JStr (iso_now t)),
                   (''file_count'', JInt (int (length (get_all_files dag)))),
                   (''root_hash'', (case get_root_hash dag of None \<Rightarrow> JNull | Some h \<Rightarrow> JStr h))];
          metadata_data = fold (\<lambda>(k, v). dict_put k v) extra given
      in write_file t (get_metadata_path md5 resolve mgr project_path) (JObj metadata_data) fs1)"

definition load_snapshot ::
    "(bytes \<Rightarrow> string) \<Rightarrow> (string \<Rightarrow> string list) \<Rightarrow> snapshot_manager \<Rightarrow> string \<Rightarrow>
      snapshot_files \<Rightarrow> merkle_dag option" where
  "load_snapshot md5 resolve mgr project_path fs =
     (case dict_get fs (get_snapshot_path md5 resolve mgr project_path) of
        None \<Rightarrow> None
      | Some f \<Rightarrow>
          (case content f of
             Some (JObj ob) \<Rightarrow>
               (case bindr (req ob ''dag'') (dag_from_dict resolve) of
                  Inl _ \<Rightarrow> None
                | Inr dag \<Rightarrow> Some dag)
           | _ \<Rightarrow> None))"

definition load_metadata ::
    "(bytes \<Rightarrow> string) \<Rightarrow> (string \<Rightarrow> string list) \<Rightarrow> snapshot_manager \<Rightarrow> string \<Rightarrow>
      snapshot_files \<Rightarrow> json option" where
  "load_metadata md5 resolve mgr project_path fs =
     (case dict_get fs (get_metadata_path md5 resolve mgr project_path) of
        None \<Rightarrow> None
      | Some f \<Rightarrow> content f)"

definition has_snapshot ::
    "(bytes \<Rightarrow> string) \<Rightarrow> (string \<Rightarrow> string list) \<Rightarrow> snapshot_manager \<Rightarrow> string \<Rightarrow>
      snapshot_files \<Rightarrow> bool" where
  "has_snapshot md5 resolve mgr project_path fs \<longleftrightarrow>
     dict_get fs (get_snapshot_path md5 resolve mgr project_path) \<noteq> None"

definition delete_snapshot ::
    "(bytes \<Rightarrow> string) \<Rightarrow> (string \<Rightarrow> string list) \<Rightarrow> snapshot_manager \<Rightarrow> string \<Rightarrow>
      snapshot_files \<Rightarrow> snapshot_files" where
  "delete_snapshot md5 resolve mgr project_path fs =
     dict_del (get_metadata_path md5 resolve mgr project_path)
       (dict_del (get_snapshot_path md5 resolve mgr project_path) fs)"

text \<open>
  A metadata file that is JSON but no object makes the sort key raise \<open>AttributeError\<close>; a
  \<open>last_snapshot\<close> that is no string cannot be compared with the strings. Both are \<open>None\<close>.
\<close>

definition last_snapshot_of :: "json \<Rightarrow> string option" where
  "last_snapshot_of v =
     (case v of
        JObj ob \<Rightarrow> (case jget ob ''last_snapshot'' of
                      None \<Rightarrow> Some [] | Some (JStr s) \<Rightarrow> Some s | Some _ \<Rightarrow> None)
      | _ \<Rightarrow> None)"

definition list_snapshots :: "snapshot_files \<Rightarrow> json list option" where
  "list_snapshots fs =
     (let snapshots = List.map_filter (\<lambda>(name, f).
            if ends_with name ''_metadata.json'' then content f else None) fs in
      if list_all (\<lambda>v. last_snapshot_of v \<noteq> None) snapshots
      then Some (sorted_desc (\<lambda>v. the (last_snapshot_of v)) snapshots)
      else None)"

text \<open>\<open>s.replace(p, '')\<close> for a non-empty \<open>p\<close>.\<close>

function remove_all :: "string \<Rightarrow> string \<Rightarrow> string" where
  "remove_all p [] = []"
| "remove_all p (c # s) =
     (if p \<noteq> [] \<and> starts_with (c # s) p then remove_all p (drop (length p - 1) s)
      else c # remove_all p s)"
  by pat_completeness auto
termination by (relation "measure (\<lambda>(p, s). length s)") auto

definition stem :: "string \<Rightarrow> string" where
  "stem name = take (length name - length (path_suffix name)) name"

definition group_snapshots :: "snapshot_files \<Rightarrow> (string, string list) dict" where
  "group_snapshots fs =
     fold (\<lambda>name d. let project_id = remove_all ''_snapshot'' (stem name) in
             dict_put project_id (dict_get_or d project_id [] @ [name]) d)
       (filter (\<lambda>name. ends_with name ''_snapshot.json'') (dict_keys fs)) []"

definition mtime_of :: "snapshot_files \<Rightarrow> string \<Rightarrow> int" where
  "mtime_of fs name = (case dict_get fs name of None \<Rightarrow> 0 | Some f \<Rightarrow> mtime f)"

definition cleanup_old_snapshots :: "int \<Rightarrow> snapshot_files \<Rightarrow> snapshot_files" where
  "cleanup_old_snapshots keep_count fs =
     fold (\<lambda>(project_id, names) fs'.
         fold (\<lambda>old_file fs''.
             dict_del (project_id @ ''_metadata.json'') (dict_del old_file fs''))
           (py_slice_from (sorted_desc (mtime_of fs) names) keep_count) fs')
       (group_snapshots fs) fs"

definition get_snapshot_age ::
    "(bytes \<Rightarrow> string) \<Rightarrow> (string \<Rightarrow> string list) \<Rightarrow> clock \<Rightarrow> snapshot_manager \<Rightarrow> string \<Rightarrow>
      snapshot_files \<Rightarrow> int option" where
  "get_snapshot_age md5 resolve t mgr project_path fs =
     map_option (\<lambda>f. stamp_now t - mtime f)
       (dict_get fs (get_snapshot_path md5 resolve mgr project_path))"

text \<open>
  The DAG both detector entry points walk with: the storage directory's path relative to the
  project is added to the ignore patterns when it lies inside (the storage directory is absolute,
  so a relative project path never contains it).
\<close>

definition current_dag ::
    "(string \<Rightarrow> string list) \<Rightarrow> snapshot_manager \<Rightarrow> string \<Rightarrow> merkle_dag" where
  "current_dag resolve mgr project_path =
     (let dag = merkle_init (resolve project_path) None; here = path_parts project_path in
      if starts_with project_path ''/'' \<and> prefix here (storage_dir mgr)
      then dag\<lparr>ignore_patterns :=
             List.insert (relative_path (drop (length here) (storage_dir mgr))) (ignore_patterns dag)\<rparr>
      else dag)"

definition detect_changes_from_snapshot ::
    "(bytes \<Rightarrow> string) \<Rightarrow> (bytes \<Rightarrow> bytes) \<Rightarrow> (bytes \<Rightarrow> string) \<Rightarrow> (string \<Rightarrow> string list) \<Rightarrow>
      snapshot_manager \<Rightarrow> string \<Rightarrow> entry \<Rightarrow> snapshot_files \<Rightarrow> walk_exn + file_changes \<times> merkle_dag" where
  "detect_changes_from_snapshot sha utf md5 resolve mgr project_path e fs =
     (case build sha utf e (current_dag resolve mgr project_path) of
        (Inl x, _) \<Rightarrow> Inl x
      | (Inr _, dag) \<Rightarrow>
          Inr (changes_against (load_snapshot md5 resolve mgr project_path fs) dag, dag))"

definition quick_check ::
    "(bytes \<Rightarrow> string) \<Rightarrow> (bytes \<Rightarrow> bytes) \<Rightarrow> (bytes \<Rightarrow> string) \<Rightarrow> (string \<Rightarrow> string list) \<Rightarrow>
      snapshot_manager \<Rightarrow> string \<Rightarrow> entry \<Rightarrow> snapshot_files \<Rightarrow> walk_exn + bool" where
  "quick_check sha utf md5 resolve mgr project_path e fs =
     (case load_snapshot md5 resolve mgr project_path fs of
        None \<Rightarrow> Inr True
      | Some old_dag \<Rightarrow>
          (case build sha utf e (current_dag resolve mgr project_path) of
             (Inl x, _) \<Rightarrow> Inl x
           | (Inr _, dag) \<Rightarrow> Inr (get_root_hash old_dag \<noteq> get_root_hash dag)))"

subsection \<open>Saving and loading\<close>

lemma snapshot_names [simp]:
  "get_snapshot_path md5 resolve mgr p \<noteq> get_metadata_path md5' resolve' mgr' q"
  "get_metadata_path md5' resolve' mgr' q \<noteq> get_snapshot_path md5 resolve mgr p"
  "get_snapshot_path md5 resolve mgr p = get_snapshot_path md5' resolve' mgr' q \<longleftrightarrow>
     get_project_id md5 resolve mgr p = get_project_id md5' resolve' mgr' q"
  "get_metadata_path md5 resolve mgr p = get_metadata_path md5' resolve' mgr' q \<longleftrightarrow>
     get_project_id md5 resolve mgr p = get_project_id md5' resolve' mgr' q"
  by (simp_all add: get_snapshot_path_def get_metadata_path_def)

lemma save_snapshot_get:
  "dict_get (save_snapshot md5 resolve t mgr dag meta fs) (get_snapshot_path md5 resolve mgr' p) =
     (if get_project_id md5 resolve mgr' p = get_project_id md5 resolve mgr (path_str (root_path dag))
      then Some \<lparr>content = Some (JObj [(''version'', JStr ''1.0''), (''timestamp'', JStr (iso_now t)),
                   (''dag'', dag_to_dict dag)]), mtime = stamp_now t\<rparr>
      else dict_get fs (get_snapshot_path md5 resolve mgr' p))"
  by (simp add: save_snapshot_def write_file_def Let_def dict_simps)

definition storable :: "(string \<Rightarrow> string list) \<Rightarrow> merkle_dag \<Rightarrow> bool" where
  "storable resolve dag \<longleftrightarrow> coherent dag \<and> resolve (path_str (root_path dag)) = root_path dag"

lemma load_saved_snapshot:
  assumes "storable resolve dag"
  shows "\<exists>d. load_snapshot md5 resolve mgr (path_str (root_path dag))
      (save_snapshot md5 resolve t mgr dag meta fs) = Some d \<and>
    coherent d \<and> root_path d = root_path dag \<and> root_node d = root_node dag \<and>
    map_of (nodes d) = map_of (nodes dag) \<and>
    map_of (get_file_hashes d) = map_of (get_file_hashes dag)"
proof -
  obtain d where "dag_from_dict resolve (dag_to_dict dag) = Inr d" "coherent d"
    "root_path d = root_path dag" "root_node d = root_node dag"
    "map_of (nodes d) = map_of (nodes dag)"
    "map_of (get_file_hashes d) = map_of (get_file_hashes dag)"
    using dag_from_to_dict [of dag resolve] assms unfolding storable_def by blast
  then show ?thesis
    by (simp add: load_snapshot_def save_snapshot_get req_def jget_def)
qed

lemma load_other_snapshot:
  "get_project_id md5 resolve mgr' p \<noteq> get_project_id md5 resolve mgr (path_str (root_path dag)) \<Longrightarrow>
   load_snapshot md5 resolve mgr' p (save_snapshot md5 resolve t mgr dag meta fs) =
     load_snapshot md5 resolve mgr' p fs"
  by (simp add: load_snapshot_def save_snapshot_get)

definition separate_ids ::
    "(bytes \<Rightarrow> string) \<Rightarrow> (string \<Rightarrow> string list) \<Rightarrow> snapshot_manager \<Rightarrow> string list \<Rightarrow> string list \<Rightarrow> bool" where
  "separate_ids md5 resolve mgr p q \<longleftrightarrow>
     get_project_id md5 resolve mgr (path_str q) \<noteq> get_project_id md5 resolve mgr (path_str p)"

interpretation snapshots: snapshot_source
  "\<lambda>fs dag. save_snapshot md5 resolve t mgr dag meta fs"
  "\<lambda>fs p. load_snapshot md5 resolve mgr (path_str p) fs"
  "storable resolve" "separate_ids md5 resolve mgr"
  for md5 resolve t mgr meta
proof
  fix dag s assume "storable resolve dag"
  then show "\<exists>d. load_snapshot md5 resolve mgr (path_str (root_path dag))
        (save_snapshot md5 resolve t mgr dag meta s) = Some d \<and>
      map_of (get_file_hashes d) = map_of (get_file_hashes dag) \<and> get_root_hash d = get_root_hash dag"
    using load_saved_snapshot [of resolve dag md5 mgr t meta s] by (auto simp: get_root_hash_def)
qed (simp add: separate_ids_def load_other_snapshot)

text \<open>Keys of colon-free providers determine path and provider.\<close>

lemma project_key_inj:
  assumes "CHR '':'' \<notin> set a" "CHR '':'' \<notin> set b" "p @ '':'' @ a = q @ '':'' @ b"
  shows "p = q \<and> a = b"
proof -
  have t: "takeWhile (\<lambda>c. c \<noteq> CHR '':'') (rev (r @ '':'' @ x)) = rev x" if "CHR '':'' \<notin> set x" for r x
  proof -
    have "\<forall>c\<in>set (rev x). c \<noteq> CHR '':''" using that by auto
    then have "takeWhile (\<lambda>c. c \<noteq> CHR '':'') (rev x @ CHR '':'' # rev r) =
        rev x @ takeWhile (\<lambda>c. c \<noteq> CHR '':'') (CHR '':'' # rev r)"
      by (intro takeWhile_append2) blast
    then show ?thesis by simp
  qed
  have "rev a = rev b" using t [OF assms(1), of p] t [OF assms(2), of q] by (simp only: assms(3))
  with assms(3) show ?thesis by simp
qed

lemma provider_ids_differ:
  assumes "inj_on md5 {project_key resolve (provider m) p, project_key resolve (provider m') q}"
    and "provider m \<noteq> provider m'" "provider m \<noteq> []" "provider m' \<noteq> []"
    and "CHR '':'' \<notin> set (provider m)" "CHR '':'' \<notin> set (provider m')"
  shows "get_project_id md5 resolve m p \<noteq> get_project_id md5 resolve m' q"
proof
  assume "get_project_id md5 resolve m p = get_project_id md5 resolve m' q"
  then have "md5 (project_key resolve (provider m) p) = md5 (project_key resolve (provider m') q)"
    by (simp add: get_project_id_def)
  from inj_onD [OF assms(1) this]
  have "project_key resolve (provider m) p = project_key resolve (provider m') q" by simp
  then have "path_str (resolve p) @ '':'' @ provider m = path_str (resolve q) @ '':'' @ provider m'"
    using assms(3,4) by (simp only: project_key_def Let_def if_True not_False_eq_True)
  with project_key_inj [OF assms(5,6)] assms(2) show False by blast
qed

subsection \<open>The detector on a saved project\<close>

lemma build_config:
  "root_path (snd (build sha utf e dag)) = root_path dag"
  using walk_effect(1) [of sha utf "[]" e "dag\<lparr>nodes := []\<rparr>"]
  by (auto simp: build_def Let_def split: prod.splits sum.splits option.splits simp del: build_node.simps)

lemma current_dag_simps [simp]:
  "root_path (current_dag resolve mgr p) = resolve p"
  "uncancelled (current_dag resolve mgr p)"
  by (simp_all add: current_dag_def merkle_init_def uncancelled_def Let_def)

lemma resolved_project_id:
  "resolve (path_str (resolve p)) = resolve p \<Longrightarrow>
   get_project_id md5 resolve mgr (path_str (resolve p)) = get_project_id md5 resolve mgr p"
  by (simp add: get_project_id_def project_key_def)

lemma load_by_id:
  "get_project_id md5 resolve mgr p = get_project_id md5 resolve mgr q \<Longrightarrow>
   load_snapshot md5 resolve mgr p fs = load_snapshot md5 resolve mgr q fs"
  by (simp add: load_snapshot_def get_snapshot_path_def)

text \<open>The state after indexing a project: its DAG was saved, then other projects' DAGs.\<close>

definition saved_then ::
    "(bytes \<Rightarrow> string) \<Rightarrow> (string \<Rightarrow> string list) \<Rightarrow> clock \<Rightarrow> snapshot_manager \<Rightarrow>
      (string, json) dict option \<Rightarrow> merkle_dag \<Rightarrow> merkle_dag list \<Rightarrow> snapshot_files \<Rightarrow> snapshot_files" where
  "saved_then md5 resolve t mgr meta dag later fs =
     fold (\<lambda>d fs. save_snapshot md5 resolve t mgr d meta fs) later
       (save_snapshot md5 resolve t mgr dag meta fs)"

definition others ::
    "(bytes \<Rightarrow> string) \<Rightarrow> (string \<Rightarrow> string list) \<Rightarrow> snapshot_manager \<Rightarrow> string \<Rightarrow> merkle_dag list \<Rightarrow> bool" where
  "others md5 resolve mgr p later \<longleftrightarrow>
     list_all (\<lambda>d. get_project_id md5 resolve mgr (path_str (root_path d)) \<noteq>
       get_project_id md5 resolve mgr p) later"

lemma detect_after_save:
  assumes r: "resolve (path_str (resolve p)) = resolve p" and o: "others md5 resolve mgr p later"
    and e: "stat_ok e" "names_ok e" "stat_ok e'" "names_ok e'"
    and dag: "dag = snd (build sha utf e (current_dag resolve mgr p))"
    and dag': "dag' = snd (build sha utf e' (current_dag resolve mgr p))"
    and fs': "fs' = saved_then md5 resolve t mgr meta dag later fs"
  shows "\<exists>c. detect_changes_from_snapshot sha utf md5 resolve mgr p e' fs' = Inr (c, dag') \<and>
      changes_exact (map_of (get_file_hashes dag)) (map_of (get_file_hashes dag')) c"
    and "quick_check sha utf md5 resolve mgr p e' fs' = Inr (get_root_hash dag \<noteq> get_root_hash dag')"
proof -
  have rp: "root_path dag = resolve p" by (simp add: dag build_config)
  have st: "storable resolve dag"
    using build_coherent [OF current_dag_simps(2) e(1,2)] r by (simp add: storable_def rp) (simp add: dag)
  have sep: "\<forall>d\<in>set later. separate_ids md5 resolve mgr (root_path d) (root_path dag)"
    using o resolved_project_id [OF r] by (auto simp: others_def list_all_iff separate_ids_def rp)
  have ld: "load_snapshot md5 resolve mgr p = load_snapshot md5 resolve mgr (path_str (root_path dag))"
    using load_by_id [OF resolved_project_id [OF r]] rp by fastforce
  have b: "build sha utf e' (current_dag resolve mgr p) = (Inr (), dag')"
    using build_view [where sha = sha and utf = utf and dag = "current_dag resolve mgr p",
        OF current_dag_simps(2) e(3,4)] by (auto simp: dag')
  show "\<exists>c. detect_changes_from_snapshot sha utf md5 resolve mgr p e' fs' = Inr (c, dag') \<and>
      changes_exact (map_of (get_file_hashes dag)) (map_of (get_file_hashes dag')) c"
    using snapshots.exact_after_other_saves [OF st sep, of dag' t meta fs]
    by (simp add: detect_changes_from_snapshot_def b ld fs' saved_then_def)
  show "quick_check sha utf md5 resolve mgr p e' fs' = Inr (get_root_hash dag \<noteq> get_root_hash dag')"
    using snapshots.loaded_after_other_saves [OF st sep, of t meta fs]
    by (auto simp: quick_check_def b ld fs' saved_then_def)
qed

text \<open>
  C28. Right after a project was indexed and its DAG saved, whatever other projects were saved in
  between, the detector finds no change in an unchanged tree and the quick check agrees.
\<close>

theorem unchanged_project_is_clean:
  assumes "resolve (path_str (resolve p)) = resolve p" "others md5 resolve mgr p later"
    and "stat_ok e" "names_ok e"
    and "fs' = saved_then md5 resolve t mgr meta
          (snd (build sha utf e (current_dag resolve mgr p))) later fs"
  shows "\<exists>c dag. detect_changes_from_snapshot sha utf md5 resolve mgr p e fs' = Inr (c, dag) \<and>
      \<not> has_changes c \<and> quick_check sha utf md5 resolve mgr p e fs' = Inr False"
  using detect_after_save [OF assms(1-4,3,4) refl refl assms(5)] exact_none by fastforce

text \<open>
  C29. Renaming a top-level file is a change the detector reports (the old path is removed) and
  the quick check misses: a file's node hashes its content only, and its directory hashes the
  child hashes, so the root hash stays the same.
\<close>

theorem quick_check_misses_rename:
  assumes "resolve (path_str (resolve p)) = resolve p" "others md5 resolve mgr p later"
    and "e = Directory (Some (xs @ (n, RegFile (Inr raw)) # ys))" "stat_ok e" "names_ok e"
    and "e' = Directory (Some (xs @ (n', RegFile (Inr raw)) # ys))" "names_ok e'" "n \<noteq> n'"
    and "ig = ignore_patterns (current_dag resolve mgr p)"
    and "\<not> should_ignore ig (path_name (resolve p))" "plain_name ig n" "plain_name ig n'"
    and "fs' = saved_then md5 resolve t mgr meta
          (snd (build sha utf e (current_dag resolve mgr p))) later fs"
  shows "quick_check sha utf md5 resolve mgr p e' fs' = Inr False \<and>
    (\<exists>c dag. detect_changes_from_snapshot sha utf md5 resolve mgr p e' fs' = Inr (c, dag) \<and>
      n \<in> set (removed c))"
proof -
  let ?dag = "snd (build sha utf e (current_dag resolve mgr p))"
  let ?dag' = "snd (build sha utf e' (current_dag resolve mgr p))"
  have se: "stat_ok e'" using assms(3,4,6) by simp
  note d = detect_after_save [OF assms(1,2,4,5) se assms(7) refl refl assms(13)]
  have r: "get_root_hash ?dag' = get_root_hash ?dag"
    "n \<in> set (get_all_files ?dag)" "n \<notin> set (get_all_files ?dag')"
    using rename_keeps_root_hash [of "current_dag resolve mgr p" n n' e xs raw ys e' sha utf]
      assms(3-12) by (simp_all del: stat_ok.simps names_ok.simps)
  have k: "dom (map_of (get_file_hashes x)) = set (get_all_files x)" for x
    by (auto simp: dom_map_of_conv_image_fst get_file_hashes_def get_all_files_def image_iff)
  from d(1) obtain c where "detect_changes_from_snapshot sha utf md5 resolve mgr p e' fs' = Inr (c, ?dag')"
    "n \<in> set (removed c)"
    using r k by (auto simp: changes_exact_def)
  with d(2) r show ?thesis by auto
qed

text \<open>
  Snapshots of different providers do not overwrite each other: after a save under one
  provider, every load under another returns what it returned before, provided both provider
  names are non-empty and without a colon and MD5 does not collide on the two keys.
\<close>

lemma provider_snapshots_independent:
  assumes "inj_on md5 {project_key resolve (provider m') p,
             project_key resolve (provider m) (path_str (root_path dag))}"
    and "provider m \<noteq> provider m'" "provider m \<noteq> []" "provider m' \<noteq> []"
    and "CHR '':'' \<notin> set (provider m)" "CHR '':'' \<notin> set (provider m')"
  shows "load_snapshot md5 resolve m' p (save_snapshot md5 resolve t m dag meta fs) =
    load_snapshot md5 resolve m' p fs"
  by (rule load_other_snapshot, rule provider_ids_differ [OF assms(1)]) (use assms(2-6) in simp_all)

subsection \<open>Clean-up\<close>

definition hex_id :: "string \<Rightarrow> bool" where
  "hex_id s \<longleftrightarrow> list_all (\<lambda>c. c \<in> set ''0123456789abcdef'') s"

definition managed_name :: "string \<Rightarrow> bool" where
  "managed_name name \<longleftrightarrow>
     (ends_with name ''_snapshot.json'' \<longrightarrow> hex_id (take (length name - 14) name))"

lemma remove_all_suffix:
  "CHR ''_'' \<notin> set s \<Longrightarrow> remove_all ''_snapshot'' (s @ ''_snapshot'') = s"
  by (induction s) (auto simp: starts_with_def)

lemma path_suffix_json: "path_suffix (s @ ''_snapshot.json'') = ''.json''"
  by (simp add: path_suffix_def)

lemma managed_stem:
  assumes "managed_name name" "ends_with name ''_snapshot.json''"
  shows "name = remove_all ''_snapshot'' (stem name) @ ''_snapshot.json''"
proof -
  obtain s where n: "name = s @ ''_snapshot.json''"
    using assms(2) unfolding ends_with_suffix suffix_def by blast
  have "CHR ''_'' \<notin> set s"
    using assms n by (auto simp: managed_name_def hex_id_def list_all_iff)
  then have "remove_all ''_snapshot'' (s @ ''_snapshot'') = s" by (rule remove_all_suffix)
  moreover have "stem name = s @ ''_snapshot''" by (simp add: stem_def n path_suffix_json)
  ultimately show ?thesis by (simp add: n)
qed

lemma group_fresh:
  assumes "distinct (map fst d @ map pid names)"
  shows "fold (\<lambda>name d. dict_put (pid name) (dict_get_or d (pid name) [] @ [name]) d) names d =
    d @ map (\<lambda>name. (pid name, [name])) names"
  using assms
proof (induction names arbitrary: d)
  case (Cons n names)
  have "pid n \<notin> set (dict_keys d)" using Cons.prems by auto
  then have "dict_get_or d (pid n) [] = []"
    by (simp add: dict_get_or_def map_of_eq_None_iff [symmetric])
  with Cons \<open>pid n \<notin> set (dict_keys d)\<close> show ?case by (simp add: dict_put_fresh)
qed simp

lemma slice_single: "1 \<le> keep \<Longrightarrow> py_slice_from [x] keep = []"
  by (simp add: py_slice_from_def py_clip_def)

lemma sorted_desc_single [simp]: "sorted_desc f [x] = [x]"
  by (simp add: sorted_desc_def)

text \<open>
  On a storage directory as the manager writes it (one snapshot file per hexadecimal project
  id) the clean-up deletes nothing for any \<open>keep_count\<close> of at least one: every project's group has
  one file, because saving overwrites the file of the same id.
\<close>

lemma cleanup_keeps_everything:
  assumes "distinct (dict_keys fs)" "list_all managed_name (dict_keys fs)" "1 \<le> keep_count"
  shows "cleanup_old_snapshots keep_count fs = fs"
proof -
  let ?pid = "\<lambda>name. remove_all ''_snapshot'' (stem name)"
  let ?names = "filter (\<lambda>name. ends_with name ''_snapshot.json'') (dict_keys fs)"
  have "inj_on ?pid (set ?names)"
  proof (rule inj_onI)
    fix a b assume ab: "a \<in> set ?names" "b \<in> set ?names" and eq: "?pid a = ?pid b"
    have m: "n = ?pid n @ ''_snapshot.json''" if "n \<in> set ?names" for n
      using that assms(2) by (intro managed_stem) (auto simp: list_all_iff)
    show "a = b" by (subst m [OF ab(1)], subst m [OF ab(2)]) (simp only: eq)
  qed
  then have "distinct (map ?pid ?names)" using assms(1) by (simp add: distinct_map)
  then have g: "group_snapshots fs = map (\<lambda>name. (?pid name, [name])) ?names"
    using group_fresh [of "[]" ?pid ?names] by (simp add: group_snapshots_def Let_def)
  have "fold (\<lambda>(project_id, names) fs'. fold (\<lambda>old_file fs''.
      dict_del (project_id @ ''_metadata.json'') (dict_del old_file fs''))
      (py_slice_from (sorted_desc (mtime_of fs) names) keep_count) fs')
      (map (\<lambda>name. (?pid name, [name])) names) x = x" for names x
    by (induction names) (simp_all add: slice_single [OF assms(3)])
  then show ?thesis unfolding cleanup_old_snapshots_def g .
qed

subsection \<open>Instances\<close>

definition demo_mgr :: "string \<Rightarrow> snapshot_manager" where
  "demo_mgr prov = \<lparr>storage_dir = [''h'', ''merkle''], provider = prov\<rparr>"

definition demo_clock :: clock where
  "demo_clock = \<lparr>iso_now = ''2026'', stamp_now = 7\<rparr>"

definition demo_saved :: "entry \<Rightarrow> snapshot_files" where
  "demo_saved e = saved_then id path_parts demo_clock (demo_mgr ''voyage'') None
     (snd (build demo_sha id e (current_dag path_parts (demo_mgr ''voyage'') ''/r'')))
     [demo_dag None\<lparr>root_path := [''other'']\<rparr>] []"

lemma demo_resolve: "path_parts (path_str (path_parts ''/r'')) = path_parts ''/r''"
  by code_simp

lemma demo_others: "others id path_parts (demo_mgr ''voyage'') ''/r'' [demo_dag None\<lparr>root_path := [''other'']\<rparr>]"
  by code_simp

theorem clean_witness:
  "quick_check demo_sha id id path_parts (demo_mgr ''voyage'') ''/r'' (demo_fs ''m.py'' ''1'')
     (demo_saved (demo_fs ''m.py'' ''1'')) = Inr False"
  using unchanged_project_is_clean [OF demo_resolve demo_others demo_ok(1,2) refl, of demo_sha id demo_clock None "[]"]
  unfolding demo_saved_def by blast

theorem rename_witness:
  "quick_check demo_sha id id path_parts (demo_mgr ''voyage'') ''/r'' (demo_fs ''n.py'' ''1'')
     (demo_saved (demo_fs ''m.py'' ''1'')) = Inr False"
proof -
  let ?xs = "[(''src'', Directory (Some [(''a.py'', RegFile (Inr ''x''))])),
      (''.git'', Directory (Some [(''HEAD'', RegFile (Inr ''ref''))]))]"
  let ?ig = "ignore_patterns (current_dag path_parts (demo_mgr ''voyage'') ''/r'')"
  have e: "demo_fs n ''1'' = Directory (Some (?xs @ (n, RegFile (Inr ''1'')) # []))" for n
    by (simp add: demo_fs_def)
  have i: "\<not> should_ignore ?ig (path_name (path_parts ''/r''))" "plain_name ?ig ''m.py''"
    "plain_name ?ig ''n.py''"
    by code_simp+
  have n: "''m.py'' \<noteq> ''n.py''" by simp
  show ?thesis
    using quick_check_misses_rename [OF demo_resolve demo_others e demo_ok(1,2) e demo_ok(5) n refl i refl,
        of demo_sha id demo_clock None "[]"]
    unfolding demo_saved_def by blast
qed

lemma provider_witness:
  "load_snapshot id path_parts (demo_mgr ''openai'') ''/r''
     (save_snapshot id path_parts demo_clock (demo_mgr ''voyage'') (demo_dag None) None []) = None"
proof -
  have p: "provider (demo_mgr ''voyage'') \<noteq> provider (demo_mgr ''openai'')"
    "provider (demo_mgr ''voyage'') \<noteq> []" "provider (demo_mgr ''openai'') \<noteq> []"
    "CHR '':'' \<notin> set (provider (demo_mgr ''voyage''))" "CHR '':'' \<notin> set (provider (demo_mgr ''openai''))"
    by (simp_all add: demo_mgr_def)
  from provider_snapshots_independent [OF inj_on_id p,
      where resolve = path_parts and p = "''/r''" and dag = "demo_dag None" and t = demo_clock
        and meta = None and fs = "[]"]
  show ?thesis by (simp add: load_snapshot_def id_def)
qed

lemma cleanup_witness:
  "cleanup_old_snapshots 5 [(''0a_snapshot.json'', \<lparr>content = None, mtime = 3\<rparr>),
      (''0a_metadata.json'', \<lparr>content = None, mtime = 3\<rparr>),
      (''1b_snapshot.json'', \<lparr>content = None, mtime = 9\<rparr>)] =
   [(''0a_snapshot.json'', \<lparr>content = None, mtime = 3\<rparr>),
      (''0a_metadata.json'', \<lparr>content = None, mtime = 3\<rparr>),
      (''1b_snapshot.json'', \<lparr>content = None, mtime = 9\<rparr>)]"
  by (rule cleanup_keeps_everything) code_simp+

end
