(* ===== verification/EpochManifest.thy ===== *)
theory EpochManifest
  imports ChangeDetect
begin

text \<open>
  The epoch manifest of \<open>search/epoch_manifest.py\<close>: building a manifest over the index artifacts,
  the commit by renames, verification, reading with a fallback to the prior epoch.

  The three files of the manifest directory are a record of what opening them gives. A commit is
  the list of directory states it passes through, one for every point where a crash can stop it.
  The artifacts are a function from absolute paths (lists of components) to what reading gives.
  SHA-256 is a parameter. Messages are constructors that carry what the text is built from.
\<close>

subsection \<open>Artifacts and manifests\<close>

datatype artifact = NoArtifact | UnreadableArtifact | Artifact bytes

record artifact_spec =
  art_name :: string
  art_path :: "string list"
  art_count :: "nat option"

datatype manifest_error =
    ArtifactAbsent "string list"
  | ArtifactUnreadable "string list"
  | OutsideProject "string list"
  | CountMismatch "(string \<times> nat) list"

record manifest_config =
  m_provider :: string
  m_model :: string
  m_vector_dim :: int
  m_quantization :: string
  m_pipeline_version :: string
  m_input_type_enabled :: bool

text \<open>\<open>str(path.relative_to(project_dir)).replace('\', '/')\<close>; \<open>None\<close> is its \<open>ValueError\<close>.\<close>

definition backslash :: char where
  "backslash = CHR 0x5C"

definition relative_name :: "string list \<Rightarrow> string list \<Rightarrow> string option" where
  "relative_name project_dir path =
     (if prefix project_dir path
      then Some (map (\<lambda>c. if c = backslash then CHR ''/'' else c)
             (relative_path (drop (length project_dir) path)))
      else None)"

definition artifact_entry ::
    "(bytes \<Rightarrow> string) \<Rightarrow> (string list \<Rightarrow> artifact) \<Rightarrow> string list \<Rightarrow> artifact_spec \<Rightarrow>
      manifest_error + json" where
  "artifact_entry sha arts project_dir spec =
     (case arts (art_path spec) of
        NoArtifact \<Rightarrow> Inl (ArtifactAbsent (art_path spec))
      | UnreadableArtifact \<Rightarrow> Inl (ArtifactUnreadable (art_path spec))
      | Artifact b \<Rightarrow>
          (case relative_name project_dir (art_path spec) of
             None \<Rightarrow> Inl (OutsideProject (art_path spec))
           | Some rel \<Rightarrow>
               Inr (JObj [(''path'', JStr rel), (''sha256'', JStr (sha b)),
                          (''bytes'', JInt (int (length b))),
                          (''count'', (case art_count spec of None \<Rightarrow> JNull | Some n \<Rightarrow> JInt (int n)))])))"

fun artifact_entries ::
    "(bytes \<Rightarrow> string) \<Rightarrow> (string list \<Rightarrow> artifact) \<Rightarrow> string list \<Rightarrow> artifact_spec list \<Rightarrow>
      (string, json) dict \<Rightarrow> manifest_error + (string, json) dict" where
  "artifact_entries sha arts project_dir [] d = Inr d"
| "artifact_entries sha arts project_dir (spec # specs) d =
     bindr (artifact_entry sha arts project_dir spec) (\<lambda>entry.
       artifact_entries sha arts project_dir specs (dict_put (art_name spec) entry d))"

definition entry_count :: "json \<Rightarrow> nat option" where
  "entry_count e =
     (case e of
        JObj ob \<Rightarrow> (case jget ob ''count'' of Some (JInt i) \<Rightarrow> Some (nat i) | _ \<Rightarrow> None)
      | _ \<Rightarrow> None)"

definition build_manifest ::
    "(bytes \<Rightarrow> string) \<Rightarrow> (string list \<Rightarrow> artifact) \<Rightarrow> string \<Rightarrow> string \<Rightarrow> string list \<Rightarrow>
      artifact_spec list \<Rightarrow> manifest_config \<Rightarrow> manifest_error + json" where
  "build_manifest sha arts epoch_id created_at project_dir artifacts cfg =
     bindr (artifact_entries sha arts project_dir artifacts []) (\<lambda>artifacts_dict.
       let record_counts = List.map_filter art_count artifacts;
           manifest = (\<lambda>consistency. JObj
             [(''version'', JInt 1), (''epoch_id'', JStr epoch_id), (''created_at'', JStr created_at),
              (''provider'', JStr (m_provider cfg)), (''model'', JStr (m_model cfg)),
              (''vector_dim'', JInt (m_vector_dim cfg)),
              (''quantization'', JStr (m_quantization cfg)),
              (''pipeline_version'', JStr (m_pipeline_version cfg)),
              (''input_type_enabled'', JBool (m_input_type_enabled cfg)),
              (''artifacts'', JObj artifacts_dict), (''consistency'', JObj consistency)])
       in (case record_counts of
             [] \<Rightarrow> Inr (manifest [])
           | n # ns \<Rightarrow>
               (if list_all (\<lambda>k. k = n) ns
                then Inr (manifest [(''all_artifacts_share_count'', JBool True),
                                    (''expected_count'', JInt (int n))])
                else Inl (CountMismatch (List.map_filter
                       (\<lambda>(name, e). map_option (Pair name) (entry_count e)) artifacts_dict)))))"

subsection \<open>Verification\<close>

datatype verify_error =
    NotAnObject
  | NoArtifacts
  | InvalidEntry string
  | InvalidPath string
  | InvalidSha string
  | MissingArtifact string
  | ShaMismatch string string string

text \<open>\<open>project_dir / rel\<close>: an absolute right operand replaces the left one.\<close>

definition locate :: "string list \<Rightarrow> string \<Rightarrow> string list" where
  "locate project_dir rel =
     (if starts_with rel ''/'' then path_parts rel else project_dir @ path_parts rel)"

definition nonempty_string :: "json option \<Rightarrow> string option" where
  "nonempty_string v = (case v of Some (JStr s) \<Rightarrow> (if s = [] then None else Some s) | _ \<Rightarrow> None)"

text \<open>
  \<open>Inl ()\<close> is the \<open>OSError\<close> of hashing an artifact that exists and cannot be read; it escapes
  from \<open>verify_manifest\<close>.
\<close>

fun verify_entries ::
    "(bytes \<Rightarrow> string) \<Rightarrow> (string list \<Rightarrow> artifact) \<Rightarrow> string list \<Rightarrow> (string \<times> json) list \<Rightarrow>
      unit + verify_error option" where
  "verify_entries sha arts project_dir [] = Inr None"
| "verify_entries sha arts project_dir ((name, entry) # rest) =
     (case entry of
        JObj ob \<Rightarrow>
          (case nonempty_string (jget ob ''path'') of
             None \<Rightarrow> Inr (Some (InvalidPath name))
           | Some rel \<Rightarrow>
               (case nonempty_string (jget ob ''sha256'') of
                  None \<Rightarrow> Inr (Some (InvalidSha name))
                | Some expected \<Rightarrow>
                    (case arts (locate project_dir rel) of
                       NoArtifact \<Rightarrow> Inr (Some (MissingArtifact rel))
                     | UnreadableArtifact \<Rightarrow> Inl ()
                     | Artifact b \<Rightarrow>
                         (if sha b \<noteq> expected then Inr (Some (ShaMismatch rel expected (sha b)))
                          else verify_entries sha arts project_dir rest))))
      | _ \<Rightarrow> Inr (Some (InvalidEntry name)))"

definition verify_manifest ::
    "(bytes \<Rightarrow> string) \<Rightarrow> (string list \<Rightarrow> artifact) \<Rightarrow> string list \<Rightarrow> json \<Rightarrow>
      unit + verify_error option" where
  "verify_manifest sha arts project_dir manifest =
     (case manifest of
        JObj ob \<Rightarrow>
          (case jget ob ''artifacts'' of
             Some (JObj entries) \<Rightarrow>
               (if entries = [] then Inr (Some NoArtifacts)
                else verify_entries sha arts project_dir entries)
           | _ \<Rightarrow> Inr (Some NoArtifacts))
      | _ \<Rightarrow> Inr (Some NotAnObject))"

subsection \<open>The manifest directory\<close>

text \<open>What opening and parsing a file gives: no file, an exception, or a JSON value.\<close>

datatype json_file = Absent | Unreadable | Holds json

record manifest_dir =
  current_file :: json_file
  prior_file :: json_file
  candidate_file :: json_file

definition is_verified ::
    "(bytes \<Rightarrow> string) \<Rightarrow> (string list \<Rightarrow> artifact) \<Rightarrow> string list \<Rightarrow> json_file \<Rightarrow> bool" where
  "is_verified sha arts project_dir f =
     (case f of Holds m \<Rightarrow> verify_manifest sha arts project_dir m = Inr None | _ \<Rightarrow> False)"

text \<open>
  The directory states a commit passes through, from its start to its end: the candidate opened
  for writing, written and flushed, the verified current renamed to prior, the candidate renamed
  to current.
\<close>

definition commit_states ::
    "(bytes \<Rightarrow> string) \<Rightarrow> (string list \<Rightarrow> artifact) \<Rightarrow> string list \<Rightarrow> json \<Rightarrow> manifest_dir \<Rightarrow>
      manifest_dir list" where
  "commit_states sha arts project_dir manifest dir =
     (let torn = dir\<lparr>candidate_file := Unreadable\<rparr>;
          written = dir\<lparr>candidate_file := Holds manifest\<rparr>;
          rotated = (if current_file written \<noteq> Absent \<and>
                        is_verified sha arts project_dir (current_file written)
                     then written\<lparr>prior_file := current_file written, current_file := Absent\<rparr>
                     else written);
          promoted = rotated\<lparr>current_file := candidate_file rotated, candidate_file := Absent\<rparr>
      in [dir, torn, written, rotated, promoted])"

definition commit_manifest ::
    "(bytes \<Rightarrow> string) \<Rightarrow> (string list \<Rightarrow> artifact) \<Rightarrow> string list \<Rightarrow> json \<Rightarrow> manifest_dir \<Rightarrow>
      manifest_dir" where
  "commit_manifest sha arts project_dir manifest dir =
     last (commit_states sha arts project_dir manifest dir)"

datatype freshness = Fresh | StaleUsingPrior | ManifestMissing | ManifestCorrupt

datatype current_problem = CurMissing | CurUnreadable | CurNull | CurFailed verify_error

datatype prior_problem = PriorMissing | PriorUnreadable | PriorFailed verify_error

record read_result =
  rr_manifest :: "json option"
  rr_freshness :: freshness
  rr_current :: "current_problem option"
  rr_prior :: "prior_problem option"

definition rr_ok :: "read_result \<Rightarrow> bool" where
  "rr_ok r \<longleftrightarrow> rr_manifest r \<noteq> None"

text \<open>A file that holds JSON \<open>null\<close> loads as \<open>None\<close>, the value that stands for no manifest.\<close>

definition read_prior_with ::
    "(bytes \<Rightarrow> string) \<Rightarrow> (string list \<Rightarrow> artifact) \<Rightarrow> string list \<Rightarrow> manifest_dir \<Rightarrow>
      current_problem \<Rightarrow> unit + read_result" where
  "read_prior_with sha arts project_dir dir cur =
     (let failed = (\<lambda>fr p. Inr \<lparr>rr_manifest = None, rr_freshness = fr, rr_current = Some cur,
                                rr_prior = Some p\<rparr>) in
      case prior_file dir of
        Unreadable \<Rightarrow> failed ManifestCorrupt PriorUnreadable
      | Absent \<Rightarrow> failed (if cur = CurMissing then ManifestMissing else ManifestCorrupt) PriorMissing
      | Holds prior \<Rightarrow>
          (if prior = JNull
           then failed (if cur = CurMissing then ManifestMissing else ManifestCorrupt) PriorMissing
           else (case verify_manifest sha arts project_dir prior of
                   Inl _ \<Rightarrow> Inl ()
                 | Inr None \<Rightarrow>
                     Inr \<lparr>rr_manifest = Some prior, rr_freshness = StaleUsingPrior,
                          rr_current = Some cur, rr_prior = None\<rparr>
                 | Inr (Some err) \<Rightarrow> failed ManifestCorrupt (PriorFailed err))))"

definition read_with_fallback ::
    "(bytes \<Rightarrow> string) \<Rightarrow> (string list \<Rightarrow> artifact) \<Rightarrow> string list \<Rightarrow> manifest_dir \<Rightarrow>
      unit + read_result" where
  "read_with_fallback sha arts project_dir dir =
     (case current_file dir of
        Absent \<Rightarrow> read_prior_with sha arts project_dir dir CurMissing
      | Unreadable \<Rightarrow> read_prior_with sha arts project_dir dir CurUnreadable
      | Holds current \<Rightarrow>
          (if current = JNull then read_prior_with sha arts project_dir dir CurNull
           else (case verify_manifest sha arts project_dir current of
                   Inl _ \<Rightarrow> Inl ()
                 | Inr None \<Rightarrow>
                     Inr \<lparr>rr_manifest = Some current, rr_freshness = Fresh, rr_current = None,
                          rr_prior = None\<rparr>
                 | Inr (Some err) \<Rightarrow> read_prior_with sha arts project_dir dir (CurFailed err))))"

definition cleanup_stale_candidate :: "manifest_dir \<Rightarrow> bool \<times> manifest_dir" where
  "cleanup_stale_candidate dir =
     (if candidate_file dir \<noteq> Absent then (True, dir\<lparr>candidate_file := Absent\<rparr>) else (False, dir))"

subsection \<open>Reading\<close>

definition usable ::
    "(bytes \<Rightarrow> string) \<Rightarrow> (string list \<Rightarrow> artifact) \<Rightarrow> string list \<Rightarrow> manifest_dir \<Rightarrow> bool" where
  "usable sha arts project_dir dir =
     (case read_with_fallback sha arts project_dir dir of Inl _ \<Rightarrow> False | Inr r \<Rightarrow> rr_ok r)"

definition all_readable :: "(string list \<Rightarrow> artifact) \<Rightarrow> bool" where
  "all_readable arts \<longleftrightarrow> (\<forall>p. arts p \<noteq> UnreadableArtifact)"

lemma verify_entries_returns: "all_readable arts \<Longrightarrow> verify_entries sha arts pd es \<noteq> Inl ()"
  by (induction es) (auto simp: all_readable_def split: json.splits option.splits artifact.splits if_splits)

lemma verify_returns: "all_readable arts \<Longrightarrow> verify_manifest sha arts pd m \<noteq> Inl ()"
  using verify_entries_returns
  by (auto simp: verify_manifest_def split: json.splits option.splits if_splits)

lemma verify_null [simp]: "verify_manifest sha arts pd JNull = Inr (Some NotAnObject)"
  by (simp add: verify_manifest_def)

lemma usable_iff:
  assumes "all_readable arts"
  shows "usable sha arts pd dir \<longleftrightarrow>
    is_verified sha arts pd (current_file dir) \<or> is_verified sha arts pd (prior_file dir)"
  using verify_returns [OF assms, of sha pd]
  by (auto simp: usable_def read_with_fallback_def read_prior_with_def is_verified_def rr_ok_def Let_def
      split: json_file.splits sum.splits option.splits if_splits)

lemma read_sound:
  "read_with_fallback sha arts pd dir = Inr r \<Longrightarrow> rr_manifest r = Some m \<Longrightarrow>
   verify_manifest sha arts pd m = Inr None \<and>
   (rr_freshness r = Fresh \<and> current_file dir = Holds m \<or>
    rr_freshness r = StaleUsingPrior \<and> prior_file dir = Holds m \<and>
      \<not> is_verified sha arts pd (current_file dir))"
  by (auto simp: read_with_fallback_def read_prior_with_def is_verified_def Let_def
      split: json_file.splits sum.splits option.splits if_splits)

subsection \<open>Commits and crashes\<close>

lemma commit_states_usable:
  assumes "all_readable arts" "usable sha arts pd dir" "s \<in> set (commit_states sha arts pd m dir)"
  shows "usable sha arts pd s"
  using assms(2,3) unfolding usable_iff [OF assms(1)]
  by (auto simp: commit_states_def Let_def is_verified_def split: if_splits)

text \<open>A run of commits, each possibly stopped by a crash, and of candidate clean-ups.\<close>

inductive epoch_step ::
    "(bytes \<Rightarrow> string) \<Rightarrow> (string list \<Rightarrow> artifact) \<Rightarrow> string list \<Rightarrow> manifest_dir \<Rightarrow> manifest_dir \<Rightarrow> bool"
  for sha arts pd where
  commit: "s' \<in> set (commit_states sha arts pd m s) \<Longrightarrow> epoch_step sha arts pd s s'"
| cleanup: "epoch_step sha arts pd s (snd (cleanup_stale_candidate s))"

lemma epoch_step_usable:
  "epoch_step sha arts pd s s' \<Longrightarrow> all_readable arts \<Longrightarrow> usable sha arts pd s \<Longrightarrow> usable sha arts pd s'"
proof (induction rule: epoch_step.induct)
  case (commit s' m s)
  then show ?case by (blast intro: commit_states_usable)
next
  case (cleanup s)
  then show ?case by (simp add: usable_iff cleanup_stale_candidate_def)
qed

text \<open>
  C9. Once a verified manifest can be read, no sequence of commits and clean-ups makes the epoch
  unreadable, however often a crash stops a commit half-way and whatever the candidate holds:
  reading still returns a manifest whose artifacts all match.
\<close>

theorem crashes_never_lose_epoch:
  assumes "(epoch_step sha arts project_dir)\<^sup>*\<^sup>* dir dir'"
    and "all_readable arts" "usable sha arts project_dir dir"
  shows "\<exists>r m. read_with_fallback sha arts project_dir dir' = Inr r \<and> rr_manifest r = Some m \<and>
    verify_manifest sha arts project_dir m = Inr None"
proof -
  have u: "usable sha arts project_dir dir'"
    using assms by (induction rule: rtranclp_induct) (auto intro: epoch_step_usable)
  then obtain r m where "read_with_fallback sha arts project_dir dir' = Inr r" "rr_manifest r = Some m"
    by (auto simp: usable_def rr_ok_def split: sum.splits)
  with read_sound [of sha arts project_dir dir' r m] show ?thesis by blast
qed

text \<open>
  C33. Reading never falls open: a returned manifest verifies and is the current one, or the prior
  one with a current that does not verify; and when nothing is returned, neither file holds a
  manifest that verifies.
\<close>

theorem read_never_falls_open:
  assumes "read_with_fallback sha arts project_dir dir = Inr r"
  shows "(case rr_manifest r of
      None \<Rightarrow> \<not> is_verified sha arts project_dir (current_file dir) \<and>
              \<not> is_verified sha arts project_dir (prior_file dir) \<and>
              rr_freshness r \<in> {ManifestMissing, ManifestCorrupt}
    | Some m \<Rightarrow> verify_manifest sha arts project_dir m = Inr None \<and>
        (rr_freshness r = Fresh \<and> current_file dir = Holds m \<or>
         rr_freshness r = StaleUsingPrior \<and> prior_file dir = Holds m \<and>
           \<not> is_verified sha arts project_dir (current_file dir)))"
proof (cases "rr_manifest r")
  case None
  with assms show ?thesis
    by (auto simp: read_with_fallback_def read_prior_with_def is_verified_def Let_def
        split: json_file.splits sum.splits option.splits if_splits)
next
  case (Some m)
  with read_sound [OF assms this] show ?thesis by simp
qed

subsection \<open>Building and committing\<close>

definition spec_ok :: "string list \<Rightarrow> artifact_spec \<Rightarrow> bool" where
  "spec_ok pd spec \<longleftrightarrow>
     list_all (\<lambda>n. ok_name n \<and> backslash \<notin> set n) (drop (length pd) (art_path spec))"

lemma split_slash_join:
  "\<forall>x\<in>set xs. CHR ''/'' \<notin> set x \<Longrightarrow> xs \<noteq> [] \<Longrightarrow> split_slash (join ''/'' xs) = xs"
proof (induction xs rule: induct_list012)
  case (2 x)
  then show ?case by (induction x) auto
next
  case (3 x y xs)
  have "split_slash (w @ CHR ''/'' # r) = w # split_slash r" if "CHR ''/'' \<notin> set w" for w r
    using that by (induction w) auto
  with 3 show ?case by simp
qed simp

lemma path_parts_join:
  assumes "\<forall>x\<in>set xs. ok_name x"
  shows "path_parts (relative_path xs) = xs"
proof (cases "xs = []")
  case False
  then have "split_slash (join ''/'' xs) = xs"
    using assms by (intro split_slash_join) (auto simp: ok_name_def)
  moreover have "filter (\<lambda>w. w \<noteq> [] \<and> w \<noteq> ''.'') xs = xs"
    using assms by (auto simp: ok_name_def filter_id_conv)
  ultimately show ?thesis using False by (simp add: path_parts_def relative_path_def)
qed (simp add: relative_path_def path_parts_def)

lemma relative_path_not_abs:
  "\<forall>x\<in>set xs. ok_name x \<Longrightarrow> relative_path xs \<noteq> [] \<and> \<not> starts_with (relative_path xs) ''/''"
  by (cases xs rule: list.exhaust; cases "hd xs"; cases "tl xs")
    (auto simp: relative_path_def starts_with_def ok_name_def)

lemma relative_path_chars:
  "set (relative_path xs) \<subseteq> {CHR ''/'', CHR ''.''} \<union> \<Union> (set ` set xs)"
proof -
  have "set (join ''/'' xs) \<subseteq> {CHR ''/''} \<union> \<Union> (set ` set xs)"
    by (induction xs rule: induct_list012) auto
  then show ?thesis by (auto simp: relative_path_def)
qed

lemma backslash_neq: "backslash \<noteq> CHR ''/''" "backslash \<noteq> CHR ''.''"
  by (simp_all add: backslash_def)

lemma relative_name_locate:
  assumes "spec_ok pd spec" "relative_name pd (art_path spec) = Some rel"
  shows "rel \<noteq> [] \<and> locate pd rel = art_path spec"
proof -
  let ?xs = "drop (length pd) (art_path spec)"
  have ok: "\<forall>x\<in>set ?xs. ok_name x" "\<forall>x\<in>set ?xs. backslash \<notin> set x"
    using assms(1) by (auto simp: spec_ok_def list_all_iff)
  have p: "art_path spec = pd @ ?xs"
    using assms(2) by (auto simp: relative_name_def prefix_def split: if_splits)
  have "\<forall>c\<in>set (relative_path ?xs). c \<noteq> backslash"
    using relative_path_chars [of ?xs] ok(2) backslash_neq by blast
  then have "map (\<lambda>c. if c = backslash then CHR ''/'' else c) (relative_path ?xs) = relative_path ?xs"
    by (intro map_idI) auto
  then have "rel = relative_path ?xs"
    using assms(2) by (auto simp: relative_name_def split: if_splits)
  with relative_path_not_abs [OF ok(1)] path_parts_join [OF ok(1)] p show ?thesis
    by (simp add: locate_def)
qed

text \<open>A dictionary entry that verification accepts.\<close>

definition entry_ok ::
    "(bytes \<Rightarrow> string) \<Rightarrow> (string list \<Rightarrow> artifact) \<Rightarrow> string list \<Rightarrow> json \<Rightarrow> bool" where
  "entry_ok sha arts pd e \<longleftrightarrow> (\<exists>rel b count size.
     e = JObj [(''path'', JStr rel), (''sha256'', JStr (sha b)), (''bytes'', size), (''count'', count)] \<and>
     rel \<noteq> [] \<and> sha b \<noteq> [] \<and> arts (locate pd rel) = Artifact b)"

lemma verify_entries_ok:
  "\<forall>e\<in>snd ` set es. entry_ok sha arts pd e \<Longrightarrow> verify_entries sha arts pd es = Inr None"
  by (induction es) (auto simp: entry_ok_def jget_def nonempty_string_def)

lemma artifact_entry_ok:
  "artifact_entry sha arts pd spec = Inr e \<Longrightarrow> spec_ok pd spec \<Longrightarrow> (\<And>b. sha b \<noteq> []) \<Longrightarrow>
   entry_ok sha arts pd e"
  using relative_name_locate [of pd spec]
  by (auto simp: artifact_entry_def entry_ok_def split: artifact.splits option.splits)

lemma artifact_entries_ok:
  assumes "artifact_entries sha arts pd specs d = Inr d'" "list_all (spec_ok pd) specs"
    and "\<And>b. sha b \<noteq> []" "\<forall>e\<in>snd ` set d. entry_ok sha arts pd e"
  shows "(\<forall>e\<in>snd ` set d'. entry_ok sha arts pd e) \<and> (specs \<noteq> [] \<or> d \<noteq> [] \<longrightarrow> d' \<noteq> [])"
  using assms(1,2,4)
proof (induction specs arbitrary: d)
  case (Cons spec specs)
  then obtain e where e: "artifact_entry sha arts pd spec = Inr e"
    "artifact_entries sha arts pd specs (dict_put (art_name spec) e d) = Inr d'"
    by (auto simp: bindr_Inr)
  have "entry_ok sha arts pd e" using artifact_entry_ok [OF e(1)] Cons.prems(2) assms(3) by simp
  then have "\<forall>e\<in>snd ` set (dict_put (art_name spec) e d). entry_ok sha arts pd e"
    using Cons.prems(3) by (auto dest!: dict_put_mem)
  from Cons.IH [OF e(2) _ this] Cons.prems(2) show ?case by simp
qed auto

lemma build_verifies:
  assumes "build_manifest sha arts ep ts pd specs cfg = Inr m" "specs \<noteq> []"
    and "list_all (spec_ok pd) specs" "\<And>b. sha b \<noteq> []"
  shows "verify_manifest sha arts pd m = Inr None"
proof -
  obtain d where d: "artifact_entries sha arts pd specs [] = Inr d"
    using assms(1) by (auto simp: build_manifest_def bindr_Inr)
  have "\<exists>ob. m = JObj ob \<and> jget ob ''artifacts'' = Some (JObj d)"
    using assms(1) d by (auto simp: build_manifest_def jget_def Let_def split: list.splits if_splits)
  then show ?thesis
    using artifact_entries_ok [OF d assms(3,4)] assms(2) verify_entries_ok [of d sha arts pd]
    by (auto simp: verify_manifest_def)
qed

text \<open>
  C32. A manifest built over readable artifacts inside the project and committed is what readers
  get, as fresh, whatever the manifest directory held; the previous current manifest is kept as
  the fallback when it verified, and otherwise the fallback stays what it was.
\<close>

theorem built_manifest_is_served_fresh:
  assumes "build_manifest sha arts epoch_id created_at project_dir specs cfg = Inr m"
    and "specs \<noteq> []" "list_all (spec_ok project_dir) specs" "\<And>b. sha b \<noteq> []"
  shows "(let dir' = commit_manifest sha arts project_dir m dir in
    read_with_fallback sha arts project_dir dir' =
      Inr \<lparr>rr_manifest = Some m, rr_freshness = Fresh, rr_current = None, rr_prior = None\<rparr> \<and>
    prior_file dir' = (if is_verified sha arts project_dir (current_file dir) then current_file dir
                       else prior_file dir) \<and>
    candidate_file dir' = Absent)"
proof -
  have v: "verify_manifest sha arts project_dir m = Inr None"
    by (rule build_verifies [OF assms])
  then have "m \<noteq> JNull" by auto
  with v show ?thesis
    by (auto simp: commit_manifest_def commit_states_def read_with_fallback_def Let_def is_verified_def)
qed

text \<open>
  The consistency check: a manifest is built only when all record-bearing artifacts share
  one record count, and it records that count.
\<close>

lemma build_requires_equal_counts:
  assumes "build_manifest sha arts epoch_id created_at project_dir specs cfg = Inr m"
    and "spec \<in> set specs" "art_count spec = Some n" "spec' \<in> set specs" "art_count spec' = Some n'"
  shows "n = n' \<and> (\<exists>ob c. m = JObj ob \<and> jget ob ''consistency'' = Some (JObj c) \<and>
    jget c ''expected_count'' = Some (JInt (int n)))"
proof -
  have "n \<in> set (List.map_filter art_count specs)" "n' \<in> set (List.map_filter art_count specs)"
    using assms(2-5) by (force simp: List.map_filter_def)+
  then obtain k ks where k: "List.map_filter art_count specs = k # ks"
    "n \<in> set (k # ks)" "n' \<in> set (k # ks)"
    by (cases "List.map_filter art_count specs") auto
  have all: "list_all (\<lambda>i. i = k) ks"
    using assms(1) k(1) by (auto simp: build_manifest_def bindr_Inr split: if_splits)
  then have "n = k" "n' = k" using k(2,3) by (auto simp: list_all_iff)
  then show ?thesis
    using assms(1) k(1) all by (auto simp: build_manifest_def bindr_Inr jget_def Let_def)
qed

subsection \<open>Instances\<close>

definition demo_arts :: "string list \<Rightarrow> artifact" where
  "demo_arts p = (if p = [''p'', ''chunks.pkl''] then Artifact ''abc''
     else if p = [''p'', ''meta.db''] then Artifact ''xyz'' else NoArtifact)"

definition demo_specs :: "artifact_spec list" where
  "demo_specs =
     [\<lparr>art_name = ''chunks'', art_path = [''p'', ''chunks.pkl''], art_count = Some 3\<rparr>,
      \<lparr>art_name = ''meta'', art_path = [''p'', ''meta.db''], art_count = Some 3\<rparr>]"

definition demo_cfg :: manifest_config where
  "demo_cfg = \<lparr>m_provider = ''voyage'', m_model = ''m'', m_vector_dim = 4, m_quantization = [],
     m_pipeline_version = [], m_input_type_enabled = True\<rparr>"

definition demo_manifest :: json where
  "demo_manifest =
     (case build_manifest demo_sha demo_arts ''e1'' ''t'' [''p''] demo_specs demo_cfg of
        Inr m \<Rightarrow> m | Inl _ \<Rightarrow> JNull)"

lemma demo_build:
  "build_manifest demo_sha demo_arts ''e1'' ''t'' [''p''] demo_specs demo_cfg = Inr demo_manifest"
  by code_simp

lemma demo_specs_ok: "demo_specs \<noteq> []" "list_all (spec_ok [''p'']) demo_specs"
  by code_simp+

lemma demo_sha_nonempty: "demo_sha b \<noteq> []"
  by (simp add: demo_sha_def)

definition demo_dir :: manifest_dir where
  "demo_dir = \<lparr>current_file = Holds demo_manifest, prior_file = Absent, candidate_file = Absent\<rparr>"

theorem crash_witness:
  "\<exists>r m. read_with_fallback demo_sha demo_arts [''p'']
      (commit_states demo_sha demo_arts [''p''] JNull demo_dir ! 3) = Inr r \<and> rr_manifest r = Some m"
proof -
  have a: "all_readable demo_arts" by (simp add: all_readable_def demo_arts_def)
  have u: "usable demo_sha demo_arts [''p''] demo_dir" by code_simp
  have "commit_states demo_sha demo_arts [''p''] JNull demo_dir ! 3 \<in>
      set (commit_states demo_sha demo_arts [''p''] JNull demo_dir)"
    by (rule nth_mem) (simp add: commit_states_def Let_def)
  then have "(epoch_step demo_sha demo_arts [''p''])\<^sup>*\<^sup>* demo_dir
      (commit_states demo_sha demo_arts [''p''] JNull demo_dir ! 3)"
    by (intro r_into_rtranclp epoch_step.commit)
  from crashes_never_lose_epoch [OF this a u] show ?thesis by blast
qed

theorem read_witness:
  "verify_manifest demo_sha demo_arts [''p''] demo_manifest = Inr None \<and>
   current_file demo_dir = Holds demo_manifest"
proof -
  have "read_with_fallback demo_sha demo_arts [''p''] demo_dir =
      Inr \<lparr>rr_manifest = Some demo_manifest, rr_freshness = Fresh, rr_current = None, rr_prior = None\<rparr>"
    by code_simp
  from read_never_falls_open [OF this] show ?thesis by simp
qed

theorem fresh_witness:
  "read_with_fallback demo_sha demo_arts [''p''] (commit_manifest demo_sha demo_arts [''p'']
      demo_manifest \<lparr>current_file = Unreadable, prior_file = Absent, candidate_file = Unreadable\<rparr>) =
   Inr \<lparr>rr_manifest = Some demo_manifest, rr_freshness = Fresh, rr_current = None, rr_prior = None\<rparr>"
  using built_manifest_is_served_fresh [OF demo_build demo_specs_ok demo_sha_nonempty,
      of "\<lparr>current_file = Unreadable, prior_file = Absent, candidate_file = Unreadable\<rparr>"]
  by (simp add: Let_def)

lemma counts_witness:
  "\<exists>ob c. demo_manifest = JObj ob \<and> jget ob ''consistency'' = Some (JObj c) \<and>
    jget c ''expected_count'' = Some (JInt 3)"
  using build_requires_equal_counts [OF demo_build, of "hd demo_specs" 3 "demo_specs ! 1" 3]
  by (auto simp: demo_specs_def)

end
