(* ===== verification/ChunkMerge.thy ===== *)
theory ChunkMerge
  imports ChangeDetect "HOL-Library.Product_Lexorder"
begin

text \<open>
  The merge pass of \<open>chunking/chunk_merging.py\<close> over the chunks of one file
  (\<open>chunking/code_chunk.py\<close>): the containment forest, gap segments, greedy packing with the hole
  rule, the metadata of a merged chunk, and the recursion over containment levels.

  Line numbers are \<^typ>\<open>int\<close> as in Python and slices are Python slices. A string here is a list
  of code points below 256. The set of tags is a duplicate-free list, in order of first occurrence
  where Python's \<open>list(set)\<close> leaves the order open.
\<close>

subsection \<open>Chunks and text\<close>

record code_chunk =
  c_content :: string
  c_type :: string
  c_start :: int
  c_end :: int
  c_file :: string
  c_rel :: string
  c_folders :: "string list"
  c_name :: "string option"
  c_parent :: "string option"
  c_doc :: "string option"
  c_decorators :: "string list"
  c_imports :: "string list"
  c_complexity :: int
  c_tags :: "string list"

text \<open>\<open>CodeChunk.__post_init__\<close>; the parts of an absolute path begin with its root.\<close>

definition post_init :: "code_chunk \<Rightarrow> code_chunk" where
  "post_init c =
     (if c_file c \<noteq> [] \<and> c_folders c = []
      then c\<lparr>c_folders := (if starts_with (c_rel c) ''/'' then [''/''] else []) @ butlast (path_parts (c_rel c))\<rparr>
      else c)"

definition is_space :: "char \<Rightarrow> bool" where
  "is_space c =
     (let n = (of_char c :: nat) in
      9 \<le> n \<and> n \<le> 13 \<or> 28 \<le> n \<and> n \<le> 32 \<or> n = 133 \<or> n = 160)"

definition nws_count :: "string \<Rightarrow> nat" where
  "nws_count text = length (filter (\<lambda>c. \<not> is_space c) text)"

text \<open>\<open>bool(text.strip())\<close>.\<close>

definition has_text :: "string \<Rightarrow> bool" where
  "has_text text \<longleftrightarrow> list_ex (\<lambda>c. \<not> is_space c) text"

fun split_lines :: "string \<Rightarrow> string list" where
  "split_lines [] = [[]]"
| "split_lines (c # s) =
     (if c = newline then [] # split_lines s
      else (case split_lines s of [] \<Rightarrow> [[c]] | w # ws \<Rightarrow> (c # w) # ws))"

definition join_lines :: "string list \<Rightarrow> string" where
  "join_lines ls = join [newline] ls"

definition max_chunk_nws :: nat where
  "max_chunk_nws = 2500"

subsection \<open>The containment forest\<close>

definition contains :: "code_chunk \<Rightarrow> code_chunk \<Rightarrow> bool" where
  "contains parent child \<longleftrightarrow>
     c_start parent \<le> c_start child \<and> c_end child \<le> c_end parent \<and>
     (c_start parent < c_start child \<or> c_end child < c_end parent)"

datatype forest_node = FNode (fchunk: code_chunk) (fchildren: "forest_node list")

text \<open>
  The stack holds the open nodes, innermost first, each with the children it has so far. Popping
  a node hands it to the node below it, or to the roots.
\<close>

type_synonym open_node = "code_chunk \<times> forest_node list"

fun close_until ::
    "(code_chunk \<Rightarrow> bool) \<Rightarrow> forest_node list \<Rightarrow> open_node list \<Rightarrow> forest_node list \<times> open_node list" where
  "close_until keep roots [] = (roots, [])"
| "close_until keep roots [(c, kids)] =
     (if keep c then (roots, [(c, kids)]) else (roots @ [FNode c kids], []))"
| "close_until keep roots ((c, kids) # (p, pkids) # rest) =
     (if keep c then (roots, (c, kids) # (p, pkids) # rest)
      else close_until keep roots ((p, pkids @ [FNode c kids]) # rest))"

definition open_chunk ::
    "code_chunk \<Rightarrow> forest_node list \<times> open_node list \<Rightarrow> forest_node list \<times> open_node list" where
  "open_chunk chunk state =
     (case close_until (\<lambda>c. contains c chunk) (fst state) (snd state) of
        (roots, stack) \<Rightarrow> (roots, (chunk, []) # stack))"

definition build_forest :: "code_chunk list \<Rightarrow> forest_node list" where
  "build_forest chunks =
     (case fold open_chunk chunks ([], []) of
        (roots, stack) \<Rightarrow> fst (close_until (\<lambda>_. False) roots stack))"

subsection \<open>Segments and packing\<close>

record segment =
  s_content :: string
  s_start :: int
  s_end :: int
  s_type :: string
  s_name :: "string option"
  s_tags :: "string list"
  s_is_gap :: bool
  s_original :: "code_chunk option"

definition s_nws :: "segment \<Rightarrow> nat" where
  "s_nws s = nws_count (s_content s)"

definition gap_segment :: "string \<Rightarrow> int \<Rightarrow> int \<Rightarrow> string list \<Rightarrow> segment list" where
  "gap_segment text start_line end_line tags =
     (if has_text text
      then [\<lparr>s_content = text, s_start = start_line, s_end = end_line, s_type = ''module_level'',
             s_name = None, s_tags = tags, s_is_gap = True, s_original = None\<rparr>]
      else [])"

definition chunk_segment :: "code_chunk \<Rightarrow> segment" where
  "chunk_segment c =
     \<lparr>s_content = c_content c, s_start = c_start c, s_end = c_end c, s_type = c_type c,
      s_name = c_name c, s_tags = c_tags c, s_is_gap = False, s_original = Some c\<rparr>"

text \<open>The loop over the chunks; it hands back the last covered line and the segments.\<close>

fun chunk_segments :: "string list \<Rightarrow> bool \<Rightarrow> int \<Rightarrow> code_chunk list \<Rightarrow> int \<times> segment list" where
  "chunk_segments source_lines capture_gaps last_end [] = (last_end, [])"
| "chunk_segments source_lines capture_gaps last_end (c # cs) =
     (let gap = (if capture_gaps \<and> last_end < c_start c - 1
                 then gap_segment (join_lines (py_slice source_lines last_end (c_start c - 1)))
                        (last_end + 1) (c_start c - 1) (c_tags c)
                 else []);
          (last', segs) = chunk_segments source_lines capture_gaps (max last_end (c_end c)) cs
      in (last', gap @ chunk_segment c # segs))"

definition level_segments :: "string list \<Rightarrow> bool \<Rightarrow> int \<Rightarrow> int \<Rightarrow> code_chunk list \<Rightarrow> segment list" where
  "level_segments source_lines capture_gaps region_start region_end chunks =
     (let (last_end, segs) = chunk_segments source_lines capture_gaps (region_start - 1) chunks in
      segs @ (if capture_gaps \<and> last_end < region_end
              then gap_segment (join_lines (py_slice_from source_lines last_end)) (last_end + 1)
                     region_end (case chunks of [] \<Rightarrow> [] | c # _ \<Rightarrow> c_tags c)
              else []))"

definition hole_has_content :: "string list \<Rightarrow> int \<Rightarrow> int \<Rightarrow> bool" where
  "hole_has_content source_lines max_end seg_start \<longleftrightarrow>
     max_end + 1 < seg_start \<and> has_text (join_lines (py_slice source_lines max_end (seg_start - 1)))"

fun pack_segments ::
    "string list \<Rightarrow> nat \<Rightarrow> segment list \<Rightarrow> nat \<Rightarrow> int \<Rightarrow> segment list \<Rightarrow> segment list list" where
  "pack_segments source_lines max_nws grp nws max_end [] = [grp]"
| "pack_segments source_lines max_nws grp nws max_end (seg # segs) =
     (if nws + s_nws seg \<le> max_nws \<and> \<not> hole_has_content source_lines max_end (s_start seg)
      then pack_segments source_lines max_nws (grp @ [seg]) (nws + s_nws seg)
             (max max_end (s_end seg)) segs
      else grp # pack_segments source_lines max_nws [seg] (s_nws seg) (max 0 (s_end seg)) segs)"

subsection \<open>Merged chunks\<close>

definition truthy :: "string option \<Rightarrow> bool" where
  "truthy s \<longleftrightarrow> s \<noteq> None \<and> s \<noteq> Some []"

definition first_truthy :: "string option list \<Rightarrow> string option" where
  "first_truthy xs = (case filter truthy xs of [] \<Rightarrow> None | x # _ \<Rightarrow> x)"

definition originals :: "segment list \<Rightarrow> code_chunk list" where
  "originals grp = List.map_filter (\<lambda>s. if s_is_gap s then None else s_original s) grp"

definition merged_type :: "string list \<Rightarrow> string" where
  "merged_type types =
     (case remdups (filter (\<lambda>t. t \<noteq> ''module_level'') types) of
        [] \<Rightarrow> ''module_level''
      | [t] \<Rightarrow> t
      | _ \<Rightarrow> ''merged'')"

definition merged_tags :: "segment list \<Rightarrow> string list" where
  "merged_tags grp =
     (let named = length (filter (\<lambda>c. truthy (c_name c)) (originals grp));
          all_tags = concat (map s_tags grp) @ (if 2 \<le> named then [''multi_chunk_merge''] else [])
      in dedup_from {} id all_tags)"

definition merged_name :: "segment list \<Rightarrow> string option" where
  "merged_name grp =
     (let names = List.map_filter (\<lambda>s. if truthy (s_name s) then s_name s else None) grp in
      if names = [] then None else Some (join '' + '' names))"

definition group_end :: "segment list \<Rightarrow> int" where
  "group_end grp = Max (set (map s_end grp))"

definition emit_group ::
    "string list \<Rightarrow> string \<Rightarrow> string \<Rightarrow> string list \<Rightarrow> segment list \<Rightarrow> code_chunk" where
  "emit_group source_lines file_path rel folders grp =
     (case (grp, map s_original grp, map s_is_gap grp) of
        ([_], [Some c], [False]) \<Rightarrow> c
      | _ \<Rightarrow>
        (let start_line = s_start (hd grp); end_line = group_end grp; os = originals grp in
         post_init
           \<lparr>c_content = join_lines (py_slice source_lines (start_line - 1) end_line),
            c_type = merged_type (map s_type grp), c_start = start_line, c_end = end_line,
            c_file = file_path, c_rel = rel, c_folders = folders, c_name = merged_name grp,
            c_parent = first_truthy (map c_parent os), c_doc = first_truthy (map c_doc os),
            c_decorators = concat (map c_decorators os), c_imports = [], c_complexity = 0,
            c_tags = merged_tags grp\<rparr>))"

definition merge_siblings ::
    "string list \<Rightarrow> string \<Rightarrow> string \<Rightarrow> string list \<Rightarrow> nat \<Rightarrow> bool \<Rightarrow> int \<Rightarrow> int \<Rightarrow>
      code_chunk list \<Rightarrow> code_chunk list" where
  "merge_siblings source_lines file_path rel folders max_nws capture_gaps lo hi chunks =
     (case level_segments source_lines capture_gaps lo hi chunks of
        [] \<Rightarrow> chunks
      | seg # segs \<Rightarrow>
          map (emit_group source_lines file_path rel folders)
            (pack_segments source_lines max_nws [seg] (s_nws seg) (s_end seg) segs))"

lemma children_smaller:
  "n \<in> set ns \<Longrightarrow> size_list size (fchildren n) < size_list size (ns :: forest_node list)"
proof -
  assume "n \<in> set ns"
  then have "size n \<le> size_list size ns" by (simp add: size_list_estimation')
  moreover have "size_list size (fchildren n) < size n" by (cases n) simp
  ultimately show ?thesis by simp
qed

function emit_level ::
    "(bool \<Rightarrow> int \<Rightarrow> int \<Rightarrow> code_chunk list \<Rightarrow> code_chunk list) \<Rightarrow> forest_node list \<Rightarrow> int \<Rightarrow> int \<Rightarrow>
      bool \<Rightarrow> code_chunk list" where
  "emit_level merge ns lo hi capture_gaps =
     merge capture_gaps lo hi (map fchunk ns) @
     concat (map (\<lambda>n.
       if fchildren n = [] then []
       else emit_level merge (fchildren n)
              (Min (set (map (c_start \<circ> fchunk) (fchildren n))))
              (Max (set (map (c_end \<circ> fchunk) (fchildren n)))) False) ns)"
  by pat_completeness auto
termination
  by (relation "measure (\<lambda>(_, ns, _). size_list size ns)") (auto simp: children_smaller)

declare emit_level.simps [simp del]

definition merge_file_chunks ::
    "code_chunk list \<Rightarrow> string \<Rightarrow> string \<Rightarrow> string \<Rightarrow> string list \<Rightarrow> nat \<Rightarrow> code_chunk list" where
  "merge_file_chunks chunks source_code file_path rel folders max_nws =
     (if chunks = [] \<and> \<not> has_text source_code then []
      else
        (let source_lines = split_lines source_code;
             sorted = sort_key (\<lambda>c. (c_start c, - c_end c)) chunks;
             merge = merge_siblings source_lines file_path rel folders max_nws
         in sort_key (\<lambda>c. (c_start c, c_end c))
              (emit_level merge (build_forest sorted) 1 (int (length source_lines)) True)))"

end
