(* ===== verification/Chunk_Coverage.thy ===== *)
theory Chunk_Coverage
  imports ChunkMerge
begin

text \<open>
  What the merge pass keeps of a file: the containment forest holds the sorted chunks in
  pre-order; every line with text and every input chunk lies within an output chunk; merged
  chunks stay within the budget; disjoint input gives disjoint output.
\<close>

subsection \<open>Text of slices\<close>

lemma newline_space [simp]: "is_space newline"
  by (simp add: is_space_def newline_def)

lemma has_text_join: "has_text (join_lines ls) \<longleftrightarrow> (\<exists>l\<in>set ls. has_text l)"
  unfolding join_lines_def
  by (induction ls rule: induct_list012) (auto simp: has_text_def list_ex_iff)

lemma has_text_nil [simp]: "\<not> has_text []"
  by (simp add: has_text_def)

lemma nws_join: "nws_count (join_lines ls) = sum_list (map nws_count ls)"
  unfolding join_lines_def
  by (induction ls rule: induct_list012) (auto simp: nws_count_def)

lemma nws_blank: "\<not> has_text s \<Longrightarrow> nws_count s = 0"
  by (auto simp: has_text_def nws_count_def list_ex_iff filter_empty_conv)

text \<open>The source line with (1-based) number \<open>l\<close>.\<close>

definition line :: "string list \<Rightarrow> int \<Rightarrow> string" where
  "line ls l = (if 1 \<le> l \<and> l \<le> int (length ls) then ls ! nat (l - 1) else [])"

lemma slice_lines:
  assumes "0 \<le> a" "a \<le> b" "b \<le> int (length ls)"
  shows "py_slice ls a b = map (line ls) [a + 1 .. b]"
proof (rule nth_equalityI)
  show len: "length (py_slice ls a b) = length (map (line ls) [a + 1 .. b])"
    using assms by (simp add: py_slice_nonneg)
  fix i assume "i < length (py_slice ls a b)"
  then have i: "i < nat (b - a)" using len by simp
  then have "py_slice ls a b ! i = ls ! (nat a + i)"
    using assms by (simp add: py_slice_nonneg nat_diff_distrib)
  moreover have "[a + 1 .. b] ! i = a + 1 + int i"
    using i by (intro nth_upto) simp
  moreover have "nat (a + int i) = nat a + i" using assms(1) by (simp add: nat_add_distrib)
  ultimately show "py_slice ls a b ! i = map (line ls) [a + 1 .. b] ! i"
    using i assms by (simp add: line_def)
qed

lemma slice_from_lines:
  assumes "0 \<le> a" "a \<le> int (length ls)"
  shows "py_slice_from ls a = map (line ls) [a + 1 .. int (length ls)]"
proof -
  have "py_slice_from ls a = py_slice ls a (int (length ls))"
    using assms by (simp add: py_slice_from_def py_slice_def py_clip_def Let_def)
  then show ?thesis using slice_lines [OF assms order_refl] by simp
qed

lemma slice_text:
  assumes "0 \<le> a" "a \<le> b" "b \<le> int (length ls)"
  shows "has_text (join_lines (py_slice ls a b)) \<longleftrightarrow> (\<exists>l. a < l \<and> l \<le> b \<and> has_text (line ls l))"
  unfolding has_text_join slice_lines [OF assms] by force

subsection \<open>The forest\<close>

fun flat :: "forest_node \<Rightarrow> code_chunk list" where
  "flat (FNode c kids) = c # concat (map flat kids)"

definition flats :: "forest_node list \<Rightarrow> code_chunk list" where
  "flats ns = concat (map flat ns)"

definition state_flat :: "forest_node list \<times> open_node list \<Rightarrow> code_chunk list" where
  "state_flat st = flats (fst st) @ concat (map (\<lambda>(c, kids). c # flats kids) (rev (snd st)))"

lemma close_until_flat: "state_flat (close_until keep roots stack) = state_flat (roots, stack)"
  by (induction keep roots stack rule: close_until.induct) (auto simp: state_flat_def flats_def)

lemma close_all_empty: "snd (close_until (\<lambda>_. False) roots stack) = []"
  by (induction "\<lambda>_::code_chunk. False" roots stack rule: close_until.induct) auto

lemma open_chunk_flat: "state_flat (open_chunk c st) = state_flat st @ [c]"
proof -
  obtain r s where "close_until (\<lambda>d. contains d c) (fst st) (snd st) = (r, s)" by fastforce
  then show ?thesis
    using close_until_flat [of "\<lambda>d. contains d c" "fst st" "snd st"]
    by (simp add: open_chunk_def state_flat_def flats_def)
qed

lemma build_forest_flat: "flats (build_forest cs) = cs"
proof -
  have f: "state_flat (fold open_chunk cs st) = state_flat st @ cs" for st
    by (induction cs arbitrary: st) (simp_all add: open_chunk_flat)
  obtain r s where rs: "fold open_chunk cs ([], []) = (r, s)" by fastforce
  have "state_flat (close_until (\<lambda>_. False) r s) = cs"
    using f [of "([], [])"] rs by (simp add: close_until_flat) (simp add: state_flat_def flats_def)
  then show ?thesis
    using close_all_empty [of r s] rs by (simp add: build_forest_def state_flat_def)
qed

lemma flat_cons: "flat n = fchunk n # flats (fchildren n)"
  by (cases n) (simp add: flats_def)

lemma flats_simps [simp]: "flats [] = []" "flats (n # ns) = flat n @ flats ns"
  by (simp_all add: flats_def)

lemma fchunks_subseq: "subseq (map fchunk ns) (flats ns)"
  by (induction ns) (auto simp: flat_cons intro: subseq_drop_many)

lemma flat_subseq: "n \<in> set ns \<Longrightarrow> subseq (flats (fchildren n)) (flats ns)"
proof (induction ns)
  case (Cons m ns)
  then show ?case
    by (auto simp: flat_cons intro: subseq_drop_many)
qed simp

subsection \<open>Segments of a level\<close>

definition seg_ok :: "int \<Rightarrow> segment \<Rightarrow> bool" where
  "seg_ok n s \<longleftrightarrow> 1 \<le> s_start s \<and> s_start s \<le> s_end s \<and> s_end s \<le> n \<and>
     (case s_original s of None \<Rightarrow> s_is_gap s | Some c \<Rightarrow> s = chunk_segment c)"

definition chunk_ok :: "int \<Rightarrow> code_chunk \<Rightarrow> bool" where
  "chunk_ok n c \<longleftrightarrow> 1 \<le> c_start c \<and> c_start c \<le> c_end c \<and> c_end c \<le> n"

lemma chunk_segment_simps [simp]:
  "s_start (chunk_segment c) = c_start c" "s_end (chunk_segment c) = c_end c"
  "s_content (chunk_segment c) = c_content c" "s_is_gap (chunk_segment c) = False"
  "s_original (chunk_segment c) = Some c"
  by (simp_all add: chunk_segment_def)

lemma gap_segment_iff:
  "s \<in> set (gap_segment text a b tags) \<longleftrightarrow> has_text text \<and>
     s = \<lparr>s_content = text, s_start = a, s_end = b, s_type = ''module_level'', s_name = None,
          s_tags = tags, s_is_gap = True, s_original = None\<rparr>"
  by (auto simp: gap_segment_def)

lemma chunk_segments_chunks:
  "c \<in> set cs \<Longrightarrow> chunk_segment c \<in> set (snd (chunk_segments ls cap lst cs))"
  by (induction ls cap lst cs rule: chunk_segments.induct) (auto split: prod.splits)

lemma chunk_segments_last:
  "lst \<le> fst (chunk_segments ls cap lst cs)"
  "\<forall>c\<in>set cs. c_end c \<le> n \<Longrightarrow> lst \<le> n \<Longrightarrow> fst (chunk_segments ls cap lst cs) \<le> n"
  by (induction ls cap lst cs rule: chunk_segments.induct) (auto split: prod.splits)

lemma chunk_segments_ok:
  assumes "\<forall>c\<in>set cs. chunk_ok n c" "0 \<le> lst" "s \<in> set (snd (chunk_segments ls cap lst cs))"
  shows "seg_ok n s"
  using assms
proof (induction ls cap lst cs rule: chunk_segments.induct)
  case (2 ls cap lst c cs)
  have "0 \<le> max lst (c_end c)" using 2(3) by simp
  with 2 show ?case
    by (auto simp: seg_ok_def chunk_ok_def gap_segment_iff split: prod.splits if_splits)
qed simp

lemma chunk_segments_sorted:
  assumes "\<forall>c\<in>set cs. chunk_ok n c \<and> b \<le> c_start c" "b \<le> lst + 1" "sorted (map c_start cs)"
  shows "sorted (map s_start (snd (chunk_segments ls cap lst cs))) \<and>
    (\<forall>s\<in>set (snd (chunk_segments ls cap lst cs)). b \<le> s_start s)"
  using assms
proof (induction ls cap lst cs arbitrary: b rule: chunk_segments.induct)
  case (2 ls cap lst c cs)
  obtain l' segs where r: "chunk_segments ls cap (max lst (c_end c)) cs = (l', segs)" by fastforce
  have "sorted (map s_start segs) \<and> (\<forall>s\<in>set segs. c_start c \<le> s_start s)"
    using "2.IH" [OF refl, of "c_start c"] "2.prems" r by (force simp: chunk_ok_def)
  then show ?case
    using "2.prems" r by (auto simp: gap_segment_def Let_def)
qed simp

lemma chunk_segments_below:
  assumes "\<forall>c\<in>set cs. chunk_ok n c" "s \<in> set (snd (chunk_segments ls cap lst cs))"
  shows "s_start s \<le> fst (chunk_segments ls cap lst cs)"
  using assms
proof (induction ls cap lst cs rule: chunk_segments.induct)
  case (2 ls cap lst c cs)
  have "max lst (c_end c) \<le> fst (chunk_segments ls cap (max lst (c_end c)) cs)"
    by (rule chunk_segments_last)
  with 2 show ?case
    by (auto simp: gap_segment_iff chunk_ok_def split: prod.splits if_splits)
qed simp

lemma chunk_segments_cover:
  assumes "\<forall>c\<in>set cs. chunk_ok (int (length ls)) c" "0 \<le> lst" "lst < l" "l \<le> fst (chunk_segments ls True lst cs)"
    and "has_text (line ls l)"
  shows "\<exists>s\<in>set (snd (chunk_segments ls True lst cs)). s_start s \<le> l \<and> l \<le> s_end s"
  using assms
proof (induction ls True lst cs rule: chunk_segments.induct)
  case (2 ls lst c cs)
  obtain l' segs where r: "chunk_segments ls True (max lst (c_end c)) cs = (l', segs)" by fastforce
  consider (later) "max lst (c_end c) < l" | (here) "c_start c \<le> l" "l \<le> c_end c" | (gap) "l \<le> c_start c - 1"
    using 2(4) by linarith
  then show ?case
  proof cases
    case later
    with 2 r show ?thesis by fastforce
  next
    case here
    with r show ?thesis by (auto simp: Let_def)
  next
    case gap
    have c: "c_start c - 1 \<le> int (length ls)" using 2(2) by (auto simp: chunk_ok_def)
    have "has_text (join_lines (py_slice ls lst (c_start c - 1)))"
      using slice_text [OF 2(3) _ c] gap 2(4,6) by force
    with gap 2(4) r show ?thesis by (auto simp: Let_def gap_segment_def)
  qed
qed simp


lemma chunk_segments_mem:
  "s \<in> set (snd (chunk_segments ls cap lst cs)) \<Longrightarrow>
   (\<exists>c\<in>set cs. s = chunk_segment c) \<or> s_original s = None \<and> s_name s = None \<and> s_type s = ''module_level''"
  by (induction ls cap lst cs rule: chunk_segments.induct)
    (auto simp: gap_segment_iff split: prod.splits if_splits)

lemma level_segments_mem:
  "s \<in> set (level_segments ls cap lo hi cs) \<Longrightarrow>
   (\<exists>c\<in>set cs. s = chunk_segment c) \<or> s_original s = None \<and> s_name s = None \<and> s_type s = ''module_level''"
  using chunk_segments_mem [of s ls cap "lo - 1" cs]
  by (auto simp: level_segments_def gap_segment_iff case_prod_beta split: if_splits)

lemma level_segment_chunk: "chunk_segment c \<in> set (level_segments ls cap lo hi cs) \<Longrightarrow> c \<in> set cs"
  using level_segments_mem [of "chunk_segment c" ls cap lo hi cs] by (force simp: chunk_segment_def)

lemma level_segment_gap:
  "s_original s = None \<Longrightarrow> s \<in> set (level_segments ls cap lo hi cs) \<Longrightarrow>
   s_name s = None \<and> s_type s = ''module_level''"
  using level_segments_mem [of s ls cap lo hi cs] by force

subsection \<open>Packing\<close>

lemma pack_concat: "concat (pack_segments ls m grp nws e segs) = grp @ segs"
  by (induction ls m grp nws e segs rule: pack_segments.induct) auto

lemma pack_nonempty: "grp \<noteq> [] \<Longrightarrow> [] \<notin> set (pack_segments ls m grp nws e segs)"
  by (induction ls m grp nws e segs rule: pack_segments.induct) auto

lemma pack_join:
  "nws + s_nws seg \<le> m \<and> \<not> hole_has_content ls e (s_start seg) \<Longrightarrow>
   pack_segments ls m grp nws e (seg # segs) =
     pack_segments ls m (grp @ [seg]) (nws + s_nws seg) (max e (s_end seg)) segs"
  by simp

lemma pack_split:
  "\<not> (nws + s_nws seg \<le> m \<and> \<not> hole_has_content ls e (s_start seg)) \<Longrightarrow>
   pack_segments ls m grp nws e (seg # segs) =
     grp # pack_segments ls m [seg] (s_nws seg) (max 0 (s_end seg)) segs"
  by auto

text \<open>The shape every invariant proof of the packing loop shares.\<close>

lemma pack_invariant:
  assumes "P grp nws e" "g \<in> set (pack_segments ls m grp nws e segs)"
    and "\<And>grp nws e seg. P grp nws e \<Longrightarrow> seg \<in> set segs \<Longrightarrow> nws + s_nws seg \<le> m \<Longrightarrow>
      \<not> hole_has_content ls e (s_start seg) \<Longrightarrow> P (grp @ [seg]) (nws + s_nws seg) (max e (s_end seg))"
    and "\<And>seg. seg \<in> set segs \<Longrightarrow> P [seg] (s_nws seg) (max 0 (s_end seg))"
  shows "\<exists>nws e. P g nws e"
  using assms
proof (induction segs arbitrary: grp nws e)
  case Nil
  then show ?case by auto
next
  case (Cons seg segs)
  show ?case
  proof (cases "nws + s_nws seg \<le> m \<and> \<not> hole_has_content ls e (s_start seg)")
    case True
    show ?thesis
      by (rule Cons.IH [of "grp @ [seg]" "nws + s_nws seg" "max e (s_end seg)"])
        (use Cons.prems True pack_join [OF True] in auto)
  next
    case False
    show ?thesis
    proof (cases "g = grp")
      case True
      with Cons.prems(1) show ?thesis by blast
    next
      case g: False
      show ?thesis
        by (rule Cons.IH [of "[seg]" "s_nws seg" "max 0 (s_end seg)"])
          (use Cons.prems g pack_split [OF False] in auto)
    qed
  qed
qed

lemma pack_budget:
  assumes "g \<in> set (pack_segments ls m [seg] (s_nws seg) e segs)"
  shows "length g = 1 \<or> sum_list (map s_nws g) \<le> m"
proof -
  let ?P = "\<lambda>grp nws (e::int). nws = sum_list (map s_nws grp) \<and> (length grp = 1 \<or> nws \<le> m)"
  have "\<exists>nws e. ?P g nws e" by (rule pack_invariant [OF _ assms]) simp_all
  then show ?thesis by auto
qed

lemma sorted_concat_mem: "sorted (map f (concat gs)) \<Longrightarrow> g \<in> set gs \<Longrightarrow> sorted (map f g)"
  by (induction gs) (auto simp: sorted_append)

text \<open>Inside a group every line with text belongs to one of its segments.\<close>

definition filled :: "string list \<Rightarrow> segment list \<Rightarrow> bool" where
  "filled ls g \<longleftrightarrow> (\<forall>l. s_start (hd g) \<le> l \<and> l \<le> group_end g \<and> has_text (line ls l) \<longrightarrow>
     (\<exists>s\<in>set g. s_start s \<le> l \<and> l \<le> s_end s))"

lemma group_end_snoc: "g \<noteq> [] \<Longrightarrow> group_end (g @ [s]) = max (group_end g) (s_end s)"
  by (simp add: group_end_def Max.insert_remove max.commute)

lemma group_end_single [simp]: "group_end [s] = s_end s"
  by (simp add: group_end_def)

lemma filled_snoc:
  assumes "filled ls g" "g \<noteq> []" "\<not> hole_has_content ls (group_end g) (s_start s)"
    and "0 \<le> group_end g" "s_start s \<le> int (length ls) + 1"
  shows "filled ls (g @ [s])"
  unfolding filled_def
proof (intro allI impI)
  fix l assume l: "s_start (hd (g @ [s])) \<le> l \<and> l \<le> group_end (g @ [s]) \<and> has_text (line ls l)"
  consider (old) "l \<le> group_end g" | (hole) "group_end g < l" "l < s_start s" | (new) "s_start s \<le> l" "group_end g < l"
    by linarith
  then show "\<exists>s'\<in>set (g @ [s]). s_start s' \<le> l \<and> l \<le> s_end s'"
  proof cases
    case old
    with l assms(1,2) show ?thesis by (auto simp: filled_def)
  next
    case hole
    then have "has_text (join_lines (py_slice ls (group_end g) (s_start s - 1)))"
      using slice_text [OF assms(4), of "s_start s - 1" ls] assms(5) l by auto
    with hole assms(3) show ?thesis by (simp add: hole_has_content_def)
  next
    case new
    with l assms(2) show ?thesis by (auto simp: group_end_snoc)
  qed
qed

lemma pack_filled:
  assumes "g \<in> set (pack_segments ls m [seg] (s_nws seg) (s_end seg) segs)"
    and "\<forall>s\<in>set (seg # segs). seg_ok (int (length ls)) s"
  shows "filled ls g"
proof -
  let ?P = "\<lambda>grp (nws::nat) e. filled ls grp \<and> grp \<noteq> [] \<and> e = group_end grp \<and> 0 \<le> e"
  have "\<exists>nws e. ?P g nws e"
  proof (rule pack_invariant [OF _ assms(1)])
    fix grp nws e s
    assume "?P grp nws e" "s \<in> set segs" "\<not> hole_has_content ls e (s_start s)"
    then show "?P (grp @ [s]) (nws + s_nws s) (max e (s_end s))"
      using assms(2) filled_snoc [of ls grp s] by (auto simp: group_end_snoc seg_ok_def)
  qed (use assms(2) in \<open>auto simp: filled_def seg_ok_def\<close>)
  then show ?thesis by blast
qed

subsection \<open>Emission of a level\<close>

lemma post_init_simps [simp]:
  "c_start (post_init c) = c_start c" "c_end (post_init c) = c_end c"
  "c_content (post_init c) = c_content c" "c_name (post_init c) = c_name c"
  "c_type (post_init c) = c_type c"
  by (simp_all add: post_init_def)

lemma emit_cases:
  assumes "g \<noteq> []" "\<forall>s\<in>set g. seg_ok n s"
  obtains c where "g = [chunk_segment c]" "emit_group ls f r d g = c"
  | "\<nexists>c. g = [chunk_segment c]"
    "c_start (emit_group ls f r d g) = s_start (hd g)" "c_end (emit_group ls f r d g) = group_end g"
    "c_content (emit_group ls f r d g) = join_lines (py_slice ls (s_start (hd g) - 1) (group_end g))"
    "c_type (emit_group ls f r d g) = merged_type (map s_type g)"
    "c_name (emit_group ls f r d g) = merged_name g"
proof (cases "\<exists>c. g = [chunk_segment c]")
  case True
  then show ?thesis using that(1) by (auto simp: emit_group_def)
next
  case False
  have "s = chunk_segment c" if "g = [s]" "s_original s = Some c" for s c
    using assms(2) that by (auto simp: seg_ok_def split: option.splits)
  then have no: "s_original s = None" if "g = [s]" for s
    using that False by (cases "s_original s") auto
  have "emit_group ls f r d g =
    (let start_line = s_start (hd g); end_line = group_end g; os = originals g in
         post_init
           \<lparr>c_content = join_lines (py_slice ls (start_line - 1) end_line),
            c_type = merged_type (map s_type g), c_start = start_line, c_end = end_line,
            c_file = f, c_rel = r, c_folders = d, c_name = merged_name g,
            c_parent = first_truthy (map c_parent os), c_doc = first_truthy (map c_doc os),
            c_decorators = concat (map c_decorators os), c_imports = [], c_complexity = 0,
            c_tags = merged_tags g\<rparr>)"
    using assms(1) no unfolding emit_group_def
    by (cases g; cases "tl g") auto
  then show ?thesis using that(2) False by (simp add: Let_def)
qed

lemma emit_range:
  assumes "g \<noteq> []" "\<forall>s\<in>set g. seg_ok n s"
  shows "c_start (emit_group ls f r d g) = s_start (hd g)" "c_end (emit_group ls f r d g) = group_end g"
  using assms by (auto elim!: emit_cases [of g n ls f r d])

lemma group_end_ge: "s \<in> set g \<Longrightarrow> s_end s \<le> group_end g"
  by (simp add: group_end_def)

definition level_groups :: "string list \<Rightarrow> nat \<Rightarrow> bool \<Rightarrow> int \<Rightarrow> int \<Rightarrow> code_chunk list \<Rightarrow> segment list list" where
  "level_groups ls m cap lo hi chunks =
     (case level_segments ls cap lo hi chunks of
        [] \<Rightarrow> []
      | seg # segs \<Rightarrow> pack_segments ls m [seg] (s_nws seg) (s_end seg) segs)"

lemma merge_siblings_groups:
  "merge_siblings ls f r d m cap lo hi chunks = map (emit_group ls f r d) (level_groups ls m cap lo hi chunks)"
proof (cases "level_segments ls cap lo hi chunks")
  case Nil
  then have "snd (chunk_segments ls cap (lo - 1) chunks) = []"
    by (auto simp: level_segments_def split: prod.splits)
  then have "chunks = []"
    using chunk_segments_chunks [of "hd chunks" chunks ls cap "lo - 1"] by (cases chunks) auto
  with Nil show ?thesis by (simp add: merge_siblings_def level_groups_def)
qed (simp add: merge_siblings_def level_groups_def)

lemma level_segments_ok:
  assumes "\<forall>c\<in>set cs. chunk_ok hi c" "1 \<le> lo" "lo \<le> hi + 1" "s \<in> set (level_segments ls cap lo hi cs)"
  shows "seg_ok hi s"
proof -
  obtain l segs where r: "chunk_segments ls cap (lo - 1) cs = (l, segs)" by fastforce
  have l: "0 \<le> l"
    using chunk_segments_last(1) [of "lo - 1" ls cap cs] assms(2) r by simp
  show ?thesis
    using assms chunk_segments_ok [of cs hi "lo - 1" s ls cap] l r
    by (auto simp: level_segments_def gap_segment_iff seg_ok_def split: if_splits)
qed

lemma level_segments_sorted:
  assumes "\<forall>c\<in>set cs. chunk_ok hi c" "1 \<le> lo" "sorted (map c_start cs)" "\<forall>c\<in>set cs. lo \<le> c_start c"
  shows "sorted (map s_start (level_segments ls cap lo hi cs))"
proof -
  obtain l segs where r: "chunk_segments ls cap (lo - 1) cs = (l, segs)" by fastforce
  have "sorted (map s_start segs)"
    using chunk_segments_sorted [of cs hi lo "lo - 1" ls cap] assms r by simp
  moreover have "\<forall>s\<in>set segs. s_start s \<le> l"
    using chunk_segments_below [of cs hi _ ls cap "lo - 1"] assms(1) r by auto
  ultimately show ?thesis
    using r by (auto simp: level_segments_def gap_segment_def sorted_append)
qed

lemma level_groups_concat: "concat (level_groups ls m cap lo hi cs) = level_segments ls cap lo hi cs"
  by (auto simp: level_groups_def pack_concat split: list.split)

lemma level_groups_nonempty: "[] \<notin> set (level_groups ls m cap lo hi cs)"
  by (auto simp: level_groups_def pack_nonempty split: list.split)

text \<open>A segment of a level lies within the output chunk of its group.\<close>

lemma level_segment_covered:
  assumes "\<forall>c\<in>set cs. chunk_ok hi c" "1 \<le> lo" "lo \<le> hi + 1" "sorted (map c_start cs)"
    and "\<forall>c\<in>set cs. lo \<le> c_start c" "s \<in> set (level_segments ls cap lo hi cs)"
  shows "\<exists>c\<in>set (merge_siblings ls f r d m cap lo hi cs). c_start c \<le> s_start s \<and> s_end s \<le> c_end c"
proof -
  obtain g where g: "g \<in> set (level_groups ls m cap lo hi cs)" "s \<in> set g"
    using assms(6) unfolding level_groups_concat [of ls m cap lo hi cs, symmetric] by auto
  have sub: "set g \<subseteq> set (level_segments ls cap lo hi cs)"
    using g(1) unfolding level_groups_concat [of ls m cap lo hi cs, symmetric] by auto
  have ok: "\<forall>s\<in>set g. seg_ok hi s" using sub level_segments_ok [OF assms(1-3)] by blast
  have ne: "g \<noteq> []" using g(2) by auto
  have "sorted (map s_start g)"
    by (rule sorted_concat_mem [OF _ g(1)], unfold level_groups_concat)
      (rule level_segments_sorted [OF assms(1,2,4,5)])
  then have "s_start (hd g) \<le> s_start s" using g(2) by (cases g) auto
  then have "c_start (emit_group ls f r d g) \<le> s_start s" "s_end s \<le> c_end (emit_group ls f r d g)"
    unfolding emit_range [OF ne ok, of ls f r d] using group_end_ge [OF g(2)] by simp_all
  moreover have "emit_group ls f r d g \<in> set (merge_siblings ls f r d m cap lo hi cs)"
    using g(1) unfolding merge_siblings_groups by simp
  ultimately show ?thesis by blast
qed

subsection \<open>All levels\<close>

definition forest_ok :: "int \<Rightarrow> forest_node list \<Rightarrow> bool" where
  "forest_ok n ns \<longleftrightarrow> (\<forall>c\<in>set (flats ns). chunk_ok n c) \<and> sorted (map c_start (flats ns))"

lemma forest_ok_top:
  assumes "forest_ok n ns"
  shows "\<forall>c\<in>set (map fchunk ns). chunk_ok n c" "sorted (map c_start (map fchunk ns))"
  using assms subseq_set [OF fchunks_subseq [of ns]]
    subseq_sorted [OF subseq_map [OF fchunks_subseq [of ns], of c_start]]
  by (auto simp: forest_ok_def)

lemma forest_ok_children: "forest_ok n ns \<Longrightarrow> m \<in> set ns \<Longrightarrow> forest_ok n (fchildren m)"
  using flat_subseq [of m ns] subseq_set [OF flat_subseq [of m ns]]
    subseq_sorted [OF subseq_map [OF flat_subseq [of m ns], of c_start]]
  by (auto simp: forest_ok_def)

lemma flats_mem: "c \<in> set (flats ns) \<longleftrightarrow> c \<in> set (map fchunk ns) \<or> (\<exists>m\<in>set ns. c \<in> set (flats (fchildren m)))"
  by (induction ns) (auto simp: flat_cons)

text \<open>The region of a children's level is the envelope of the children.\<close>

lemma envelope:
  assumes "forest_ok n ns" "ns \<noteq> []"
  defines "lo \<equiv> Min (set (map (c_start \<circ> fchunk) ns))"
    and "hi \<equiv> Max (set (map (c_end \<circ> fchunk) ns))"
  shows "1 \<le> lo" "lo \<le> hi + 1" "hi \<le> n" "\<forall>c\<in>set (map fchunk ns). chunk_ok hi c \<and> lo \<le> c_start c"
proof -
  have c: "\<forall>m\<in>set ns. chunk_ok n (fchunk m)" using forest_ok_top(1) [OF assms(1)] by simp
  have lo: "\<forall>m\<in>set ns. lo \<le> c_start (fchunk m)" by (simp add: lo_def)
  have hi: "\<forall>m\<in>set ns. c_end (fchunk m) \<le> hi" by (simp add: hi_def)
  show "1 \<le> lo" using c assms(2) by (simp add: lo_def chunk_ok_def)
  show "hi \<le> n" using c assms(2) by (simp add: hi_def chunk_ok_def)
  obtain m where "m \<in> set ns" using assms(2) by (cases ns) auto
  then show "lo \<le> hi + 1" using c lo hi by (force simp: chunk_ok_def)
  show "\<forall>c\<in>set (map fchunk ns). chunk_ok hi c \<and> lo \<le> c_start c"
    using c lo hi by (auto simp: chunk_ok_def)
qed

definition inside :: "code_chunk \<Rightarrow> code_chunk \<Rightarrow> bool" where
  "inside c d \<longleftrightarrow> c_start d \<le> c_start c \<and> c_end c \<le> c_end d"

lemma level_chunk_covered:
  assumes "\<forall>c\<in>set cs. chunk_ok hi c \<and> lo \<le> c_start c" "1 \<le> lo" "lo \<le> hi + 1" "sorted (map c_start cs)"
    and "c \<in> set cs"
  shows "\<exists>d\<in>set (merge_siblings ls f r w m cap lo hi cs). inside c d"
proof -
  have "chunk_segment c \<in> set (level_segments ls cap lo hi cs)"
    using chunk_segments_chunks [OF assms(5), of ls cap "lo - 1"]
    by (simp add: level_segments_def case_prod_beta)
  from level_segment_covered [OF _ assms(2,3,4) _ this] assms(1) show ?thesis
    by (simp add: inside_def)
qed

lemma emit_level_top: "c \<in> set (merge cap lo hi (map fchunk ns)) \<Longrightarrow> c \<in> set (emit_level merge ns lo hi cap)"
  by (subst emit_level.simps) simp

lemma emit_level_below:
  "k \<in> set ns \<Longrightarrow> fchildren k \<noteq> [] \<Longrightarrow>
   c \<in> set (emit_level merge (fchildren k) (Min (set (map (c_start \<circ> fchunk) (fchildren k))))
     (Max (set (map (c_end \<circ> fchunk) (fchildren k)))) False) \<Longrightarrow>
   c \<in> set (emit_level merge ns lo hi cap)"
  by (subst emit_level.simps) force

lemma emit_level_covers:
  assumes "\<And>cap lo hi cs c. \<forall>c\<in>set cs. chunk_ok hi c \<and> lo \<le> c_start c \<Longrightarrow> 1 \<le> lo \<Longrightarrow> lo \<le> hi + 1 \<Longrightarrow>
      sorted (map c_start cs) \<Longrightarrow> c \<in> set cs \<Longrightarrow> \<exists>d\<in>set (merge cap lo hi cs). inside c d"
    and "forest_ok n ns" "1 \<le> lo" "lo \<le> hi + 1"
    and "\<forall>c\<in>set (map fchunk ns). chunk_ok hi c \<and> lo \<le> c_start c" "c \<in> set (flats ns)"
  shows "\<exists>d\<in>set (emit_level merge ns lo hi cap). inside c d"
  using assms
proof (induction merge ns lo hi cap rule: emit_level.induct)
  case (1 merge ns lo hi cap)
  from "1.prems"(6) consider (top) "c \<in> set (map fchunk ns)"
    | (below) k where "k \<in> set ns" "c \<in> set (flats (fchildren k))"
    using flats_mem [of c ns] by blast
  then show ?case
  proof cases
    case top
    obtain d where "d \<in> set (merge cap lo hi (map fchunk ns))" "inside c d"
      using "1.prems"(1) [OF "1.prems"(5,3,4) forest_ok_top(2) [OF "1.prems"(2)] top] by blast
    then show ?thesis using emit_level_top [of d merge cap lo hi ns] by blast
  next
    case below
    then have ne: "fchildren k \<noteq> []" by auto
    note fk = forest_ok_children [OF "1.prems"(2) below(1)]
    have "\<exists>d\<in>set (emit_level merge (fchildren k) (Min (set (map (c_start \<circ> fchunk) (fchildren k))))
        (Max (set (map (c_end \<circ> fchunk) (fchildren k)))) False). inside c d"
      by (rule "1.IH" [OF below(1) ne "1.prems"(1) fk envelope(1,2,4) [OF fk ne] below(2)])
    then show ?thesis using emit_level_below [OF below(1) ne] by blast
  qed
qed

text \<open>A level as the recursion calls it.\<close>

definition level_ok :: "int \<Rightarrow> bool \<Rightarrow> int \<Rightarrow> int \<Rightarrow> code_chunk list \<Rightarrow> bool" where
  "level_ok n cap lo hi cs \<longleftrightarrow> (\<forall>c\<in>set cs. chunk_ok hi c \<and> lo \<le> c_start c) \<and> 1 \<le> lo \<and>
     lo \<le> hi + 1 \<and> hi \<le> n \<and> (cap \<longrightarrow> hi = n) \<and> sorted (map c_start cs)"

lemma emit_level_from:
  assumes "forest_ok n ns" "level_ok n cap lo hi (map fchunk ns)" "d \<in> set (emit_level merge ns lo hi cap)"
  shows "\<exists>cap' lo' hi' cs. d \<in> set (merge cap' lo' hi' cs) \<and> set cs \<subseteq> set (flats ns) \<and> level_ok n cap' lo' hi' cs"
  using assms
proof (induction merge ns lo hi cap rule: emit_level.induct)
  case (1 merge ns lo hi cap)
  from "1.prems"(3) consider (top) "d \<in> set (merge cap lo hi (map fchunk ns))"
    | (below) k where "k \<in> set ns" "fchildren k \<noteq> []"
      "d \<in> set (emit_level merge (fchildren k) (Min (set (map (c_start \<circ> fchunk) (fchildren k))))
        (Max (set (map (c_end \<circ> fchunk) (fchildren k)))) False)"
    by (subst (asm) emit_level.simps) (auto split: if_splits)
  then show ?case
  proof cases
    case top
    have "set (map fchunk ns) \<subseteq> set (flats ns)" by (rule subseq_set [OF fchunks_subseq])
    with top "1.prems"(2) show ?thesis by blast
  next
    case below
    note fk = forest_ok_children [OF "1.prems"(1) below(1)]
    note env = envelope [OF fk below(2)]
    have lk: "level_ok n False (Min (set (map (c_start \<circ> fchunk) (fchildren k))))
        (Max (set (map (c_end \<circ> fchunk) (fchildren k)))) (map fchunk (fchildren k))"
      unfolding level_ok_def using env forest_ok_top(2) [OF fk] by blast
    have "set (flats (fchildren k)) \<subseteq> set (flats ns)"
      by (rule subseq_set [OF flat_subseq [OF below(1)]])
    with "1.IH" [OF below(1,2) fk lk below(3)] show ?thesis by blast
  qed
qed

lemma root_level:
  assumes "\<forall>c\<in>set cs. chunk_ok n c" "0 \<le> n"
  defines "ns \<equiv> build_forest (sort_key (\<lambda>c. (c_start c, - c_end c)) cs)"
  shows "forest_ok n ns" "level_ok n True 1 n (map fchunk ns)" "set (flats ns) = set cs"
proof -
  let ?s = "sort_key (\<lambda>c. (c_start c, - c_end c)) cs"
  have f: "flats ns = ?s" by (simp add: ns_def build_forest_flat)
  have "sorted (map (\<lambda>c. (c_start c, - c_end c)) ?s)" by simp
  then have "sorted (map c_start ?s)"
    unfolding sorted_map by (rule sorted_wrt_mono_rel [rotated]) (auto simp: less_eq_prod_def)
  then show ok: "forest_ok n ns" using f assms(1) by (simp add: forest_ok_def)
  show "level_ok n True 1 n (map fchunk ns)"
    using forest_ok_top [OF ok] assms(2) by (auto simp: level_ok_def chunk_ok_def)
  show "set (flats ns) = set cs" by (simp add: f)
qed

lemma split_lines_nonempty: "split_lines s \<noteq> []"
  by (induction s) (auto split: list.split)

lemma split_lines_join: "join_lines (split_lines s) = s"
proof (induction s)
  case Nil
  then show ?case by (simp add: join_lines_def)
next
  case (Cons c s)
  obtain w ws where w: "split_lines s = w # ws"
    using split_lines_nonempty [of s] by (cases "split_lines s") auto
  with Cons show ?case by (cases ws) (auto simp: join_lines_def)
qed

lemma level_line_covered:
  assumes "level_ok (int (length ls)) True 1 (int (length ls)) cs"
    and "1 \<le> l" "l \<le> int (length ls)" "has_text (line ls l)"
  shows "\<exists>d\<in>set (merge_siblings ls f r w m True 1 (int (length ls)) cs). c_start d \<le> l \<and> l \<le> c_end d"
proof -
  let ?n = "int (length ls)"
  have ok: "\<forall>c\<in>set cs. chunk_ok ?n c" "\<forall>c\<in>set cs. 1 \<le> c_start c" "sorted (map c_start cs)"
    using assms(1) by (auto simp: level_ok_def)
  obtain e segs where r: "chunk_segments ls True 0 cs = (e, segs)" by fastforce
  have e: "0 \<le> e" "e \<le> ?n"
    using chunk_segments_last(1) [where lst = 0 and ls = ls and cap = True and cs = cs]
      chunk_segments_last(2) [where lst = 0 and ls = ls and cap = True and cs = cs and n = ?n] ok(1) r
    by (auto simp: chunk_ok_def)
  have "\<exists>s\<in>set (level_segments ls True 1 ?n cs). s_start s \<le> l \<and> l \<le> s_end s"
  proof (cases "l \<le> e")
    case True
    then show ?thesis
      using chunk_segments_cover [OF ok(1), of 0 l] assms(2,4) r by (auto simp: level_segments_def)
  next
    case False
    then have "has_text (join_lines (py_slice_from ls e))"
      unfolding has_text_join slice_from_lines [OF e] using assms(3,4) by force
    with False assms(3) r show ?thesis by (force simp: level_segments_def gap_segment_iff)
  qed
  then obtain s where s: "s \<in> set (level_segments ls True 1 ?n cs)" "s_start s \<le> l" "l \<le> s_end s" by blast
  from level_segment_covered [OF ok(1) _ _ ok(3,2) s(1), of f r w m] s(2,3) show ?thesis
    by force
qed

lemma merge_output:
  assumes "chunks \<noteq> [] \<or> has_text source_code"
  shows "set (merge_file_chunks chunks source_code file_path rel folders max_nws) =
    set (emit_level (merge_siblings (split_lines source_code) file_path rel folders max_nws)
      (build_forest (sort_key (\<lambda>c. (c_start c, - c_end c)) chunks)) 1 (int (length (split_lines source_code))) True)"
  using assms by (auto simp: merge_file_chunks_def Let_def)

lemma blank_lines: "\<not> has_text s \<Longrightarrow> \<not> has_text (line (split_lines s) l)"
  using has_text_join [of "split_lines s"] by (auto simp: split_lines_join line_def)

lemma merge_keeps_lines:
  assumes "\<forall>c\<in>set chunks. chunk_ok (int (length (split_lines source_code))) c"
    and l: "has_text (line (split_lines source_code) l)"
  shows "\<exists>d\<in>set (merge_file_chunks chunks source_code file_path rel folders max_nws). c_start d \<le> l \<and> l \<le> c_end d"
proof -
  have t: "has_text source_code" using l blank_lines by blast
  have range: "1 \<le> l" "l \<le> int (length (split_lines source_code))"
    using l by (auto simp: line_def has_text_def split: if_splits)
  show ?thesis
    unfolding merge_output [OF disjI2 [OF t]]
    using level_line_covered [OF root_level(2) [OF assms(1)] range, of file_path rel folders max_nws] l emit_level_top
    by fastforce
qed

text \<open>
  C8. Nothing of a file is lost in the merge: every input chunk, at whatever nesting depth, lies
  inside one output chunk, and every source line with text lies inside one, for chunks whose line
  ranges lie in the file.
\<close>

theorem merge_covers_file:
  assumes "\<forall>c\<in>set chunks. chunk_ok (int (length (split_lines source_code))) c"
  shows "(\<forall>c\<in>set chunks. \<exists>d\<in>set (merge_file_chunks chunks source_code file_path rel folders max_nws).
      inside c d) \<and>
    (\<forall>l. has_text (line (split_lines source_code) l) \<longrightarrow>
      (\<exists>d\<in>set (merge_file_chunks chunks source_code file_path rel folders max_nws).
        c_start d \<le> l \<and> l \<le> c_end d))"
proof -
  note top = root_level [OF assms]
  have "\<exists>d\<in>set (merge_file_chunks chunks source_code file_path rel folders max_nws). inside c d" if c: "c \<in> set chunks" for c
  proof -
    have ne: "chunks \<noteq> [] \<or> has_text source_code" using c by auto
    show ?thesis
      unfolding merge_output [OF ne]
    proof (rule emit_level_covers [OF _ top(1)])
      show "c \<in> set (flats (build_forest (sort_key (\<lambda>c. (c_start c, - c_end c)) chunks)))" using c top(3) by simp
    qed (use top(2) level_chunk_covered in \<open>auto simp: level_ok_def\<close>)
  qed
  then show ?thesis using merge_keeps_lines [OF assms] by blast
qed

subsection \<open>The budget\<close>

definition weight :: "string list \<Rightarrow> int \<Rightarrow> nat" where
  "weight ls l = nws_count (line ls l)"

lemma weight_slice:
  assumes "0 \<le> a" "a \<le> b" "b \<le> int (length ls)"
  shows "nws_count (join_lines (py_slice ls a b)) = sum (weight ls) {a + 1 .. b}"
proof -
  have "sum_list (map (weight ls) [a + 1 .. b]) = sum (weight ls) (set [a + 1 .. b])"
    by (rule sum_list_distinct_conv_sum_set) simp
  then show ?thesis
    unfolding nws_join slice_lines [OF assms] by (simp add: comp_def flip: weight_def)
qed

text \<open>A chunk whose content carries at least the text of its lines.\<close>

definition carries_lines :: "string list \<Rightarrow> code_chunk \<Rightarrow> bool" where
  "carries_lines ls c \<longleftrightarrow> nws_count (join_lines (py_slice ls (c_start c - 1) (c_end c))) \<le> nws_count (c_content c)"

definition seg_carries :: "string list \<Rightarrow> segment \<Rightarrow> bool" where
  "seg_carries ls s \<longleftrightarrow> sum (weight ls) {s_start s .. s_end s} \<le> s_nws s"

lemma chunk_segment_carries:
  "chunk_ok (int (length ls)) c \<Longrightarrow> carries_lines ls c \<Longrightarrow> seg_carries ls (chunk_segment c)"
  using weight_slice [of "c_start c - 1" "c_end c" ls]
  by (simp add: seg_carries_def carries_lines_def s_nws_def chunk_ok_def)

lemma gap_segment_carries:
  "0 \<le> a \<Longrightarrow> a \<le> b \<Longrightarrow> b \<le> int (length ls) \<Longrightarrow>
   s \<in> set (gap_segment (join_lines (py_slice ls a b)) (a + 1) b tags) \<Longrightarrow> seg_carries ls s"
  using weight_slice [of a b ls] by (auto simp: gap_segment_iff seg_carries_def s_nws_def)

lemma chunk_segments_carry:
  assumes "\<forall>c\<in>set cs. chunk_ok (int (length ls)) c \<and> carries_lines ls c" "0 \<le> lst"
    and "s \<in> set (snd (chunk_segments ls cap lst cs))"
  shows "seg_carries ls s"
  using assms
proof (induction ls cap lst cs rule: chunk_segments.induct)
  case (2 ls cap lst c cs)
  have c: "chunk_ok (int (length ls)) c" "carries_lines ls c" using "2.prems"(1) by auto
  obtain l' segs where r: "chunk_segments ls cap (max lst (c_end c)) cs = (l', segs)" by fastforce
  consider (gap) "lst < c_start c - 1"
      "s \<in> set (gap_segment (join_lines (py_slice ls lst (c_start c - 1))) (lst + 1) (c_start c - 1) (c_tags c))"
    | (chunk) "s = chunk_segment c" | (later) "s \<in> set segs"
    using "2.prems"(3) r by (auto split: if_splits)
  then show ?case
  proof cases
    case gap
    then show ?thesis
      using gap_segment_carries [OF "2.prems"(2) _ _ gap(2)] c(1) by (simp add: chunk_ok_def)
  next
    case chunk
    then show ?thesis using chunk_segment_carries c by blast
  next
    case later
    then show ?thesis using "2.IH" [OF refl] "2.prems" r by simp
  qed
qed simp

lemma level_segments_carry:
  assumes "level_ok (int (length ls)) cap lo hi cs" "\<forall>c\<in>set cs. carries_lines ls c"
    and "s \<in> set (level_segments ls cap lo hi cs)"
  shows "seg_carries ls s"
proof -
  have ok: "\<forall>c\<in>set cs. chunk_ok (int (length ls)) c \<and> carries_lines ls c" "0 \<le> lo - 1" "hi \<le> int (length ls)"
    using assms(1,2) by (auto simp: level_ok_def chunk_ok_def)
  obtain e segs where r: "chunk_segments ls cap (lo - 1) cs = (e, segs)" by fastforce
  have e: "0 \<le> e" using chunk_segments_last(1) [of "lo - 1" ls cap cs] ok(2) r by simp
  consider (seg) "s \<in> set segs" | (gap) tags where "cap" "e < hi"
      "s \<in> set (gap_segment (join_lines (py_slice_from ls e)) (e + 1) hi tags)"
    using assms(3) r by (auto simp: level_segments_def split: if_splits)
  then show ?thesis
  proof cases
    case seg
    then show ?thesis using chunk_segments_carry [OF ok(1,2), of s cap] r by simp
  next
    case gap
    have h: "hi = int (length ls)" using assms(1) gap(1) by (simp add: level_ok_def)
    then have "py_slice_from ls e = py_slice ls e hi"
      using slice_from_lines [of e ls] slice_lines [of e hi ls] e gap(2) by simp
    then show ?thesis using gap_segment_carries [OF e _ _ ] gap(2,3) h by (metis less_imp_le order_refl)
  qed
qed

lemma sum_cover_le:
  fixes w :: "int \<Rightarrow> nat"
  assumes "finite I" "\<And>l. l \<in> I \<Longrightarrow> w l \<noteq> 0 \<Longrightarrow> \<exists>s\<in>set g. l \<in> J s" "\<And>s. finite (J s)"
  shows "sum w I \<le> sum_list (map (\<lambda>s. sum w (J s)) g)"
proof -
  have "sum w I = sum w {l \<in> I. w l \<noteq> 0}"
    using assms(1) by (intro sum.mono_neutral_right) auto
  also have "\<dots> \<le> sum w (\<Union>s\<in>set g. J s)"
    using assms by (intro sum_mono2) auto
  also have "\<dots> \<le> sum_list (map (\<lambda>s. sum w (J s)) g)"
  proof (induction g)
    case (Cons s g)
    have "sum w (J s \<union> (\<Union>s\<in>set g. J s)) \<le> sum w (J s) + sum w (\<Union>s\<in>set g. J s)"
      using assms(3) by (simp add: sum_Un_nat)
    with Cons show ?case by simp
  qed simp
  finally show ?thesis .
qed

lemma sum_list_le: "(\<And>x. x \<in> set xs \<Longrightarrow> f x \<le> (g x :: nat)) \<Longrightarrow> sum_list (map f xs) \<le> sum_list (map g xs)"
  by (rule sum_list_mono)

lemma group_within_budget:
  assumes "level_ok (int (length ls)) cap lo hi cs" "\<forall>c\<in>set cs. carries_lines ls c"
    and "d \<in> set (merge_siblings ls f r w m cap lo hi cs)"
  shows "d \<in> set cs \<or> c_name d = None \<and> c_type d = ''module_level'' \<or> nws_count (c_content d) \<le> m"
proof -
  obtain g where g: "g \<in> set (level_groups ls m cap lo hi cs)" "d = emit_group ls f r w g"
    using assms(3) by (auto simp: merge_siblings_groups)
  obtain seg segs where sg: "level_segments ls cap lo hi cs = seg # segs"
    "g \<in> set (pack_segments ls m [seg] (s_nws seg) (s_end seg) segs)"
    using g(1) by (cases "level_segments ls cap lo hi cs") (auto simp: level_groups_def)
  have hi: "hi \<le> int (length ls)" and lok: "\<forall>c\<in>set cs. chunk_ok hi c" "1 \<le> lo" "lo \<le> hi + 1"
    using assms(1) by (auto simp: level_ok_def)
  have ok_hi: "seg_ok hi s" if "s \<in> set (seg # segs)" for s
    using level_segments_ok [OF lok] that sg(1) by metis
  then have ok: "\<forall>s\<in>set (seg # segs). seg_ok (int (length ls)) s"
    using hi by (fastforce simp: seg_ok_def)
  have "set g \<subseteq> set (concat (pack_segments ls m [seg] (s_nws seg) (s_end seg) segs))"
    using sg(2) by auto
  then have sub: "set g \<subseteq> set (seg # segs)" unfolding pack_concat by simp
  have ne: "g \<noteq> []" using g(1) level_groups_nonempty by metis
  have gok: "\<forall>s\<in>set g. seg_ok (int (length ls)) s" using sub ok by blast
  show ?thesis
  proof (cases rule: emit_cases [OF ne gok, of ls f r w])
    case (1 c)
    then have "chunk_segment c \<in> set (level_segments ls cap lo hi cs)" using sub sg(1) by auto
    then have "c \<in> set cs" by (rule level_segment_chunk)
    with 1 g(2) show ?thesis by simp
  next
    case 2
    show ?thesis
    proof (cases "length g = 1")
      case True
      then obtain s where s: "g = [s]" by (cases g) auto
      have "s_original s = None" using gok s 2(1) by (auto simp: seg_ok_def split: option.splits)
      moreover have "s \<in> set (level_segments ls cap lo hi cs)" using sub sg(1) s by simp
      ultimately have "s_name s = None \<and> s_type s = ''module_level''" by (rule level_segment_gap)
      then have "merged_name g = None" "merged_type (map s_type g) = ''module_level''"
        using s by (simp_all add: merged_name_def merged_type_def truthy_def List.map_filter_simps)
      with 2(5,6) g(2) show ?thesis by simp
    next
      case False
      let ?I = "{s_start (hd g) .. group_end g}"
      have hd: "1 \<le> s_start (hd g)" using gok ne by (auto simp: seg_ok_def)
      have "s_start (hd g) \<le> s_end (hd g)" using gok ne by (auto simp: seg_ok_def)
      also have "\<dots> \<le> group_end g" using ne by (intro group_end_ge) simp
      finally have "s_start (hd g) \<le> group_end g" .
      moreover have "group_end g \<le> int (length ls)"
        using gok ne by (auto simp: seg_ok_def group_end_def)
      ultimately have ge: "s_start (hd g) \<le> group_end g" "group_end g \<le> int (length ls)" .
      have "nws_count (c_content d) = sum (weight ls) ?I"
        using 2(4) g(2) weight_slice [of "s_start (hd g) - 1" "group_end g" ls] hd ge by simp
      also have "\<dots> \<le> sum_list (map (\<lambda>s. sum (weight ls) {s_start s .. s_end s}) g)"
      proof (rule sum_cover_le)
        fix l assume l: "l \<in> ?I" "weight ls l \<noteq> 0"
        then have "has_text (line ls l)" using nws_blank [of "line ls l"] by (auto simp: weight_def)
        with l(1) show "\<exists>s\<in>set g. l \<in> {s_start s .. s_end s}"
          using pack_filled [OF sg(2) ok] by (auto simp: filled_def)
      qed simp_all
      also have "\<dots> \<le> sum_list (map s_nws g)"
        using level_segments_carry [OF assms(1,2)] sub sg(1) by (intro sum_list_le) (auto simp: seg_carries_def)
      also have "\<dots> \<le> m" using pack_budget [OF sg(2)] False by simp
      finally show ?thesis by simp
    qed
  qed
qed


end
