(* ===== verification/Chunk_Nesting.thy ===== *)
theory Chunk_Nesting
  imports Chunk_Coverage
begin

text \<open>
  The containment discipline of the merge pass: on chunks any two of which are disjoint or
  strictly nested, the forest's siblings are disjoint and in order, parents contain their
  children, and no output chunk straddles the boundary of an input chunk.
\<close>

subsection \<open>The stack builds a nested forest\<close>

fun adjacent :: "('a \<Rightarrow> 'a \<Rightarrow> bool) \<Rightarrow> 'a list \<Rightarrow> bool" where
  "adjacent P (x # y # xs) \<longleftrightarrow> P x y \<and> adjacent P (y # xs)"
| "adjacent P _ = True"

lemma adjacent_snoc: "adjacent P (xs @ [y]) \<longleftrightarrow> adjacent P xs \<and> (xs = [] \<or> P (last xs) y)"
  by (induction P xs rule: adjacent.induct) auto

definition apart :: "forest_node \<Rightarrow> forest_node \<Rightarrow> bool" where
  "apart a b \<longleftrightarrow> \<not> contains (fchunk a) (fchunk b)"

inductive well_built :: "forest_node \<Rightarrow> bool" where
  "adjacent apart kids \<Longrightarrow> (\<And>k. k \<in> set kids \<Longrightarrow> contains c (fchunk k) \<and> well_built k) \<Longrightarrow>
   well_built (FNode c kids)"

inductive_simps well_built_iff: "well_built (FNode c kids)"

definition built :: "forest_node list \<Rightarrow> bool" where
  "built ns \<longleftrightarrow> adjacent apart ns \<and> (\<forall>k\<in>set ns. well_built k)"

definition separated :: "forest_node list \<Rightarrow> code_chunk \<Rightarrow> bool" where
  "separated ns c \<longleftrightarrow> ns = [] \<or> \<not> contains (fchunk (last ns)) c"

definition good_kids :: "code_chunk \<Rightarrow> forest_node list \<Rightarrow> bool" where
  "good_kids c kids \<longleftrightarrow> built kids \<and> (\<forall>k\<in>set kids. contains c (fchunk k))"

fun stack_ok :: "forest_node list \<Rightarrow> open_node list \<Rightarrow> bool" where
  "stack_ok roots [] \<longleftrightarrow> built roots"
| "stack_ok roots [(c, kids)] \<longleftrightarrow> built roots \<and> good_kids c kids \<and> separated roots c"
| "stack_ok roots ((c, kids) # (p, pkids) # rest) \<longleftrightarrow>
     good_kids c kids \<and> contains p c \<and> separated pkids c \<and> stack_ok roots ((p, pkids) # rest)"

lemma built_snoc: "built ns \<Longrightarrow> good_kids c kids \<Longrightarrow> separated ns c \<Longrightarrow> built (ns @ [FNode c kids])"
  by (auto simp: built_def good_kids_def separated_def adjacent_snoc apart_def well_built_iff)

lemma good_kids_snoc:
  "good_kids p pkids \<Longrightarrow> good_kids c kids \<Longrightarrow> separated pkids c \<Longrightarrow> contains p c \<Longrightarrow>
   good_kids p (pkids @ [FNode c kids])"
  using built_snoc [of pkids c kids] by (auto simp: good_kids_def)

lemma stack_ok_swap: "stack_ok roots ((p, ks) # rest) \<Longrightarrow> good_kids p ks' \<Longrightarrow> stack_ok roots ((p, ks') # rest)"
  by (cases rest) auto

lemma stack_ok_kids: "stack_ok roots ((p, ks) # rest) \<Longrightarrow> good_kids p ks"
  by (cases rest) auto

text \<open>What closing for a chunk leaves on top: a node that contains it, or nothing.\<close>

definition ready :: "code_chunk \<Rightarrow> forest_node list \<Rightarrow> open_node list \<Rightarrow> bool" where
  "ready ch roots stack \<longleftrightarrow>
     (case stack of [] \<Rightarrow> separated roots ch | (c, kids) # _ \<Rightarrow> contains c ch \<and> separated kids ch)"

lemma close_until_ok:
  assumes "stack_ok roots stack" "case stack of [] \<Rightarrow> separated roots ch | (c, kids) # _ \<Rightarrow> separated kids ch"
  shows "case close_until (\<lambda>c. contains c ch) roots stack of (r, s) \<Rightarrow> stack_ok r s \<and> ready ch r s"
  using assms
proof (induction "\<lambda>c. contains c ch" roots stack rule: close_until.induct)
  case (2 roots c kids)
  then show ?case
    using built_snoc [of roots c kids] by (auto simp: ready_def separated_def)
next
  case (3 roots c kids p pkids rest)
  show ?case
  proof (cases "contains c ch")
    case True
    with 3 show ?thesis by (simp add: ready_def)
  next
    case False
    have g: "good_kids p pkids" using "3.prems"(1) stack_ok_kids by auto
    have "good_kids p (pkids @ [FNode c kids])"
      using "3.prems"(1) g by (intro good_kids_snoc) simp_all
    then have "stack_ok roots ((p, pkids @ [FNode c kids]) # rest)"
      using "3.prems"(1) stack_ok_swap by auto
    moreover have "separated (pkids @ [FNode c kids]) ch" using False by (simp add: separated_def)
    ultimately show ?thesis using 3(1) [OF False] False by simp
  qed
qed (simp add: ready_def)

lemma good_kids_nil [simp]: "good_kids c []"
  by (simp add: good_kids_def built_def)

lemma separated_nil [simp]: "separated [] c"
  by (simp add: separated_def)

definition fresh_top :: "forest_node list \<times> open_node list \<Rightarrow> bool" where
  "fresh_top st \<longleftrightarrow> stack_ok (fst st) (snd st) \<and>
     (case snd st of [] \<Rightarrow> fst st = [] | (c, kids) # _ \<Rightarrow> kids = [])"

lemma open_chunk_ok: "fresh_top st \<Longrightarrow> fresh_top (open_chunk ch st)"
proof -
  assume f: "fresh_top st"
  obtain r s where rs: "close_until (\<lambda>c. contains c ch) (fst st) (snd st) = (r, s)" by fastforce
  have "stack_ok r s \<and> ready ch r s"
    using close_until_ok [of "fst st" "snd st" ch] f rs
    by (auto simp: fresh_top_def split: list.splits prod.splits)
  then have "stack_ok r ((ch, []) # s)"
    by (cases s) (auto simp: ready_def)
  with rs show ?thesis by (simp add: open_chunk_def fresh_top_def)
qed

lemma close_all_built: "stack_ok roots stack \<Longrightarrow> built (fst (close_until (\<lambda>_. False) roots stack))"
proof (induction "\<lambda>_::code_chunk. False" roots stack rule: close_until.induct)
  case (3 roots c kids p pkids rest)
  have "good_kids p pkids" using "3.prems" stack_ok_kids by auto
  then have "good_kids p (pkids @ [FNode c kids])"
    using "3.prems" by (intro good_kids_snoc) simp_all
  then have "stack_ok roots ((p, pkids @ [FNode c kids]) # rest)"
    using "3.prems" stack_ok_swap by auto
  then show ?case using 3(1) by simp
qed (auto intro: built_snoc)

lemma build_forest_built: "built (build_forest cs)"
proof -
  have "fresh_top (fold open_chunk cs st)" if "fresh_top st" for st
    using that by (induction cs arbitrary: st) (simp_all add: open_chunk_ok)
  from this [of "([], [])"] have "fresh_top (fold open_chunk cs ([], []))"
    by (simp add: fresh_top_def built_def)
  then show ?thesis
    using close_all_built by (auto simp: build_forest_def fresh_top_def split: prod.split)
qed

subsection \<open>Nested input\<close>

definition before :: "code_chunk \<Rightarrow> code_chunk \<Rightarrow> bool" where
  "before a b \<longleftrightarrow> c_end a < c_start b"

definition nested_order :: "code_chunk list \<Rightarrow> bool" where
  "nested_order cs \<longleftrightarrow> sorted_wrt (\<lambda>a b. before a b \<or> contains a b) cs"

text \<open>Siblings are disjoint and in order, children and their descendants lie in their parent.\<close>

inductive nested :: "forest_node list \<Rightarrow> bool" where
  "sorted_wrt (\<lambda>a b. before (fchunk a) (fchunk b)) ns \<Longrightarrow>
   (\<And>n. n \<in> set ns \<Longrightarrow> nested (fchildren n) \<and> (\<forall>c\<in>set (flats (fchildren n)). contains (fchunk n) c)) \<Longrightarrow>
   nested ns"

inductive_cases nestedE: "nested ns"

lemma siblings_before:
  assumes "adjacent apart ns" "sorted_wrt (\<lambda>a b. before a b \<or> contains a b) (map fchunk ns)"
    and "sorted (map (c_start \<circ> fchunk) ns)"
  shows "sorted_wrt (\<lambda>a b. before (fchunk a) (fchunk b)) ns"
  using assms
proof (induction apart ns rule: adjacent.induct)
  case (1 x y xs)
  have xy: "before (fchunk x) (fchunk y)"
    using 1(2,3) by (auto simp: apart_def)
  have "before (fchunk x) (fchunk z)" if "z \<in> set xs" for z
    using xy 1(4) that by (auto simp: before_def)
  with xy 1 show ?case by auto
qed simp_all

lemma contains_trans: "contains a b \<Longrightarrow> contains b c \<Longrightarrow> contains a c"
  by (auto simp: contains_def)

lemma built_children: "built ns \<Longrightarrow> n \<in> set ns \<Longrightarrow> built (fchildren n)"
  by (cases n) (auto simp: built_def well_built_iff)

lemma built_contains:
  "well_built n \<Longrightarrow> c \<in> set (flats (fchildren n)) \<Longrightarrow> contains (fchunk n) c"
proof (induction arbitrary: c rule: well_built.induct)
  case (1 kids p)
  from 1(3) obtain k where k: "k \<in> set kids" "c = fchunk k \<or> c \<in> set (flats (fchildren k))"
    using flats_mem [of c kids] by auto
  then show ?case using 1(2) [OF k(1)] contains_trans [of p "fchunk k" c] by auto
qed

lemma built_nested:
  "built ns \<Longrightarrow> nested_order (flats ns) \<Longrightarrow> sorted (map c_start (flats ns)) \<Longrightarrow> nested ns"
proof (induction "size_list size ns" arbitrary: ns rule: less_induct)
  case less
  have top: "sorted_wrt (\<lambda>a b. before (fchunk a) (fchunk b)) ns"
  proof (rule siblings_before)
    show "adjacent apart ns" using less.prems(1) by (simp add: built_def)
    show "sorted_wrt (\<lambda>a b. before a b \<or> contains a b) (map fchunk ns)"
      using subseq_sorted_wrt [OF fchunks_subseq] less.prems(2) unfolding nested_order_def by blast
    show "sorted (map (c_start \<circ> fchunk) ns)"
      using subseq_sorted [OF subseq_map [OF fchunks_subseq, of c_start] less.prems(3)] by simp
  qed
  show ?case
  proof (rule nested.intros [OF top])
    fix n assume n: "n \<in> set ns"
    have "nested (fchildren n)"
    proof (rule less.hyps)
      show "size_list size (fchildren n) < size_list size ns" by (rule children_smaller [OF n])
      show "built (fchildren n)" by (rule built_children [OF less.prems(1) n])
      show "nested_order (flats (fchildren n))"
        using subseq_sorted_wrt [OF flat_subseq [OF n]] less.prems(2) unfolding nested_order_def by blast
      show "sorted (map c_start (flats (fchildren n)))"
        by (rule subseq_sorted [OF subseq_map [OF flat_subseq [OF n]] less.prems(3)])
    qed
    moreover have "well_built n" using less.prems(1) n by (simp add: built_def)
    ultimately show "nested (fchildren n) \<and> (\<forall>c\<in>set (flats (fchildren n)). contains (fchunk n) c)"
      using built_contains by blast
  qed
qed

subsection \<open>Output of a nested level\<close>

abbreviation seg_before :: "segment \<Rightarrow> segment \<Rightarrow> bool" where
  "seg_before s t \<equiv> s_end s < s_start t"

lemma chunk_segments_disjoint:
  assumes "\<forall>c\<in>set cs. chunk_ok n c \<and> lst < c_start c" "sorted_wrt before cs"
  shows "sorted_wrt seg_before (snd (chunk_segments ls cap lst cs)) \<and>
    (\<forall>s\<in>set (snd (chunk_segments ls cap lst cs)).
       lst < s_start s \<and> s_end s \<le> fst (chunk_segments ls cap lst cs))"
  using assms
proof (induction ls cap lst cs rule: chunk_segments.induct)
  case (2 ls cap lst c cs)
  have m: "max lst (c_end c) = c_end c" using "2.prems"(1) by (auto simp: chunk_ok_def)
  obtain e segs where r: "chunk_segments ls cap (c_end c) cs = (e, segs)" by fastforce
  have "sorted_wrt seg_before segs \<and> (\<forall>s\<in>set segs. c_end c < s_start s \<and> s_end s \<le> e)"
    using "2.IH" [OF refl] "2.prems" r m by (auto simp: before_def)
  moreover have "c_end c \<le> e"
    using chunk_segments_last(1) [of "c_end c" ls cap cs] r by simp
  ultimately show ?case
    using "2.prems"(1) r m by (auto simp: gap_segment_def chunk_ok_def)
qed simp

lemma level_segments_disjoint:
  assumes "level_ok n cap lo hi cs" "sorted_wrt before cs"
  shows "sorted_wrt seg_before (level_segments ls cap lo hi cs) \<and>
    (\<forall>s\<in>set (level_segments ls cap lo hi cs). lo \<le> s_start s)"
proof -
  obtain e segs where r: "chunk_segments ls cap (lo - 1) cs = (e, segs)" by fastforce
  have "sorted_wrt seg_before segs \<and> (\<forall>s\<in>set segs. lo - 1 < s_start s \<and> s_end s \<le> e)"
    using chunk_segments_disjoint [of cs hi "lo - 1" ls cap] assms r by (force simp: level_ok_def)
  moreover have "lo - 1 \<le> e"
    using chunk_segments_last(1) [of "lo - 1" ls cap cs] r by simp
  ultimately show ?thesis
    using r by (auto simp: level_segments_def gap_segment_def sorted_wrt_append)
qed

lemma run_position:
  "sorted_wrt R (concat gs) \<Longrightarrow> g \<in> set gs \<Longrightarrow> s \<in> set (concat gs) \<Longrightarrow>
   s \<in> set g \<or> (\<forall>t\<in>set g. R s t) \<or> (\<forall>t\<in>set g. R t s)"
  by (induction gs) (auto simp: sorted_wrt_append)

text \<open>An output chunk against one of the siblings it was built from.\<close>

definition whole :: "code_chunk \<Rightarrow> code_chunk \<Rightarrow> bool" where
  "whole d c \<longleftrightarrow> inside c d \<or> before c d \<or> before d c"

lemma level_output:
  assumes "level_ok n cap lo hi cs" "sorted_wrt before cs" "d \<in> set (merge_siblings ls f r w m cap lo hi cs)"
  shows "lo \<le> c_start d \<and> c_end d \<le> hi \<and> (\<forall>c\<in>set cs. whole d c)"
proof -
  let ?gs = "level_groups ls m cap lo hi cs"
  obtain g where g: "g \<in> set ?gs" "d = emit_group ls f r w g"
    using assms(3) by (auto simp: merge_siblings_groups)
  have lok: "\<forall>c\<in>set cs. chunk_ok hi c" "1 \<le> lo" "lo \<le> hi + 1"
    using assms(1) by (auto simp: level_ok_def)
  note srt = level_segments_disjoint [OF assms(1,2), of ls]
  have sub: "set g \<subseteq> set (level_segments ls cap lo hi cs)"
    using g(1) unfolding level_groups_concat [of ls m cap lo hi cs, symmetric] by auto
  then have ok: "\<forall>s\<in>set g. seg_ok hi s" using level_segments_ok [OF lok] by blast
  have ne: "g \<noteq> []" using g(1) level_groups_nonempty by metis
  note rng = emit_range [OF ne ok, of ls f r w, folded g(2)]
  have hd: "hd g \<in> set g" using ne by simp
  have "group_end g \<in> s_end ` set g"
    using Max_in [of "s_end ` set g"] ne by (simp add: group_end_def)
  then obtain t where t: "t \<in> set g" "group_end g = s_end t" by blast
  have "whole d c" if c: "c \<in> set cs" for c
  proof -
    have "chunk_segment c \<in> set (concat ?gs)"
      unfolding level_groups_concat using chunk_segments_chunks [OF c, of ls cap "lo - 1"]
      by (simp add: level_segments_def case_prod_beta)
    from run_position [OF _ g(1) this] srt
    consider (mem) "chunk_segment c \<in> set g" | (pre) "\<forall>t\<in>set g. seg_before (chunk_segment c) t"
      | (post) "\<forall>t\<in>set g. seg_before t (chunk_segment c)"
      unfolding level_groups_concat by blast
    then show ?thesis
    proof cases
      case mem
      have "sorted (map s_start g)"
        by (rule sorted_concat_mem [OF _ g(1)], unfold level_groups_concat)
          (use level_segments_sorted [of cs hi lo ls cap] assms(1) in \<open>simp add: level_ok_def\<close>)
      then have "s_start (hd g) \<le> c_start c" using mem by (cases g) auto
      with group_end_ge [OF mem] rng show ?thesis by (simp add: whole_def inside_def)
    next
      case pre
      with hd rng show ?thesis by (auto simp: whole_def before_def)
    next
      case post
      with t rng show ?thesis by (auto simp: whole_def before_def)
    qed
  qed
  moreover have "lo \<le> c_start d" using hd sub srt rng by auto
  moreover have "c_end d \<le> hi" using t ok rng by (auto simp: seg_ok_def)
  ultimately show ?thesis by blast
qed

lemma whole_inside: "whole d p \<Longrightarrow> inside c p \<Longrightarrow> whole d c"
  by (auto simp: whole_def inside_def before_def)

lemma contains_inside: "contains p c \<Longrightarrow> inside c p"
  by (simp add: contains_def inside_def)

text \<open>An output chunk and an input chunk: disjoint, or one inside the other.\<close>

definition compatible :: "code_chunk \<Rightarrow> code_chunk \<Rightarrow> bool" where
  "compatible d c \<longleftrightarrow> inside c d \<or> inside d c \<or> before c d \<or> before d c"

definition keeps_whole ::
    "int \<Rightarrow> (bool \<Rightarrow> int \<Rightarrow> int \<Rightarrow> code_chunk list \<Rightarrow> code_chunk list) \<Rightarrow> bool" where
  "keeps_whole n merge \<longleftrightarrow> (\<forall>cap lo hi cs d. level_ok n cap lo hi cs \<longrightarrow> sorted_wrt before cs \<longrightarrow>
     d \<in> set (merge cap lo hi cs) \<longrightarrow> lo \<le> c_start d \<and> c_end d \<le> hi \<and> (\<forall>c\<in>set cs. whole d c))"

lemma merge_keeps_whole: "keeps_whole n (merge_siblings ls f r w m)"
  unfolding keeps_whole_def using level_output by blast

lemma emit_level_compatible:
  assumes "keeps_whole n merge"
    and "forest_ok n ns" "level_ok n cap lo hi (map fchunk ns)" "nested ns"
    and "d \<in> set (emit_level merge ns lo hi cap)"
  shows "lo \<le> c_start d \<and> c_end d \<le> hi \<and> (\<forall>c\<in>set (flats ns). compatible d c)"
  using assms
proof (induction merge ns lo hi cap rule: emit_level.induct)
  case (1 merge ns lo hi cap)
  have srt: "sorted_wrt (\<lambda>a b. before (fchunk a) (fchunk b)) ns"
    and below: "\<And>n. n \<in> set ns \<Longrightarrow> nested (fchildren n) \<and> (\<forall>c\<in>set (flats (fchildren n)). contains (fchunk n) c)"
    using nestedE [OF "1.prems"(4)] by blast+
  have under: "inside c (fchunk k)" if "c \<in> set (flats (fchildren k))" "k \<in> set ns" for c k
    using below [OF that(2)] that(1) contains_inside by blast
  from "1.prems"(5) consider (top) "d \<in> set (merge cap lo hi (map fchunk ns))"
    | (below) k where "k \<in> set ns" "fchildren k \<noteq> []"
      "d \<in> set (emit_level merge (fchildren k) (Min (set (map (c_start \<circ> fchunk) (fchildren k))))
        (Max (set (map (c_end \<circ> fchunk) (fchildren k)))) False)"
    by (subst (asm) emit_level.simps) (auto split: if_splits)
  then show ?case
  proof cases
    case top
    have "sorted_wrt before (map fchunk ns)" using srt by (simp add: sorted_wrt_map)
    then have o: "lo \<le> c_start d \<and> c_end d \<le> hi \<and> (\<forall>c\<in>set (map fchunk ns). whole d c)"
      using "1.prems"(1,3) top unfolding keeps_whole_def by blast
    have "whole d c" if c: "c \<in> set (flats ns)" for c
    proof (cases "c \<in> set (map fchunk ns)")
      case True
      with o show ?thesis by blast
    next
      case False
      then obtain k where k: "k \<in> set ns" "c \<in> set (flats (fchildren k))"
        using c flats_mem [of c ns] by blast
      have "whole d (fchunk k)" using o k(1) by simp
      then show ?thesis using under [OF k(2,1)] by (rule whole_inside)
    qed
    with o show ?thesis by (auto simp: compatible_def whole_def)
  next
    case (below k)
    note fk = forest_ok_children [OF "1.prems"(2) below(1)]
    note env = envelope [OF fk below(2)]
    let ?lo = "Min (set (map (c_start \<circ> fchunk) (fchildren k)))"
    let ?hi = "Max (set (map (c_end \<circ> fchunk) (fchildren k)))"
    have lk: "level_ok n False ?lo ?hi (map fchunk (fchildren k))"
      unfolding level_ok_def using env forest_ok_top(2) [OF fk] by blast
    have nk: "nested (fchildren k)" using \<open>k \<in> set ns\<close> nestedE [OF "1.prems"(4)] by blast
    note ih = "1.IH" [OF below(1,2) "1.prems"(1) fk lk nk below(3)]
    have kids: "\<forall>j\<in>set (fchildren k). inside (fchunk j) (fchunk k)"
      using under [OF _ below(1)] flats_mem [of _ "fchildren k"] by auto
    have "c_start (fchunk k) \<le> ?lo" "?hi \<le> c_end (fchunk k)"
      using kids below(2) by (auto simp: inside_def)
    with ih have dk: "inside d (fchunk k)" by (simp add: inside_def)
    have "chunk_ok hi (fchunk k) \<and> lo \<le> c_start (fchunk k)"
      using "1.prems"(3) below(1) by (auto simp: level_ok_def)
    with dk have rng: "lo \<le> c_start d \<and> c_end d \<le> hi" by (auto simp: inside_def chunk_ok_def)
    have "compatible d c" if c: "c \<in> set (flats ns)" for c
    proof -
      obtain j where j: "j \<in> set ns" "c = fchunk j \<or> c \<in> set (flats (fchildren j))"
        using c flats_mem [of c ns] by auto
      show ?thesis
      proof (cases "j = k")
        case True
        with j ih dk show ?thesis by (auto simp: compatible_def)
      next
        case False
        have cj: "inside c (fchunk j)" using j under by (auto simp: inside_def)
        have "before (fchunk j) (fchunk k) \<or> before (fchunk k) (fchunk j)"
          using srt j(1) below(1) False by (induction ns) auto
        with cj dk show ?thesis by (auto simp: compatible_def before_def inside_def)
      qed
    qed
    with rng show ?thesis by blast
  qed
qed


subsection \<open>Instances\<close>

definition demo_chunk :: "string \<Rightarrow> string \<Rightarrow> int \<Rightarrow> int \<Rightarrow> string \<Rightarrow> code_chunk" where
  "demo_chunk n t a b content = \<lparr>c_content = content, c_type = t, c_start = a, c_end = b, c_file = ''/t.py'',
     c_rel = ''t.py'', c_folders = [], c_name = Some n, c_parent = None, c_doc = None, c_decorators = [],
     c_imports = [], c_complexity = 0, c_tags = [''python'']\<rparr>"

definition demo_source :: string where
  "demo_source = join_lines [''import os'', ''class A:'', '' def f():'', '' def g():'', '' z = 1'', ''y = 2'', []]"

definition demo_chunks :: "code_chunk list" where
  "demo_chunks =
     [demo_chunk ''g'' ''method'' 4 4 ''def g():'',
      demo_chunk ''A'' ''class'' 2 5 (join_lines [''class A:'', '' def f():'', '' def g():'', '' z = 1'']),
      demo_chunk ''f'' ''method'' 3 3 ''def f():'']"

definition demo_merged :: "code_chunk list" where
  "demo_merged = merge_file_chunks demo_chunks demo_source ''/t.py'' ''t.py'' [] 20"

lemma demo_chunks_ok:
  "\<forall>c\<in>set demo_chunks. chunk_ok (int (length (split_lines demo_source))) c \<and>
     carries_lines (split_lines demo_source) c"
  by code_simp

lemma demo_chunks_in_range: "\<forall>c\<in>set demo_chunks. chunk_ok (int (length (split_lines demo_source))) c"
  using demo_chunks_ok by blast

lemma demo_merged_ranges:
  "map (\<lambda>c. (c_start c, c_end c)) demo_merged = [(1, 1), (2, 5), (3, 4), (6, 7)]"
  by code_simp

theorem covers_witness:
  "\<exists>d\<in>set demo_merged. inside (demo_chunk ''f'' ''method'' 3 3 ''def f():'') d"
  using merge_covers_file [OF demo_chunks_in_range, of "''/t.py''" "''t.py''" "[]" 20]
  unfolding demo_merged_def by (simp add: demo_chunks_def)



end
