(* ===== verification/MetadataStore.thy ===== *)
theory MetadataStore
  imports Prelude
begin

text \<open>
  The metadata store of \<open>search/metadata_store.py\<close>: one SQLite table of JSON values behind a
  dict-like surface, with explicit commits. A connection sees its own uncommitted writes; what is
  committed survives \<open>close\<close>. Rows are listed in insertion order (SQLite's rowid order), and a
  value is what \<open>json.loads\<close> gives back for what \<open>json.dumps\<close> wrote.

  The locale \<open>kv_interface\<close> states what the index manager relies on; \<open>kv\<close> interprets it on the
  definitions of this theory.
\<close>

record kv_file =
  kv_tables :: "string list"
  kv_rows :: "(string, json) dict"

record kv_conn =
  kv_path :: kv_file  \<comment> \<open>the committed file\<close>
  kv_pending :: "(string, json) dict"  \<comment> \<open>the rows this connection sees\<close>

datatype kv_error = KvMissing string | LegacyMetadataFormat

definition kv_table :: string where
  "kv_table = ''kv''"

definition reject_legacy_format :: "kv_file \<Rightarrow> kv_error + unit" where
  "reject_legacy_format f =
     (if ''unnamed'' \<in> set (kv_tables f) \<and> kv_table \<notin> set (kv_tables f)
      then Inl LegacyMetadataFormat else Inr ())"

definition kv_open :: "kv_file \<Rightarrow> kv_error + kv_conn" where
  "kv_open f =
     bindr (reject_legacy_format f) (\<lambda>_.
       let f' = (if kv_table \<in> set (kv_tables f) then f
                 else f\<lparr>kv_tables := kv_tables f @ [kv_table], kv_rows := []\<rparr>)
       in Inr \<lparr>kv_path = f', kv_pending = kv_rows f'\<rparr>)"

definition kv_get :: "kv_conn \<Rightarrow> string \<Rightarrow> json option" where
  "kv_get db k = dict_get (kv_pending db) k"

definition kv_getitem :: "kv_conn \<Rightarrow> string \<Rightarrow> kv_error + json" where
  "kv_getitem db k = (case kv_get db k of None \<Rightarrow> Inl (KvMissing k) | Some v \<Rightarrow> Inr v)"

definition kv_setitem :: "string \<Rightarrow> json \<Rightarrow> kv_conn \<Rightarrow> kv_conn" where
  "kv_setitem k v db = db\<lparr>kv_pending := dict_put k v (kv_pending db)\<rparr>"

definition kv_delitem :: "string \<Rightarrow> kv_conn \<Rightarrow> kv_error + kv_conn" where
  "kv_delitem k db =
     (if dict_get (kv_pending db) k = None then Inl (KvMissing k)
      else Inr (db\<lparr>kv_pending := dict_del k (kv_pending db)\<rparr>))"

definition kv_contains :: "kv_conn \<Rightarrow> string \<Rightarrow> bool" where
  "kv_contains db k \<longleftrightarrow> dict_get (kv_pending db) k \<noteq> None"

definition kv_len :: "kv_conn \<Rightarrow> nat" where
  "kv_len db = length (kv_pending db)"

definition kv_items :: "kv_conn \<Rightarrow> (string \<times> json) list" where
  "kv_items db = kv_pending db"

definition kv_keys :: "kv_conn \<Rightarrow> string list" where
  "kv_keys db = map fst (kv_items db)"

definition kv_commit :: "kv_conn \<Rightarrow> kv_conn" where
  "kv_commit db = db\<lparr>kv_path := (kv_path db)\<lparr>kv_rows := kv_pending db\<rparr>\<rparr>"

text \<open>\<open>close\<close> drops pending writes and leaves the committed file.\<close>

definition kv_close :: "kv_conn \<Rightarrow> kv_file" where
  "kv_close db = kv_path db"

text \<open>A table has one row per key.\<close>

definition kv_ok :: "kv_conn \<Rightarrow> bool" where
  "kv_ok db \<longleftrightarrow> distinct (map fst (kv_pending db)) \<and> distinct (map fst (kv_rows (kv_path db))) \<and>
     kv_table \<in> set (kv_tables (kv_path db))"

text \<open>\<open>try: del db[k] except KeyError: pass\<close>.\<close>

definition kv_discard :: "string \<Rightarrow> kv_conn \<Rightarrow> kv_conn" where
  "kv_discard k db = (case kv_delitem k db of Inl _ \<Rightarrow> db | Inr db' \<Rightarrow> db')"

subsection \<open>The interface\<close>

locale kv_interface =
  fixes get :: "'s \<Rightarrow> string \<Rightarrow> json option"
    and put :: "string \<Rightarrow> json \<Rightarrow> 's \<Rightarrow> 's"
    and discard :: "string \<Rightarrow> 's \<Rightarrow> 's"
    and items :: "'s \<Rightarrow> (string \<times> json) list"
    and commit :: "'s \<Rightarrow> 's"
    and inv :: "'s \<Rightarrow> bool"
  assumes get_put: "get (put k v s) j = (if j = k then Some v else get s j)"
    and get_discard: "inv s \<Longrightarrow> get (discard k s) j = (if j = k then None else get s j)"
    and get_commit: "get (commit s) j = get s j"
    and items_get: "inv s \<Longrightarrow> (k, v) \<in> set (items s) \<longleftrightarrow> get s k = Some v"
    and items_distinct: "inv s \<Longrightarrow> distinct (map fst (items s))"
    and inv_put: "inv s \<Longrightarrow> inv (put k v s)"
    and inv_discard: "inv s \<Longrightarrow> inv (discard k s)"
    and inv_commit: "inv s \<Longrightarrow> inv (commit s)"
begin

lemma inv_discards: "inv s \<Longrightarrow> inv (fold discard ks s)"
  by (induction ks arbitrary: s) (simp_all add: inv_discard)

lemma get_discards: "inv s \<Longrightarrow> get (fold discard ks s) j = (if j \<in> set ks then None else get s j)"
  by (induction ks arbitrary: s) (simp_all add: get_discard inv_discard)

lemma inv_puts: "inv s \<Longrightarrow> inv (fold (\<lambda>(k, v). put k v) kvs s)"
  by (induction kvs arbitrary: s) (auto simp: inv_put)

lemma get_puts: "get (fold (\<lambda>(k, v). put k v) kvs s) j = (get s ++ map_of (rev kvs)) j"
proof (induction kvs arbitrary: s)
  case (Cons a kvs)
  obtain k v where "a = (k, v)" by fastforce
  with Cons show ?case
    by (auto simp: get_put map_add_def split: option.split)
qed simp

lemma items_count: "inv s \<Longrightarrow> length (items s) = card {k. get s k \<noteq> None}"
proof -
  assume s: "inv s"
  have "set (map fst (items s)) = {k. get s k \<noteq> None}"
    using items_get [OF s] by force
  then show ?thesis using items_distinct [OF s] by (metis distinct_card length_map)
qed

end

interpretation kv: kv_interface kv_get kv_setitem kv_discard kv_items kv_commit kv_ok
proof
  fix s k v j
  show "kv_get (kv_setitem k v s) j = (if j = k then Some v else kv_get s j)"
    by (simp add: kv_get_def kv_setitem_def dict_simps)
  show "kv_get (kv_commit s) j = kv_get s j" by (simp add: kv_get_def kv_commit_def)
  assume s: "kv_ok s"
  show "kv_get (kv_discard k s) j = (if j = k then None else kv_get s j)"
    by (auto simp: kv_get_def kv_discard_def kv_delitem_def dict_simps split: sum.splits)
  show "(k, v) \<in> set (kv_items s) \<longleftrightarrow> kv_get s k = Some v"
    using s by (simp add: kv_items_def kv_get_def kv_ok_def)
  show "distinct (map fst (kv_items s))" using s by (simp add: kv_items_def kv_ok_def)
  show "kv_ok (kv_setitem k v s)" using s by (simp add: kv_ok_def kv_setitem_def dict_put_distinct)
  show "kv_ok (kv_discard k s)"
    using s by (auto simp: kv_ok_def kv_discard_def kv_delitem_def distinct_delete split: sum.splits)
  show "kv_ok (kv_commit s)" using s by (simp add: kv_ok_def kv_commit_def)
qed

text \<open>The dict surface agrees with itself, and a commit is what a reopened store shows.\<close>

lemma kv_len_items: "kv_ok db \<Longrightarrow> kv_len db = card {k. kv_get db k \<noteq> None}"
  using kv.items_count [of db] by (simp add: kv_len_def kv_items_def)

lemma kv_reopen: "kv_ok db \<Longrightarrow> kv_open (kv_close db) =
    Inr \<lparr>kv_path = kv_path db, kv_pending = kv_rows (kv_path db)\<rparr>"
  by (simp add: kv_open_def kv_close_def reject_legacy_format_def kv_ok_def Let_def)

text \<open>
  C34. Explicit-commit semantics: after any batch of writes and deletions that is committed, more
  writes that are not, and a close, reopening shows exactly the committed state.
\<close>

theorem only_commits_survive_close:
  assumes "kv_ok db"
  shows "\<exists>db'. kv_open (kv_close (fold (\<lambda>(k, v). kv_setitem k v) later
      (kv_commit (fold kv_discard ks (fold (\<lambda>(k, v). kv_setitem k v) kvs db))))) = Inr db' \<and>
    kv_get db' j = (if j \<in> set ks then None else (kv_get db ++ map_of (rev kvs)) j)"
proof -
  let ?w = "fold kv_discard ks (fold (\<lambda>(k, v). kv_setitem k v) kvs db)"
  have ok: "kv_ok (fold (\<lambda>(k, v). kv_setitem k v) kvs db)" by (rule kv.inv_puts [OF assms])
  then have w: "kv_ok ?w" by (rule kv.inv_discards)
  have path: "kv_path (fold (\<lambda>(k, v). kv_setitem k v) xs s) = kv_path s" for xs s
    by (induction xs arbitrary: s) (auto simp: kv_setitem_def)
  have "kv_get ?w j = (if j \<in> set ks then None else (kv_get db ++ map_of (rev kvs)) j)"
    by (simp add: kv.get_discards [OF ok] kv.get_puts)
  moreover have "kv_open (kv_close (fold (\<lambda>(k, v). kv_setitem k v) later (kv_commit ?w))) =
      Inr \<lparr>kv_path = kv_path (kv_commit ?w), kv_pending = kv_pending ?w\<rparr>"
    using w by (auto simp: kv_open_def kv_close_def path reject_legacy_format_def kv_ok_def kv_commit_def Let_def)
  ultimately show ?thesis by (auto simp: kv_get_def)
qed

theorem commit_witness:
  "\<exists>db'. kv_open (kv_close (fold (\<lambda>(k, v). kv_setitem k v) [(''c'', JInt 3)]
      (kv_commit (fold kv_discard [''a''] (fold (\<lambda>(k, v). kv_setitem k v) [(''a'', JInt 1), (''b'', JInt 2)]
        \<lparr>kv_path = \<lparr>kv_tables = [''kv''], kv_rows = []\<rparr>, kv_pending = []\<rparr>))))) = Inr db' \<and>
    kv_get db' ''b'' = Some (JInt 2)"
proof -
  have ok: "kv_ok \<lparr>kv_path = \<lparr>kv_tables = [''kv''], kv_rows = []\<rparr>, kv_pending = []\<rparr>"
    by (simp add: kv_ok_def kv_table_def)
  from only_commits_survive_close [OF ok, of "[(''c'', JInt 3)]" "[''a'']" "[(''a'', JInt 1), (''b'', JInt 2)]" "''b''"]
  show ?thesis by (simp add: kv_get_def)
qed

end
