(* ===== verification/IndexStore.thy ===== *)
theory IndexStore
  imports MetadataStore
begin

text \<open>
  The working set of \<open>CodeIndexManager\<close> in \<open>search/indexer.py\<close>: the FAISS index, the parallel list
  of chunk ids, the metadata table, the FTS5 table, and the operations that load, extend and shrink
  them. FAISS and SQLite's FTS5 are libraries: an index is represented by what was put into it
  (training batch and added vectors), and what a search or a reconstruction computes from it is a
  field of the \<open>faiss_lib\<close> argument. The opt-in binary quantisation is outside the model
  (\<open>create_index\<close> reports it), as is moving an index to a GPU, which changes no result.

  Metadata texts are strings or \<open>None\<close>, as the embedder writes them; \<open>'a\<close> is the type of vector
  components and scores.
\<close>

type_synonym metadata = "(string, json) dict"

datatype 'b disk_file = NoFile | Unreadable | Readable 'b

datatype index_kind = FlatIP | ScalarQ8 | IVFFlat nat

record 'a faiss_index =
  fx_kind :: index_kind
  fx_d :: nat
  fx_training :: "'a list list option"
  fx_rows :: "'a list list"

definition ntotal :: "'a faiss_index \<Rightarrow> nat" where
  "ntotal ix = length (fx_rows ix)"

definition is_trained :: "'a faiss_index \<Rightarrow> bool" where
  "is_trained ix \<longleftrightarrow> fx_kind ix = FlatIP \<or> fx_training ix \<noteq> None"

record fts_row =
  fr_chunk_id :: string
  fr_content :: string
  fr_file_path :: string
  fr_name :: string

record 'a embedding_result =
  er_embedding :: "'a list"
  er_chunk_id :: string
  er_metadata :: metadata

record 'a faiss_lib =
  normalize_L2 :: "'a list \<Rightarrow> 'a list"
  index_search :: "'a faiss_index \<Rightarrow> 'a list \<Rightarrow> nat \<Rightarrow> ('a \<times> int) list"
  index_reconstruct :: "'a faiss_index \<Rightarrow> nat \<Rightarrow> 'a list"
  fts_bm25 :: "fts_row list \<Rightarrow> nat \<Rightarrow> string \<Rightarrow> int \<Rightarrow> (string \<times> 'a) list option"
  quantization :: string
  can_quarantine :: bool

datatype index_error = ShapeMismatch | FtsUnavailable | BadK int | UnsupportedIndexType string
  | BinaryMode | MetadataCorrupt kv_error

record 'a store =
  st_index :: "'a faiss_index option"
  st_chunk_ids :: "string option list"
  st_metadata :: kv_conn
  st_fts :: "fts_row list option"
  st_marker :: bool
  disk_index :: "'a faiss_index disk_file"
  disk_chunk_ids :: "string option list disk_file"
  disk_fts :: "fts_row list disk_file"

subsection \<open>Metadata entries\<close>

definition meta_entry :: "nat \<Rightarrow> metadata \<Rightarrow> json" where
  "meta_entry i m = JObj [(''index_id'', JInt (int i)), (''metadata'', JObj m)]"

definition entry_index_id :: "json \<Rightarrow> int option" where
  "entry_index_id e = (case e of
     JObj ob \<Rightarrow> (case jget ob ''index_id'' of
        Some (JInt i) \<Rightarrow> Some i | Some (JBool b) \<Rightarrow> Some (of_bool b) | _ \<Rightarrow> None)
   | _ \<Rightarrow> None)"

definition entry_metadata :: "json \<Rightarrow> metadata" where
  "entry_metadata e = (case e of
     JObj ob \<Rightarrow> (case jget ob ''metadata'' of Some (JObj m) \<Rightarrow> m | _ \<Rightarrow> [])
   | _ \<Rightarrow> [])"

text \<open>\<open>metadata.get(k, '') or ''\<close> for a text field.\<close>

definition meta_text :: "metadata \<Rightarrow> string \<Rightarrow> string" where
  "meta_text m k = (case dict_get m k of Some (JStr s) \<Rightarrow> s | _ \<Rightarrow> [])"

definition meta_has :: "metadata \<Rightarrow> string \<Rightarrow> bool" where
  "meta_has m k \<longleftrightarrow> dict_get m k \<noteq> None"

subsection \<open>The FTS5 table\<close>

definition init_fts5 :: "'a faiss_lib \<Rightarrow> 'a store \<Rightarrow> 'a store" where
  "init_fts5 lib s = (case disk_fts s of
     Readable rows \<Rightarrow> s\<lparr>st_fts := Some rows\<rparr>
   | NoFile \<Rightarrow> s\<lparr>st_fts := Some [], disk_fts := Readable []\<rparr>
   | Unreadable \<Rightarrow>
       if can_quarantine lib then s\<lparr>st_fts := Some [], disk_fts := Readable []\<rparr>
       else s\<lparr>st_fts := None\<rparr>)"

text \<open>\<open>for i in range(0, len(ids), 500): DELETE ... WHERE chunk_id IN (batch)\<close>.\<close>

function batches_of :: "nat \<Rightarrow> 'b list \<Rightarrow> 'b list list" where
  "batches_of n xs = (if xs = [] \<or> n = 0 then [] else take n xs # batches_of n (drop n xs))"
  by pat_completeness auto
termination by (relation "measure (\<lambda>(n, xs). length xs)") auto

declare batches_of.simps [simp del]

definition fts_delete :: "string list \<Rightarrow> fts_row list \<Rightarrow> fts_row list" where
  "fts_delete ids rows = [r \<leftarrow> rows. fr_chunk_id r \<notin> set ids]"

definition fts_delete_batched :: "string list \<Rightarrow> fts_row list \<Rightarrow> fts_row list" where
  "fts_delete_batched ids rows = fold fts_delete (batches_of 500 ids) rows"

lemma concat_batches: "0 < n \<Longrightarrow> concat (batches_of n xs) = xs"
  by (induction n xs rule: batches_of.induct) (subst batches_of.simps, auto)

lemma fts_delete_batched: "fts_delete_batched ids rows = fts_delete ids rows"
proof -
  have "fold fts_delete bs rows = fts_delete (concat bs) rows" for bs
    by (induction bs arbitrary: rows) (auto simp: fts_delete_def intro: filter_cong)
  then show ?thesis by (simp add: fts_delete_batched_def concat_batches)
qed

definition header_parts :: "metadata \<Rightarrow> string list" where
  "header_parts m =
     (let file_path = (if meta_has m ''relative_path'' then meta_text m ''relative_path''
                       else meta_text m ''file_path'');
          name = meta_text m ''name''; chunk_type = meta_text m ''chunk_type'';
          parent = meta_text m ''parent_name''
      in (if file_path \<noteq> [] then [''# From '' @ file_path] else []) @
         (if parent \<noteq> [] \<and> name \<noteq> [] then [''- '' @ chunk_type @ '' '' @ parent @ ''.'' @ name]
          else if name \<noteq> [] then [''- '' @ chunk_type @ '' '' @ name]
          else if chunk_type \<noteq> [] then [''- '' @ chunk_type]
          else []))"

definition fts_document :: "string \<Rightarrow> metadata \<Rightarrow> fts_row" where
  "fts_document chunk_id m =
     (let content = (if meta_has m ''full_content'' then meta_text m ''full_content''
                     else meta_text m ''content_preview'');
          file_path = (if meta_has m ''relative_path'' then meta_text m ''relative_path''
                       else meta_text m ''file_path'');
          hs = header_parts m
      in \<lparr>fr_chunk_id = chunk_id,
          fr_content = (if hs = [] then content else join '' '' hs @ [CHR 0x0A] @ content),
          fr_file_path = file_path, fr_name = meta_text m ''name''\<rparr>)"

subsection \<open>Loading\<close>

text \<open>
  \<open>_maybe_rebuild_chunk_ids\<close>: \<open>rebuild_slots\<close> is its loop over the metadata rows. A missing
  \<open>metadata.db\<close> cannot be met here, since the connection creates the file.
\<close>

fun rebuild_slots :: "nat \<Rightarrow> (string \<times> json) list \<Rightarrow> string option list \<Rightarrow> string option list" where
  "rebuild_slots n [] slots = slots"
| "rebuild_slots n ((cid, e) # rest) slots =
     (case entry_index_id e of
        None \<Rightarrow> rebuild_slots n rest slots
      | Some i \<Rightarrow>
          if i < 0 \<or> int n \<le> i then rebuild_slots n rest slots
          else if slots ! nat i = None then rebuild_slots n rest (slots[nat i := Some cid])
          else rebuild_slots n rest slots)"

definition maybe_rebuild_chunk_ids :: "'a store \<Rightarrow> 'a store" where
  "maybe_rebuild_chunk_ids s = (case st_index s of
     None \<Rightarrow> s
   | Some ix \<Rightarrow>
       if ntotal ix = 0 then s
       else if length (st_chunk_ids s) = ntotal ix then s
       else
         let rebuilt = rebuild_slots (ntotal ix) (kv_items (st_metadata s)) (replicate (ntotal ix) None);
             missing = length (filter (\<lambda>x. x = None) rebuilt)
         in if 0 < missing then s
            else s\<lparr>st_chunk_ids := rebuilt, disk_chunk_ids := Readable rebuilt\<rparr>)"

definition load_index :: "'a store \<Rightarrow> 'a store" where
  "load_index s = (case disk_index s of
     NoFile \<Rightarrow> s\<lparr>st_index := None, st_chunk_ids := []\<rparr>
   | Unreadable \<Rightarrow> s\<lparr>st_index := None, st_chunk_ids := []\<rparr>
   | Readable ix \<Rightarrow>
       maybe_rebuild_chunk_ids
         (s\<lparr>st_index := Some ix,
            st_chunk_ids := (case disk_chunk_ids s of
               Readable ids \<Rightarrow> ids | Unreadable \<Rightarrow> [] | NoFile \<Rightarrow> st_chunk_ids s)\<rparr>))"

definition ensure_loaded :: "'a store \<Rightarrow> 'a store" where
  "ensure_loaded s = (if st_index s = None \<and> disk_index s \<noteq> NoFile then load_index s else s)"

text \<open>The \<open>index\<close> property loads whenever nothing is loaded.\<close>

definition index_property :: "'a store \<Rightarrow> 'a store" where
  "index_property s = (if st_index s = None then load_index s else s)"

definition mark_working_set_dirty :: "'a store \<Rightarrow> 'a store" where
  "mark_working_set_dirty s = s\<lparr>st_marker := True\<rparr>"

subsection \<open>Adding\<close>

definition create_index :: "'a faiss_lib \<Rightarrow> nat \<Rightarrow> string \<Rightarrow> 'a store \<Rightarrow> index_error + 'a store" where
  "create_index lib d index_type s =
     (let new = (\<lambda>kd. Inr (s\<lparr>st_index := Some \<lparr>fx_kind = kd, fx_d = d, fx_training = None, fx_rows = []\<rparr>\<rparr>))
      in if lower (quantization lib) = ''binary'' then Inl BinaryMode
         else if lower (quantization lib) = ''int8'' \<and> index_type = ''flat'' then new ScalarQ8
         else if index_type = ''flat'' then new FlatIP
         else if index_type = ''ivf'' then new (IVFFlat (min 100 (max 10 (d div 8))))
         else Inl (UnsupportedIndexType index_type))"

definition train :: "'a list list \<Rightarrow> 'a faiss_index \<Rightarrow> 'a faiss_index" where
  "train vs ix = (if is_trained ix then ix else ix\<lparr>fx_training := Some vs\<rparr>)"

definition add_rows :: "'a list list \<Rightarrow> 'a faiss_index \<Rightarrow> 'a faiss_index" where
  "add_rows vs ix = ix\<lparr>fx_rows := fx_rows ix @ vs\<rparr>"

fun store_entries :: "nat \<Rightarrow> 'a embedding_result list \<Rightarrow> kv_conn \<Rightarrow> kv_conn" where
  "store_entries i [] db = db"
| "store_entries i (r # rs) db =
     store_entries (Suc i) rs (kv_setitem (er_chunk_id r) (meta_entry i (er_metadata r)) db)"

definition add_vectors :: "'a faiss_lib \<Rightarrow> 'a embedding_result list \<Rightarrow> 'a faiss_index \<Rightarrow> 'a faiss_index" where
  "add_vectors lib rs ix =
     (let vs = map (normalize_L2 lib \<circ> er_embedding) rs in add_rows vs (train vs ix))"

definition add_to_fts :: "'a faiss_lib \<Rightarrow> 'a embedding_result list \<Rightarrow> 'a store \<Rightarrow> index_error option \<times> 'a store" where
  "add_to_fts lib rs s =
     (let s = (if st_fts s = None then init_fts5 lib s else s)
      in case st_fts s of
           None \<Rightarrow> (Some FtsUnavailable, s)
         | Some rows \<Rightarrow>
             let rows' = fts_delete_batched (map er_chunk_id rs) rows @ map (\<lambda>r. fts_document (er_chunk_id r) (er_metadata r)) rs
             in (None, s\<lparr>st_fts := Some rows', disk_fts := Readable rows'\<rparr>))"

text \<open>
  \<open>add_embeddings\<close>. The second component is the state the call leaves, also when it raises. FAISS
  and NumPy refuse vectors of another dimension before anything is stored.
\<close>

definition add_embeddings ::
    "'a faiss_lib \<Rightarrow> 'a embedding_result list \<Rightarrow> 'a store \<Rightarrow> index_error option \<times> 'a store" where
  "add_embeddings lib rs s =
     (if rs = [] then (None, s)
      else
        let s1 = mark_working_set_dirty (ensure_loaded s)
        in case (if st_index s1 = None then create_index lib (length (er_embedding (hd rs))) ''flat'' s1
                 else Inr s1) of
             Inl e \<Rightarrow> (Some e, s1)
           | Inr s2 \<Rightarrow>
               let ix = the (st_index s2)
               in if \<exists>r \<in> set rs. length (er_embedding r) \<noteq> fx_d ix then (Some ShapeMismatch, s2)
                  else
                    let start_id = length (st_chunk_ids s2);
                        s3 = s2\<lparr>st_index := Some (add_vectors lib rs ix),
                                st_chunk_ids := st_chunk_ids s2 @ map (Some \<circ> er_chunk_id) rs,
                                st_metadata := kv_commit (store_entries start_id rs (st_metadata s2))\<rparr>
                    in add_to_fts lib rs s3)"

subsection \<open>Removing\<close>

text \<open>\<open>str(path).replace('\\', '/').rstrip('/')\<close>.\<close>

definition normalize_path :: "string \<Rightarrow> string" where
  "normalize_path p =
     rev (dropWhile (\<lambda>c. c = CHR ''/'') (rev (map (\<lambda>c. if c = CHR 0x5C then CHR ''/'' else c) p)))"

definition is_absolute_norm :: "string \<Rightarrow> bool" where
  "is_absolute_norm p \<longleftrightarrow> starts_with p ''/'' \<or> (3 \<le> length p \<and> p ! 1 = CHR '':'' \<and> p ! 2 = CHR ''/'')"

definition paths_refer_to_same_file :: "string \<Rightarrow> string \<Rightarrow> string \<Rightarrow> bool" where
  "paths_refer_to_same_file target chunk_rel chunk_abs =
     (let target = normalize_path target;
          chunk_rel = (if chunk_rel \<noteq> [] then normalize_path chunk_rel else []);
          chunk_abs = (if chunk_abs \<noteq> [] then normalize_path chunk_abs else [])
      in if target = [] then False
         else if target = chunk_rel \<or> target = chunk_abs then True
         else if is_absolute_norm target then chunk_rel \<noteq> [] \<and> ends_with target (''/'' @ chunk_rel)
         else if chunk_rel = [] \<and> chunk_abs \<noteq> [] then ends_with chunk_abs (''/'' @ target)
         else False)"

definition removes_chunk :: "string \<Rightarrow> string option \<Rightarrow> metadata \<Rightarrow> bool" where
  "removes_chunk file_path project_name m =
     (let chunk_rel = meta_text m ''relative_path''; chunk_abs = meta_text m ''file_path''
      in if chunk_rel = [] \<and> chunk_abs = [] then False
         else if paths_refer_to_same_file file_path chunk_rel chunk_abs then
           (case project_name of
              None \<Rightarrow> True
            | Some p \<Rightarrow> p = [] \<or> dict_get m ''project_name'' = Some (JStr p))
         else False)"

fun find_chunks_to_remove ::
    "string \<Rightarrow> string option \<Rightarrow> kv_conn \<Rightarrow> string set \<Rightarrow> string option list \<Rightarrow> string list" where
  "find_chunks_to_remove file_path project_name db seen [] = []"
| "find_chunks_to_remove file_path project_name db seen (None # ids) =
     find_chunks_to_remove file_path project_name db seen ids"
| "find_chunks_to_remove file_path project_name db seen (Some cid # ids) =
     (if cid \<in> seen then find_chunks_to_remove file_path project_name db seen ids
      else
        let rest = find_chunks_to_remove file_path project_name db (insert cid seen) ids
        in case kv_get db cid of
             None \<Rightarrow> rest
           | Some e \<Rightarrow>
               if json_truthy e \<and> removes_chunk file_path project_name (entry_metadata e) then cid # rest
               else rest)"

definition remove_fts_rows :: "'a faiss_lib \<Rightarrow> string list \<Rightarrow> 'a store \<Rightarrow> 'a store" where
  "remove_fts_rows lib ids s =
     (if ids = [] then s
      else
        let s = (if st_fts s = None then init_fts5 lib s else s)
        in case st_fts s of
             None \<Rightarrow> s
           | Some rows \<Rightarrow>
               s\<lparr>st_fts := Some (fts_delete_batched ids rows),
                 disk_fts := Readable (fts_delete_batched ids rows)\<rparr>)"

definition remove_file_chunks ::
    "'a faiss_lib \<Rightarrow> string \<Rightarrow> string option \<Rightarrow> 'a store \<Rightarrow> nat \<times> 'a store" where
  "remove_file_chunks lib file_path project_name s =
     (let s1 = ensure_loaded s;
          ids = find_chunks_to_remove file_path project_name (st_metadata s1) {} (st_chunk_ids s1);
          s2 = (if ids = [] then s1 else mark_working_set_dirty s1);
          s3 = s2\<lparr>st_metadata := fold kv_discard ids (st_metadata s2)\<rparr>;
          s4 = remove_fts_rows lib ids s3
      in (length ids, s4\<lparr>st_metadata := kv_commit (st_metadata s4)\<rparr>))"

subsection \<open>Resetting, sizes\<close>

text \<open>
  \<open>begin_rebuild\<close>: the root files are discarded (\<open>_discard_unpublished_working_set\<close>), the metadata
  table is recreated empty when it is next opened, and FTS5 is opened at once.
\<close>

definition discard_unpublished_working_set :: "'a store \<Rightarrow> 'a store" where
  "discard_unpublished_working_set s =
     s\<lparr>disk_index := NoFile, disk_chunk_ids := NoFile, disk_fts := NoFile, st_fts := None,
       st_metadata := \<lparr>kv_path = \<lparr>kv_tables = [kv_table], kv_rows = []\<rparr>, kv_pending = []\<rparr>\<rparr>"

definition begin_rebuild :: "'a faiss_lib \<Rightarrow> 'a store \<Rightarrow> 'a store" where
  "begin_rebuild lib s =
     (let s1 = discard_unpublished_working_set (mark_working_set_dirty s)
      in init_fts5 lib (s1\<lparr>st_index := None, st_chunk_ids := []\<rparr>))"

definition get_index_size :: "'a store \<Rightarrow> nat \<times> 'a store" where
  "get_index_size s = (let s1 = ensure_loaded s in (length (st_chunk_ids s1), s1))"

text \<open>\<open>stale_ratio\<close> as numerator and denominator of the float division.\<close>

definition stale_ratio :: "'a store \<Rightarrow> (nat \<times> nat) option" where
  "stale_ratio s =
     (let s1 = ensure_loaded s; n = (case st_index s1 of None \<Rightarrow> 0 | Some ix \<Rightarrow> ntotal ix)
      in if n = 0 then None
         else let live = kv_len (st_metadata s1) in Some (n - live, max live 1))"

definition count_chunks_in_file :: "string \<Rightarrow> 'a store \<Rightarrow> nat" where
  "count_chunks_in_file p s =
     (if p = [] then 0
      else case st_fts s of
             None \<Rightarrow> 0
           | Some rows \<Rightarrow> length (filter (\<lambda>r. fr_file_path r = p) rows))"

definition get_chunk_by_id :: "string \<Rightarrow> 'a store \<Rightarrow> metadata option" where
  "get_chunk_by_id cid s = (case kv_get (st_metadata s) cid of
     None \<Rightarrow> None
   | Some e \<Rightarrow> if json_truthy e then Some (entry_metadata e) else None)"

fun chunk_entries_from :: "kv_conn \<Rightarrow> string option list \<Rightarrow> (string \<times> json) list" where
  "chunk_entries_from db [] = []"
| "chunk_entries_from db (None # ids) = chunk_entries_from db ids"
| "chunk_entries_from db (Some cid # ids) = (case kv_get db cid of
     None \<Rightarrow> chunk_entries_from db ids
   | Some e \<Rightarrow> if json_truthy e then (cid, e) # chunk_entries_from db ids else chunk_entries_from db ids)"

definition get_chunk_entries :: "'a store \<Rightarrow> (string \<times> json) list" where
  "get_chunk_entries s = chunk_entries_from (st_metadata s) (st_chunk_ids s)"

end
