(* ===== verification/IndexStore_Live.thy ===== *)
theory IndexStore_Live
  imports IndexStore
begin

text \<open>
  The abstraction of the working set: a finite map from chunk ids to a vector and its metadata
  (\<open>live\<close>), the invariant that makes the artefacts agree with it (\<open>store_ok\<close>), and the refinement
  of the operations of \<open>IndexStore\<close> to operations on that map. The locale \<open>chunk_index\<close> is what
  the incremental indexer relies on; \<open>chunks\<close> interprets it.
\<close>

definition live_entry :: "'a faiss_index \<Rightarrow> json \<Rightarrow> 'a list \<times> metadata" where
  "live_entry ix e = (fx_rows ix ! nat (the (entry_index_id e)), entry_metadata e)"

definition live :: "'a store \<Rightarrow> string \<rightharpoonup> 'a list \<times> metadata" where
  "live s cid = (case st_index s of
     None \<Rightarrow> None
   | Some ix \<Rightarrow> map_option (live_entry ix) (kv_get (st_metadata s) cid))"

text \<open>The position of an id: its last occurrence in the parallel list.\<close>

definition at_last :: "'b list \<Rightarrow> nat \<Rightarrow> 'b \<Rightarrow> bool" where
  "at_last xs i x \<longleftrightarrow> i < length xs \<and> xs ! i = x \<and> x \<notin> set (drop (Suc i) xs)"

definition entry_ok :: "string option list \<Rightarrow> string \<Rightarrow> json \<Rightarrow> bool" where
  "entry_ok ids cid e \<longleftrightarrow> (\<exists>i m. e = meta_entry i m \<and> at_last ids i (Some cid))"

definition fts_ok :: "kv_conn \<Rightarrow> fts_row list \<Rightarrow> bool" where
  "fts_ok db rows \<longleftrightarrow> distinct (map fr_chunk_id rows) \<and>
     (\<forall>cid. cid \<in> fr_chunk_id ` set rows \<longleftrightarrow> kv_get db cid \<noteq> None) \<and>
     (\<forall>r \<in> set rows. \<forall>e. kv_get db (fr_chunk_id r) = Some e \<longrightarrow>
        r = fts_document (fr_chunk_id r) (entry_metadata e))"

definition index_ok :: "'a store \<Rightarrow> bool" where
  "index_ok s \<longleftrightarrow> (case st_index s of
     None \<Rightarrow> st_chunk_ids s = [] \<and> disk_index s = NoFile
   | Some ix \<Rightarrow> ntotal ix = length (st_chunk_ids s))"

definition store_ok :: "'a store \<Rightarrow> bool" where
  "store_ok s \<longleftrightarrow> kv_ok (st_metadata s) \<and> index_ok s \<and>
     (\<forall>cid e. kv_get (st_metadata s) cid = Some e \<longrightarrow> entry_ok (st_chunk_ids s) cid e) \<and>
     (\<exists>rows. st_fts s = Some rows \<and> fts_ok (st_metadata s) rows)"

subsection \<open>Facts about entries and positions\<close>

named_theorems entry_simps \<open>reading back a metadata entry\<close>

lemma entry_reads [entry_simps, simp]:
  "entry_index_id (meta_entry i m) = Some (int i)"
  "entry_metadata (meta_entry i m) = m"
  "json_truthy (meta_entry i m)"
  by (simp_all add: meta_entry_def entry_index_id_def entry_metadata_def jget_def)

lemma live_entry_meta [entry_simps, simp]: "live_entry ix (meta_entry i m) = (fx_rows ix ! i, m)"
  by (simp add: live_entry_def)

lemma fts_document_id [simp]: "fr_chunk_id (fts_document cid m) = cid"
  by (simp add: fts_document_def Let_def)

lemma at_last_append_old: "x \<notin> set ys \<Longrightarrow> at_last xs i x \<Longrightarrow> at_last (xs @ ys) i x"
  by (auto simp: at_last_def nth_append)

lemma at_last_append_new:
  "distinct ys \<Longrightarrow> j < length ys \<Longrightarrow> at_last (xs @ ys) (length xs + j) (ys ! j)"
  by (auto simp: at_last_def nth_append in_set_conv_nth nth_eq_iff_index_eq)

lemma store_okD:
  assumes "store_ok s" "kv_get (st_metadata s) cid = Some e"
  obtains i m ix where "e = meta_entry i m" "at_last (st_chunk_ids s) i (Some cid)"
    "st_index s = Some ix" "ntotal ix = length (st_chunk_ids s)" "live s cid = Some (fx_rows ix ! i, m)"
proof -
  obtain i m where e: "e = meta_entry i m" and i: "at_last (st_chunk_ids s) i (Some cid)"
    using assms unfolding store_ok_def entry_ok_def by blast
  then obtain ix where ix: "st_index s = Some ix" "ntotal ix = length (st_chunk_ids s)"
    using assms(1) by (auto simp: store_ok_def index_ok_def at_last_def split: option.splits)
  have "live s cid = Some (fx_rows ix ! i, m)"
    using assms(2) e ix by (simp add: live_def live_entry_def)
  then show ?thesis using that e i ix by blast
qed

lemma live_None_iff: "store_ok s \<Longrightarrow> live s cid = None \<longleftrightarrow> kv_get (st_metadata s) cid = None"
proof (cases "kv_get (st_metadata s) cid")
  case None
  then show ?thesis by (simp add: live_def split: option.split)
next
  case (Some e)
  assume "store_ok s"
  then show ?thesis using Some by (elim store_okD [OF _ Some]) simp
qed

lemma live_metadata: "live s cid = Some (v, m) \<Longrightarrow> \<exists>e. kv_get (st_metadata s) cid = Some e \<and> entry_metadata e = m"
  by (auto simp: live_def live_entry_def split: option.splits)

subsection \<open>Storing a batch\<close>

lemma store_entries_ok: "kv_ok db \<Longrightarrow> kv_ok (store_entries i rs db)"
  by (induction rs arbitrary: i db) (auto simp: kv.inv_put)

lemma store_entries_other:
  "cid \<notin> er_chunk_id ` set rs \<Longrightarrow> kv_get (store_entries i rs db) cid = kv_get db cid"
  by (induction rs arbitrary: i db) (auto simp: kv.get_put)

lemma store_entries_new:
  "distinct (map er_chunk_id rs) \<Longrightarrow> j < length rs \<Longrightarrow>
   kv_get (store_entries i rs db) (er_chunk_id (rs ! j)) = Some (meta_entry (i + j) (er_metadata (rs ! j)))"
proof (induction rs arbitrary: i j db)
  case (Cons r rs)
  show ?case
  proof (cases j)
    case 0
    then show ?thesis using Cons.prems by (simp add: store_entries_other kv.get_put image_iff)
  next
    case (Suc j')
    then show ?thesis using Cons.prems Cons.IH [of j' "Suc i"] by simp
  qed
qed simp

lemma store_entries_get:
  assumes "distinct (map er_chunk_id rs)"
  shows "kv_get (store_entries i rs db) cid =
    (if cid \<in> er_chunk_id ` set rs then
       (let j = (THE j. j < length rs \<and> er_chunk_id (rs ! j) = cid)
        in Some (meta_entry (i + j) (er_metadata (rs ! j))))
     else kv_get db cid)"
proof (cases "cid \<in> er_chunk_id ` set rs")
  case True
  then obtain j where j: "j < length rs" "er_chunk_id (rs ! j) = cid" by (auto simp: in_set_conv_nth)
  have "(THE j. j < length rs \<and> er_chunk_id (rs ! j) = cid) = j"
  proof (rule the_equality)
    fix k assume "k < length rs \<and> er_chunk_id (rs ! k) = cid"
    then show "k = j"
      using j assms nth_eq_iff_index_eq [of "map er_chunk_id rs" k j] by simp
  qed (use j in simp)
  then show ?thesis using store_entries_new [OF assms, of j i db] j True by (simp add: Let_def)
qed (simp add: store_entries_other)

text \<open>The pairs a batch adds to the live map.\<close>

definition batch_map :: "'a faiss_lib \<Rightarrow> 'a embedding_result list \<Rightarrow> string \<rightharpoonup> 'a list \<times> metadata" where
  "batch_map lib rs = map_of (map (\<lambda>r. (er_chunk_id r, normalize_L2 lib (er_embedding r), er_metadata r)) rs)"

lemma batch_map_other: "cid \<notin> er_chunk_id ` set rs \<Longrightarrow> batch_map lib rs cid = None"
  by (auto simp: batch_map_def map_of_eq_None_iff)

lemma batch_map_new: "distinct (map er_chunk_id rs) \<Longrightarrow> j < length rs \<Longrightarrow>
    batch_map lib rs (er_chunk_id (rs ! j)) =
      Some (normalize_L2 lib (er_embedding (rs ! j)), er_metadata (rs ! j))"
  unfolding batch_map_def by (rule map_of_is_SomeI) (auto simp: o_def)

subsection \<open>Adding refines map update\<close>

lemma ensure_loaded_ok: "store_ok s \<Longrightarrow> ensure_loaded s = s"
  by (auto simp: store_ok_def index_ok_def ensure_loaded_def split: option.splits)

lemma store_ok_marker [simp]: "store_ok (mark_working_set_dirty s) = store_ok s"
  by (simp add: store_ok_def index_ok_def mark_working_set_dirty_def split: option.split)

lemma live_marker [simp]: "live (mark_working_set_dirty s) = live s"
  by (rule ext) (simp add: live_def mark_working_set_dirty_def split: option.split)

lemma empty_store: "store_ok s \<Longrightarrow> st_index s = None \<Longrightarrow> st_chunk_ids s = [] \<and> live s = Map.empty \<and>
    (\<forall>cid. kv_get (st_metadata s) cid = None)"
proof -
  assume s: "store_ok s" and none: "st_index s = None"
  have "kv_get (st_metadata s) cid = None" for cid
    using s none by (cases "kv_get (st_metadata s) cid") (auto elim: store_okD [OF s])
  moreover have "live s = Map.empty" using none by (auto simp: live_def)
  ultimately show ?thesis using s none by (simp add: store_ok_def index_ok_def)
qed

definition with_batch :: "'a faiss_lib \<Rightarrow> 'a embedding_result list \<Rightarrow> 'a faiss_index \<Rightarrow> 'a store \<Rightarrow> 'a store" where
  "with_batch lib rs ix s =
     s\<lparr>st_index := Some (add_vectors lib rs ix),
       st_chunk_ids := st_chunk_ids s @ map (Some \<circ> er_chunk_id) rs,
       st_metadata := kv_commit (store_entries (length (st_chunk_ids s)) rs (st_metadata s))\<rparr>"

lemma add_vectors_rows:
  "fx_rows (add_vectors lib rs ix) = fx_rows ix @ map (normalize_L2 lib \<circ> er_embedding) rs"
  by (simp add: add_vectors_def add_rows_def train_def Let_def)

lemma add_fts_ok:
  assumes rows: "fts_ok db rows" and d: "distinct (map er_chunk_id rs)"
  shows "fts_ok (store_entries i rs db)
    (fts_delete (map er_chunk_id rs) rows @ map (\<lambda>r. fts_document (er_chunk_id r) (er_metadata r)) rs)"
    (is "fts_ok ?db ?rows")
  unfolding fts_ok_def
proof (intro conjI allI ballI impI)
  have "distinct (map fr_chunk_id (fts_delete (map er_chunk_id rs) rows))"
    using rows by (simp add: fts_ok_def fts_delete_def distinct_map_filter)
  then show "distinct (map fr_chunk_id ?rows)"
    using d by (auto simp: fts_delete_def o_def)
  have old: "cid \<in> fr_chunk_id ` set rows \<longleftrightarrow> kv_get db cid \<noteq> None" for cid
    using rows by (simp add: fts_ok_def)
  show "cid \<in> fr_chunk_id ` set ?rows \<longleftrightarrow> kv_get ?db cid \<noteq> None" for cid
  proof (cases "cid \<in> er_chunk_id ` set rs")
    case True
    then have "cid \<in> fr_chunk_id ` set ?rows" by (force simp: image_iff)
    moreover have "kv_get ?db cid \<noteq> None" using True by (simp add: store_entries_get [OF d] Let_def)
    ultimately show ?thesis by simp
  next
    case False
    then have "cid \<in> fr_chunk_id ` set ?rows \<longleftrightarrow> cid \<in> fr_chunk_id ` set rows"
      by (auto simp: fts_delete_def image_iff)
    then show ?thesis using old False by (simp add: store_entries_other)
  qed
  show "r = fts_document (fr_chunk_id r) (entry_metadata e)"
    if r: "r \<in> set ?rows" and e: "kv_get ?db (fr_chunk_id r) = Some e" for r e
  proof (cases "fr_chunk_id r \<in> er_chunk_id ` set rs")
    case True
    then obtain q where q: "q \<in> set rs" "r = fts_document (er_chunk_id q) (er_metadata q)"
      using r by (auto simp: fts_delete_def)
    obtain j where j: "j < length rs" "rs ! j = q" using q by (auto simp: in_set_conv_nth)
    then have "e = meta_entry (i + j) (er_metadata q)"
      using e q store_entries_new [OF d, of j i db] by simp
    then show ?thesis using q by simp
  next
    case False
    then have "r \<in> set rows" using r by (auto simp: fts_delete_def)
    then show ?thesis using e False rows by (simp add: fts_ok_def store_entries_other)
  qed
qed

lemma added_get: "kv_get (st_metadata (with_batch lib rs ix s)) cid =
    kv_get (store_entries (length (st_chunk_ids s)) rs (st_metadata s)) cid"
  by (simp add: with_batch_def kv.get_commit)

lemma added_entries:
  assumes s: "store_ok s" and d: "distinct (map er_chunk_id rs)"
    and e: "kv_get (st_metadata (with_batch lib rs ix s)) cid = Some e"
  shows "entry_ok (st_chunk_ids s @ map (Some \<circ> er_chunk_id) rs) cid e"
proof (cases "cid \<in> er_chunk_id ` set rs")
  case True
  then obtain j where j: "j < length rs" "er_chunk_id (rs ! j) = cid" by (auto simp: in_set_conv_nth)
  then have "e = meta_entry (length (st_chunk_ids s) + j) (er_metadata (rs ! j))"
    using e store_entries_new [OF d, of j "length (st_chunk_ids s)" "st_metadata s"] by (simp add: added_get)
  moreover have "distinct (map (Some \<circ> er_chunk_id) rs)"
    using d by (metis distinct_map inj_Some inj_on_subset list.map_comp subset_UNIV)
  then have "at_last (st_chunk_ids s @ map (Some \<circ> er_chunk_id) rs) (length (st_chunk_ids s) + j) (Some cid)"
    using at_last_append_new [of "map (Some \<circ> er_chunk_id) rs" j "st_chunk_ids s"] j by simp
  ultimately show ?thesis by (auto simp: entry_ok_def)
next
  case False
  then have "kv_get (st_metadata s) cid = Some e" using e by (simp add: added_get store_entries_other)
  then obtain i m where "e = meta_entry i m" "at_last (st_chunk_ids s) i (Some cid)"
    using store_okD [OF s] by metis
  then show ?thesis using False unfolding entry_ok_def
    by (intro exI [of _ i] exI [of _ m] conjI at_last_append_old) auto
qed

lemma added_live:
  assumes s: "store_ok s" and d: "distinct (map er_chunk_id rs)" and ix: "st_index s = Some ix"
  shows "live (with_batch lib rs ix s) = live s ++ batch_map lib rs"
proof
  fix cid
  have n: "length (fx_rows ix) = length (st_chunk_ids s)"
    using s ix by (simp add: store_ok_def index_ok_def ntotal_def)
  have ix': "st_index (with_batch lib rs ix s) = Some (add_vectors lib rs ix)" by (simp add: with_batch_def)
  show "live (with_batch lib rs ix s) cid = (live s ++ batch_map lib rs) cid"
  proof (cases "cid \<in> er_chunk_id ` set rs")
    case True
    then obtain j where j: "j < length rs" "er_chunk_id (rs ! j) = cid" by (auto simp: in_set_conv_nth)
    have "kv_get (st_metadata (with_batch lib rs ix s)) cid =
        Some (meta_entry (length (st_chunk_ids s) + j) (er_metadata (rs ! j)))"
      using j store_entries_new [OF d j(1)] by (simp add: added_get)
    then have "live (with_batch lib rs ix s) cid = Some (normalize_L2 lib (er_embedding (rs ! j)), er_metadata (rs ! j))"
      using j n by (simp add: live_def ix' add_vectors_rows nth_append)
    moreover have "batch_map lib rs cid = Some (normalize_L2 lib (er_embedding (rs ! j)), er_metadata (rs ! j))"
      using batch_map_new [OF d j(1)] j(2) by simp
    ultimately show ?thesis by (simp add: map_add_Some_iff)
  next
    case False
    then have get: "kv_get (st_metadata (with_batch lib rs ix s)) cid = kv_get (st_metadata s) cid"
      by (simp add: added_get store_entries_other)
    have "live (with_batch lib rs ix s) cid = live s cid"
    proof (cases "kv_get (st_metadata s) cid")
      case None
      then show ?thesis using get ix by (simp add: live_def ix')
    next
      case (Some e)
      then obtain i m where "e = meta_entry i m" "i < length (st_chunk_ids s)"
        using store_okD [OF s Some] by (metis at_last_def)
      then show ?thesis
        using get ix Some n by (simp add: live_def ix' add_vectors_rows nth_append)
    qed
    then show ?thesis using False by (simp add: batch_map_other map_add_def)
  qed
qed

lemma added_ok:
  assumes s: "store_ok s" and d: "distinct (map er_chunk_id rs)" and ix: "st_index s = Some ix"
  shows "\<exists>s'. add_to_fts lib rs (with_batch lib rs ix s) = (None, s') \<and> store_ok s' \<and>
    live s' = live s ++ batch_map lib rs \<and> st_marker s' = st_marker s"
proof -
  obtain rows where rows: "st_fts s = Some rows" "fts_ok (st_metadata s) rows"
    using s by (auto simp: store_ok_def)
  let ?rows = "fts_delete (map er_chunk_id rs) rows @ map (\<lambda>r. fts_document (er_chunk_id r) (er_metadata r)) rs"
  let ?a = "with_batch lib rs ix s"
  let ?s = "?a\<lparr>st_fts := Some ?rows, disk_fts := Readable ?rows\<rparr>"
  have eq: "add_to_fts lib rs ?a = (None, ?s)"
    using rows by (simp add: add_to_fts_def Let_def fts_delete_batched with_batch_def)
  have "fts_ok (st_metadata ?s) ?rows"
    using add_fts_ok [OF rows(2) d, of "length (st_chunk_ids s)"]
    by (simp add: fts_ok_def with_batch_def kv.get_commit)
  moreover have "kv_ok (st_metadata ?s)"
    using s by (simp add: with_batch_def store_ok_def kv.inv_commit store_entries_ok)
  moreover have "index_ok ?s"
    using s ix by (simp add: index_ok_def with_batch_def ntotal_def add_vectors_rows store_ok_def)
  moreover have "entry_ok (st_chunk_ids ?s) cid e" if "kv_get (st_metadata ?s) cid = Some e" for cid e
    using added_entries [OF s d, of lib ix cid e] that by (simp add: with_batch_def)
  ultimately have "store_ok ?s" by (simp add: store_ok_def)
  moreover have "live ?s = live ?a" by (rule ext) (simp add: live_def split: option.split)
  ultimately show ?thesis using eq added_live [OF s d ix] by (simp add: with_batch_def)
qed

text \<open>The dimension a batch must have, and what a refused batch leaves.\<close>

definition batch_dim :: "'a store \<Rightarrow> 'a embedding_result list \<Rightarrow> nat" where
  "batch_dim s rs = (case st_index s of None \<Rightarrow> length (er_embedding (hd rs)) | Some ix \<Rightarrow> fx_d ix)"

lemma with_index:
  assumes s: "store_ok s" and b: "lower (quantization lib) \<noteq> ''binary''"
  obtains s2 ix where
    "(if st_index s = None then create_index lib n ''flat'' s else Inr s) = Inr s2"
    "st_index s2 = Some ix" "store_ok s2" "live s2 = live s"
    "fx_d ix = (case st_index s of None \<Rightarrow> n | Some ix \<Rightarrow> fx_d ix)" "st_marker s2 = st_marker s"
proof (cases "st_index s")
  case (Some ix)
  then show ?thesis using that [of s ix] s by simp
next
  case None
  define kd where "kd = (if lower (quantization lib) = ''int8'' then ScalarQ8 else FlatIP)"
  define ix :: "'a faiss_index" where "ix = \<lparr>fx_kind = kd, fx_d = n, fx_training = None, fx_rows = []\<rparr>"
  define s2 where "s2 = s\<lparr>st_index := Some ix\<rparr>"
  have c: "create_index lib n ''flat'' s = Inr s2"
    using b by (auto simp: create_index_def Let_def s2_def ix_def kd_def)
  have e: "st_chunk_ids s = []" "live s = Map.empty" "\<And>cid. kv_get (st_metadata s) cid = None"
    using empty_store [OF s None] by auto
  have "store_ok s2" using s e by (simp add: store_ok_def s2_def index_ok_def ntotal_def ix_def)
  moreover have "live s2 = live s" using e by (auto simp: live_def s2_def)
  ultimately show ?thesis
    using that [of s2 ix] None c by (simp add: s2_def ix_def)
qed

lemma add_refines:
  assumes s: "store_ok s" and d: "distinct (map er_chunk_id rs)"
    and dim: "\<forall>r \<in> set rs. length (er_embedding r) = batch_dim s rs"
    and b: "lower (quantization lib) \<noteq> ''binary''"
  shows "\<exists>s'. add_embeddings lib rs s = (None, s') \<and> store_ok s' \<and> live s' = live s ++ batch_map lib rs"
proof (cases "rs = []")
  case True
  then show ?thesis using s by (simp add: add_embeddings_def batch_map_def)
next
  case False
  let ?s1 = "mark_working_set_dirty s"
  obtain s2 ix where s2:
    "(if st_index ?s1 = None then create_index lib (length (er_embedding (hd rs))) ''flat'' ?s1 else Inr ?s1) = Inr s2"
    "st_index s2 = Some ix" "store_ok s2" "live s2 = live ?s1"
    "fx_d ix = (case st_index ?s1 of None \<Rightarrow> length (er_embedding (hd rs)) | Some ix \<Rightarrow> fx_d ix)"
    by (rule with_index [OF _ b, of ?s1 "length (er_embedding (hd rs))"]) (simp add: s)
  have nm: "\<not> (\<exists>r \<in> set rs. length (er_embedding r) \<noteq> fx_d ix)"
    using dim s2(5) by (simp add: batch_dim_def mark_working_set_dirty_def)
  have "add_embeddings lib rs s = add_to_fts lib rs (with_batch lib rs ix s2)"
    using False s2(1,2) nm
    by (simp add: add_embeddings_def ensure_loaded_ok [OF s] Let_def with_batch_def split del: if_split)
  then show ?thesis using added_ok [OF s2(3) d s2(2), of lib] s2(4) by auto
qed

subsection \<open>Removing refines map restriction\<close>

lemma find_chunks_distinct:
  "distinct (find_chunks_to_remove f p db seen ids) \<and> set (find_chunks_to_remove f p db seen ids) \<inter> seen = {}"
proof (induction ids arbitrary: seen)
  case (Cons x ids)
  then show ?case
  proof (cases x)
    case None
    then show ?thesis using Cons by simp
  next
    case (Some cid)
    define rest where "rest = find_chunks_to_remove f p db (insert cid seen) ids"
    have r: "distinct rest" "set rest \<inter> insert cid seen = {}"
      using Cons [of "insert cid seen"] by (auto simp: rest_def)
    show ?thesis
    proof (cases "cid \<in> seen")
      case True
      then show ?thesis using Cons [of seen] Some by simp
    next
      case False
      have "find_chunks_to_remove f p db seen (x # ids) \<in> {rest, cid # rest}"
        using False Some by (auto simp: Let_def rest_def split: option.split)
      then show ?thesis using r False by auto
    qed
  qed
qed simp

lemma find_chunks_set:
  "set (find_chunks_to_remove f p db seen ids) =
    {cid. Some cid \<in> set ids \<and> cid \<notin> seen \<and>
      (\<exists>e. kv_get db cid = Some e \<and> json_truthy e \<and> removes_chunk f p (entry_metadata e))}"
proof (induction ids arbitrary: seen)
  case (Cons x ids)
  then show ?case
  proof (cases x)
    case None
    then show ?thesis using Cons by simp
  next
    case (Some cid)
    show ?thesis
    proof (cases "cid \<in> seen")
      case True
      then show ?thesis using Cons [of seen] Some by auto
    next
      case False
      define ok where "ok \<longleftrightarrow> (\<exists>e. kv_get db cid = Some e \<and> json_truthy e \<and> removes_chunk f p (entry_metadata e))"
      have "find_chunks_to_remove f p db seen (x # ids) =
          (if ok then cid # find_chunks_to_remove f p db (insert cid seen) ids
           else find_chunks_to_remove f p db (insert cid seen) ids)"
        using False Some by (auto simp: Let_def ok_def split: option.split)
      then show ?thesis
        using False Some Cons [of "insert cid seen"] by (auto simp: ok_def)
    qed
  qed
qed simp

definition doomed :: "string \<Rightarrow> string option \<Rightarrow> 'a store \<Rightarrow> string set" where
  "doomed f p s = {cid. \<exists>v m. live s cid = Some (v, m) \<and> removes_chunk f p m}"

lemma find_chunks_doomed:
  assumes s: "store_ok s"
  shows "set (find_chunks_to_remove f p (st_metadata s) {} (st_chunk_ids s)) = doomed f p s"
proof -
  have "(Some cid \<in> set (st_chunk_ids s) \<and> (\<exists>e. kv_get (st_metadata s) cid = Some e \<and>
      json_truthy e \<and> removes_chunk f p (entry_metadata e))) = (cid \<in> doomed f p s)" for cid
  proof (cases "kv_get (st_metadata s) cid")
    case None
    then show ?thesis using live_None_iff [OF s, of cid] by (simp add: doomed_def)
  next
    case (Some e)
    obtain i m ix where "e = meta_entry i m" "at_last (st_chunk_ids s) i (Some cid)"
        "st_index s = Some ix" "live s cid = Some (fx_rows ix ! i, m)"
      by (rule store_okD [OF s Some]) (rule that, assumption+)
    then show ?thesis using Some by (auto simp: doomed_def at_last_def in_set_conv_nth)
  qed
  then show ?thesis by (auto simp: find_chunks_set)
qed

lemma fts_delete_ok:
  assumes "fts_ok db rows" "\<And>cid. kv_get db' cid = (if cid \<in> set ids then None else kv_get db cid)"
  shows "fts_ok db' (fts_delete ids rows)"
  unfolding fts_ok_def
proof (intro conjI allI ballI impI)
  show "distinct (map fr_chunk_id (fts_delete ids rows))"
    using assms(1) by (simp add: fts_ok_def fts_delete_def distinct_map_filter)
  have "fr_chunk_id ` set (fts_delete ids rows) = fr_chunk_id ` set rows - set ids"
    by (auto simp: fts_delete_def)
  then show "cid \<in> fr_chunk_id ` set (fts_delete ids rows) \<longleftrightarrow> kv_get db' cid \<noteq> None" for cid
    using assms by (simp add: fts_ok_def)
  show "r = fts_document (fr_chunk_id r) (entry_metadata e)"
    if "r \<in> set (fts_delete ids rows)" "kv_get db' (fr_chunk_id r) = Some e" for r e
    using that assms by (simp add: fts_ok_def fts_delete_def)
qed

lemma remove_refines:
  assumes s: "store_ok s"
  shows "\<exists>s'. remove_file_chunks lib f p s = (card (doomed f p s), s') \<and> store_ok s' \<and>
    live s' = live s |` (- doomed f p s)"
proof -
  define ids where "ids = find_chunks_to_remove f p (st_metadata s) {} (st_chunk_ids s)"
  have ids: "set ids = doomed f p s" "distinct ids"
    using find_chunks_doomed [OF s] find_chunks_distinct by (auto simp: ids_def)
  obtain rows where rows: "st_fts s = Some rows" "fts_ok (st_metadata s) rows"
    using s by (auto simp: store_ok_def)
  have kv: "kv_ok (st_metadata s)" using s by (simp add: store_ok_def)
  define db where "db = kv_commit (fold kv_discard ids (st_metadata s))"
  have get: "kv_get db cid = (if cid \<in> set ids then None else kv_get (st_metadata s) cid)" for cid
    by (simp add: db_def kv.get_commit kv.get_discards [OF kv])
  define s' where "s' = snd (remove_file_chunks lib f p s)"
  have s': "st_metadata s' = db" "st_index s' = st_index s" "st_chunk_ids s' = st_chunk_ids s"
    "disk_index s' = disk_index s" "st_fts s' = Some (if ids = [] then rows else fts_delete ids rows)"
    by (auto simp: s'_def remove_file_chunks_def ensure_loaded_ok [OF s] Let_def ids_def [symmetric]
        remove_fts_rows_def rows(1) mark_working_set_dirty_def db_def fts_delete_batched)
  have "fts_delete [] rows = rows" by (simp add: fts_delete_def)
  then have "fts_ok db (if ids = [] then rows else fts_delete ids rows)"
    using fts_delete_ok [OF rows(2) get] by (auto split: if_split)
  moreover have "kv_ok db" unfolding db_def by (intro kv.inv_commit kv.inv_discards kv)
  moreover have "index_ok s'" using s by (simp add: store_ok_def index_ok_def s' split: option.splits)
  moreover have "entry_ok (st_chunk_ids s) cid e" if "kv_get db cid = Some e" for cid e
    using that s by (simp add: get store_ok_def split: if_splits)
  ultimately have "store_ok s'" by (simp add: store_ok_def s')
  moreover have "live s' = live s |` (- doomed f p s)"
    by (rule ext) (auto simp: live_def s' get ids restrict_map_def split: option.split)
  moreover have "fst (remove_file_chunks lib f p s) = card (doomed f p s)"
    using ids by (simp add: remove_file_chunks_def ensure_loaded_ok [OF s] Let_def ids_def [symmetric]
        distinct_card [symmetric])
  ultimately show ?thesis by (auto simp: s'_def prod_eq_iff)
qed

subsection \<open>Rebuilding starts from nothing\<close>

lemma rebuild_empty: "store_ok (begin_rebuild lib s) \<and> live (begin_rebuild lib s) = Map.empty"
proof
  let ?s = "begin_rebuild lib s"
  have f: "st_index ?s = None" "st_chunk_ids ?s = []" "disk_index ?s = NoFile" "st_fts ?s = Some []"
    "st_metadata ?s = \<lparr>kv_path = \<lparr>kv_tables = [kv_table], kv_rows = []\<rparr>, kv_pending = []\<rparr>"
    by (simp_all add: begin_rebuild_def init_fts5_def Let_def discard_unpublished_working_set_def)
  then show "store_ok ?s"
    by (simp add: store_ok_def index_ok_def kv_ok_def fts_ok_def kv_get_def)
  show "live ?s = Map.empty" by (auto simp: live_def f)
qed

subsection \<open>The interface the incremental indexer relies on\<close>

locale chunk_index =
  fixes add :: "'b list \<Rightarrow> 's \<Rightarrow> 's" and remove :: "string \<Rightarrow> 's \<Rightarrow> 's" and reset :: "'s \<Rightarrow> 's"
    and view :: "'s \<Rightarrow> string \<rightharpoonup> 'c" and key :: "'b \<Rightarrow> string" and content :: "'b \<Rightarrow> 'c"
    and hits :: "string \<Rightarrow> 'c \<Rightarrow> bool" and inv :: "'s \<Rightarrow> bool" and fits :: "'s \<Rightarrow> 'b list \<Rightarrow> bool"
  assumes view_add: "inv s \<Longrightarrow> distinct (map key rs) \<Longrightarrow> fits s rs \<Longrightarrow>
      view (add rs s) = view s ++ map_of (map (\<lambda>r. (key r, content r)) rs)"
    and view_remove: "inv s \<Longrightarrow> view (remove f s) = (\<lambda>k. case view s k of
        None \<Rightarrow> None | Some c \<Rightarrow> if hits f c then None else Some c)"
    and view_reset: "view (reset s) = Map.empty"
    and inv_add: "inv s \<Longrightarrow> distinct (map key rs) \<Longrightarrow> fits s rs \<Longrightarrow> inv (add rs s)"
    and inv_remove: "inv s \<Longrightarrow> inv (remove f s)"
    and inv_reset: "inv (reset s)"
begin

lemma inv_removes: "inv s \<Longrightarrow> inv (fold remove fs s)"
  by (induction fs arbitrary: s) (auto simp: inv_remove)

lemma view_removes: "inv s \<Longrightarrow> view (fold remove fs s) = (\<lambda>k. case view s k of
    None \<Rightarrow> None | Some c \<Rightarrow> if \<exists>f \<in> set fs. hits f c then None else Some c)"
  by (induction fs arbitrary: s) (auto simp: inv_remove view_remove fun_eq_iff split: option.splits)

text \<open>Removing the changed files and adding their new chunks replaces exactly those files.\<close>

lemma replace_files:
  assumes "inv s" "distinct (map key rs)" "fits (fold remove fs s) rs"
  shows "view (add rs (fold remove fs s)) k =
    (case map_of (map (\<lambda>r. (key r, content r)) rs) k of
       Some c \<Rightarrow> Some c
     | None \<Rightarrow> (case view s k of None \<Rightarrow> None | Some c \<Rightarrow> if \<exists>f \<in> set fs. hits f c then None else Some c))"
  using assms by (auto simp: view_add view_removes inv_removes map_add_def split: option.split)

lemma rebuild_files:
  assumes "distinct (map key rs)" "fits (reset s) rs"
  shows "view (add rs (reset s)) = map_of (map (\<lambda>r. (key r, content r)) rs)"
  using assms by (simp add: view_add view_reset inv_reset)

end

definition batch_fits :: "'a faiss_lib \<Rightarrow> 'a store \<Rightarrow> 'a embedding_result list \<Rightarrow> bool" where
  "batch_fits lib s rs \<longleftrightarrow> lower (quantization lib) \<noteq> ''binary'' \<and>
     (\<forall>r \<in> set rs. length (er_embedding r) = batch_dim s rs)"

interpretation chunks: chunk_index "\<lambda>rs s. snd (add_embeddings lib rs s)"
  "\<lambda>f s. snd (remove_file_chunks lib f p s)" "begin_rebuild lib" live er_chunk_id
  "\<lambda>r. (normalize_L2 lib (er_embedding r), er_metadata r)"
  "\<lambda>f c. removes_chunk f p (snd c)" store_ok "batch_fits lib"
  for lib :: "'a faiss_lib" and p :: "string option"
proof
  fix s :: "'a store" and rs f
  show "live (begin_rebuild lib s) = Map.empty" "store_ok (begin_rebuild lib s)"
    using rebuild_empty by auto
  assume s: "store_ok s"
  obtain s' where s': "remove_file_chunks lib f p s = (card (doomed f p s), s')" "store_ok s'"
      "live s' = live s |` (- doomed f p s)"
    using remove_refines [OF s] by blast
  show "store_ok (snd (remove_file_chunks lib f p s))" using s' by simp
  show "live (snd (remove_file_chunks lib f p s)) = (\<lambda>k. case live s k of
        None \<Rightarrow> None | Some c \<Rightarrow> if removes_chunk f p (snd c) then None else Some c)"
    using s' by (auto simp: fun_eq_iff restrict_map_def doomed_def split: option.split)
  assume "distinct (map er_chunk_id rs)" "batch_fits lib s rs"
  then obtain s'' where "add_embeddings lib rs s = (None, s'')" "store_ok s''"
      "live s'' = live s ++ batch_map lib rs"
    using add_refines [OF s] unfolding batch_fits_def by blast
  then show "store_ok (snd (add_embeddings lib rs s))"
    "live (snd (add_embeddings lib rs s)) = live s ++
       map_of (map (\<lambda>r. (er_chunk_id r, normalize_L2 lib (er_embedding r), er_metadata r)) rs)"
    by (simp_all add: batch_map_def)
qed

end
