(* ===== verification/IndexSearch.thy ===== *)
theory IndexSearch
  imports IndexStore
begin

text \<open>
  Reading the working set: metadata filters with shell-style patterns, the vector search, the
  BM25 search, similar chunks, and the statistics of \<open>search/indexer.py\<close>. The FAISS and FTS5
  rankings are fields of \<open>faiss_lib\<close>; everything the code does with them is here.
\<close>

subsection \<open>Python equality of JSON values\<close>

definition json_number :: "json \<Rightarrow> int option" where
  "json_number v = (case v of JBool b \<Rightarrow> Some (of_bool b) | JInt i \<Rightarrow> Some i | _ \<Rightarrow> None)"

lemma json_arr_size: "x \<in> set xs \<Longrightarrow> size x < size (JArr xs)"
  by (induction xs) auto

lemma json_obj_size: "p \<in> set xs \<Longrightarrow> size (snd p) < size (JObj xs)"
  by (induction xs) auto

function json_eq :: "json \<Rightarrow> json \<Rightarrow> bool" where
  "json_eq a b = (case (a, b) of
     (JNull, JNull) \<Rightarrow> True
   | (JStr s, JStr t) \<Rightarrow> s = t
   | (JArr xs, JArr ys) \<Rightarrow>
       length xs = length ys \<and> (\<forall>i \<in> {..<length xs}. i < length xs \<and> json_eq (xs ! i) (ys ! i))
   | (JObj xs, JObj ys) \<Rightarrow>
       length xs = length ys \<and>
       (\<forall>p \<in> set xs. case dict_get ys (fst p) of None \<Rightarrow> False | Some w \<Rightarrow> json_eq (snd p) w)
   | _ \<Rightarrow> json_number a \<noteq> None \<and> json_number a = json_number b)"
  by pat_completeness auto

termination
  by (relation "measure (\<lambda>(a, b). size a)")
     (auto intro!: json_arr_size json_obj_size nth_mem simp del: json.size)

declare json_eq.simps [simp del]

subsection \<open>\<open>fnmatch\<close>\<close>

text \<open>
  A bracket expression: the pattern after \<open>[\<close>, cut at its closing bracket (one right after \<open>[\<close>
  or \<open>[!\<close> is literal), then single characters and ranges.
\<close>

fun take_class :: "string \<Rightarrow> (string \<times> string) option" where
  "take_class [] = None"
| "take_class (c # p) = (if c = CHR '']'' then Some ([], p)
     else map_option (\<lambda>(a, b). (c # a, b)) (take_class p))"

definition class_split :: "string \<Rightarrow> (bool \<times> string \<times> string) option" where
  "class_split p =
     (let neg = starts_with p ''!''; p1 = (if neg then tl p else p)
      in if starts_with p1 '']''
         then map_option (\<lambda>(a, b). (neg, CHR '']'' # a, b)) (take_class (tl p1))
         else map_option (\<lambda>(a, b). (neg, a, b)) (take_class p1))"

fun class_has :: "string \<Rightarrow> char \<Rightarrow> bool" where
  "class_has (a # b # c # r) x =
     (if b = CHR ''-'' then (a \<le> x \<and> x \<le> c) \<or> class_has r x else x = a \<or> class_has (b # c # r) x)"
| "class_has (a # r) x = (x = a \<or> class_has r x)"
| "class_has [] x = False"

lemma take_class_length: "take_class p = Some (a, b) \<Longrightarrow> length b < length p"
  by (induction p arbitrary: a) (auto split: if_splits)

lemma class_split_length: "class_split p = Some (n, a, b) \<Longrightarrow> length b < length p"
  by (cases p) (auto simp: class_split_def Let_def dest!: take_class_length split: if_splits)

function fnmatch :: "string \<Rightarrow> string \<Rightarrow> bool" where
  "fnmatch [] s = (s = [])"
| "fnmatch (c # p) s =
     (if c = CHR ''*'' then fnmatch p s \<or> (case s of [] \<Rightarrow> False | x # t \<Rightarrow> fnmatch (c # p) t)
      else case s of [] \<Rightarrow> False | x # t \<Rightarrow>
        if c = CHR ''?'' then fnmatch p t
        else if c = CHR ''['' then
          (case class_split p of
             None \<Rightarrow> x = c \<and> fnmatch p t
           | Some (neg, stuff, rest) \<Rightarrow> (class_has stuff x \<noteq> neg) \<and> fnmatch rest t)
        else x = c \<and> fnmatch p t)"
  by pat_completeness auto
termination
  by (relation "measure (\<lambda>(p, s). length p + length s)") (auto dest!: class_split_length)

declare fnmatch.simps [simp del]

subsection \<open>Filters\<close>

text \<open>\<open>relative_path.split('/')[-1].split('\\')[-1]\<close>.\<close>

definition basename :: "string \<Rightarrow> string" where
  "basename p = rev (takeWhile (\<lambda>c. c \<noteq> CHR ''/'' \<and> c \<noteq> CHR 0x5C) (rev p))"

definition json_items :: "json option \<Rightarrow> json list" where
  "json_items v = (case v of Some (JArr xs) \<Rightarrow> xs | _ \<Rightarrow> [])"

definition as_list :: "json \<Rightarrow> json list" where
  "as_list v = (case v of JArr xs \<Rightarrow> xs | _ \<Rightarrow> [v])"

definition pattern_matches :: "string \<Rightarrow> json \<Rightarrow> bool" where
  "pattern_matches path v = (case v of
     JStr p \<Rightarrow> fnmatch p path \<or> fnmatch p (basename path) | _ \<Rightarrow> False)"

definition sets_meet :: "json list \<Rightarrow> json list \<Rightarrow> bool" where
  "sets_meet xs ys \<longleftrightarrow> list_ex (\<lambda>x. list_ex (json_eq x) ys) xs"

definition filter_accepts :: "metadata \<Rightarrow> string \<Rightarrow> json \<Rightarrow> bool" where
  "filter_accepts m key v =
     (if v = JNull then True
      else if key = ''file_pattern'' then
        list_ex (pattern_matches (meta_text m ''relative_path'')) (as_list v)
      else if key = ''chunk_type'' then
        (case dict_get m ''chunk_type'' of None \<Rightarrow> False | Some t \<Rightarrow> json_eq t v)
      else if key = ''tags'' then sets_meet (as_list v) (json_items (dict_get m ''tags''))
      else if key = ''folder_structure'' then
        sets_meet (as_list v) (json_items (dict_get m ''folder_structure''))
      else case dict_get m key of None \<Rightarrow> True | Some w \<Rightarrow> json_eq w v)"

fun matches_filters :: "metadata \<Rightarrow> (string, json) dict \<Rightarrow> bool" where
  "matches_filters m [] = True"
| "matches_filters m ((key, v) # fs) = (if filter_accepts m key v then matches_filters m fs else False)"

subsection \<open>Vector search\<close>

text \<open>
  The loop over FAISS's hits: \<open>need\<close> is what is left of \<open>k\<close>. A position \<open>-1\<close> ends the scan; other
  negative positions do not occur.
\<close>

fun scan_hits :: "kv_conn \<Rightarrow> string option list \<Rightarrow> (string, json) dict \<Rightarrow> nat \<Rightarrow> string set \<Rightarrow>
    ('a \<times> int) list \<Rightarrow> (string \<times> 'a \<times> metadata) list" where
  "scan_hits db ids fs need seen [] = []"
| "scan_hits db ids fs need seen ((sim, pos) # hits) =
     (if pos = -1 then []
      else if int (length ids) \<le> pos then scan_hits db ids fs need seen hits
      else case ids ! nat pos of
        None \<Rightarrow> scan_hits db ids fs need seen hits
      | Some cid \<Rightarrow>
          if cid \<in> seen then scan_hits db ids fs need seen hits
          else case kv_get db cid of
            None \<Rightarrow> scan_hits db ids fs need (insert cid seen) hits
          | Some e \<Rightarrow>
              if \<not> matches_filters (entry_metadata e) fs
              then scan_hits db ids fs need (insert cid seen) hits
              else (cid, sim, entry_metadata e) #
                   (if need \<le> 1 then [] else scan_hits db ids fs (need - 1) (insert cid seen) hits))"

definition search ::
    "'a faiss_lib \<Rightarrow> 'a list \<Rightarrow> int \<Rightarrow> (string, json) dict \<Rightarrow> 'a store \<Rightarrow>
     (index_error + (string \<times> 'a \<times> metadata) list) \<times> 'a store" where
  "search lib query k filters s =
     (if k \<le> 0 then (Inl (BadK k), s)
      else
        let s1 = index_property s
        in case st_index s1 of
             None \<Rightarrow> (Inr [], s1)
           | Some ix \<Rightarrow>
               if ntotal ix = 0 then (Inr [], s1)
               else
                 let search_k = min (nat k * 3) (ntotal ix);
                     hits = index_search lib ix (normalize_L2 lib query) search_k
                 in (Inr (scan_hits (st_metadata s1) (st_chunk_ids s1) filters (nat k) {} hits), s1))"

definition get_similar_chunks ::
    "'a faiss_lib \<Rightarrow> string \<Rightarrow> nat \<Rightarrow> 'a store \<Rightarrow>
     (index_error + (string \<times> 'a \<times> metadata) list) \<times> 'a store" where
  "get_similar_chunks lib cid k s =
     (case kv_get (st_metadata s) cid of
        None \<Rightarrow> (Inr [], s)
      | Some e \<Rightarrow>
          (case (entry_index_id e, st_index s) of
             (Some i, Some ix) \<Rightarrow>
               if int (ntotal ix) \<le> i then (Inr [], s)
               else (case search lib (index_reconstruct lib ix (nat i)) (int k + 1) [] s of
                       (Inl err, s1) \<Rightarrow> (Inl err, s1)
                     | (Inr rs, s1) \<Rightarrow> (Inr (take k [r \<leftarrow> rs. fst r \<noteq> cid]), s1))
           | _ \<Rightarrow> (Inr [], s)))"

subsection \<open>BM25 search\<close>

definition fts_special :: "char \<Rightarrow> bool" where
  "fts_special c \<longleftrightarrow> c \<in> set ''?\"*/(){}^~:+-'' \<or> c = CHR 0x5C \<or> (of_char c :: nat) < 32"

definition sanitize_fts5_query :: "string \<Rightarrow> string" where
  "sanitize_fts5_query query =
     (let cleaned = map (\<lambda>c. if fts_special c then CHR '' '' else c) query;
          tokens = [t \<leftarrow> py_split cleaned. t \<noteq> [] \<and> 1 < length t]
      in if tokens = [] then []
         else join '' OR '' (map (\<lambda>t. ''\"'' @ t @ ''\"'') tokens))"

fun scan_ranked :: "kv_conn \<Rightarrow> (string, json) dict \<Rightarrow> int \<Rightarrow> string set \<Rightarrow> (string \<times> 'a) list \<Rightarrow>
    (string \<times> 'a \<times> metadata) list" where
  "scan_ranked db fs need seen [] = []"
| "scan_ranked db fs need seen ((cid, rank) # rows) =
     (if cid \<in> seen then scan_ranked db fs need seen rows
      else case kv_get db cid of
        None \<Rightarrow> scan_ranked db fs need (insert cid seen) rows
      | Some e \<Rightarrow>
          if \<not> json_truthy e then scan_ranked db fs need (insert cid seen) rows
          else if \<not> matches_filters (entry_metadata e) fs
          then scan_ranked db fs need (insert cid seen) rows
          else (cid, rank, entry_metadata e) #
               (if need \<le> 1 then [] else scan_ranked db fs (need - 1) (insert cid seen) rows))"

text \<open>A failing FTS5 query is logged and answered with no results.\<close>

definition search_bm25 ::
    "'a faiss_lib \<Rightarrow> string \<Rightarrow> int \<Rightarrow> nat \<Rightarrow> (string, json) dict \<Rightarrow> 'a store \<Rightarrow>
     (string \<times> 'a \<times> metadata) list" where
  "search_bm25 lib query k name_weight filters s =
     (case st_fts s of
        None \<Rightarrow> []
      | Some rows \<Rightarrow>
          let fts_query = sanitize_fts5_query query
          in if fts_query = [] then []
             else
               let fetch_k = (if filters \<noteq> [] then k * 3 else k)
               in case fts_bm25 lib rows name_weight fts_query fetch_k of
                    None \<Rightarrow> []
                  | Some ranked \<Rightarrow> scan_ranked (st_metadata s) filters k {} ranked)"

subsection \<open>Statistics\<close>

record index_stats =
  total_chunks :: nat
  index_size :: nat
  embedding_dimension :: nat
  stats_quantization :: string
  live_chunks :: nat
  stale_vectors :: nat
  files_indexed :: nat
  top_folders :: "(json \<times> nat) list"
  chunk_types :: "(json \<times> nat) list"
  top_tags :: "(json \<times> nat) list"

definition update_stats :: "'a store \<Rightarrow> index_stats" where
  "update_stats s =
     (let ix = st_index s;
          n = (case ix of None \<Rightarrow> 0 | Some ix \<Rightarrow> ntotal ix);
          live = kv_len (st_metadata s);
          ms = map (entry_metadata \<circ> snd) (chunk_entries_from (st_metadata s) (st_chunk_ids s));
          or_unknown = (\<lambda>m k. case dict_get m k of None \<Rightarrow> JStr ''unknown'' | Some v \<Rightarrow> v);
          file_counts = tally (map (\<lambda>m. or_unknown m ''relative_path'') ms);
          folder_counts = tally (concat (map (\<lambda>m. json_items (dict_get m ''folder_structure'')) ms));
          type_counts = tally (map (\<lambda>m. or_unknown m ''chunk_type'') ms);
          tag_counts = tally (concat (map (\<lambda>m. json_items (dict_get m ''tags'')) ms))
      in \<lparr>total_chunks = length (st_chunk_ids s), index_size = n,
          embedding_dimension = (case ix of None \<Rightarrow> 0 | Some ix \<Rightarrow> fx_d ix),
          stats_quantization = (case ix of None \<Rightarrow> ''float32'' | Some ix \<Rightarrow>
             if fx_kind ix = ScalarQ8 then ''int8'' else ''float32''),
          live_chunks = live, stale_vectors = n - live,
          files_indexed = length file_counts,
          top_folders = take 10 (sorted_desc snd folder_counts),
          chunk_types = type_counts,
          top_tags = take 20 (sorted_desc snd tag_counts)\<rparr>)"

end
