(* ===== verification/IndexStore_Correct.thy ===== *)
theory IndexStore_Correct
  imports IndexStore_Live IndexSearch
begin

text \<open>
  What the index manager promises: sequences of mutations track a plain map of live chunks, a
  vector search returns the best live chunks as long as at most two stale vectors per requested
  result exist, removal by path touches the named file only, and the position list can be rebuilt
  from the metadata exactly when nothing is stale.
\<close>

subsection \<open>Sequences of mutations\<close>

datatype 'a store_op = Add "'a embedding_result list" | RemoveFile string "string option" | Rebuild

fun store_step :: "'a faiss_lib \<Rightarrow> 'a store_op \<Rightarrow> 'a store \<Rightarrow> 'a store" where
  "store_step lib (Add rs) s = snd (add_embeddings lib rs s)"
| "store_step lib (RemoveFile f p) s = snd (remove_file_chunks lib f p s)"
| "store_step lib Rebuild s = begin_rebuild lib s"

fun map_step :: "'a faiss_lib \<Rightarrow> 'a store_op \<Rightarrow> (string \<rightharpoonup> 'a list \<times> metadata) \<Rightarrow> (string \<rightharpoonup> 'a list \<times> metadata)" where
  "map_step lib (Add rs) L = L ++ map_of (map (\<lambda>r. (er_chunk_id r, normalize_L2 lib (er_embedding r), er_metadata r)) rs)"
| "map_step lib (RemoveFile f p) L = (\<lambda>cid. case L cid of
     None \<Rightarrow> None | Some c \<Rightarrow> if removes_chunk f p (snd c) then None else Some c)"
| "map_step lib Rebuild L = Map.empty"

definition op_ok :: "nat \<Rightarrow> 'a store_op \<Rightarrow> bool" where
  "op_ok d op = (case op of
     Add rs \<Rightarrow> distinct (map er_chunk_id rs) \<and> (\<forall>r \<in> set rs. length (er_embedding r) = d)
   | _ \<Rightarrow> True)"

definition has_dim :: "nat \<Rightarrow> 'a store \<Rightarrow> bool" where
  "has_dim d s \<longleftrightarrow> (case st_index s of None \<Rightarrow> True | Some ix \<Rightarrow> fx_d ix = d)"

lemma add_keeps_dim:
  assumes "store_ok s" "has_dim d s" "\<forall>r \<in> set rs. length (er_embedding r) = d"
  shows "has_dim d (snd (add_embeddings lib rs s))"
proof (cases "rs = []")
  case True
  then show ?thesis using assms by (simp add: add_embeddings_def)
next
  case False
  then have hd: "length (er_embedding (hd rs)) = d" using assms(3) by simp
  have fts: "st_index (snd (add_to_fts lib rs t)) = st_index t" for t :: "'a store"
    by (auto simp: add_to_fts_def init_fts5_def Let_def split: option.splits disk_file.splits)
  have dim: "fx_d (add_vectors lib rs ix) = fx_d ix" for ix
    by (simp add: add_vectors_def add_rows_def train_def Let_def)
  show ?thesis
    using assms False hd
    by (cases "st_index s")
       (auto simp: add_embeddings_def ensure_loaded_ok Let_def has_dim_def mark_working_set_dirty_def
         create_index_def fts dim split: if_splits)
qed

lemma step_refines:
  assumes "store_ok s" "has_dim d s" "op_ok d op" "lower (quantization lib) \<noteq> ''binary''"
  shows "store_ok (store_step lib op s) \<and> has_dim d (store_step lib op s) \<and>
    live (store_step lib op s) = map_step lib op (live s)"
proof (cases op)
  case (Add rs)
  have rs: "distinct (map er_chunk_id rs)" "\<forall>r \<in> set rs. length (er_embedding r) = d"
    using assms(3) Add by (auto simp: op_ok_def)
  have "batch_fits lib s rs"
    unfolding batch_fits_def batch_dim_def
  proof (intro conjI ballI)
    fix r assume r: "r \<in> set rs"
    then have "hd rs \<in> set rs" by (cases rs) auto
    then show "length (er_embedding r) =
        (case st_index s of None \<Rightarrow> length (er_embedding (hd rs)) | Some ix \<Rightarrow> fx_d ix)"
      using rs(2) r assms(2) by (auto simp: has_dim_def split: option.splits)
  qed (use assms in simp)
  then show ?thesis
    using chunks.view_add [OF assms(1) rs(1)] chunks.inv_add [OF assms(1) rs(1)]
      add_keeps_dim [OF assms(1,2) rs(2)] Add by simp
next
  case (RemoveFile f p)
  have "st_index (snd (remove_file_chunks lib f p s)) = st_index s"
    using ensure_loaded_ok [OF assms(1)]
    by (auto simp: remove_file_chunks_def Let_def remove_fts_rows_def init_fts5_def mark_working_set_dirty_def
        split: option.splits disk_file.splits)
  then show ?thesis
    using chunks.view_remove [OF assms(1)] chunks.inv_remove [OF assms(1)] assms(2) RemoveFile
    by (simp add: has_dim_def)
next
  case Rebuild
  have "st_index (begin_rebuild lib s) = None"
    by (simp add: begin_rebuild_def init_fts5_def Let_def discard_unpublished_working_set_def)
  then show ?thesis using Rebuild rebuild_empty [of lib s] by (simp add: has_dim_def)
qed

lemma run_refines:
  assumes "store_ok s" "has_dim d s" "\<forall>op \<in> set ops. op_ok d op"
    and "lower (quantization lib) \<noteq> ''binary''"
  shows "store_ok (fold (store_step lib) ops s) \<and>
    live (fold (store_step lib) ops s) = fold (map_step lib) ops (live s)"
  using assms
proof (induction ops arbitrary: s)
  case (Cons op ops)
  have "op_ok d op" using Cons.prems by simp
  then have "store_ok (store_step lib op s)" "has_dim d (store_step lib op s)"
      "live (store_step lib op s) = map_step lib op (live s)"
    using step_refines Cons.prems by blast+
  then show ?case using Cons by simp
qed simp

text \<open>
  C1. For every sequence of additions, per-file removals and rebuilds (with batches of one
  dimension and no repeated id within a batch), the index, the metadata and the FTS5 table stay
  consistent and their content is what the same operations do to a plain map from chunk ids to
  vectors and metadata: an addition overrides, a removal deletes exactly the chunks of the named
  file, a rebuild empties.
\<close>

theorem operations_track_live_chunks:
  assumes "store_ok s" "has_dim d s" "\<forall>op \<in> set ops. op_ok d op"
    and "lower (quantization lib) \<noteq> ''binary''"
  shows "store_ok (fold (store_step lib) ops s) \<and>
    live (fold (store_step lib) ops s) = fold (map_step lib) ops (live s)"
  by (rule run_refines [OF assms])

subsection \<open>What the scan over the hits returns\<close>

text \<open>The scan without its limit; the limit only cuts it.\<close>

fun scan_all :: "kv_conn \<Rightarrow> string option list \<Rightarrow> (string, json) dict \<Rightarrow> string set \<Rightarrow>
    ('a \<times> int) list \<Rightarrow> (string \<times> 'a \<times> metadata) list" where
  "scan_all db ids fs seen [] = []"
| "scan_all db ids fs seen ((sim, pos) # hits) =
     (if pos = -1 then []
      else if int (length ids) \<le> pos then scan_all db ids fs seen hits
      else case ids ! nat pos of
        None \<Rightarrow> scan_all db ids fs seen hits
      | Some cid \<Rightarrow>
          if cid \<in> seen then scan_all db ids fs seen hits
          else case kv_get db cid of
            None \<Rightarrow> scan_all db ids fs (insert cid seen) hits
          | Some e \<Rightarrow>
              (if matches_filters (entry_metadata e) fs then [(cid, sim, entry_metadata e)] else []) @
              scan_all db ids fs (insert cid seen) hits)"

lemma scan_hits_take: "0 < need \<Longrightarrow> scan_hits db ids fs need seen hits = take need (scan_all db ids fs seen hits)"
proof (induction hits arbitrary: need seen)
  case (Cons h hits)
  obtain sim pos where h: "h = (sim, pos)" by fastforce
  note IH = Cons.IH
  show ?case
    using Cons.prems IH [of need] IH [of "need - 1"]
    by (cases need rule: nat.exhaust) (auto simp: h split: option.split)
qed simp

lemma scan_all_cases:
  obtains (stop) "scan_all db ids fs seen ((sim, pos) # hits) = []"
  | (skip) "scan_all db ids fs seen ((sim, pos) # hits) = scan_all db ids fs seen hits"
  | (drop) cid where
      "scan_all db ids fs seen ((sim, pos) # hits) = scan_all db ids fs (insert cid seen) hits"
  | (keep) cid e where "pos \<noteq> -1" "pos < int (length ids)" "ids ! nat pos = Some cid" "cid \<notin> seen"
      "kv_get db cid = Some e" "matches_filters (entry_metadata e) fs"
      "scan_all db ids fs seen ((sim, pos) # hits) =
         (cid, sim, entry_metadata e) # scan_all db ids fs (insert cid seen) hits"
proof (cases "pos = -1 \<or> int (length ids) \<le> pos \<or> ids ! nat pos = None")
  case True
  then show ?thesis using that(1,2) by (cases "pos = -1") auto
next
  case False
  then obtain cid where cid: "ids ! nat pos = Some cid" by auto
  show ?thesis
  proof (cases "cid \<in> seen \<or> kv_get db cid = None")
    case True
    then show ?thesis using that(2) that(3) [of cid] False cid by (cases "cid \<in> seen") auto
  next
    case no: False
    then obtain e where e: "kv_get db cid = Some e" by auto
    show ?thesis
      using that(3) [of cid] that(4) [of cid e] no cid e False
      by (cases "matches_filters (entry_metadata e) fs") auto
  qed
qed

lemma scan_all_sound:
  "(cid, sim, m) \<in> set (scan_all db ids fs seen hits) \<Longrightarrow>
   cid \<notin> seen \<and> matches_filters m fs \<and> (\<exists>e. kv_get db cid = Some e \<and> m = entry_metadata e) \<and>
   (\<exists>pos. (sim, pos) \<in> set hits \<and> pos \<noteq> -1 \<and> pos < int (length ids) \<and> ids ! nat pos = Some cid)"
proof (induction hits arbitrary: seen)
  case (Cons h hits)
  obtain s pos where h: "h = (s, pos)" by fastforce
  show ?case
  proof (cases rule: scan_all_cases [where db = db and ids = ids and fs = fs and seen = seen
        and sim = s and pos = pos and hits = hits])
    case stop
    then show ?thesis using Cons.prems h by simp
  next
    case skip
    then show ?thesis using Cons.prems Cons.IH [of seen] h by auto
  next
    case (drop c)
    then show ?thesis using Cons.prems Cons.IH [of "insert c seen"] h by auto
  next
    case (keep c e)
    show ?thesis
    proof (cases "(cid, sim, m) = (c, s, entry_metadata e)")
      case True
      then show ?thesis using keep h by auto
    next
      case False
      then show ?thesis using Cons.prems Cons.IH [of "insert c seen"] keep(7) h by auto
    qed
  qed
qed simp

lemma scan_all_distinct: "distinct (map fst (scan_all db ids fs seen hits))"
proof (induction hits arbitrary: seen)
  case (Cons h hits)
  obtain s pos where h: "h = (s, pos)" by fastforce
  have fresh: "cid \<notin> fst ` set (scan_all db ids fs (insert cid seen) hits)" for cid
    using scan_all_sound [of cid _ _ db ids fs "insert cid seen" hits] by force
  show ?case
    by (cases rule: scan_all_cases [where db = db and ids = ids and fs = fs and seen = seen
        and sim = s and pos = pos and hits = hits]) (use Cons fresh in \<open>simp_all add: h\<close>)
qed simp

lemma scan_all_subseq: "subseq (map (\<lambda>r. fst (snd r)) (scan_all db ids fs seen hits)) (map fst hits)"
proof (induction hits arbitrary: seen)
  case (Cons h hits)
  obtain s pos where h: "h = (s, pos)" by fastforce
  show ?case
    by (cases rule: scan_all_cases [where db = db and ids = ids and fs = fs and seen = seen
        and sim = s and pos = pos and hits = hits]) (use Cons in \<open>simp_all add: h list_emb_Cons\<close>)
qed simp

text \<open>A hit of a live chunk that passes the filters is reported, at its first and best position.\<close>

lemma scan_all_complete:
  assumes "(sim, pos) \<in> set hits" "0 \<le> pos" "pos < int (length ids)" "ids ! nat pos = Some cid"
    and "cid \<notin> seen" "kv_get db cid = Some e" "matches_filters (entry_metadata e) fs"
    and "\<forall>h \<in> set hits. snd h \<noteq> -1" "sorted_wrt (\<lambda>g h. fst h \<le> fst g) hits"
  shows "\<exists>sim' \<ge> (sim :: 'a :: linorder). (cid, sim', entry_metadata e) \<in> set (scan_all db ids fs seen hits)"
  using assms
proof (induction hits arbitrary: seen)
  case (Cons h hits)
  obtain s p where h: "h = (s, p)" by fastforce
  have p: "p \<noteq> -1" using Cons.prems(8) h by simp
  have ge: "sim \<le> s" using Cons.prems(1,9) h by auto
  show ?case
  proof (cases "p < int (length ids) \<and> ids ! nat p = Some cid")
    case True
    then show ?thesis using Cons.prems p ge by (auto simp: h)
  next
    case False
    then have t: "(sim, pos) \<in> set hits" using Cons.prems(1-4) h by auto
    have IH: "cid \<notin> sn \<Longrightarrow> \<exists>sim' \<ge> sim. (cid, sim', entry_metadata e) \<in> set (scan_all db ids fs sn hits)" for sn
      by (rule Cons.IH) (use t Cons.prems in auto)
    show ?thesis
      using IH [of seen] IH [of "insert c seen" for c] Cons.prems(5) p False
      by (auto simp: h split: option.split)
  qed
qed simp

subsection \<open>Searching\<close>

definition chunk_position :: "'a store \<Rightarrow> string \<Rightarrow> nat" where
  "chunk_position s cid = nat (the (entry_index_id (the (kv_get (st_metadata s) cid))))"

lemma chunk_position_last:
  assumes "store_ok s" "cid \<in> dom (live s)"
  shows "at_last (st_chunk_ids s) (chunk_position s cid) (Some cid)"
proof -
  obtain e where e: "kv_get (st_metadata s) cid = Some e"
    using assms live_None_iff [OF assms(1), of cid] by (cases "kv_get (st_metadata s) cid") auto
  then obtain i m where "e = meta_entry i m" "at_last (st_chunk_ids s) i (Some cid)"
    using assms(1) unfolding store_ok_def entry_ok_def by blast
  then show ?thesis using e by (simp add: chunk_position_def)
qed

lemma position_inj: "store_ok s \<Longrightarrow> inj_on (chunk_position s) (dom (live s))"
  by (metis (no_types, lifting) at_last_def chunk_position_last inj_onI option.inject)

lemma search_state:
  assumes "store_ok s"
  shows "index_property s = s"
  using assms by (cases "st_index s") (auto simp: index_property_def load_index_def store_ok_def index_ok_def)

lemma search_sound:
  assumes "store_ok s"
  shows "case search lib q k fs s of
     (Inl e, s') \<Rightarrow> k \<le> 0 \<and> e = BadK k \<and> s' = s
   | (Inr rs, s') \<Rightarrow> 0 < k \<and> s' = s \<and> length rs \<le> nat k \<and> distinct (map fst rs) \<and>
       list_all (\<lambda>(cid, sim, m). map_option snd (live s cid) = Some m \<and> matches_filters m fs) rs"
proof (cases "0 < k \<and> (\<exists>ix. st_index s = Some ix \<and> ntotal ix \<noteq> 0)")
  case False
  then show ?thesis
    by (auto simp: search_def Let_def search_state [OF assms] split: option.split)
next
  case True
  then obtain ix where ix: "st_index s = Some ix" "ntotal ix \<noteq> 0" and k: "0 < k" by auto
  define A where "A = scan_all (st_metadata s) (st_chunk_ids s) fs {}
    (index_search lib ix (normalize_L2 lib q) (min (nat k * 3) (ntotal ix)))"
  have eq: "search lib q k fs s = (Inr (take (nat k) A), s)"
    using k ix by (simp add: search_def Let_def search_state [OF assms] A_def scan_hits_take)
  have "map_option snd (live s cid) = Some m \<and> matches_filters m fs" if "(cid, sim, m) \<in> set A" for cid sim m
    using scan_all_sound [OF that [unfolded A_def]] ix by (auto simp: live_def live_entry_def)
  then have "list_all (\<lambda>(cid, sim, m). map_option snd (live s cid) = Some m \<and> matches_filters m fs) (take (nat k) A)"
    by (auto simp: list_all_iff dest: in_set_takeD)
  moreover have "distinct (map fst (take (nat k) A))"
    unfolding A_def take_map [symmetric] by (intro distinct_take scan_all_distinct)
  ultimately show ?thesis using k by (simp add: eq)
qed

text \<open>
  A search refuses a non-positive \<open>k\<close>; otherwise it leaves a consistent store as it was and
  returns at most \<open>k\<close> different chunks, each live with exactly the metadata returned and each
  accepted by the filters, whatever the vector library answers.
\<close>

lemma search_returns_live_chunks:
  assumes "store_ok s"
  shows "case search lib q k fs s of
     (Inl e, s') \<Rightarrow> k \<le> 0 \<and> e = BadK k \<and> s' = s
   | (Inr rs, s') \<Rightarrow> 0 < k \<and> s' = s \<and> length rs \<le> nat k \<and> distinct (map fst rs) \<and>
       list_all (\<lambda>(cid, sim, m). map_option snd (live s cid) = Some m \<and> matches_filters m fs) rs"
  by (rule search_sound [OF assms])

text \<open>FAISS's documented contract for an exhaustive index: the \<open>n\<close> best rows, best first.\<close>

definition exact_search :: "'a::linorder faiss_lib \<Rightarrow> ('a faiss_index \<Rightarrow> 'a list \<Rightarrow> nat \<Rightarrow> 'a) \<Rightarrow> bool" where
  "exact_search lib sim \<longleftrightarrow> (\<forall>ix q n. \<exists>ranking.
     mset ranking = mset (map (\<lambda>i. (sim ix q i, int i)) [0..<ntotal ix]) \<and>
     sorted_wrt (\<lambda>g h. fst h \<le> fst g) ranking \<and> index_search lib ix q n = take n ranking)"

lemma best_of_prefix:
  fixes rank :: "'a::linorder \<times> int \<Rightarrow> 'a"
  assumes s: "store_ok s" and ix: "st_index s = Some ix"
    and perm: "mset ranking = mset (map (\<lambda>i. (sim ix q i, int i)) [0..<ntotal ix])"
    and sorted: "sorted_wrt (\<lambda>g h. fst h \<le> fst g) (ranking :: ('a \<times> int) list)"
    and A: "A = scan_all (st_metadata s) (st_chunk_ids s) [] {} (take n ranking)"
  shows "fst ` set A \<subseteq> dom (live s)"
    and "cid \<in> dom (live s) \<Longrightarrow> (sim ix q (chunk_position s cid), int (chunk_position s cid)) \<in> set (take n ranking) \<Longrightarrow>
      \<exists>sim' m. sim ix q (chunk_position s cid) \<le> sim' \<and> (cid, sim', m) \<in> set A"
    and "n \<le> ntotal ix \<Longrightarrow> n + card (dom (live s)) \<le> length A + ntotal ix"
    and "length A \<le> card (dom (live s))"
proof -
  let ?ids = "st_chunk_ids s" and ?D = "dom (live s)"
  have N: "ntotal ix = length ?ids" using s ix by (simp add: store_ok_def index_ok_def)
  have setr: "set ranking = (\<lambda>i. (sim ix q i, int i)) ` {..<ntotal ix}"
    using arg_cong [OF perm, of set_mset] by (simp add: atLeast0LessThan)
  have dist: "distinct ranking"
  proof -
    have "distinct (map (\<lambda>i. (sim ix q i, int i)) [0..<ntotal ix])" by (simp add: distinct_map inj_on_def)
    then show ?thesis using perm by (metis mset_eq_imp_distinct_iff)
  qed
  have lenr: "length ranking = ntotal ix" using arg_cong [OF perm, of size] by simp
  have pos: "chunk_position s c < ntotal ix" "?ids ! chunk_position s c = Some c" if "c \<in> ?D" for c
    using chunk_position_last [OF s that] N by (auto simp: at_last_def)
  have finD: "finite ?D"
  proof (rule finite_imageD [OF _ position_inj [OF s]])
    have "chunk_position s ` ?D \<subseteq> {..<ntotal ix}" using pos(1) by auto
    then show "finite (chunk_position s ` ?D)" by (rule finite_subset) simp
  qed
  show AD: "fst ` set A \<subseteq> ?D"
  proof
    fix c assume "c \<in> fst ` set A"
    then obtain sm m where "(c, sm, m) \<in> set A" by auto
    then obtain e where "kv_get (st_metadata s) c = Some e"
      using scan_all_sound [of c sm m] unfolding A by blast
    then show "c \<in> ?D" using ix by (auto simp: live_def)
  qed
  show hit: "\<exists>sim' m. sim ix q (chunk_position s c) \<le> sim' \<and> (c, sim', m) \<in> set A"
    if c: "c \<in> ?D" "(sim ix q (chunk_position s c), int (chunk_position s c)) \<in> set (take n ranking)" for c
  proof -
    obtain e where e: "kv_get (st_metadata s) c = Some e"
      using live_None_iff [OF s, of c] c(1) by (cases "kv_get (st_metadata s) c") auto
    have nn: "\<forall>h \<in> set (take n ranking). snd h \<noteq> -1"
      using setr by (auto dest!: in_set_takeD)
    show ?thesis
      using scan_all_complete [OF c(2) _ _ _ _ e _ nn sorted_wrt_take [OF sorted], of ?ids "{}" "[]"]
        pos [OF c(1)] N unfolding A by auto
  qed
  have lenA: "length A = card (fst ` set A)"
    using scan_all_distinct [of "st_metadata s" ?ids "[]" "{}" "take n ranking"] unfolding A
    by (metis distinct_card length_map set_map)
  show "length A \<le> card ?D" unfolding lenA by (rule card_mono [OF finD AD])
  show "n + card ?D \<le> length A + ntotal ix" if n: "n \<le> ntotal ix"
  proof -
    let ?Q = "(nat \<circ> snd) ` set (take n ranking)"
    have inj: "inj_on (nat \<circ> snd) (set ranking)" unfolding setr by (auto simp: inj_on_def)
    have cQ: "card ?Q = n"
    proof -
      have "card ?Q = card (set (take n ranking))"
        by (rule card_image) (rule inj_on_subset [OF inj set_take_subset])
      then show ?thesis using dist n lenr by (simp add: distinct_card)
    qed
    have Q: "?Q \<subseteq> {..<ntotal ix}" using setr by (auto dest!: in_set_takeD)
    let ?P = "chunk_position s ` ?D"
    have P: "?P \<subseteq> {..<ntotal ix}" using pos(1) by auto
    have cP: "card ?P = card ?D" by (rule card_image [OF position_inj [OF s]])
    have "card ?Q + card ?P = card (?Q \<union> ?P) + card (?Q \<inter> ?P)"
      by (rule card_Un_Int) (use finD in auto)
    moreover have "card (?Q \<union> ?P) \<le> ntotal ix"
      using card_mono [of "{..<ntotal ix}" "?Q \<union> ?P"] Q P by auto
    moreover have "card (?Q \<inter> ?P) \<le> card (fst ` set A)"
    proof -
      have "?Q \<inter> ?P \<subseteq> chunk_position s ` (fst ` set A)"
      proof
        fix i assume i: "i \<in> ?Q \<inter> ?P"
        then obtain c where c: "c \<in> ?D" "i = chunk_position s c" by auto
        obtain h where h: "h \<in> set (take n ranking)" "i = nat (snd h)" using i by auto
        obtain j where "h = (sim ix q j, int j)" using h(1) setr by (auto dest!: in_set_takeD)
        then have "h = (sim ix q i, int i)" using h(2) by simp
        then have "c \<in> fst ` set A" using hit [OF c(1)] h(1) c(2) by force
        then show "i \<in> chunk_position s ` (fst ` set A)" using c by auto
      qed
      then have "card (?Q \<inter> ?P) \<le> card (chunk_position s ` (fst ` set A))" by (intro card_mono) auto
      also have "\<dots> \<le> card (fst ` set A)" by (rule card_image_le) simp
      finally show ?thesis .
    qed
    ultimately show ?thesis using cQ cP lenA by linarith
  qed
qed


subsection \<open>Removal by relative path\<close>

definition rel_path :: "metadata \<Rightarrow> string" where
  "rel_path m = meta_text m ''relative_path''"

text \<open>What the indexer stores: a normalised relative path, and an absolute path or none.\<close>

definition paths_stored :: "'a store \<Rightarrow> bool" where
  "paths_stored s \<longleftrightarrow> (\<forall>cid v m. live s cid = Some (v, m) \<longrightarrow>
     rel_path m \<noteq> [] \<and> normalize_path (rel_path m) = rel_path m \<and>
     (meta_text m ''file_path'' = [] \<or> is_absolute_norm (normalize_path (meta_text m ''file_path''))))"

lemma relative_target:
  assumes "f \<noteq> []" "normalize_path f = f" "\<not> is_absolute_norm f"
    and "rel \<noteq> []" "normalize_path rel = rel" "ab = [] \<or> is_absolute_norm (normalize_path ab)"
  shows "paths_refer_to_same_file f rel ab \<longleftrightarrow> rel = f"
  using assms by (auto simp: paths_refer_to_same_file_def Let_def)

lemma count_chunks_live:
  assumes s: "store_ok s" and p: "paths_stored s" and f: "f \<noteq> []"
  shows "count_chunks_in_file f s = card {cid. \<exists>v m. live s cid = Some (v, m) \<and> rel_path m = f}"
proof -
  obtain rows where rows: "st_fts s = Some rows" "fts_ok (st_metadata s) rows"
    using s by (auto simp: store_ok_def)
  let ?rs = "filter (\<lambda>r. fr_file_path r = f) rows"
  have doc: "fr_file_path (fts_document c m) = rel_path m" if "rel_path m \<noteq> []" for c m
    using that by (auto simp: fts_document_def Let_def rel_path_def meta_text_def meta_has_def)
  have path: "fr_file_path r = rel_path m" if rr: "r \<in> set rows" "live s (fr_chunk_id r) = Some (v, m)" for r v m
  proof -
    obtain e where "kv_get (st_metadata s) (fr_chunk_id r) = Some e" "entry_metadata e = m"
      using live_metadata [OF rr(2)] by auto
    then have "r = fts_document (fr_chunk_id r) m" using rows(2) rr(1) by (auto simp: fts_ok_def)
    then show ?thesis using doc [of m "fr_chunk_id r"] p rr(2) by (auto simp: paths_stored_def)
  qed
  have "fr_chunk_id ` set ?rs = {cid. \<exists>v m. live s cid = Some (v, m) \<and> rel_path m = f}"
  proof (intro equalityI subsetI)
    fix cid assume "cid \<in> fr_chunk_id ` set ?rs"
    then obtain r where r: "r \<in> set rows" "fr_file_path r = f" "cid = fr_chunk_id r" by auto
    then have "kv_get (st_metadata s) cid \<noteq> None" using rows(2) by (auto simp: fts_ok_def)
    then obtain v m where "live s cid = Some (v, m)" using live_None_iff [OF s, of cid] by auto
    then show "cid \<in> {cid. \<exists>v m. live s cid = Some (v, m) \<and> rel_path m = f}" using path r by auto
  next
    fix cid assume "cid \<in> {cid. \<exists>v m. live s cid = Some (v, m) \<and> rel_path m = f}"
    then obtain v m where l: "live s cid = Some (v, m)" "rel_path m = f" by auto
    then have "cid \<in> fr_chunk_id ` set rows" using live_metadata [of s] rows(2) by (fastforce simp: fts_ok_def)
    then obtain r where "r \<in> set rows" "cid = fr_chunk_id r" by auto
    then show "cid \<in> fr_chunk_id ` set ?rs" using path l by auto
  qed
  moreover have "distinct (map fr_chunk_id ?rs)" using rows(2) by (simp add: fts_ok_def distinct_map_filter)
  ultimately show ?thesis
    using rows(1) f by (metis (no_types, lifting) count_chunks_in_file_def distinct_card length_map list.set_map option.simps(5))
qed

text \<open>
  Removing a file by its relative path deletes the chunks stored under exactly that path, no
  others (\<open>test.py\<close> does not touch \<open>conftest.py\<close>, nor \<open>util.py\<close> the file \<open>src/util.py\<close>), reports how
  many there were, and leaves no full-text row for the path.
\<close>

lemma relative_removal_is_exact:
  assumes s: "store_ok s" and p: "paths_stored s"
    and f: "f \<noteq> []" "normalize_path f = f" "\<not> is_absolute_norm f"
  shows "\<exists>s'. remove_file_chunks lib f None s = (count_chunks_in_file f s, s') \<and> store_ok s' \<and>
    live s' = live s |` {cid. \<forall>v m. live s cid = Some (v, m) \<longrightarrow> rel_path m \<noteq> f} \<and>
    count_chunks_in_file f s' = 0"
proof -
  have "removes_chunk f None m \<longleftrightarrow> rel_path m = f" if "live s cid = Some (v, m)" for cid v m
    using relative_target [OF f, of "rel_path m" "meta_text m ''file_path''"] p that
    by (auto simp: removes_chunk_def Let_def paths_stored_def rel_path_def)
  then have d: "doomed f None s = {cid. \<exists>v m. live s cid = Some (v, m) \<and> rel_path m = f}"
    by (auto simp: doomed_def)
  obtain s' where s': "remove_file_chunks lib f None s = (card (doomed f None s), s')" "store_ok s'"
      "live s' = live s |` (- doomed f None s)"
    using remove_refines [OF s] by blast
  have p': "paths_stored s'"
    unfolding paths_stored_def
  proof (intro allI impI)
    fix cid v m assume "live s' cid = Some (v, m)"
    then have "live s cid = Some (v, m)" using s'(3) by (simp add: restrict_map_def split: if_splits)
    then show "rel_path m \<noteq> [] \<and> normalize_path (rel_path m) = rel_path m \<and>
        (meta_text m ''file_path'' = [] \<or> is_absolute_norm (normalize_path (meta_text m ''file_path'')))"
      using p unfolding paths_stored_def by blast
  qed
  have none: "{cid. \<exists>v m. live s' cid = Some (v, m) \<and> rel_path m = f} = {}"
    using s'(3) d by (auto simp: restrict_map_def split: if_splits)
  then have "count_chunks_in_file f s' = 0"
    using count_chunks_live [OF s'(2) p' f(1)] by (simp only: card.empty)
  moreover have "count_chunks_in_file f s = card (doomed f None s)"
    using count_chunks_live [OF s p f(1)] d by simp
  moreover have "live s' = live s |` {cid. \<forall>v m. live s cid = Some (v, m) \<longrightarrow> rel_path m \<noteq> f}"
    unfolding s'(3) d by (rule arg_cong [where f = "restrict_map (live s)"]) auto
  ultimately show ?thesis using s' by auto
qed

text \<open>An absolute target is also taken for a shorter file of the same name at the project's root.\<close>

lemma absolute_removal_takes_other_file:
  "paths_refer_to_same_file ''/p/src/util.py'' ''util.py'' ''/p/util.py''"
  by (simp add: paths_refer_to_same_file_def normalize_path_def is_absolute_norm_def starts_with_def
      ends_with_def)

subsection \<open>Rebuilding the position list\<close>

lemma rebuild_slots_result:
  assumes "\<forall>p \<in> set items. \<exists>i m. snd p = meta_entry i m \<and> i < n \<and> ids ! i = Some (fst p)"
    and "length slots = n" "\<forall>j<n. slots ! j \<noteq> None \<longrightarrow> slots ! j = ids ! j"
  shows "length (rebuild_slots n items slots) = n \<and>
    (\<forall>j<n. rebuild_slots n items slots ! j =
      (if slots ! j \<noteq> None \<or> (\<exists>p \<in> set items. entry_index_id (snd p) = Some (int j)) then ids ! j else None))"
  using assms
proof (induction items arbitrary: slots)
  case (Cons p items)
  obtain cid e where p: "p = (cid, e)" by fastforce
  obtain i m where e: "e = meta_entry i m" "i < n" "ids ! i = Some cid" using Cons.prems(1) p by auto
  define slots' where "slots' = (if slots ! i = None then slots[i := Some cid] else slots)"
  have step: "rebuild_slots n (p # items) slots = rebuild_slots n items slots'"
    using e(2) by (simp add: p e(1) slots'_def)
  have s': "length slots' = n" "\<forall>j<n. slots' ! j \<noteq> None \<longrightarrow> slots' ! j = ids ! j"
    using Cons.prems e by (auto simp: slots'_def nth_list_update)
  have nn: "slots' ! j \<noteq> None \<longleftrightarrow> slots ! j \<noteq> None \<or> j = i" if "j < n" for j
    using that Cons.prems(2) e(2) by (auto simp: slots'_def nth_list_update)
  show ?case
    using Cons.IH [OF _ s'] Cons.prems(1) nn unfolding step by (auto simp: p e(1))
qed simp

text \<open>The state a fresh manager finds: files on disk, nothing loaded, no usable id list.\<close>

definition lost_ids :: "'a store \<Rightarrow> 'a faiss_index \<Rightarrow> string option list disk_file \<Rightarrow> 'a store" where
  "lost_ids s ix d = s\<lparr>st_index := None, st_chunk_ids := [], disk_index := Readable ix, disk_chunk_ids := d\<rparr>"

text \<open>
  C35. When \<open>chunk_ids.pkl\<close> is missing or unreadable, loading the index rebuilds the position list
  from the metadata exactly when every vector belongs to a live chunk; with a single stale vector
  (any earlier removal or re-addition) the list stays empty and the vector search with it.
\<close>

theorem ids_rebuilt_iff_nothing_stale:
  assumes s: "store_ok s" and ix: "st_index s = Some ix" "0 < ntotal ix" and d: "d = NoFile \<or> d = Unreadable"
  shows "st_index (load_index (lost_ids s ix d)) = Some ix \<and>
    st_chunk_ids (load_index (lost_ids s ix d)) =
      (if card (dom (live s)) = ntotal ix then st_chunk_ids s else []) \<and>
    st_metadata (load_index (lost_ids s ix d)) = st_metadata s"
proof -
  let ?n = "ntotal ix" and ?ids = "st_chunk_ids s" and ?items = "kv_items (st_metadata s)"
  let ?reb = "rebuild_slots ?n ?items (replicate ?n None)"
  have n: "?n = length ?ids" using s ix by (simp add: store_ok_def index_ok_def)
  have kv: "kv_ok (st_metadata s)" using s by (simp add: store_ok_def)
  have item: "\<exists>i m. snd p = meta_entry i m \<and> i < ?n \<and> ?ids ! i = Some (fst p)" if "p \<in> set ?items" for p
  proof -
    have "kv_get (st_metadata s) (fst p) = Some (snd p)" using kv.items_get [OF kv] that by (metis prod.collapse)
    then have "entry_ok ?ids (fst p) (snd p)" using s unfolding store_ok_def by blast
    then show ?thesis by (auto simp: entry_ok_def at_last_def n)
  qed
  have res: "length ?reb = ?n" "\<And>j. j < ?n \<Longrightarrow> ?reb ! j =
      (if \<exists>p \<in> set ?items. entry_index_id (snd p) = Some (int j) then ?ids ! j else None)"
    using rebuild_slots_result [where items = ?items and n = ?n and ids = ?ids and slots = "replicate ?n None"] item
    by auto
  let ?D = "dom (live s)"
  have occ: "(\<exists>p \<in> set ?items. entry_index_id (snd p) = Some (int j)) \<longleftrightarrow> j \<in> chunk_position s ` ?D" for j
  proof
    assume "\<exists>p \<in> set ?items. entry_index_id (snd p) = Some (int j)"
    then obtain c e where p: "(c, e) \<in> set ?items" "entry_index_id e = Some (int j)" by auto
    then have g: "kv_get (st_metadata s) c = Some e" using kv.items_get [OF kv] by blast
    then have "c \<in> ?D" using ix by (simp add: live_def domIff)
    moreover have "chunk_position s c = j" using g p by (simp add: chunk_position_def)
    ultimately show "j \<in> chunk_position s ` ?D" by auto
  next
    assume "j \<in> chunk_position s ` ?D"
    then obtain c where c: "c \<in> ?D" "chunk_position s c = j" by auto
    then obtain e where g: "kv_get (st_metadata s) c = Some e"
      using live_None_iff [OF s, of c] by (cases "kv_get (st_metadata s) c") auto
    then have "(c, e) \<in> set ?items" using kv.items_get [OF kv] by blast
    moreover have "entry_index_id e = Some (int j)"
      using item [OF calculation] c g by (auto simp: chunk_position_def)
    ultimately show "\<exists>p \<in> set ?items. entry_index_id (snd p) = Some (int j)" by force
  qed
  have sub: "chunk_position s ` ?D \<subseteq> {..<?n}"
    using chunk_position_last [OF s] n by (auto simp: at_last_def)
  have card: "card ?D = ?n \<longleftrightarrow> chunk_position s ` ?D = {..<?n}"
    using card_image [OF position_inj [OF s]] card_subset_eq [OF finite_lessThan sub] by auto
  have some: "?ids ! j \<noteq> None" if "j \<in> chunk_position s ` ?D" for j
    using that chunk_position_last [OF s] by (auto simp: at_last_def)
  have miss: "(filter (\<lambda>x. x = None) ?reb = []) \<longleftrightarrow> chunk_position s ` ?D = {..<?n}"
  proof -
    have "(filter (\<lambda>x. x = None) ?reb = []) \<longleftrightarrow> (\<forall>j<?n. ?reb ! j \<noteq> None)"
      by (simp add: filter_empty_conv all_set_conv_all_nth res(1))
    also have "\<dots> \<longleftrightarrow> (\<forall>j<?n. j \<in> chunk_position s ` ?D)"       by (intro all_cong1 imp_cong refl) (use res(2) occ some in auto)
    also have "\<dots> \<longleftrightarrow> chunk_position s ` ?D = {..<?n}" using sub by auto
    finally show ?thesis .
  qed
  have full: "?reb = ?ids" if "chunk_position s ` ?D = {..<?n}"
    by (rule nth_equalityI) (use res occ n that in auto)
  have "load_index (lost_ids s ix d) = maybe_rebuild_chunk_ids
      (s\<lparr>disk_index := Readable ix, disk_chunk_ids := d, st_index := Some ix, st_chunk_ids := []\<rparr>)"
    using d by (auto simp: load_index_def lost_ids_def)
  then show ?thesis
    using ix(2) miss card full
    by (auto simp: maybe_rebuild_chunk_ids_def lost_ids_def Let_def)
qed

end
