(* ===== verification/IndexStore_Query.thy ===== *)
theory IndexStore_Query
  imports IndexStore_Correct
begin

text \<open>
  The keyword search and the similar-chunk search over a consistent store, and closed instances of
  the index properties on a small project.
\<close>

subsection \<open>The FTS5 query\<close>

definition quoted_terms :: "string list \<Rightarrow> string" where
  "quoted_terms ts = join '' OR '' (map (\<lambda>t. ''\"'' @ t @ ''\"'') ts)"

definition plain_term :: "string \<Rightarrow> bool" where
  "plain_term t \<longleftrightarrow> 2 \<le> length t \<and> list_all (\<lambda>c. \<not> fts_special c \<and> \<not> py_space c) t"

text \<open>
  Whatever the user typed, the FTS5 query is empty or a disjunction of quoted terms, each of
  at least two characters and free of quotes, FTS5 operators, control characters and white space.
\<close>

lemma sanitized_query_is_quoted_terms:
  "\<exists>ts. sanitize_fts5_query q = (if ts = [] then [] else quoted_terms ts) \<and> list_all plain_term ts"
proof -
  define cleaned where "cleaned = map (\<lambda>c. if fts_special c then CHR '' '' else c) q"
  define ts where "ts = [t \<leftarrow> py_split cleaned. t \<noteq> [] \<and> 1 < length t]"
  have sp: "\<not> fts_special (CHR '' '')" by (simp add: fts_special_def)
  have "plain_term t" if t: "t \<in> set ts" for t
  proof -
    have "set t \<subseteq> {c \<in> set cleaned. \<not> py_space c}" using t py_split_tokens [of t cleaned] by (simp add: ts_def)
    then have "\<not> fts_special c \<and> \<not> py_space c" if "c \<in> set t" for c
      using that sp by (auto simp: cleaned_def)
    then show ?thesis using t by (simp add: plain_term_def ts_def list_all_iff)
  qed
  moreover have "sanitize_fts5_query q = (if ts = [] then [] else quoted_terms ts)"
    by (simp add: sanitize_fts5_query_def Let_def ts_def cleaned_def quoted_terms_def)
  ultimately show ?thesis by (auto simp: list_all_iff)
qed

subsection \<open>Keyword search\<close>

lemma scan_ranked_sound:
  "(cid, r, m) \<in> set (scan_ranked db fs k seen rows) \<Longrightarrow>
   cid \<notin> seen \<and> matches_filters m fs \<and> (\<exists>e. kv_get db cid = Some e \<and> m = entry_metadata e)"
proof (induction rows arbitrary: k seen)
  case (Cons row rows)
  obtain c x where row: "row = (c, x)" by fastforce
  show ?case
  proof (cases "c \<in> seen")
    case True
    then show ?thesis using Cons.prems Cons.IH [of k seen] row by simp
  next
    case False
    then show ?thesis
      using Cons.prems Cons.IH [of k "insert c seen"] Cons.IH [of "k - 1" "insert c seen"] row
      by (auto split: option.splits if_splits)
  qed
qed simp

lemma scan_ranked_distinct: "distinct (map fst (scan_ranked db fs k seen rows))"
proof (induction rows arbitrary: k seen)
  case (Cons row rows)
  obtain c x where row: "row = (c, x)" by fastforce
  have "c \<notin> fst ` set (scan_ranked db fs (k - 1) (insert c seen) rows)"
    using scan_ranked_sound [of c _ _ db fs "k - 1" "insert c seen" rows] by force
  then show ?case using Cons row by (auto split: option.split)
qed simp

lemma scan_ranked_length: "length (scan_ranked db fs k seen rows) \<le> max 1 (nat k)"
proof (induction rows arbitrary: k seen)
  case (Cons row rows)
  obtain c x where row: "row = (c, x)" by fastforce
  have "1 + length (scan_ranked db fs (k - 1) (insert c seen) rows) \<le> nat k" if "1 < k"
    using Cons [of "k - 1" "insert c seen"] that by linarith
  then show ?case
    using Cons [of k seen] Cons [of k "insert c seen"] row by (auto split: option.split)
qed simp

lemma bm25_sound:
  assumes "store_ok s"
  shows "length (search_bm25 lib q k w fs s) \<le> max 1 (nat k) \<and> distinct (map fst (search_bm25 lib q k w fs s)) \<and>
    list_all (\<lambda>(cid, r, m). map_option snd (live s cid) = Some m \<and> matches_filters m fs)
      (search_bm25 lib q k w fs s)"
proof -
  obtain ranked where r: "search_bm25 lib q k w fs s = scan_ranked (st_metadata s) fs k {} ranked"
  proof (cases "\<exists>ranked. search_bm25 lib q k w fs s = scan_ranked (st_metadata s) fs k {} ranked")
    case False
    then have "search_bm25 lib q k w fs s = []"
      by (auto simp: search_bm25_def Let_def split: option.splits if_splits)
    then show ?thesis using that [of "[]"] by simp
  qed (use that in auto)
  have "map_option snd (live s cid) = Some m" if e: "kv_get (st_metadata s) cid = Some e" "m = entry_metadata e" for cid e m
  proof -
    obtain ix where "st_index s = Some ix"
      by (rule store_okD [OF assms e(1)]) (rule that, assumption)
    then show ?thesis using e by (simp add: live_def live_entry_def)
  qed
  then show ?thesis
    using scan_ranked_sound [of _ _ _ "st_metadata s" fs k "{}" ranked] scan_ranked_distinct
      scan_ranked_length [of "st_metadata s" fs k "{}" ranked] unfolding r list_all_iff by fastforce
qed

text \<open>
  Keyword search returns at most \<open>k\<close> different chunks, each live, with its own metadata and
  accepted by the filters, in the order of FTS5's ranking, whatever FTS5 answers.
\<close>

lemma bm25_returns_live_chunks:
  assumes "store_ok s" "0 < k"
  shows "length (search_bm25 lib q k w fs s) \<le> nat k \<and> distinct (map fst (search_bm25 lib q k w fs s)) \<and>
    list_all (\<lambda>(cid, r, m). map_option snd (live s cid) = Some m \<and> matches_filters m fs)
      (search_bm25 lib q k w fs s)"
  using bm25_sound [OF assms(1), of lib q k w fs] assms(2) by simp

subsection \<open>Similar chunks\<close>

text \<open>
  Asking for chunks similar to a given one never fails, never returns that chunk, and returns
  at most \<open>k\<close> different live chunks with their metadata.
\<close>

lemma similar_chunks_exclude_self:
  assumes "store_ok s"
  shows "\<exists>rs. get_similar_chunks lib cid k s = (Inr rs, s) \<and> length rs \<le> k \<and> distinct (map fst rs) \<and>
    list_all (\<lambda>(c, sim, m). c \<noteq> cid \<and> map_option snd (live s c) = Some m) rs"
proof (cases "\<exists>e i ix. kv_get (st_metadata s) cid = Some e \<and> entry_index_id e = Some i \<and> st_index s = Some ix \<and>
    i < int (ntotal ix)")
  case False
  then have "get_similar_chunks lib cid k s = (Inr [], s)"
    by (auto simp: get_similar_chunks_def split: option.splits)
  then show ?thesis by simp
next
  case True
  then obtain e i ix where h: "kv_get (st_metadata s) cid = Some e" "entry_index_id e = Some i"
      "st_index s = Some ix" "i < int (ntotal ix)"
    by blast
  define q where "q = index_reconstruct lib ix (nat i)"
  obtain rs where rs: "search lib q (int k + 1) [] s = (Inr rs, s)" "distinct (map fst rs)"
      "list_all (\<lambda>(cid, sim, m). map_option snd (live s cid) = Some m \<and> matches_filters m []) rs"
    using search_sound [OF assms, where lib = lib and q = q and k = "int k + 1" and fs = "[]"] by (auto split: prod.splits sum.splits)
  let ?rs = "take k [r \<leftarrow> rs. fst r \<noteq> cid]"
  have "get_similar_chunks lib cid k s = (Inr ?rs, s)"
    using h rs(1) by (simp add: get_similar_chunks_def q_def)
  moreover have "distinct (map fst ?rs)"
    using rs(2) unfolding take_map [symmetric] by (intro distinct_take) (simp add: distinct_map_filter)
  moreover have "list_all (\<lambda>(c, sim, m). c \<noteq> cid \<and> map_option snd (live s c) = Some m) ?rs"
    using rs(3) by (auto simp: list_all_iff dest!: in_set_takeD)
  ultimately show ?thesis by auto
qed

subsection \<open>A small project\<close>

definition dot :: "int list \<Rightarrow> int list \<Rightarrow> int" where
  "dot v w = sum_list (map2 (*) v w)"

definition demo_sim :: "int faiss_index \<Rightarrow> int list \<Rightarrow> nat \<Rightarrow> int" where
  "demo_sim ix q i = dot q (fx_rows ix ! i)"

definition demo_lib :: "int faiss_lib" where
  "demo_lib = \<lparr>normalize_L2 = (\<lambda>v. v),
     index_search = (\<lambda>ix q n. take n (sorted_desc fst (map (\<lambda>i. (demo_sim ix q i, int i)) [0..<ntotal ix]))),
     index_reconstruct = (\<lambda>ix i. fx_rows ix ! i),
     fts_bm25 = (\<lambda>rows w q n. Some (map (\<lambda>r. (fr_chunk_id r, 0)) rows)),
     quantization = ''int8'', can_quarantine = True\<rparr>"

definition demo_result :: "string \<Rightarrow> string \<Rightarrow> int list \<Rightarrow> int embedding_result" where
  "demo_result cid path v = \<lparr>er_embedding = v, er_chunk_id = cid,
     er_metadata = [(''relative_path'', JStr path), (''chunk_type'', JStr ''function'')]\<rparr>"

definition demo_start :: "int store" where
  "demo_start = begin_rebuild demo_lib
     \<lparr>st_index = None, st_chunk_ids = [], st_metadata = \<lparr>kv_path = \<lparr>kv_tables = [kv_table], kv_rows = []\<rparr>, kv_pending = []\<rparr>,
      st_fts = None, st_marker = False, disk_index = NoFile, disk_chunk_ids = NoFile, disk_fts = NoFile\<rparr>"

definition demo_ops :: "int store_op list" where
  "demo_ops = [Add [demo_result ''a'' ''a.py'' [3, 0], demo_result ''b'' ''lib/a.py'' [0, 2]],
     RemoveFile ''a.py'' None, Add [demo_result ''c'' ''a.py'' [1, 1]]]"

definition demo_store :: "int store" where
  "demo_store = fold (store_step demo_lib) demo_ops demo_start"

lemma demo_hyps:
  "store_ok demo_start" "has_dim 2 demo_start" "\<forall>op \<in> set demo_ops. op_ok 2 op"
  "lower (quantization demo_lib) \<noteq> ''binary''"
proof -
  show "store_ok demo_start" by (simp add: demo_start_def rebuild_empty)
  show "has_dim 2 demo_start"
    by (simp add: has_dim_def demo_start_def begin_rebuild_def init_fts5_def Let_def discard_unpublished_working_set_def)
  show "\<forall>op \<in> set demo_ops. op_ok 2 op" by (simp add: demo_ops_def op_ok_def demo_result_def)
  show "lower (quantization demo_lib) \<noteq> ''binary''" by code_simp
qed

lemma demo_store_ok: "store_ok demo_store"
  unfolding demo_store_def using run_refines [OF demo_hyps] by simp

lemma demo_index: "st_index demo_store = Some \<lparr>fx_kind = ScalarQ8, fx_d = 2,
    fx_training = Some [[3, 0], [0, 2]], fx_rows = [[3, 0], [0, 2], [1, 1]]\<rparr>"
  by code_simp

lemma demo_exact: "exact_search demo_lib demo_sim"
  unfolding exact_search_def demo_lib_def
  by (intro allI exI conjI) (auto simp: sorted_desc_sorted simp del: mset_map)

theorem operations_witness:
  "live (fold (store_step demo_lib) demo_ops demo_start) ''a'' = None \<and>
   map_option fst (live (fold (store_step demo_lib) demo_ops demo_start) ''b'') = Some [0, 2] \<and>
   map_option fst (live (fold (store_step demo_lib) demo_ops demo_start) ''c'') = Some [1, 1]"
proof -
  have "live demo_start = Map.empty" by (simp add: demo_start_def rebuild_empty)
  then have "live (fold (store_step demo_lib) demo_ops demo_start) = fold (map_step demo_lib) demo_ops Map.empty"
    using operations_track_live_chunks [OF demo_hyps] by simp
  moreover have "fold (map_step demo_lib) demo_ops Map.empty ''a'' = None"
    "map_option fst (fold (map_step demo_lib) demo_ops Map.empty ''b'') = Some [0, 2]"
    "map_option fst (fold (map_step demo_lib) demo_ops Map.empty ''c'') = Some [1, 1]"
    by code_simp+
  ultimately show ?thesis by simp
qed

theorem search_live_witness:
  "\<exists>rs. search demo_lib [1, 0] 2 [(''chunk_type'', JStr ''function'')] demo_store = (Inr rs, demo_store) \<and>
     distinct (map fst rs) \<and> length rs \<le> 2"
  using search_returns_live_chunks [OF demo_store_ok, where lib = demo_lib and q = "[1, 0]" and k = 2
      and fs = "[(''chunk_type'', JStr ''function'')]"]
  by (auto split: prod.splits sum.splits)


lemma demo_live: "live demo_store = [''b'' \<mapsto> ([0, 2], er_metadata (demo_result ''b'' ''lib/a.py'' [0, 2])),
    ''c'' \<mapsto> ([1, 1], er_metadata (demo_result ''c'' ''a.py'' [1, 1]))]"
proof -
  have "live demo_start = Map.empty" by (simp add: demo_start_def rebuild_empty)
  then have l: "live demo_store = fold (map_step demo_lib) demo_ops Map.empty"
    unfolding demo_store_def using run_refines [OF demo_hyps] by simp
  have r: "removes_chunk ''a.py'' None (er_metadata (demo_result ''a'' ''a.py'' [3, 0]))"
    "\<not> removes_chunk ''a.py'' None (er_metadata (demo_result ''b'' ''lib/a.py'' [0, 2]))"
    by code_simp+
  have i: "normalize_L2 demo_lib = (\<lambda>v. v)" by (simp add: demo_lib_def)
  have e: "er_chunk_id (demo_result c p v) = c" "er_embedding (demo_result c p v) = v" for c p v
    by (simp_all add: demo_result_def)
  show ?thesis
    unfolding l by (rule ext) (simp add: demo_ops_def i e r map_add_def)
qed

lemma demo_paths: "paths_stored demo_store"
  unfolding paths_stored_def demo_live
  by (auto simp: demo_result_def rel_path_def meta_text_def normalize_path_def split: if_splits)

theorem removal_witness:
  "\<exists>s'. remove_file_chunks demo_lib ''a.py'' None demo_store = (count_chunks_in_file ''a.py'' demo_store, s') \<and>
    live s' ''c'' = None \<and> count_chunks_in_file ''a.py'' s' = 0"
proof -
  have f: "''a.py'' \<noteq> []" "normalize_path ''a.py'' = ''a.py''" "\<not> is_absolute_norm ''a.py''"
    by code_simp+
  have "\<exists>v m. live demo_store ''c'' = Some (v, m) \<and> rel_path m = ''a.py''"
    by (simp add: demo_live demo_result_def rel_path_def meta_text_def)
  then show ?thesis
    using relative_removal_is_exact [OF demo_store_ok demo_paths f, of demo_lib]
    by (auto simp: restrict_map_def)
qed

theorem ids_rebuilt_witness:
  "st_chunk_ids (load_index (lost_ids demo_store (the (st_index demo_store)) Unreadable)) =
     (if card (dom (live demo_store)) = 3 then st_chunk_ids demo_store else [])"
  using ids_rebuilt_iff_nothing_stale [OF demo_store_ok demo_index, of Unreadable]
  by (simp add: demo_index ntotal_def)

theorem bm25_witness:
  "length (search_bm25 demo_lib ''lib:a*'' 1 5 [] demo_store) \<le> 1 \<and>
   distinct (map fst (search_bm25 demo_lib ''lib:a*'' 1 5 [] demo_store))"
  using bm25_returns_live_chunks [OF demo_store_ok, of 1 demo_lib "''lib:a*''" 5 "[]"] by simp

lemma similar_witness:
  "\<exists>rs. get_similar_chunks demo_lib ''c'' 3 demo_store = (Inr rs, demo_store) \<and> length rs \<le> 3 \<and>
    list_all (\<lambda>(c, sim, m). c \<noteq> ''c'') rs"
  using similar_chunks_exclude_self [OF demo_store_ok, of demo_lib "''c''" 3]
  by (auto simp: list_all_iff)

subsection \<open>What the statistics and the scores show after a re-addition\<close>

text \<open>A file removed and indexed again counts once, although its stale vector keeps its position.\<close>

lemma stale_vector_scores_new_chunk:
  "let s = fold (store_step demo_lib)
       [Add [demo_result ''a'' ''a.py'' [3, 0]], RemoveFile ''a.py'' None, Add [demo_result ''a'' ''a.py'' [0, 1]]] demo_start
   in live s ''a'' = Some ([0, 1], er_metadata (demo_result ''a'' ''a.py'' [0, 1])) \<and>
      fst (search demo_lib [1, 0] 1 [] s) = Inr [(''a'', 3, er_metadata (demo_result ''a'' ''a.py'' [0, 1]))]"
  by code_simp

lemma readded_chunk_counted_twice:
  "let s = fold (store_step demo_lib)
       [Add [demo_result ''a'' ''a.py'' [3, 0]], RemoveFile ''a.py'' None, Add [demo_result ''a'' ''a.py'' [0, 1]]] demo_start
   in live_chunks (update_stats s) = 1 \<and> files_indexed (update_stats s) = 1 \<and>
      chunk_types (update_stats s) = [(JStr ''function'', 2)]"
  by code_simp

end
