(* ===== verification/Publication.thy ===== *)
theory Publication
  imports EpochManifest
begin

text \<open>
  The crash-safe publication of index generations of \<open>search/indexer.py\<close>: the marker, the
  immutable generation directories, the root-level mirrors, staging, committing, recovery,
  restoring and pruning.

  The storage directory is a record of its files, the manifest directory of \<open>EpochManifest\<close> and
  the marker. An action returns the disk states it passes through, in order, and its outcome, so a
  crash is one of those states and an I/O error is a prefix of them. What FAISS, pickle and SQLite
  read from bytes is the \<open>codec\<close> argument. Directories exist when they hold a file; \<open>fsync\<close> and the
  temporary file of the marker have no counterpart.
\<close>

subsection \<open>The disk and actions on it\<close>

record codec =
  cd_sha :: "bytes \<Rightarrow> string"
  cd_ids :: "bytes \<Rightarrow> nat option"  \<comment> \<open>the length of a pickled list\<close>
  cd_index :: "bytes \<Rightarrow> (nat \<times> nat) option"  \<comment> \<open>\<open>ntotal\<close> and \<open>d\<close>\<close>
  cd_floats :: "bytes \<Rightarrow> nat option"
  cd_db :: "bytes \<Rightarrow> bool"  \<comment> \<open>\<open>PRAGMA integrity_check\<close>\<close>
  cd_backup :: "bytes \<Rightarrow> bytes option \<Rightarrow> bytes"  \<comment> \<open>the backup of a database and its WAL\<close>

record disk =
  files :: "(string list, bytes) dict"
  mdir :: manifest_dir
  marker :: bool

datatype pub_error =
    IoError
  | ExistsAlready "string list"
  | MissingFile "string list"
  | InvalidGeneration verify_error
  | MissingIndexArtifacts
  | NotAChunkIdList
  | UnreadableIndex
  | CountsDiffer nat nat
  | BadDatabase string
  | BuildFailed manifest_error
  | DimensionRefused int nat
  | NoVerifiedGeneration
  | LegacyManifest
  | TruncationRefused nat nat
  | NotCommitted

datatype 'r outcome = Done 'r | Raised pub_error

type_synonym 'r act = "disk \<Rightarrow> disk list \<times> 'r outcome"

definition last_state :: "disk \<Rightarrow> disk list \<Rightarrow> disk" where
  "last_state d vs = (if vs = [] then d else last vs)"

definition final :: "'r act \<Rightarrow> disk \<Rightarrow> disk" where
  "final m d = last_state d (fst (m d))"

definition outcome_of :: "'r act \<Rightarrow> disk \<Rightarrow> 'r outcome" where
  "outcome_of m d = snd (m d)"

definition ret :: "'r \<Rightarrow> 'r act" where
  "ret x d = ([], Done x)"

definition raise_error :: "pub_error \<Rightarrow> 'r act" where
  "raise_error e d = ([], Raised e)"

definition bind_act :: "'r act \<Rightarrow> ('r \<Rightarrow> 's act) \<Rightarrow> 's act" where
  "bind_act m f d = (case m d of
     (vs, Raised e) \<Rightarrow> (vs, Raised e)
   | (vs, Done x) \<Rightarrow> (case f x (last_state d vs) of (vs', r) \<Rightarrow> (vs @ vs', r)))"

definition then_act :: "'r act \<Rightarrow> 's act \<Rightarrow> 's act" where
  "then_act m k = bind_act m (\<lambda>_. k)"

text \<open>\<open>with_disk f\<close> reads the disk to decide what to do.\<close>

definition with_disk :: "(disk \<Rightarrow> 'r act) \<Rightarrow> 'r act" where
  "with_disk f d = f d d"

definition modify :: "(disk \<Rightarrow> disk) \<Rightarrow> unit act" where
  "modify f d = ([f d], Done ())"

text \<open>\<open>try: m except: h; raise\<close>, where an error of \<open>h\<close> is logged and dropped.\<close>

definition on_error :: "'r act \<Rightarrow> unit act \<Rightarrow> 'r act" where
  "on_error m h d = (case m d of
     (vs, Done x) \<Rightarrow> (vs, Done x)
   | (vs, Raised e) \<Rightarrow> (vs @ fst (h (last_state d vs)), Raised e))"

text \<open>\<open>try: m finally: h\<close>, where \<open>h\<close> only removes files.\<close>

definition finally_act :: "'r act \<Rightarrow> unit act \<Rightarrow> 'r act" where
  "finally_act m h d = (case m d of (vs, r) \<Rightarrow> (vs @ fst (h (last_state d vs)), r))"

text \<open>An I/O error after \<open>k\<close> disk operations.\<close>

definition interrupted :: "nat option \<Rightarrow> 'r act \<Rightarrow> 'r act" where
  "interrupted fault m d = (case fault of
     None \<Rightarrow> m d
   | Some k \<Rightarrow> if k < length (fst (m d)) then (take k (fst (m d)), Raised IoError) else m d)"

fun each :: "('x \<Rightarrow> unit act) \<Rightarrow> 'x list \<Rightarrow> unit act" where
  "each f [] = ret ()"
| "each f (x # xs) = then_act (f x) (each f xs)"

subsection \<open>Files\<close>

definition read_file :: "disk \<Rightarrow> string list \<Rightarrow> bytes option" where
  "read_file d p = dict_get (files d) p"

definition exists_under :: "disk \<Rightarrow> string list \<Rightarrow> bool" where
  "exists_under d p \<longleftrightarrow> list_ex (\<lambda>(q, _). prefix p q) (files d)"

definition disk_arts :: "disk \<Rightarrow> string list \<Rightarrow> artifact" where
  "disk_arts d p = (case read_file d p of None \<Rightarrow> NoArtifact | Some b \<Rightarrow> Artifact b)"

definition put_file :: "string list \<Rightarrow> bytes \<Rightarrow> unit act" where
  "put_file p b = modify (\<lambda>d. d\<lparr>files := dict_put p b (files d)\<rparr>)"

text \<open>A plain write: the file is first empty, then holds its content.\<close>

definition write_bytes :: "string list \<Rightarrow> bytes \<Rightarrow> unit act" where
  "write_bytes p b = then_act (put_file p []) (put_file p b)"

definition unlink :: "string list \<Rightarrow> unit act" where
  "unlink p = with_disk (\<lambda>d. if read_file d p = None then ret ()
     else modify (\<lambda>d. d\<lparr>files := dict_del p (files d)\<rparr>))"

text \<open>A directory is removed file by file.\<close>

definition remove_tree :: "string list \<Rightarrow> unit act" where
  "remove_tree p = with_disk (\<lambda>d. each unlink (filter (prefix p) (map fst (files d))))"

definition replace_file :: "string list \<Rightarrow> string list \<Rightarrow> unit act" where
  "replace_file src dst = with_disk (\<lambda>d. case read_file d src of
     None \<Rightarrow> raise_error (MissingFile src)
   | Some b \<Rightarrow> modify (\<lambda>d. d\<lparr>files := dict_put dst b (dict_del src (files d))\<rparr>))"

definition replace_dir :: "string list \<Rightarrow> string list \<Rightarrow> unit act" where
  "replace_dir src dst = with_disk (\<lambda>d.
     if exists_under d dst then raise_error (ExistsAlready dst)
     else modify (\<lambda>d. d\<lparr>files := map (\<lambda>(q, b).
            (if prefix src q then dst @ drop (length src) q else q, b)) (files d)\<rparr>))"

subsection \<open>Layout\<close>

definition generation_root :: "string list \<Rightarrow> string list" where
  "generation_root sd = sd @ [''.generations'']"

definition artifact_names :: "string list" where
  "artifact_names = [''code.index'', ''chunk_ids.pkl'', ''metadata.db'', ''fts5.db'', ''stats.json'',
     ''float_store.npy'']"

definition database_names :: "string list" where
  "database_names = [''metadata.db'', ''fts5.db'']"

definition sidecars :: "string list \<Rightarrow> string list list" where
  "sidecars sd = concat (map (\<lambda>n. map (\<lambda>x. sd @ [n @ x]) [''-wal'', ''-shm'', ''-journal'']) database_names)"

definition manifest_artifacts :: "json \<Rightarrow> (string, json) dict" where
  "manifest_artifacts m = (case m of
     JObj ob \<Rightarrow> (case jget ob ''artifacts'' of Some (JObj es) \<Rightarrow> es | _ \<Rightarrow> [])
   | _ \<Rightarrow> [])"

definition entry_path :: "json \<Rightarrow> string" where
  "entry_path e = (case e of
     JObj ob \<Rightarrow> (case jget ob ''path'' of Some (JStr s) \<Rightarrow> s | _ \<Rightarrow> [])
   | _ \<Rightarrow> [])"

definition entry_sha :: "json \<Rightarrow> json" where
  "entry_sha e = (case e of
     JObj ob \<Rightarrow> (case jget ob ''sha256'' of Some v \<Rightarrow> v | None \<Rightarrow> JNull)
   | _ \<Rightarrow> JNull)"

definition manifest_artifact_path :: "string list \<Rightarrow> json \<Rightarrow> string \<Rightarrow> string list option" where
  "manifest_artifact_path sd m name = (case dict_get (manifest_artifacts m) name of
     None \<Rightarrow> None
   | Some e \<Rightarrow> if json_truthy e then Some (locate sd (entry_path e)) else None)"

definition manifest_uses_generation :: "json \<Rightarrow> bool" where
  "manifest_uses_generation m \<longleftrightarrow> manifest_artifacts m \<noteq> [] \<and>
     list_all (\<lambda>(_, e). starts_with
       (map (\<lambda>c. if c = backslash then CHR ''/'' else c) (entry_path e)) ''.generations/'')
     (manifest_artifacts m)"

definition expected_count :: "json \<Rightarrow> json" where
  "expected_count m = (case m of
     JObj ob \<Rightarrow> (case jget ob ''consistency'' of
        Some (JObj c) \<Rightarrow> (case jget c ''expected_count'' of Some v \<Rightarrow> v | None \<Rightarrow> JNull)
      | _ \<Rightarrow> JNull)
   | _ \<Rightarrow> JNull)"

subsection \<open>Validation\<close>

definition check_counts :: "codec \<Rightarrow> bytes \<Rightarrow> bytes \<Rightarrow> bytes option \<Rightarrow> json \<Rightarrow> pub_error option" where
  "check_counts cd index_bytes ids_bytes floats expected =
     (case (cd_ids cd ids_bytes, cd_index cd index_bytes) of
        (None, _) \<Rightarrow> Some NotAChunkIdList
      | (Some n, None) \<Rightarrow> Some UnreadableIndex
      | (Some n, Some (rows, dim)) \<Rightarrow>
          (case (case floats of None \<Rightarrow> Some n | Some fb \<Rightarrow> cd_floats cd fb) of
             None \<Rightarrow> Some UnreadableIndex
           | Some k \<Rightarrow>
               if k \<noteq> n then Some (CountsDiffer k n)
               else if rows \<noteq> n then Some (CountsDiffer rows n)
               else (case expected of
                       JInt i \<Rightarrow> if int rows \<noteq> i then Some (CountsDiffer rows (nat i)) else None
                     | _ \<Rightarrow> None)))"

definition artifact_bytes :: "string list \<Rightarrow> json \<Rightarrow> disk \<Rightarrow> string \<Rightarrow> bytes option" where
  "artifact_bytes sd m d name = (case manifest_artifact_path sd m name of
     None \<Rightarrow> None | Some p \<Rightarrow> read_file d p)"

fun bad_database :: "codec \<Rightarrow> (string \<Rightarrow> bytes option) \<Rightarrow> string list \<Rightarrow> pub_error option" where
  "bad_database cd bytes_of [] = None"
| "bad_database cd bytes_of (n # ns) = (case bytes_of n of
     None \<Rightarrow> bad_database cd bytes_of ns
   | Some b \<Rightarrow> if cd_db cd b then bad_database cd bytes_of ns else Some (BadDatabase n))"

definition validate_error :: "codec \<Rightarrow> string list \<Rightarrow> json \<Rightarrow> disk \<Rightarrow> pub_error option" where
  "validate_error cd sd m d = (case verify_manifest (cd_sha cd) (disk_arts d) sd m of
     Inl _ \<Rightarrow> Some IoError
   | Inr (Some e) \<Rightarrow> Some (InvalidGeneration e)
   | Inr None \<Rightarrow>
       (case (case (artifact_bytes sd m d ''code.index'', artifact_bytes sd m d ''chunk_ids.pkl'') of
                (Some ib, Some cb) \<Rightarrow>
                  check_counts cd ib cb (artifact_bytes sd m d ''float_store.npy'') (expected_count m)
              | _ \<Rightarrow> if expected_count m = JNull \<or> expected_count m = JInt 0 then None
                      else Some MissingIndexArtifacts) of
          Some e \<Rightarrow> Some e
        | None \<Rightarrow> bad_database cd (artifact_bytes sd m d) database_names))"

definition validate_published_generation :: "codec \<Rightarrow> string list \<Rightarrow> json \<Rightarrow> unit act" where
  "validate_published_generation cd sd m = with_disk (\<lambda>d.
     case validate_error cd sd m d of None \<Rightarrow> ret () | Some e \<Rightarrow> raise_error e)"

subsection \<open>Mirrors and marker\<close>

definition write_publication_marker :: "unit act" where
  "write_publication_marker = modify (\<lambda>d. d\<lparr>marker := True\<rparr>)"

definition clear_publication_marker :: "unit act" where
  "clear_publication_marker = with_disk (\<lambda>d. if marker d then modify (\<lambda>d. d\<lparr>marker := False\<rparr>) else ret ())"

definition temporary_name :: "string list \<Rightarrow> string \<Rightarrow> string \<Rightarrow> string list" where
  "temporary_name sd tok name = sd @ [''.'' @ name @ ''.publish-'' @ tok]"

definition copy_to_temporary :: "string list \<Rightarrow> string \<Rightarrow> json \<Rightarrow> string \<Rightarrow> unit act" where
  "copy_to_temporary sd tok m name = (case manifest_artifact_path sd m name of
     None \<Rightarrow> ret ()
   | Some src \<Rightarrow> if src = sd @ [name] then ret ()
       else with_disk (\<lambda>d. case read_file d src of
         None \<Rightarrow> raise_error (MissingFile src)
       | Some b \<Rightarrow> write_bytes (temporary_name sd tok name) b))"

definition mirror_absent :: "string list \<Rightarrow> json \<Rightarrow> string \<Rightarrow> unit act" where
  "mirror_absent sd m name = (case manifest_artifact_path sd m name of
     None \<Rightarrow> unlink (sd @ [name]) | Some _ \<Rightarrow> ret ())"

definition mirror_prepared :: "string list \<Rightarrow> string \<Rightarrow> json \<Rightarrow> string \<Rightarrow> unit act" where
  "mirror_prepared sd tok m name = (case manifest_artifact_path sd m name of
     None \<Rightarrow> ret ()
   | Some src \<Rightarrow> if src = sd @ [name] then ret ()
       else replace_file (temporary_name sd tok name) (sd @ [name]))"

definition materialize_generation :: "string list \<Rightarrow> string \<Rightarrow> json \<Rightarrow> unit act" where
  "materialize_generation sd tok m = finally_act
     (then_act (each (copy_to_temporary sd tok m) artifact_names)
     (then_act (each unlink (sidecars sd))
     (then_act (each (mirror_absent sd m) artifact_names)
               (each (mirror_prepared sd tok m) artifact_names))))
     (each (\<lambda>name. unlink (temporary_name sd tok name)) artifact_names)"

definition root_mirrors_match :: "codec \<Rightarrow> string list \<Rightarrow> json \<Rightarrow> disk \<Rightarrow> bool" where
  "root_mirrors_match cd sd m d \<longleftrightarrow>
     list_all (\<lambda>name. case dict_get (manifest_artifacts m) name of
        None \<Rightarrow> read_file d (sd @ [name]) = None
      | Some e \<Rightarrow> (case read_file d (sd @ [name]) of
           None \<Rightarrow> False | Some b \<Rightarrow> entry_sha e = JStr (cd_sha cd b))) artifact_names \<and>
     list_all (\<lambda>p. read_file d p = None) (sidecars sd)"

definition discard_working_set :: "string list \<Rightarrow> unit act" where
  "discard_working_set sd = each (\<lambda>name.
     then_act (unlink (sd @ [name]))
     (then_act (unlink (sd @ [name @ ''-wal''])) (unlink (sd @ [name @ ''-shm''])))) artifact_names"

subsection \<open>Pruning\<close>

definition generation_names :: "string list \<Rightarrow> json \<Rightarrow> string list" where
  "generation_names sd m = concat (map (\<lambda>(_, e).
     let p = locate sd (entry_path e); r = generation_root sd
     in if prefix r p \<and> length r < length p then [p ! length r] else []) (manifest_artifacts m))"

text \<open>The manifests a prune may rely on: those that can be read and verify.\<close>

definition verified_manifests :: "codec \<Rightarrow> string list \<Rightarrow> disk \<Rightarrow> json list" where
  "verified_manifests cd sd d = concat (map (\<lambda>f. case f of
     Holds m \<Rightarrow> if json_truthy m \<and> verify_manifest (cd_sha cd) (disk_arts d) sd m = Inr None then [m] else []
   | _ \<Rightarrow> []) [current_file (mdir d), prior_file (mdir d)])"

definition present_generations :: "string list \<Rightarrow> disk \<Rightarrow> string list" where
  "present_generations sd d = remdups (concat (map (\<lambda>(q, _).
     let r = generation_root sd in if prefix r q \<and> length r < length q then [q ! length r] else []) (files d)))"

definition prune_unreferenced_generations :: "codec \<Rightarrow> string list \<Rightarrow> unit act" where
  "prune_unreferenced_generations cd sd = with_disk (\<lambda>d.
     let ms = verified_manifests cd sd d;
         retained = concat (map (generation_names sd) ms)
     in if ms = [] then ret ()
        else each (\<lambda>n. if n \<in> set retained then ret () else remove_tree (generation_root sd @ [n]))
               (present_generations sd d))"

definition generation_is_manifest_referenced :: "string list \<Rightarrow> string list \<Rightarrow> disk \<Rightarrow> bool" where
  "generation_is_manifest_referenced sd g d \<longleftrightarrow> list_ex (\<lambda>f. case f of
     Holds m \<Rightarrow> list_ex (\<lambda>(_, e). entry_path e \<noteq> [] \<and> prefix g (locate sd (entry_path e))) (manifest_artifacts m)
   | _ \<Rightarrow> False) [current_file (mdir d), prior_file (mdir d)]"

subsection \<open>Staging and committing\<close>

record working =
  w_index :: "bytes option"
  w_ids :: bytes
  w_len :: nat
  w_floats :: "bytes option"
  w_stats :: bytes

record pub_config =
  pc_manifest :: manifest_config
  pc_dimension :: nat  \<comment> \<open>the bound embedding dimension, 0 when none is bound\<close>

definition write_optional :: "string list \<Rightarrow> bytes option \<Rightarrow> unit act" where
  "write_optional p b = (case b of None \<Rightarrow> ret () | Some x \<Rightarrow> write_bytes p x)"

definition snapshot_sqlite :: "codec \<Rightarrow> string list \<Rightarrow> string list \<Rightarrow> string \<Rightarrow> unit act" where
  "snapshot_sqlite cd sd dir name = with_disk (\<lambda>d. case read_file d (sd @ [name]) of
     None \<Rightarrow> ret ()
   | Some b \<Rightarrow>
       let copy = cd_backup cd b (read_file d (sd @ [name @ ''-wal'']))
       in then_act (write_bytes (dir @ [name]) copy)
            (if cd_db cd copy then ret () else raise_error (BadDatabase name)))"

definition copy_stats :: "string list \<Rightarrow> string list \<Rightarrow> unit act" where
  "copy_stats sd dir = with_disk (\<lambda>d. write_optional (dir @ [''stats.json'']) (read_file d (sd @ [''stats.json''])))"

definition write_candidate_generation :: "codec \<Rightarrow> string list \<Rightarrow> working \<Rightarrow> string list \<Rightarrow> unit act" where
  "write_candidate_generation cd sd w dir = with_disk (\<lambda>d.
     if exists_under d dir then raise_error (ExistsAlready dir)
     else case w_index w of
       None \<Rightarrow> raise_error UnreadableIndex
     | Some ix \<Rightarrow>
         then_act (write_bytes (dir @ [''code.index'']) ix)
         (then_act (write_bytes (dir @ [''chunk_ids.pkl'']) (w_ids w))
         (then_act (write_optional (dir @ [''float_store.npy'']) (w_floats w))
         (then_act (snapshot_sqlite cd sd dir ''metadata.db'')
         (then_act (snapshot_sqlite cd sd dir ''fts5.db'')
                   (copy_stats sd dir))))))"

definition artifact_spec_for :: "string list \<Rightarrow> string \<Rightarrow> nat option \<Rightarrow> artifact_spec" where
  "artifact_spec_for dir name n = \<lparr>art_name = name, art_path = dir @ [name], art_count = n\<rparr>"

definition generation_manifest ::
    "codec \<Rightarrow> pub_config \<Rightarrow> string \<Rightarrow> string \<Rightarrow> string list \<Rightarrow> string list \<Rightarrow> disk \<Rightarrow> pub_error + json" where
  "generation_manifest cd cfg ep ts sd dir d =
     (case (read_file d (dir @ [''chunk_ids.pkl'']), read_file d (dir @ [''code.index''])) of
        (Some ib, Some xb) \<Rightarrow>
          (case (cd_ids cd ib, cd_index cd xb) of
             (None, _) \<Rightarrow> Inl NotAChunkIdList
           | (_, None) \<Rightarrow> Inl UnreadableIndex
           | (Some n, Some (rows, dim)) \<Rightarrow>
               if pc_dimension cfg \<noteq> 0 \<and> dim \<noteq> pc_dimension cfg
               then Inl (DimensionRefused (int (pc_dimension cfg)) dim)
               else
                 let specs = [artifact_spec_for dir ''chunk_ids.pkl'' (Some n),
                              artifact_spec_for dir ''code.index'' (Some rows)] @
                       map (\<lambda>name. artifact_spec_for dir name None)
                         (filter (\<lambda>name. read_file d (dir @ [name]) \<noteq> None)
                           [''metadata.db'', ''fts5.db'', ''stats.json'', ''float_store.npy''])
                 in (case build_manifest (cd_sha cd) (disk_arts d) ep ts sd specs
                            ((pc_manifest cfg)\<lparr>m_vector_dim := int dim\<rparr>) of
                       Inl e \<Rightarrow> Inl (BuildFailed e) | Inr m \<Rightarrow> Inr m))
      | _ \<Rightarrow> Inl (MissingFile dir))"

definition build_generation_manifest ::
    "codec \<Rightarrow> pub_config \<Rightarrow> string \<Rightarrow> string \<Rightarrow> string list \<Rightarrow> string list \<Rightarrow> json act" where
  "build_generation_manifest cd cfg ep ts sd dir = with_disk (\<lambda>d.
     case generation_manifest cd cfg ep ts sd dir d of Inl e \<Rightarrow> raise_error e | Inr m \<Rightarrow> ret m)"

text \<open>The shared part of \<open>save_index\<close> and the bootstrap: write, validate, make immutable, validate.\<close>

definition stage_generation ::
    "codec \<Rightarrow> pub_config \<Rightarrow> string \<Rightarrow> string \<Rightarrow> string list \<Rightarrow> working \<Rightarrow> string list \<Rightarrow> string list \<Rightarrow> json act" where
  "stage_generation cd cfg ep ts sd w cand gen =
     then_act (write_candidate_generation cd sd w cand)
     (bind_act (build_generation_manifest cd cfg ep ts sd cand) (\<lambda>m0.
      then_act (validate_published_generation cd sd m0)
     (then_act (replace_dir cand gen)
     (bind_act (build_generation_manifest cd cfg ep ts sd gen) (\<lambda>m.
      then_act (validate_published_generation cd sd m) (ret m))))))"

definition commit_epoch_manifest :: "codec \<Rightarrow> string list \<Rightarrow> json \<Rightarrow> unit act" where
  "commit_epoch_manifest cd sd m d =
     (map (\<lambda>s. d\<lparr>mdir := s\<rparr>) (tl (commit_states (cd_sha cd) (disk_arts d) sd m (mdir d))), Done ())"

definition remove_leftovers :: "string list \<Rightarrow> string list \<Rightarrow> string list \<Rightarrow> bool \<Rightarrow> unit act" where
  "remove_leftovers sd cand gen committed = with_disk (\<lambda>d.
     then_act (if exists_under d cand then remove_tree cand else ret ())
       (with_disk (\<lambda>d.
          if \<not> committed \<and> exists_under d gen \<and> \<not> generation_is_manifest_referenced sd gen d
          then remove_tree gen else ret ())))"

subsection \<open>Recovering and restoring\<close>

definition read_publication :: "codec \<Rightarrow> string list \<Rightarrow> (read_result \<Rightarrow> 'r act) \<Rightarrow> 'r act" where
  "read_publication cd sd f = with_disk (\<lambda>d.
     case read_with_fallback (cd_sha cd) (disk_arts d) sd (mdir d) of
       Inl _ \<Rightarrow> raise_error IoError | Inr r \<Rightarrow> f r)"

definition restore_last_published_generation :: "codec \<Rightarrow> string list \<Rightarrow> string \<Rightarrow> unit act" where
  "restore_last_published_generation cd sd tok = read_publication cd sd (\<lambda>r.
     case rr_manifest r of
       Some m \<Rightarrow>
         if manifest_uses_generation m
         then then_act (validate_published_generation cd sd m) (materialize_generation sd tok m)
         else ret ()
     | None \<Rightarrow> with_disk (\<lambda>d.
         if current_file (mdir d) \<noteq> Absent \<or> prior_file (mdir d) \<noteq> Absent
         then raise_error NoVerifiedGeneration
         else discard_working_set sd))"

definition recover_published_generation :: "codec \<Rightarrow> string list \<Rightarrow> string \<Rightarrow> unit act" where
  "recover_published_generation cd sd tok = with_disk (\<lambda>d.
     if \<not> marker d then ret ()
     else read_publication cd sd (\<lambda>r.
       case rr_manifest r of
         None \<Rightarrow>
           if rr_freshness r = ManifestMissing
           then then_act (discard_working_set sd)
                (then_act (with_disk (\<lambda>d. if exists_under d (generation_root sd)
                             then remove_tree (generation_root sd) else ret ()))
                          clear_publication_marker)
           else raise_error NoVerifiedGeneration
       | Some m \<Rightarrow>
           if \<not> manifest_uses_generation m then raise_error LegacyManifest
           else then_act (validate_published_generation cd sd m)
                (then_act (materialize_generation sd tok m)
                (then_act clear_publication_marker (prune_unreferenced_generations cd sd)))))"

definition rollback_unpublished_changes :: "codec \<Rightarrow> string list \<Rightarrow> string \<Rightarrow> bool act" where
  "rollback_unpublished_changes cd sd tok = with_disk (\<lambda>d.
     if \<not> marker d then ret False
     else then_act (restore_last_published_generation cd sd tok)
          (then_act clear_publication_marker (ret True)))"

definition repair_root_mirrors :: "codec \<Rightarrow> string list \<Rightarrow> string \<Rightarrow> unit act" where
  "repair_root_mirrors cd sd tok = read_publication cd sd (\<lambda>r.
     case rr_manifest r of
       None \<Rightarrow> ret ()
     | Some m \<Rightarrow>
         if \<not> manifest_uses_generation m then ret ()
         else then_act (validate_published_generation cd sd m) (with_disk (\<lambda>d.
           if root_mirrors_match cd sd m d then ret ()
           else then_act write_publication_marker
                (then_act (materialize_generation sd tok m)
                (then_act clear_publication_marker (prune_unreferenced_generations cd sd))))))"

end
