(* ===== verification/Publication_Save.thy ===== *)
theory Publication_Save
  imports Publication
begin

text \<open>
  The operations of \<open>search/indexer.py\<close> that change what is published: marking the working set,
  bootstrapping a store that predates manifests, upgrading a legacy manifest, saving, the
  transaction around a mutation, clearing and the offline maintenance entry point. The in-memory
  index is a \<open>working\<close> record: the bytes FAISS, pickle and NumPy would write. Random tokens, epoch
  ids and timestamps are arguments; \<open>fault\<close> is an I/O error after so many disk operations of the
  publication (a clean-up it interrupts is left undone).
\<close>

record pub_env =
  pe_codec :: codec
  pe_dir :: "string list"
  pe_config :: pub_config
  pe_token :: string
  pe_temp :: string
  pe_epoch :: string
  pe_time :: string

definition candidate_dir :: "pub_env \<Rightarrow> string list" where
  "candidate_dir env = generation_root (pe_dir env) @ [''.candidate-'' @ pe_token env]"

definition generation_dir :: "pub_env \<Rightarrow> string list" where
  "generation_dir env = generation_root (pe_dir env) @ [pe_token env]"

definition stage :: "pub_env \<Rightarrow> working \<Rightarrow> json act" where
  "stage env w = stage_generation (pe_codec env) (pe_config env) (pe_epoch env) (pe_time env) (pe_dir env) w
     (candidate_dir env) (generation_dir env)"

definition prune :: "pub_env \<Rightarrow> unit act" where
  "prune env = prune_unreferenced_generations (pe_codec env) (pe_dir env)"

definition restore :: "pub_env \<Rightarrow> unit act" where
  "restore env = restore_last_published_generation (pe_codec env) (pe_dir env) (pe_temp env)"

definition recover :: "pub_env \<Rightarrow> unit act" where
  "recover env = recover_published_generation (pe_codec env) (pe_dir env) (pe_temp env)"

subsection \<open>Before the first mutation\<close>

definition root_file :: "pub_env \<Rightarrow> disk \<Rightarrow> string \<Rightarrow> bytes option" where
  "root_file env d name = read_file d (pe_dir env @ [name])"

text \<open>What \<open>_load_index\<close> takes from the root files of a store without a manifest.\<close>

definition root_working :: "pub_env \<Rightarrow> disk \<Rightarrow> working option" where
  "root_working env d = (case root_file env d ''code.index'' of
     None \<Rightarrow> None
   | Some ix \<Rightarrow>
       if cd_index (pe_codec env) ix = None then None
       else Some \<lparr>w_index = Some ix,
              w_ids = (case root_file env d ''chunk_ids.pkl'' of Some b \<Rightarrow> b | None \<Rightarrow> []),
              w_len = (case root_file env d ''chunk_ids.pkl'' of
                 Some b \<Rightarrow> (case cd_ids (pe_codec env) b of Some n \<Rightarrow> n | None \<Rightarrow> 0) | None \<Rightarrow> 0),
              w_floats = root_file env d ''float_store.npy'', w_stats = []\<rparr>)"

definition bootstrap_unmanifested_generation :: "pub_env \<Rightarrow> unit act" where
  "bootstrap_unmanifested_generation env = with_disk (\<lambda>d. case root_working env d of
     None \<Rightarrow> raise_error UnreadableIndex
   | Some w \<Rightarrow>
       let leftovers = remove_leftovers (pe_dir env) (candidate_dir env) (generation_dir env)
       in bind_act (on_error (bind_act (stage env w) (\<lambda>m. commit_epoch_manifest (pe_codec env) (pe_dir env) m))
                     (leftovers False))
            (\<lambda>_. then_act (leftovers True) (prune env)))"

definition mark_dirty :: "pub_env \<Rightarrow> unit act" where
  "mark_dirty env = with_disk (\<lambda>d.
     if marker d then ret ()
     else read_publication (pe_codec env) (pe_dir env) (\<lambda>r.
       then_act (if rr_manifest r = None \<and> rr_freshness r = ManifestMissing \<and>
                    root_file env d ''code.index'' \<noteq> None \<and> root_file env d ''chunk_ids.pkl'' \<noteq> None
                 then bootstrap_unmanifested_generation env else ret ())
         write_publication_marker))"

subsection \<open>Saving\<close>

text \<open>\<open>existing_count >= 5 and in_memory_len < existing_count * 0.5\<close> without the float.\<close>

definition truncation_refused :: "pub_env \<Rightarrow> bool \<Rightarrow> working \<Rightarrow> disk \<Rightarrow> (nat \<times> nat) option" where
  "truncation_refused env force w d = (case root_file env d ''chunk_ids.pkl'' of
     None \<Rightarrow> None
   | Some b \<Rightarrow> (case cd_ids (pe_codec env) b of
        None \<Rightarrow> None
      | Some existing \<Rightarrow>
          if \<not> force \<and> 5 \<le> existing \<and> 2 * w_len w < existing then Some (w_len w, existing) else None))"

definition refuse_truncation :: "pub_env \<Rightarrow> nat \<Rightarrow> nat \<Rightarrow> unit act" where
  "refuse_truncation env n existing =
     (let undo = then_act (restore env) clear_publication_marker;
          refuse = raise_error (TruncationRefused n existing)
      in with_disk (\<lambda>d.
           if marker d then then_act undo refuse
           else read_publication (pe_codec env) (pe_dir env) (\<lambda>r. case rr_manifest r of
             Some m \<Rightarrow> if manifest_uses_generation m then then_act undo refuse else refuse
           | None \<Rightarrow> refuse)))"

definition publish_body :: "pub_env \<Rightarrow> bool \<Rightarrow> working \<Rightarrow> unit act" where
  "publish_body env refresh w =
     then_act (if refresh then write_bytes (pe_dir env @ [''stats.json'']) (w_stats w) else ret ())
     (bind_act (stage env w) (\<lambda>m.
      then_act write_publication_marker
     (then_act (materialize_generation (pe_dir env) (pe_temp env) m)
               (commit_epoch_manifest (pe_codec env) (pe_dir env) m))))"

definition publish_generation :: "pub_env \<Rightarrow> bool \<Rightarrow> working \<Rightarrow> nat option \<Rightarrow> unit act" where
  "publish_generation env refresh w fault =
     (let leftovers = remove_leftovers (pe_dir env) (candidate_dir env) (generation_dir env)
      in bind_act
           (on_error (interrupted fault (publish_body env refresh w))
             (finally_act (then_act (restore env) clear_publication_marker) (leftovers False)))
           (\<lambda>_. finally_act clear_publication_marker (leftovers True)))"

definition save_index :: "pub_env \<Rightarrow> bool \<Rightarrow> bool \<Rightarrow> working \<Rightarrow> nat option \<Rightarrow> unit act" where
  "save_index env force refresh w fault = with_disk (\<lambda>d.
     case truncation_refused env force w d of
       Some (n, existing) \<Rightarrow> refuse_truncation env n existing
     | None \<Rightarrow>
         if w_index w = None then ret ()
         else then_act (mark_dirty env)
              (then_act (publish_generation env refresh w fault) (prune env)))"

subsection \<open>Transactions\<close>

definition rollback :: "pub_env \<Rightarrow> bool act" where
  "rollback env = rollback_unpublished_changes (pe_codec env) (pe_dir env) (pe_temp env)"

text \<open>
  \<open>_upgrade_legacy_manifest_generation\<close> copies the artifacts of a verified root-path manifest into
  a generation of their own and repoints the manifest. \<open>upgrade_plan\<close> chooses the file names.
\<close>

definition entry_file_name :: "string \<Rightarrow> string" where
  "entry_file_name p = (case rev (path_parts p) of [] \<Rightarrow> [] | n # _ \<Rightarrow> n)"

fun upgrade_plan :: "string set \<Rightarrow> (string \<times> json) list \<Rightarrow> (string \<times> json \<times> string) list" where
  "upgrade_plan used [] = []"
| "upgrade_plan used ((name, e) # rest) =
     (let base = entry_file_name (entry_path e);
          filename = (if base \<in> used then map (\<lambda>c. if c = CHR ''/'' then CHR ''_'' else c) name else base)
      in (name, e, filename) # upgrade_plan (insert filename used) rest)"

definition repoint :: "string \<Rightarrow> string \<Rightarrow> json \<Rightarrow> json" where
  "repoint gen filename e = (case e of
     JObj ob \<Rightarrow> JObj (dict_put ''path'' (JStr (''.generations/'' @ gen @ ''/'' @ filename)) ob)
   | _ \<Rightarrow> e)"

definition upgraded_manifest :: "string \<Rightarrow> json \<Rightarrow> json" where
  "upgraded_manifest gen m = (case m of
     JObj ob \<Rightarrow> JObj (dict_put ''artifacts''
        (JObj (map (\<lambda>(name, e, filename). (name, repoint gen filename e))
                (upgrade_plan {} (manifest_artifacts m)))) ob)
   | _ \<Rightarrow> m)"

definition copy_artifact :: "string list \<Rightarrow> string list \<Rightarrow> string \<times> json \<times> string \<Rightarrow> unit act" where
  "copy_artifact sd cand plan = (case plan of (name, e, filename) \<Rightarrow>
     with_disk (\<lambda>d. case read_file d (locate sd (entry_path e)) of
       None \<Rightarrow> raise_error (MissingFile (locate sd (entry_path e)))
     | Some b \<Rightarrow> write_bytes (cand @ [filename]) b))"

definition upgrade_legacy_manifest :: "pub_env \<Rightarrow> unit act" where
  "upgrade_legacy_manifest env = with_disk (\<lambda>d.
     let sd = pe_dir env; cd = pe_codec env; gen_name = ''legacy-'' @ pe_token env;
         cand = generation_root sd @ [''.legacy-'' @ pe_token env]; gen = generation_root sd @ [gen_name]
     in case current_file (mdir d) of
       Holds m \<Rightarrow>
         if manifest_uses_generation m then ret ()
         else if verify_manifest (cd_sha cd) (disk_arts d) sd m \<noteq> Inr None then ret ()
         else
           let upgraded = upgraded_manifest gen_name m
           in then_act (on_error
                (then_act (each (copy_artifact sd cand) (upgrade_plan {} (manifest_artifacts m)))
                (then_act (replace_dir cand gen)
                (then_act (validate_published_generation cd sd upgraded)
                          (modify (\<lambda>d. d\<lparr>mdir := (mdir d)\<lparr>current_file := Holds upgraded\<rparr>\<rparr>)))))
                (remove_leftovers sd cand gen False))
              (prune env)
     | _ \<Rightarrow> ret ())"

definition rebase_publication_working_set :: "pub_env \<Rightarrow> unit act" where
  "rebase_publication_working_set env =
     then_act (recover env)
     (then_act (upgrade_legacy_manifest env)
               (repair_root_mirrors (pe_codec env) (pe_dir env) (pe_temp env)))"

definition rollback_if_marked :: "pub_env \<Rightarrow> unit act" where
  "rollback_if_marked env = with_disk (\<lambda>d. if marker d then then_act (rollback env) (ret ()) else ret ())"

definition publication_transaction :: "pub_env \<Rightarrow> unit act \<Rightarrow> unit act" where
  "publication_transaction env body =
     then_act (rebase_publication_working_set env)
     (then_act (on_error body (rollback_if_marked env))
               (with_disk (\<lambda>d. if marker d then then_act (rollback env) (raise_error NotCommitted) else ret ())))"

text \<open>
  \<open>clear_index\<close>: the directory removals of the manifest and of the generations are each several
  file removals; for the manifest the order is the directory's.
\<close>

definition remove_manifest_dir :: "unit act" where
  "remove_manifest_dir d =
     (let s1 = (mdir d)\<lparr>candidate_file := Absent\<rparr>; s2 = s1\<lparr>current_file := Absent\<rparr>; s3 = s2\<lparr>prior_file := Absent\<rparr>
      in ([d\<lparr>mdir := s1\<rparr>, d\<lparr>mdir := s2\<rparr>, d\<lparr>mdir := s3\<rparr>], Done ()))"

definition clear_index :: "pub_env \<Rightarrow> unit act" where
  "clear_index env =
     then_act write_publication_marker
     (then_act (discard_working_set (pe_dir env))
     (then_act remove_manifest_dir
     (then_act (remove_tree (generation_root (pe_dir env)))
               clear_publication_marker)))"

definition has_persisted_index_state :: "pub_env \<Rightarrow> (bytes \<Rightarrow> bool) \<Rightarrow> disk \<Rightarrow> bool" where
  "has_persisted_index_state env fts_has_rows d \<longleftrightarrow>
     list_ex (\<lambda>name. list_ex (\<lambda>x. root_file env d (name @ x) \<noteq> None) [[], ''-wal'', ''-shm''])
       [''code.index'', ''chunk_ids.pkl'', ''metadata.db'', ''stats.json'', ''float_store.npy''] \<or>
     current_file (mdir d) \<noteq> Absent \<or> prior_file (mdir d) \<noteq> Absent \<or> candidate_file (mdir d) \<noteq> Absent \<or>
     exists_under d (generation_root (pe_dir env)) \<or>
     (case root_file env d ''fts5.db'' of None \<Rightarrow> False | Some b \<Rightarrow> fts_has_rows b)"

end
