(* ===== verification/Publication_Frame.thy ===== *)
theory Publication_Frame
  imports Publication_Save
begin

text \<open>
  Two ways of reasoning about actions. \<open>within R m\<close>: every state the action passes through is related
  to its start by \<open>R\<close>, whatever its outcome (for crashes). \<open>effect m d F\<close>: the action succeeds on \<open>d\<close>
  and leaves the file contents \<open>F\<close> (for what a completed action achieves).
\<close>

named_theorems within_rules \<open>composition of crash frames\<close>

lemma bind_fst: "fst (bind_act m f d) = fst (m d) @
    (case snd (m d) of Raised e \<Rightarrow> [] | Done x \<Rightarrow> fst (f x (final m d)))"
  by (auto simp: bind_act_def final_def split: prod.split outcome.split)

lemma bind_snd: "snd (bind_act m f d) = (case snd (m d) of Raised e \<Rightarrow> Raised e | Done x \<Rightarrow> snd (f x (final m d)))"
  by (auto simp: bind_act_def final_def split: prod.split outcome.split)

lemma last_state_append: "last_state d (xs @ ys) = last_state (last_state d xs) ys"
  by (simp add: last_state_def)

lemma final_bind: "final (bind_act m f) d =
    (case snd (m d) of Raised e \<Rightarrow> final m d | Done x \<Rightarrow> final (f x) (final m d))"
  by (auto simp: final_def bind_fst last_state_append split: outcome.split) (simp_all add: last_state_def)

lemma final_mem: "final m d = d \<or> final m d \<in> set (fst (m d))"
  by (auto simp: final_def last_state_def)

subsection \<open>Every state on the way\<close>

definition within :: "(disk \<Rightarrow> disk \<Rightarrow> bool) \<Rightarrow> 'r act \<Rightarrow> bool" where
  "within R m \<longleftrightarrow> (\<forall>d. \<forall>d' \<in> set (fst (m d)). R d d')"

definition composes :: "(disk \<Rightarrow> disk \<Rightarrow> bool) \<Rightarrow> bool" where
  "composes R \<longleftrightarrow> reflp R \<and> transp R"

lemma within_final: "composes R \<Longrightarrow> within R m \<Longrightarrow> R d (final m d)"
  using final_mem [of m d] by (auto simp: within_def composes_def reflp_def)

lemma within_ret [within_rules]: "within R (ret x)" "within R (raise_error e)"
  by (simp_all add: within_def ret_def raise_error_def)

lemma within_bind [within_rules]:
  assumes R: "composes R" and m: "within R m" and f: "\<And>x. within R (f x)"
  shows "within R (bind_act m f)"
  unfolding within_def
proof (intro allI ballI)
  fix d d' assume d': "d' \<in> set (fst (bind_act m f d))"
  have fin: "R d (final m d)" by (rule within_final [OF R m])
  from d' consider "d' \<in> set (fst (m d))" | x where "d' \<in> set (fst (f x (final m d)))"
    by (auto simp: bind_fst split: outcome.splits)
  then show "R d d'"
  proof cases
    case 1
    then show ?thesis using m by (simp add: within_def)
  next
    case 2
    then have "R (final m d) d'" using f by (simp add: within_def)
    then show ?thesis using fin R by (meson composes_def transpE)
  qed
qed

lemma within_then [within_rules]:
  "composes R \<Longrightarrow> within R m \<Longrightarrow> within R k \<Longrightarrow> within R (then_act m k)"
  by (simp add: then_act_def within_bind)

lemma within_with_disk: "(\<And>d. \<forall>d' \<in> set (fst (f d d)). R d d') \<Longrightarrow> within R (with_disk f)"
  by (simp add: within_def with_disk_def)

lemma within_reads [within_rules]: "(\<And>d0. within R (f d0)) \<Longrightarrow> within R (with_disk f)"
  by (simp add: within_def with_disk_def)

lemma within_here: "within R m \<Longrightarrow> \<forall>d' \<in> set (fst (m d)). R d d'"
  by (simp add: within_def)

lemma within_finally [within_rules]:
  assumes R: "composes R" and m: "within R m" and h: "within R h"
  shows "within R (finally_act m h)" "within R (on_error m h)"
proof -
  have a: "R d d'" if "d' \<in> set (fst (m d)) \<or> d' \<in> set (fst (h (final m d)))" for d d'
    using that within_final [OF R m, of d] m h R unfolding within_def by (meson composes_def transpE)
  show "within R (finally_act m h)" "within R (on_error m h)"
    unfolding within_def finally_act_def on_error_def final_def
    using a by (auto simp: final_def split: prod.splits outcome.splits)
qed

lemma within_each [within_rules]: "composes R \<Longrightarrow> (\<And>x. x \<in> set xs \<Longrightarrow> within R (f x)) \<Longrightarrow> within R (each f xs)"
  by (induction xs) (simp_all add: within_rules)

lemma within_interrupted [within_rules]: "within R m \<Longrightarrow> within R (interrupted fault m)"
  by (auto simp: within_def interrupted_def split: option.splits dest: in_set_takeD)

lemma within_modify: "(\<And>d. R d (f d)) \<Longrightarrow> within R (modify f)"
  by (simp add: within_def modify_def)

text \<open>The frame: the contents of the paths \<open>S\<close>, the manifests and the marker stay.\<close>

definition keeps :: "string list set \<Rightarrow> disk \<Rightarrow> disk \<Rightarrow> bool" where
  "keeps S d d' \<longleftrightarrow> mdir d' = mdir d \<and> marker d' = marker d \<and> (\<forall>p \<in> S. read_file d' p = read_file d p)"

lemma keeps_preorder [within_rules, simp]: "composes (keeps S)"
  by (auto simp: composes_def reflp_def transp_def keeps_def)

lemma keeps_put: "p \<notin> S \<Longrightarrow> within (keeps S) (put_file p b)"
  unfolding put_file_def by (rule within_modify) (auto simp: keeps_def read_file_def dict_simps)

lemma keeps_write: "p \<notin> S \<Longrightarrow> within (keeps S) (write_bytes p b)"
  unfolding write_bytes_def by (intro within_rules keeps_put)

lemma keeps_unlink: "p \<notin> S \<Longrightarrow> within (keeps S) (unlink p)"
  unfolding unlink_def
  by (intro within_with_disk) (auto simp: keeps_def read_file_def dict_simps ret_def modify_def)

lemma keeps_replace_file: "src \<notin> S \<Longrightarrow> dst \<notin> S \<Longrightarrow> within (keeps S) (replace_file src dst)"
  unfolding replace_file_def
  by (intro within_with_disk)
     (auto simp: keeps_def read_file_def dict_simps raise_error_def modify_def split: option.splits)

lemma keeps_remove_tree: "\<forall>p \<in> S. \<not> prefix q p \<Longrightarrow> within (keeps S) (remove_tree q)"
  unfolding remove_tree_def by (intro within_rules keeps_unlink) auto

lemma unlink_done: "snd (unlink p d) = Done ()"
  by (simp add: unlink_def with_disk_def ret_def modify_def)

lemma each_done: "(\<And>x d. x \<in> set xs \<Longrightarrow> snd (f x d) = Done ()) \<Longrightarrow> snd (each f xs d) = Done ()"
  by (induction xs arbitrary: d) (simp_all add: ret_def then_act_def bind_snd)

lemma remove_tree_done: "snd (remove_tree p d) = Done ()"
  by (simp add: remove_tree_def with_disk_def each_done unlink_done)

text \<open>Renaming a directory onto a free name.\<close>

definition moved :: "string list \<Rightarrow> string list \<Rightarrow> disk \<Rightarrow> string list \<Rightarrow> bytes option" where
  "moved src dst d p = (if prefix dst p then read_file d (src @ drop (length dst) p)
     else if prefix src p then None else read_file d p)"

lemma exists_under_iff: "exists_under d p \<longleftrightarrow> (\<exists>q. prefix p q \<and> read_file d q \<noteq> None)"
proof
  assume "exists_under d p"
  then obtain q b where "(q, b) \<in> set (files d)" "prefix p q" by (auto simp: exists_under_def list_ex_iff)
  then show "\<exists>q. prefix p q \<and> read_file d q \<noteq> None"
    by (metis map_of_eq_None_iff fst_conv image_eqI read_file_def)
next
  assume "\<exists>q. prefix p q \<and> read_file d q \<noteq> None"
  then obtain q b where "prefix p q" "map_of (files d) q = Some b" by (auto simp: read_file_def)
  then show "exists_under d p" by (auto simp: exists_under_def list_ex_iff dest: map_of_SomeD)
qed

lemma read_moved:
  assumes "\<not> prefix dst src" "\<not> prefix src dst" "\<forall>(q, _) \<in> set fs. \<not> prefix dst q"
  shows "map_of (map (\<lambda>(q, b). (if prefix src q then dst @ drop (length src) q else q, b)) fs) p =
    (if prefix dst p then map_of fs (src @ drop (length dst) p)
     else if prefix src p then None else map_of fs p)"
  using assms(3)
proof (induction fs)
  case (Cons f fs)
  obtain q b where f: "f = (q, b)" by fastforce
  have nq: "\<not> prefix dst q" using Cons.prems f by simp
  have app: "(src @ drop (length dst) p = q) \<longleftrightarrow> (prefix src q \<and> dst @ drop (length src) q = p)" if "prefix dst p"
    using that by (auto simp: prefix_def)
  show ?case using Cons nq app by (auto simp: f) (auto simp: prefix_def)
qed simp

lemma keeps_replace_dir:
  assumes "\<forall>p \<in> S. \<not> prefix src p \<and> \<not> prefix dst p" "\<not> prefix dst src" "\<not> prefix src dst"
  shows "within (keeps S) (replace_dir src dst)"
  unfolding replace_dir_def
proof (intro within_with_disk ballI)
  fix d d' assume "d' \<in> set (fst ((if exists_under d dst then raise_error (ExistsAlready dst)
     else modify (\<lambda>d. d\<lparr>files := map (\<lambda>(q, b).
            (if prefix src q then dst @ drop (length src) q else q, b)) (files d)\<rparr>)) d))"
  then have d': "d' = d\<lparr>files := map (\<lambda>(q, b).
            (if prefix src q then dst @ drop (length src) q else q, b)) (files d)\<rparr>" and "\<not> exists_under d dst"
    by (auto simp: raise_error_def modify_def split: if_splits)
  then have "\<forall>(q, _) \<in> set (files d). \<not> prefix dst q" by (auto simp: exists_under_def list_ex_iff)
  then show "keeps S d d'"
    using assms read_moved [OF assms(2,3), of "files d"] by (simp add: keeps_def d' read_file_def)
qed

subsection \<open>What a completed action achieves\<close>

definition effect :: "unit act \<Rightarrow> disk \<Rightarrow> (string list \<Rightarrow> bytes option) \<Rightarrow> bool" where
  "effect m d F \<longleftrightarrow> snd (m d) = Done () \<and> read_file (final m d) = F \<and>
     mdir (final m d) = mdir d \<and> marker (final m d) = marker d"

lemma effect_ret: "effect (ret ()) d (read_file d)"
  by (simp add: effect_def ret_def final_def last_state_def)

lemma effect_modify:
  "mdir (f d) = mdir d \<Longrightarrow> marker (f d) = marker d \<Longrightarrow> read_file (f d) = F \<Longrightarrow> effect (modify f) d F"
  by (simp add: effect_def modify_def final_def last_state_def)

lemma effect_then:
  assumes "effect a d F" "\<And>d'. read_file d' = F \<Longrightarrow> mdir d' = mdir d \<Longrightarrow> marker d' = marker d \<Longrightarrow> effect b d' G"
  shows "effect (then_act a b) d G"
  using assms by (auto simp: effect_def then_act_def bind_snd final_bind)

lemma effect_with_disk: "effect (f d) d F \<Longrightarrow> effect (with_disk f) d F"
  by (simp add: effect_def with_disk_def final_def)

lemma effect_finally:
  assumes "effect a d F" "\<And>d'. read_file d' = F \<Longrightarrow> mdir d' = mdir d \<Longrightarrow> marker d' = marker d \<Longrightarrow> effect b d' G"
  shows "effect (finally_act a b) d G"
proof -
  have fin: "final (finally_act a b) d = final b (final a d)"
    by (auto simp: final_def finally_act_def last_state_append split: prod.split)
  have "snd (finally_act a b d) = snd (a d)" by (auto simp: finally_act_def split: prod.split)
  then show ?thesis using assms fin by (auto simp: effect_def)
qed

lemma effect_put: "effect (put_file p b) d ((read_file d)(p \<mapsto> b))"
  unfolding put_file_def by (rule effect_modify) (auto simp: read_file_def dict_simps fun_eq_iff)

lemma effect_write: "effect (write_bytes p b) d ((read_file d)(p \<mapsto> b))"
  unfolding write_bytes_def
  by (rule effect_then [OF effect_put]) (use effect_put [of p b] in \<open>auto simp: effect_def\<close>)

lemma effect_unlink: "effect (unlink p) d ((read_file d)(p := None))"
  unfolding unlink_def
  by (intro effect_with_disk) (auto intro!: effect_modify simp: effect_def ret_def final_def last_state_def
      read_file_def dict_simps fun_eq_iff modify_def)

lemma effect_replace_file:
  "read_file d src = Some b \<Longrightarrow> effect (replace_file src dst) d ((read_file d)(src := None, dst \<mapsto> b))"
  unfolding replace_file_def
  by (intro effect_with_disk) (auto intro!: effect_modify simp: read_file_def dict_simps fun_eq_iff)

text \<open>A loop whose steps are characterised by a transformation of the contents.\<close>

lemma effect_each:
  assumes "\<And>x d. x \<in> set xs \<Longrightarrow> ok (read_file d) \<Longrightarrow> effect (f x) d (g x (read_file d))"
    and "\<And>x F. x \<in> set xs \<Longrightarrow> ok F \<Longrightarrow> ok (g x F)" "ok (read_file d)"
  shows "effect (each f xs) d (fold g xs (read_file d)) \<and> ok (fold g xs (read_file d))"
  using assms
proof (induction xs arbitrary: d)
  case Nil
  then show ?case by (simp add: effect_ret)
next
  case (Cons x xs)
  have e: "effect (f x) d (g x (read_file d))" by (rule Cons.prems) (use Cons.prems in auto)
  have ok: "ok (g x (read_file d))" using Cons.prems by simp
  have rest: "effect (each f xs) d' (fold g xs (g x (read_file d))) \<and> ok (fold g xs (g x (read_file d)))"
    if "read_file d' = g x (read_file d)" for d'
    using Cons.IH [of d'] Cons.prems that ok by auto
  have "effect (each f (x # xs)) d (fold g xs (g x (read_file d)))"
    unfolding each.simps by (rule effect_then [OF e]) (use rest in blast)
  moreover have "ok (fold g xs (g x (read_file d)))"
    using rest [of "final (f x) d"] e by (simp add: effect_def)
  ultimately show ?case by simp
qed

end
