(* ===== verification/Publication_Safe.thy ===== *)
theory Publication_Safe
  imports Publication_Frame
begin

text \<open>
  The published state of an index directory (\<open>published\<close>: a manifest at a commit point whose
  generation validates), what every action keeps of it while it runs, and what recovery makes of
  the state a crash left.
\<close>

subsection \<open>The published state\<close>

definition refs :: "string list \<Rightarrow> json \<Rightarrow> string list set" where
  "refs sd m = (\<lambda>(_, e). locate sd (entry_path e)) ` set (manifest_artifacts m)"

definition generation_refs :: "string list \<Rightarrow> json \<Rightarrow> bool" where
  "generation_refs sd m \<longleftrightarrow> list_all (\<lambda>(_, e). let p = locate sd (entry_path e); r = generation_root sd
     in prefix r p \<and> length r < length p) (manifest_artifacts m)"

definition committed :: "manifest_dir \<Rightarrow> json \<Rightarrow> bool" where
  "committed dir m \<longleftrightarrow> current_file dir = Holds m \<or> (current_file dir = Absent \<and> prior_file dir = Holds m)"

definition valid_generation :: "codec \<Rightarrow> string list \<Rightarrow> json \<Rightarrow> disk \<Rightarrow> bool" where
  "valid_generation cd sd m d \<longleftrightarrow> validate_error cd sd m d = None \<and> manifest_uses_generation m \<and> generation_refs sd m"

definition published :: "codec \<Rightarrow> string list \<Rightarrow> disk \<Rightarrow> json \<Rightarrow> bool" where
  "published cd sd d m \<longleftrightarrow> committed (mdir d) m \<and> valid_generation cd sd m d"

definition nothing_published :: "disk \<Rightarrow> bool" where
  "nothing_published d \<longleftrightarrow> current_file (mdir d) = Absent \<and> prior_file (mdir d) = Absent"

text \<open>The root files are exact copies of the generation, with nothing SQLite could replay.\<close>

definition mirrored :: "string list \<Rightarrow> disk \<Rightarrow> json \<Rightarrow> bool" where
  "mirrored sd d m \<longleftrightarrow>
     (\<forall>name \<in> set artifact_names. read_file d (sd @ [name]) = artifact_bytes sd m d name) \<and>
     (\<forall>p \<in> set (sidecars sd). read_file d p = None)"

definition roots_empty :: "string list \<Rightarrow> disk \<Rightarrow> bool" where
  "roots_empty sd d \<longleftrightarrow> (\<forall>name \<in> set artifact_names. read_file d (sd @ [name]) = None)"

lemma verify_entries_cong:
  "(\<And>e p. e \<in> snd ` set es \<Longrightarrow> arts (locate sd (entry_path e)) = arts' (locate sd (entry_path e))) \<Longrightarrow>
   verify_entries sha arts sd es = verify_entries sha arts' sd es"
proof (induction es)
  case (Cons x es)
  obtain name e where x: "x = (name, e)" by fastforce
  have IH: "verify_entries sha arts sd es = verify_entries sha arts' sd es"
    using Cons by simp
  have p: "arts (locate sd rel) = arts' (locate sd rel)"
    if "e = JObj ob" "nonempty_string (jget ob ''path'') = Some rel" for ob rel
  proof -
    have "entry_path e = rel"
      using that by (auto simp: entry_path_def nonempty_string_def split: option.splits json.splits if_splits)
    then show ?thesis using Cons.prems [of e] x by simp
  qed
  show ?case
  proof (cases e)
    case (JObj ob)
    show ?thesis
    proof (cases "nonempty_string (jget ob ''path'')")
      case (Some rel)
      then show ?thesis using p [OF JObj Some] by (simp add: x JObj IH split: option.split artifact.split)
    qed (simp add: x JObj)
  qed (simp_all add: x)
qed simp

lemma disk_arts_cong: "read_file d p = read_file d' p \<Longrightarrow> disk_arts d p = disk_arts d' p"
  by (simp add: disk_arts_def)

lemma verify_cong:
  assumes "\<forall>p \<in> refs sd m. read_file d p = read_file d' p"
  shows "verify_manifest sha (disk_arts d) sd m = verify_manifest sha (disk_arts d') sd m"
proof (cases "\<exists>ob es. m = JObj ob \<and> jget ob ''artifacts'' = Some (JObj es) \<and> es \<noteq> []")
  case True
  then obtain ob es where m: "m = JObj ob" "jget ob ''artifacts'' = Some (JObj es)" "es \<noteq> []" by blast
  have "verify_entries sha (disk_arts d) sd es = verify_entries sha (disk_arts d') sd es"
    by (rule verify_entries_cong, rule disk_arts_cong)
       (use assms m in \<open>auto simp: refs_def manifest_artifacts_def\<close>)
  then show ?thesis using m by (simp add: verify_manifest_def)
qed (auto simp: verify_manifest_def split: json.split option.split)

lemma manifest_path_refs: "manifest_artifact_path sd m name = Some p \<Longrightarrow> p \<in> refs sd m"
  by (auto simp: manifest_artifact_path_def refs_def image_iff split: option.splits if_splits
      dest!: map_of_SomeD intro!: bexI)

lemma artifact_bytes_cong:
  assumes "\<forall>p \<in> refs sd m. read_file d p = read_file d' p"
  shows "artifact_bytes sd m d name = artifact_bytes sd m d' name"
  using assms manifest_path_refs by (auto simp: artifact_bytes_def split: option.split)

lemma validate_cong:
  assumes "\<forall>p \<in> refs sd m. read_file d p = read_file d' p"
  shows "validate_error cd sd m d = validate_error cd sd m d'"
  unfolding validate_error_def
  by (simp only: verify_cong [OF assms] artifact_bytes_cong [OF assms] ext [OF artifact_bytes_cong [OF assms]])

lemma valid_keeps: "keeps S d d' \<Longrightarrow> refs sd m \<subseteq> S \<Longrightarrow> valid_generation cd sd m d = valid_generation cd sd m d'"
proof -
  assume "keeps S d d'" "refs sd m \<subseteq> S"
  then have "\<forall>p \<in> refs sd m. read_file d p = read_file d' p" by (auto simp: keeps_def)
  from validate_cong [OF this, of cd] show ?thesis by (simp add: valid_generation_def)
qed

lemma published_keeps: "keeps S d d' \<Longrightarrow> refs sd m \<subseteq> S \<Longrightarrow> published cd sd d m \<Longrightarrow> published cd sd d' m"
  using valid_keeps [of S d d' sd m cd] by (auto simp: published_def keeps_def)

lemma published_verifies:
  assumes "valid_generation cd sd m d"
  shows "verify_manifest (cd_sha cd) (disk_arts d) sd m = Inr None" "json_truthy m" "m \<noteq> JNull"
proof -
  show v: "verify_manifest (cd_sha cd) (disk_arts d) sd m = Inr None"
    using assms by (auto simp: valid_generation_def validate_error_def split: sum.splits option.splits)
  show t: "json_truthy m" using v by (cases m) (auto simp: verify_manifest_def jget_def split: if_splits)
  show "m \<noteq> JNull" using t by auto
qed

lemma published_read:
  assumes "published cd sd d m"
  shows "\<exists>r. read_with_fallback (cd_sha cd) (disk_arts d) sd (mdir d) = Inr r \<and> rr_manifest r = Some m"
  using assms published_verifies [of cd sd m d]
  by (auto simp: published_def committed_def read_with_fallback_def read_prior_with_def Let_def)

lemma nothing_read:
  "nothing_published d \<Longrightarrow> \<exists>r. read_with_fallback sha (disk_arts d) sd (mdir d) = Inr r \<and> rr_manifest r = None \<and>
     rr_freshness r = ManifestMissing"
  by (auto simp: nothing_published_def read_with_fallback_def read_prior_with_def Let_def)

text \<open>Every entry of a verified manifest names an artifact with the recorded hash.\<close>

lemma verified_entry:
  "verify_entries sha arts sd es = Inr None \<Longrightarrow> (n, e) \<in> set es \<Longrightarrow>
   \<exists>ob b. e = JObj ob \<and> jget ob ''sha256'' = Some (JStr (sha b)) \<and> arts (locate sd (entry_path e)) = Artifact b"
proof (induction es)
  case (Cons x es)
  obtain k f where x: "x = (k, f)" by fastforce
  obtain ob rel h b where f: "f = JObj ob" "nonempty_string (jget ob ''path'') = Some rel"
      "nonempty_string (jget ob ''sha256'') = Some (sha b)" "arts (locate sd rel) = Artifact b"
      "verify_entries sha arts sd es = Inr None"
    using Cons.prems(1) by (auto simp: x split: json.splits option.splits artifact.splits if_splits)
  have "entry_path f = rel" "jget ob ''sha256'' = Some (JStr (sha b))"
    using f(1-3) by (auto simp: entry_path_def nonempty_string_def split: option.splits json.splits if_splits)
  then show ?case using Cons.IH [OF f(5)] Cons.prems(2) f x by auto
qed simp

lemma verified_artifacts:
  assumes "verify_manifest sha arts sd m = Inr None"
  shows "verify_entries sha arts sd (manifest_artifacts m) = Inr None"
  using assms by (auto simp: verify_manifest_def manifest_artifacts_def split: json.splits option.splits if_splits)

lemma refs_exist:
  assumes "valid_generation cd sd m d" "p \<in> refs sd m"
  shows "read_file d p \<noteq> None"
proof -
  obtain n e where e: "(n, e) \<in> set (manifest_artifacts m)" "p = locate sd (entry_path e)"
    using assms(2) by (auto simp: refs_def)
  then show ?thesis
    using verified_entry [OF verified_artifacts [OF published_verifies(1) [OF assms(1)]] e(1)]
    by (auto simp: disk_arts_def split: option.splits)
qed

subsection \<open>Root paths\<close>

definition root_level :: "string list \<Rightarrow> string list set" where
  "root_level sd = {p. \<not> prefix (generation_root sd) p}"

lemma refs_generation: "generation_refs sd m \<Longrightarrow> p \<in> refs sd m \<Longrightarrow> prefix (generation_root sd) p \<and> length (generation_root sd) < length p"
  by (auto simp: refs_def generation_refs_def list_all_iff Let_def)

lemma root_name: "n \<noteq> ''.generations'' \<Longrightarrow> sd @ [n] \<in> root_level sd"
  by (auto simp: root_level_def generation_root_def prefix_def)

lemma artifact_name_cases:
  assumes "name \<in> set artifact_names"
  shows "name \<noteq> ''.generations'' \<and> name @ x \<noteq> ''.generations'' \<and> ''.'' @ name @ x \<noteq> ''.generations''"
  using assms by (auto simp: artifact_names_def)

lemma artifact_root: "name \<in> set artifact_names \<Longrightarrow> sd @ [name] \<in> root_level sd"
  using artifact_name_cases root_name by blast

lemma suffixed_root: "name \<in> set artifact_names \<Longrightarrow> sd @ [name @ x] \<in> root_level sd"
  using artifact_name_cases root_name by blast

lemma temporary_root: "name \<in> set artifact_names \<Longrightarrow> temporary_name sd tok name \<in> root_level sd"
  unfolding temporary_name_def by (rule root_name) (use artifact_name_cases [of name] in auto)

lemma sidecar_root: "p \<in> set (sidecars sd) \<Longrightarrow> p \<in> root_level sd"
  by (auto simp: sidecars_def database_names_def intro!: root_name)

lemma root_not_refs: "generation_refs sd m \<Longrightarrow> p \<in> root_level sd \<Longrightarrow> p \<notin> refs sd m"
  using refs_generation by (auto simp: root_level_def)

subsection \<open>What runs keep\<close>

text \<open>\<open>S\<close> is a set of paths in the generation directory.\<close>

definition generation_paths :: "string list \<Rightarrow> string list set \<Rightarrow> bool" where
  "generation_paths sd S \<longleftrightarrow> S \<inter> root_level sd = {}"

lemma refs_paths: "generation_refs sd m \<Longrightarrow> generation_paths sd (refs sd m)"
  using root_not_refs by (auto simp: generation_paths_def)

lemma not_kept: "generation_paths sd S \<Longrightarrow> p \<in> root_level sd \<Longrightarrow> p \<notin> S"
  by (auto simp: generation_paths_def)

lemmas root_paths = artifact_root suffixed_root temporary_root sidecar_root

lemma keeps_copy:
  "generation_paths sd S \<Longrightarrow> name \<in> set artifact_names \<Longrightarrow> within (keeps S) (copy_to_temporary sd tok m name)"
  unfolding copy_to_temporary_def
  by (auto intro!: within_rules keeps_write split: option.split simp: not_kept root_paths)

lemma keeps_mirror:
  "generation_paths sd S \<Longrightarrow> name \<in> set artifact_names \<Longrightarrow> within (keeps S) (mirror_absent sd m name)"
  "generation_paths sd S \<Longrightarrow> name \<in> set artifact_names \<Longrightarrow> within (keeps S) (mirror_prepared sd tok m name)"
  unfolding mirror_absent_def mirror_prepared_def
  by (auto intro!: within_rules keeps_unlink keeps_replace_file split: option.split simp: not_kept root_paths)

lemma keeps_materialize: "generation_paths sd S \<Longrightarrow> within (keeps S) (materialize_generation sd tok m)"
  unfolding materialize_generation_def
  by (intro within_rules keeps_copy keeps_mirror keeps_unlink) (simp_all add: not_kept root_paths)

lemma keeps_discard: "generation_paths sd S \<Longrightarrow> within (keeps S) (discard_working_set sd)"
  unfolding discard_working_set_def
  by (intro within_rules keeps_unlink) (simp_all add: not_kept root_paths)

lemma keeps_validate: "within (keeps S) (validate_published_generation cd sd m)"
  unfolding validate_published_generation_def by (auto intro!: within_rules split: option.split)

lemma keeps_prune_part: "n \<notin> N \<Longrightarrow> (\<And>p. p \<in> S \<Longrightarrow> \<exists>k \<in> N. prefix (generation_root sd @ [k]) p) \<Longrightarrow>
    within (keeps S) (remove_tree (generation_root sd @ [n]))"
proof (rule keeps_remove_tree, intro ballI notI)
  fix p assume n: "n \<notin> N" and N: "\<And>p. p \<in> S \<Longrightarrow> \<exists>k \<in> N. prefix (generation_root sd @ [k]) p"
    and p: "p \<in> S" "prefix (generation_root sd @ [n]) p"
  then obtain k where "k \<in> N" "prefix (generation_root sd @ [k]) p" by blast
  then have "k = n" using p(2) by (auto simp: prefix_def)
  then show False using n \<open>k \<in> N\<close> by simp
qed

lemma refs_retained:
  assumes "generation_refs sd m" "p \<in> refs sd m"
  shows "\<exists>k \<in> set (generation_names sd m). prefix (generation_root sd @ [k]) p"
proof -
  let ?r = "generation_root sd"
  obtain n e where e: "(n, e) \<in> set (manifest_artifacts m)" "p = locate sd (entry_path e)"
    using assms(2) by (auto simp: refs_def)
  have p: "prefix ?r p" "length ?r < length p" using refs_generation [OF assms] by auto
  then obtain q where q: "p = ?r @ q" "q \<noteq> []" by (auto simp: prefix_def)
  then obtain x q' where x: "p = (?r @ [x]) @ q'" by (cases q) auto
  have "p ! length ?r = x" using x by (simp add: nth_append)
  then have pre: "prefix (?r @ [p ! length ?r]) p" using x by (simp add: prefix_def)
  from p have "p ! length ?r \<in> set (generation_names sd m)"
    using e by (auto simp: generation_names_def Let_def intro!: bexI [of _ "(n, e)"])
  then show ?thesis using pre by blast
qed

text \<open>Pruning keeps every generation a verified manifest names.\<close>

lemma keeps_prune:
  assumes "m \<in> set (verified_manifests cd sd d)" "generation_refs sd m"
    and "d' \<in> set (fst (prune_unreferenced_generations cd sd d))"
  shows "keeps (refs sd m) d d'"
proof -
  let ?ret = "set (concat (map (generation_names sd) (verified_manifests cd sd d)))"
  let ?ns = "present_generations sd d"
  have "within (keeps (refs sd m)) (each (\<lambda>n. if n \<in> ?ret then ret () else remove_tree (generation_root sd @ [n])) ?ns)"
  proof (intro within_each keeps_preorder)
    fix n
    show "within (keeps (refs sd m)) (if n \<in> ?ret then ret () else remove_tree (generation_root sd @ [n]))"
    proof (cases "n \<in> ?ret")
      case False
      have "within (keeps (refs sd m)) (remove_tree (generation_root sd @ [n]))"
        by (rule keeps_prune_part [OF False]) (use refs_retained [OF assms(2)] assms(1) in fastforce)
      then show ?thesis using False by simp
    qed (simp add: within_rules)
  qed
  moreover have "d' \<in> set (fst (each (\<lambda>n. if n \<in> ?ret then ret () else remove_tree (generation_root sd @ [n])) ?ns d))"
    using assms(1,3) by (auto simp: prune_unreferenced_generations_def with_disk_def Let_def split: if_splits)
  ultimately show ?thesis by (simp add: within_def)
qed

lemma committed_verified:
  "committed (mdir d) m \<Longrightarrow> valid_generation cd sd m d \<Longrightarrow> m \<in> set (verified_manifests cd sd d)"
  using published_verifies [of cd sd m d] by (auto simp: committed_def verified_manifests_def)

lemma published_prune:
  "published cd sd d m \<Longrightarrow> d' \<in> set (fst (prune_unreferenced_generations cd sd d)) \<Longrightarrow>
   published cd sd d' m \<and> marker d' = marker d"
  using keeps_prune [of m cd sd d d'] committed_verified [of d m cd sd] published_keeps [of "refs sd m" d d' sd m cd]
  by (auto simp: published_def valid_generation_def keeps_def)

lemma prune_done: "snd (prune_unreferenced_generations cd sd d) = Done ()"
proof -
  have "snd (each (\<lambda>n. if P n then ret () else remove_tree (f n)) ns d) = Done ()" for P f ns d
    by (rule each_done) (simp add: ret_def remove_tree_done)
  then show ?thesis by (auto simp: prune_unreferenced_generations_def with_disk_def Let_def ret_def)
qed

end
