(* ===== verification/Publication_Recover.thy ===== *)
theory Publication_Recover
  imports Publication_Safe
begin

text \<open>
  What a completed materialisation, discard, recovery and rollback achieve: the root files become
  exact copies of the published generation (or vanish, when nothing was ever published).
\<close>

subsection \<open>Postconditions of loops\<close>

definition ensures :: "unit act \<Rightarrow> disk \<Rightarrow> ((string list \<Rightarrow> bytes option) \<Rightarrow> bool) \<Rightarrow> bool" where
  "ensures m d P \<longleftrightarrow> snd (m d) = Done () \<and> P (read_file (final m d))"

lemma ensures_effect: "effect m d F \<Longrightarrow> P F \<Longrightarrow> ensures m d P"
  by (simp add: effect_def ensures_def)

lemma ensures_ret: "P (read_file d) \<Longrightarrow> ensures (ret ()) d P"
  by (rule ensures_effect [OF effect_ret])

lemma ensures_then:
  "ensures a d P \<Longrightarrow> (\<And>d'. P (read_file d') \<Longrightarrow> ensures b d' Q) \<Longrightarrow> ensures (then_act a b) d Q"
  by (auto simp: ensures_def then_act_def bind_snd final_bind)

lemma ensures_mono: "ensures m d P \<Longrightarrow> (\<And>F. P F \<Longrightarrow> Q F) \<Longrightarrow> ensures m d Q"
  by (auto simp: ensures_def)

lemma ensures_with_disk: "ensures (f d) d P \<Longrightarrow> ensures (with_disk f) d P"
  by (simp add: ensures_def with_disk_def final_def)

lemma ensures_finally:
  "ensures a d P \<Longrightarrow> (\<And>d'. P (read_file d') \<Longrightarrow> ensures b d' Q) \<Longrightarrow> ensures (finally_act a b) d Q"
  by (auto simp: ensures_def finally_act_def final_def last_state_append split: prod.splits)

lemma ensures_each:
  assumes "\<And>x ys zs d. xs = ys @ x # zs \<Longrightarrow> I ys (read_file d) \<Longrightarrow> ensures (f x) d (I (ys @ [x]))"
    and "I [] (read_file d)"
  shows "ensures (each f xs) d (I xs)"
proof -
  have "ensures (each f zs) d (I xs)" if "xs = ys @ zs" "I ys (read_file d)" for ys zs d
    using that
  proof (induction zs arbitrary: ys d)
    case Nil
    then show ?case by (simp add: ensures_ret)
  next
    case (Cons x zs)
    have "ensures (f x) d (I (ys @ [x]))" by (rule assms(1)) (use Cons.prems in auto)
    then show ?case
      unfolding each.simps by (rule ensures_then) (rule Cons.IH, use Cons.prems in auto)
  qed
  from this [of "[]" xs] show ?thesis using assms(2) by simp
qed

subsection \<open>Root paths are different\<close>

lemma temporary_apart:
  assumes "n \<in> set artifact_names" "k \<in> set artifact_names"
  shows "temporary_name sd tok n \<noteq> sd @ [k]" "temporary_name sd tok n \<notin> set (sidecars sd)"
    "temporary_name sd tok n = temporary_name sd tok k \<longleftrightarrow> n = k"
  using assms by (auto simp: temporary_name_def artifact_names_def sidecars_def database_names_def)

lemma root_not_sidecar: "n \<in> set artifact_names \<Longrightarrow> sd @ [n] \<notin> set (sidecars sd)"
  by (auto simp: artifact_names_def sidecars_def database_names_def)

subsection \<open>Materialising a generation\<close>

text \<open>Copying prepares a temporary file for every artifact of the generation.\<close>

definition prepared :: "string list \<Rightarrow> string \<Rightarrow> json \<Rightarrow> disk \<Rightarrow> string list \<Rightarrow> (string list \<Rightarrow> bytes option) \<Rightarrow> bool" where
  "prepared sd tok m d names F \<longleftrightarrow> (\<forall>p. p \<notin> root_level sd \<longrightarrow> F p = read_file d p) \<and>
     (\<forall>n \<in> set names. \<forall>p. manifest_artifact_path sd m n = Some p \<longrightarrow> F (temporary_name sd tok n) = read_file d p)"

lemma source_file:
  assumes "valid_generation cd sd m d" "manifest_artifact_path sd m n = Some p"
  shows "prefix (generation_root sd) p" "read_file d p \<noteq> None" "p \<notin> root_level sd"
  using manifest_path_refs [OF assms(2)] refs_exist [OF assms(1)] refs_generation assms(1)
  by (auto simp: root_level_def valid_generation_def)

lemma copies_ready:
  assumes v: "valid_generation cd sd m d" and d': "\<forall>p. p \<notin> root_level sd \<longrightarrow> read_file d' p = read_file d p"
  shows "ensures (each (copy_to_temporary sd tok m) artifact_names) d' (prepared sd tok m d artifact_names)"
proof (rule ensures_each)
  show "prepared sd tok m d [] (read_file d')" using d' by (simp add: prepared_def)
  fix n ys zs d1 assume names: "artifact_names = ys @ n # zs" and I: "prepared sd tok m d ys (read_file d1)"
  have n: "n \<in> set artifact_names" "set ys \<subseteq> set artifact_names"
    using names by (metis in_set_conv_decomp, metis set_append Un_upper1)
  show "ensures (copy_to_temporary sd tok m n) d1 (prepared sd tok m d (ys @ [n]))"
  proof (cases "manifest_artifact_path sd m n")
    case None
    then show ?thesis using I by (auto simp: copy_to_temporary_def prepared_def intro!: ensures_ret)
  next
    case (Some p)
    note src = source_file [OF v Some]
    have "p \<noteq> sd @ [n]" using src(3) artifact_root [OF n(1), of sd] by auto
    moreover obtain b where b: "read_file d1 p = Some b" "read_file d p = Some b"
      using src(2,3) I by (auto simp: prepared_def)
    moreover have "prepared sd tok m d (ys @ [n]) ((read_file d1)(temporary_name sd tok n \<mapsto> b))"
      using I b Some temporary_apart(3) [where sd = sd and tok = tok] n temporary_root [OF n(1), of sd tok]
      by (auto simp: prepared_def)
    ultimately show ?thesis
      using Some by (auto simp: copy_to_temporary_def intro!: ensures_with_disk ensures_effect [OF effect_write])
  qed
qed

lemma materialize_mirrors:
  assumes v: "valid_generation cd sd m d"
  shows "snd (materialize_generation sd tok m d) = Done () \<and> mirrored sd (final (materialize_generation sd tok m) d) m"
proof -
  define src where "src = manifest_artifact_path sd m"
  have gr: "generation_refs sd m" using v by (simp add: valid_generation_def)
  have src: "prefix (generation_root sd) p" "read_file d p \<noteq> None" "p \<notin> root_level sd" if "src n = Some p" for n p
    using source_file [OF v, of n p] that by (auto simp: src_def)
  have path: "manifest_artifact_path sd m n = src n" for n by (simp add: src_def)
  define G where "G F \<longleftrightarrow> (\<forall>p. p \<notin> root_level sd \<longrightarrow> F p = read_file d p)" for F
  have G_upd: "G (F(p := b))" if "G F" "p \<in> root_level sd" for F p b
    using that by (auto simp: G_def)
  let ?names = "artifact_names" and ?side = "set (sidecars sd)"
  let ?temp = "temporary_name sd tok"
  define I1 where "I1 ys F \<longleftrightarrow> G F \<and> (\<forall>n \<in> set ys. \<forall>p. src n = Some p \<longrightarrow> F (?temp n) = read_file d p)" for ys F
  define I2 where "I2 ys F \<longleftrightarrow> I1 ?names F \<and> (\<forall>q \<in> set ys. F q = None)" for ys F
  define I3 where "I3 ys F \<longleftrightarrow> I2 (sidecars sd) F \<and> (\<forall>n \<in> set ys. src n = None \<longrightarrow> F (sd @ [n]) = None)" for ys F
  define R where "R n F \<longleftrightarrow> F (sd @ [n]) = (case src n of None \<Rightarrow> None | Some p \<Rightarrow> read_file d p)" for n F
  define I4 where "I4 ys F \<longleftrightarrow> G F \<and> (\<forall>q \<in> ?side. F q = None) \<and> (\<forall>n \<in> set ?names. src n = None \<longrightarrow> R n F) \<and>
      (\<forall>n \<in> set ys. R n F) \<and> (\<forall>n \<in> set ?names - set ys. \<forall>p. src n = Some p \<longrightarrow> F (?temp n) = read_file d p)" for ys F
  define I5 where "I5 F \<longleftrightarrow> (\<forall>q \<in> ?side. F q = None) \<and> (\<forall>n \<in> set ?names. R n F)" for F
  note clear_of = temporary_apart [where sd = sd and tok = tok]
  have s1: "ensures (each (copy_to_temporary sd tok m) ?names) d' (I1 ?names)" if "G (read_file d')" for d'
    by (rule ensures_mono [OF copies_ready [OF v]]) (use that in \<open>auto simp: prepared_def I1_def G_def src_def\<close>)
  have s2: "ensures (each unlink (sidecars sd)) d' (I2 (sidecars sd))" if "I1 ?names (read_file d')" for d'
  proof (rule ensures_each)
    show "I2 [] (read_file d')" using that by (simp add: I2_def)
    fix q ys zs d1 assume names: "sidecars sd = ys @ q # zs" and I: "I2 ys (read_file d1)"
    have q: "q \<in> ?side" using names by auto
    have "I2 (ys @ [q]) ((read_file d1)(q := None))"
      using I q clear_of(2) G_upd [of "read_file d1" q None] sidecar_root [OF q] by (auto simp: I1_def I2_def)
    then show "ensures (unlink q) d1 (I2 (ys @ [q]))" by (rule ensures_effect [OF effect_unlink])
  qed
  have s3: "ensures (each (mirror_absent sd m) ?names) d' (I3 ?names)" if "I2 (sidecars sd) (read_file d')" for d'
  proof (rule ensures_each)
    show "I3 [] (read_file d')" using that by (simp add: I3_def)
    fix n ys zs d1 assume names: "?names = ys @ n # zs" and I: "I3 ys (read_file d1)"
    have n: "n \<in> set ?names" using names by (metis in_set_conv_decomp)
    show "ensures (mirror_absent sd m n) d1 (I3 (ys @ [n]))"
    proof (cases "src n")
      case None
      have "I3 (ys @ [n]) ((read_file d1)(sd @ [n] := None))"
        using I n clear_of(1) G_upd [of "read_file d1" "sd @ [n]" None] artifact_root [OF n, of sd]
        by (auto simp: I1_def I2_def I3_def)
      then show ?thesis using None by (auto simp: mirror_absent_def path intro!: ensures_effect [OF effect_unlink])
    next
      case (Some p)
      then show ?thesis using I by (auto simp: mirror_absent_def path I3_def intro!: ensures_ret)
    qed
  qed
  have s4: "ensures (each (mirror_prepared sd tok m) ?names) d' (I4 ?names)" if "I3 ?names (read_file d')" for d'
  proof (rule ensures_each)
    show "I4 [] (read_file d')" using that by (auto simp: I1_def I2_def I3_def I4_def R_def)
    fix n ys zs d1 assume names: "?names = ys @ n # zs" and I: "I4 ys (read_file d1)"
    have n: "n \<in> set ?names" "set ys \<subseteq> set ?names" using names by (metis in_set_conv_decomp, metis set_append Un_upper1)
    have "distinct (ys @ n # zs)" unfolding names [symmetric] by (simp add: artifact_names_def)
    then have ny: "n \<notin> set ys" by simp
    show "ensures (mirror_prepared sd tok m n) d1 (I4 (ys @ [n]))"
    proof (cases "src n")
      case None
      then show ?thesis using I n by (auto simp: mirror_prepared_def path I4_def intro!: ensures_ret)
    next
      case (Some p)
      have ne: "p \<noteq> sd @ [n]" using src(3) [OF Some] artifact_root [OF n(1), of sd] by auto
      obtain b where b: "read_file d p = Some b" using src(2) [OF Some] by auto
      have t: "read_file d1 (?temp n) = Some b" using I n ny Some b by (simp add: I4_def)
      let ?F = "(read_file d1)(?temp n := None, sd @ [n] \<mapsto> b)"
      have other: "R k ?F" if "k \<in> set ?names" "k \<noteq> n" "R k (read_file d1)" for k
        using that clear_of(1) [OF n(1) that(1)] by (auto simp: R_def)
      have keep: "?F (?temp k) = read_file d1 (?temp k)" if "k \<in> set ?names" "k \<noteq> n" for k
        using that clear_of(1) [OF that(1) n(1)] clear_of(3) [OF that(1) n(1)] by simp
      have "I4 (ys @ [n]) ?F"
        unfolding I4_def
      proof (intro conjI ballI impI allI)
        show "G ?F" using I G_upd temporary_root [OF n(1), of sd tok] artifact_root [OF n(1), of sd] by (simp add: I4_def)
        show "?F q = None" if "q \<in> ?side" for q using that I root_not_sidecar [OF n(1)] by (auto simp: I4_def)
        show "R k ?F" if "k \<in> set ?names" "src k = None" for k
          by (rule other) (use that I Some in \<open>auto simp: I4_def\<close>)
        show "R k ?F" if k: "k \<in> set (ys @ [n])" for k
        proof (cases "k = n")
          case True
          then show ?thesis using Some b by (simp add: R_def)
        next
          case False
          then have "k \<in> set ys" using k by simp
          then show ?thesis using other [of k] n(2) I False unfolding I4_def by blast
        qed
        show "?F (?temp k) = read_file d p'" if "k \<in> set ?names - set (ys @ [n])" "src k = Some p'" for k p'
        proof -
          have "k \<in> set ?names" "k \<noteq> n" "k \<in> set ?names - set ys" using that(1) by auto
          then show ?thesis using keep [of k] I that(2) unfolding I4_def by metis
        qed
      qed
      then show ?thesis
        using Some ne t by (auto simp: mirror_prepared_def path intro!: ensures_effect [OF effect_replace_file])
    qed
  qed
  have s5: "ensures (each (\<lambda>n. unlink (?temp n)) ?names) d' (\<lambda>F. I5 F)" if "I5 (read_file d')" for d'
  proof (rule ensures_each [where I = "\<lambda>_. I5"])
    show "I5 (read_file d')" by (rule that)
    fix n ys zs d1 assume names: "?names = ys @ n # zs" and I: "I5 (read_file d1)"
    have n: "n \<in> set ?names" using names by (metis in_set_conv_decomp)
    have "I5 ((read_file d1)(?temp n := None))" using I clear_of(1) [OF n, THEN not_sym] by (auto simp: I5_def R_def)
    then show "ensures (unlink (?temp n)) d1 I5" by (rule ensures_effect [OF effect_unlink])
  qed
  have "ensures (materialize_generation sd tok m) d I5"
    unfolding materialize_generation_def
    by (intro ensures_finally [where P = "I4 ?names"] ensures_then [OF s1] ensures_then [OF s2] ensures_then [OF s3] s4 s5)
       (auto simp: G_def I4_def I5_def)
  moreover have "artifact_bytes sd m (final (materialize_generation sd tok m) d) n = (case src n of None \<Rightarrow> None | Some p \<Rightarrow> read_file d p)" for n
  proof -
    have "keeps (refs sd m) d (final (materialize_generation sd tok m) d)"
      by (rule within_final [OF keeps_preorder keeps_materialize [OF refs_paths [OF gr]]])
    then show ?thesis
      using manifest_path_refs [of sd m n] by (auto simp: artifact_bytes_def src_def keeps_def split: option.split)
  qed
  ultimately show ?thesis by (auto simp: ensures_def mirrored_def I5_def R_def)
qed

subsection \<open>Discarding\<close>

lemma discard_empties:
  "snd (discard_working_set sd d) = Done () \<and> roots_empty sd (final (discard_working_set sd) d)"
proof -
  have "ensures (discard_working_set sd) d (\<lambda>F. \<forall>n \<in> set artifact_names. F (sd @ [n]) = None)"
    unfolding discard_working_set_def
  proof (rule ensures_each [where I = "\<lambda>ys F. \<forall>n \<in> set ys. F (sd @ [n]) = None"])
    fix n ys d1 assume I: "\<forall>n \<in> set ys. read_file d1 (sd @ [n]) = None"
    show "ensures (then_act (unlink (sd @ [n])) (then_act (unlink (sd @ [n @ ''-wal''])) (unlink (sd @ [n @ ''-shm''])))) d1
        (\<lambda>F. \<forall>k \<in> set (ys @ [n]). F (sd @ [k]) = None)"
      by (intro ensures_then [where P = "\<lambda>F. \<forall>k \<in> set (ys @ [n]). F (sd @ [k]) = None"]
          ensures_effect [OF effect_unlink]) (use I in auto)
  qed simp
  then show ?thesis by (simp add: ensures_def roots_empty_def)
qed

subsection \<open>Recovery\<close>

text \<open>
  A store at rest: marker-free, with root files that mirror the published generation, or with
  nothing published and no root files.
\<close>

definition at_rest :: "codec \<Rightarrow> string list \<Rightarrow> disk \<Rightarrow> bool" where
  "at_rest cd sd d \<longleftrightarrow> \<not> marker d \<and>
     ((\<exists>m. published cd sd d m \<and> mirrored sd d m) \<or> (nothing_published d \<and> roots_empty sd d))"

text \<open>What every state on the way satisfies: the published state is there, and the marker is unless at rest.\<close>

definition recoverable :: "codec \<Rightarrow> string list \<Rightarrow> disk \<Rightarrow> bool" where
  "recoverable cd sd d \<longleftrightarrow>
     (\<exists>m. published cd sd d m \<and> (marker d \<or> mirrored sd d m)) \<or>
     (nothing_published d \<and> (marker d \<or> roots_empty sd d))"

lemma clear_marker: "snd (clear_publication_marker d) = Done ()"
  "final clear_publication_marker d = d\<lparr>marker := False\<rparr>"
  "d' \<in> set (fst (clear_publication_marker d)) \<Longrightarrow> d' = d\<lparr>marker := False\<rparr>"
  by (auto simp: clear_publication_marker_def with_disk_def modify_def ret_def final_def last_state_def split: if_splits)

lemma reads_unmarked [simp]: "read_file (d\<lparr>marker := b\<rparr>) = read_file d"
  by (simp add: read_file_def fun_eq_iff)

lemma published_unmarked [simp]: "published cd sd (d\<lparr>marker := b\<rparr>) m = published cd sd d m"
  by (simp add: published_def valid_generation_def validate_cong [of sd m "d\<lparr>marker := b\<rparr>" d])

lemma mirrored_cong:
  "(\<And>p. read_file d p = read_file d' p) \<Longrightarrow> mirrored sd d m = mirrored sd d' m"
  by (simp add: mirrored_def artifact_bytes_def split: option.split)

lemma mirrored_unmarked [simp]: "mirrored sd (d\<lparr>marker := b\<rparr>) m = mirrored sd d m"
  by (rule mirrored_cong) simp

lemma nothing_unmarked [simp]: "nothing_published (d\<lparr>marker := b\<rparr>) = nothing_published d"
  by (simp add: nothing_published_def)

lemma roots_unmarked [simp]: "roots_empty sd (d\<lparr>marker := b\<rparr>) = roots_empty sd d"
  by (simp add: roots_empty_def)

lemma mirrored_keeps:
  assumes "keeps (root_level sd \<union> refs sd m) d d'" "mirrored sd d m"
  shows "mirrored sd d' m"
proof -
  have "read_file d' (sd @ [n]) = read_file d (sd @ [n])" if "n \<in> set artifact_names" for n
    using assms(1) artifact_root [OF that, of sd] by (auto simp: keeps_def)
  moreover have "read_file d' p = read_file d p" if "p \<in> set (sidecars sd)" for p
    using assms(1) sidecar_root [OF that] by (auto simp: keeps_def)
  moreover have "artifact_bytes sd m d' n = artifact_bytes sd m d n" for n
    by (rule artifact_bytes_cong) (use assms(1) in \<open>auto simp: keeps_def\<close>)
  ultimately show ?thesis using assms(2) by (simp add: mirrored_def)
qed

lemma keeps_prune_roots:
  assumes "m \<in> set (verified_manifests cd sd d)" "generation_refs sd m"
    and "d' \<in> set (fst (prune_unreferenced_generations cd sd d))"
  shows "keeps (root_level sd \<union> refs sd m) d d'"
proof -
  have "within (keeps (root_level sd)) (each (\<lambda>n. if P n then ret () else remove_tree (generation_root sd @ [n])) ns)" for P ns
  proof (intro within_each keeps_preorder)
    fix n
    have "within (keeps (root_level sd)) (remove_tree (generation_root sd @ [n]))"
      by (rule keeps_remove_tree) (auto simp: root_level_def prefix_def)
    then show "within (keeps (root_level sd)) (if P n then ret () else remove_tree (generation_root sd @ [n]))"
      by (simp add: within_rules)
  qed
  then have "keeps (root_level sd) d d'"
    using assms(3) by (auto simp: prune_unreferenced_generations_def with_disk_def Let_def within_def ret_def split: if_splits)
  then show ?thesis using keeps_prune [OF assms] by (auto simp: keeps_def)
qed

lemma prune_rest:
  assumes "published cd sd d m" "mirrored sd d m" "d' \<in> set (fst (prune_unreferenced_generations cd sd d))"
  shows "published cd sd d' m \<and> mirrored sd d' m \<and> marker d' = marker d"
proof -
  have "keeps (root_level sd \<union> refs sd m) d d'"
    using keeps_prune_roots committed_verified assms(1,3) unfolding published_def valid_generation_def by blast
  then show ?thesis using published_prune [OF assms(1,3)] mirrored_keeps assms(2) by blast
qed

text \<open>The four steps of a successful restoration from a published generation.\<close>

lemma restore_steps:
  fixes tok :: string
  assumes p: "published cd sd d m"
  defines "act \<equiv> then_act (validate_published_generation cd sd m) (materialize_generation sd tok m)"
  shows "snd (act d) = Done ()" "published cd sd (final act d) m" "mirrored sd (final act d) m"
    "marker (final act d) = marker d" "d' \<in> set (fst (act d)) \<Longrightarrow> published cd sd d' m \<and> marker d' = marker d"
proof -
  have v: "valid_generation cd sd m d" and gr: "generation_refs sd m"
    using p by (auto simp: published_def valid_generation_def)
  have ok: "validate_published_generation cd sd m d = ([], Done ())"
    using v by (simp add: validate_published_generation_def with_disk_def ret_def valid_generation_def)
  have eq: "act d = materialize_generation sd tok m d"
    by (simp add: act_def then_act_def bind_act_def ok last_state_def)
  have fin: "final act d = final (materialize_generation sd tok m) d" by (simp add: final_def eq)
  have k: "within (keeps (refs sd m)) (materialize_generation sd tok m)"
    by (rule keeps_materialize [OF refs_paths [OF gr]])
  show "snd (act d) = Done ()" "mirrored sd (final act d) m"
    using materialize_mirrors [OF v] by (auto simp: eq fin)
  have "keeps (refs sd m) d (final act d)" unfolding fin by (rule within_final [OF keeps_preorder k])
  then show "published cd sd (final act d) m" "marker (final act d) = marker d"
    using published_keeps [OF _ subset_refl p] by (auto simp: keeps_def)
  assume "d' \<in> set (fst (act d))"
  then have "keeps (refs sd m) d d'" using k by (simp add: eq within_def)
  then show "published cd sd d' m \<and> marker d' = marker d"
    using published_keeps [OF _ subset_refl p] by (auto simp: keeps_def)
qed

lemma published_recoverable: "published cd sd d m \<Longrightarrow> marker d \<or> mirrored sd d m \<Longrightarrow> recoverable cd sd d"
  by (auto simp: recoverable_def)

lemma then_fst: "fst (then_act a b d) = fst (a d) @ (case snd (a d) of Raised e \<Rightarrow> [] | Done x \<Rightarrow> fst (b (final a d)))"
  by (simp add: then_act_def bind_fst)

lemma then_snd: "snd (then_act a b d) = (case snd (a d) of Raised e \<Rightarrow> Raised e | Done x \<Rightarrow> snd (b (final a d)))"
  by (simp add: then_act_def bind_snd)

lemma then_final: "final (then_act a b) d = (case snd (a d) of Raised e \<Rightarrow> final a d | Done x \<Rightarrow> final b (final a d))"
  by (simp add: then_act_def final_bind)

lemmas then_simps = then_fst then_snd then_final

lemma finally_simps: "fst (finally_act a h d) = fst (a d) @ fst (h (final a d))"
  "snd (finally_act a h d) = snd (a d)" "final (finally_act a h) d = final h (final a d)"
  by (auto simp: finally_act_def final_def last_state_append split: prod.split)

subsection \<open>Materialising what is mirrored already\<close>

text \<open>
  Replacing a root file by the bytes it holds changes nothing, so no state on the way is mixed.
\<close>

definition still :: "string list \<Rightarrow> json \<Rightarrow> disk \<Rightarrow> (string list \<Rightarrow> bytes option) \<Rightarrow> bool" where
  "still sd m d F \<longleftrightarrow> (\<forall>n \<in> set artifact_names. F (sd @ [n]) = artifact_bytes sd m d n) \<and>
     (\<forall>q \<in> set (sidecars sd). F q = None) \<and> (\<forall>p. p \<notin> root_level sd \<longrightarrow> F p = read_file d p)"

definition prepared_still :: "string list \<Rightarrow> string \<Rightarrow> json \<Rightarrow> disk \<Rightarrow> (string list \<Rightarrow> bytes option) \<Rightarrow> bool" where
  "prepared_still sd tok m d F \<longleftrightarrow> still sd m d F \<and> (\<forall>n \<in> set artifact_names. \<forall>p. manifest_artifact_path sd m n = Some p \<longrightarrow>
     F (temporary_name sd tok n) = None \<or> F (temporary_name sd tok n) = read_file d p)"

definition stays_ready :: "string list \<Rightarrow> string \<Rightarrow> json \<Rightarrow> disk \<Rightarrow> disk \<Rightarrow> disk \<Rightarrow> bool" where
  "stays_ready sd tok m d a b \<longleftrightarrow> (prepared_still sd tok m d (read_file a) \<longrightarrow> prepared_still sd tok m d (read_file b))"

lemma stays_ready_preorder [simp]: "composes (stays_ready sd tok m d)"
  by (auto simp: composes_def reflp_def transp_def stays_ready_def)

lemma stays_unlink:
  assumes "\<And>F. prepared_still sd tok m d F \<Longrightarrow> prepared_still sd tok m d (F(p := None))"
  shows "within (stays_ready sd tok m d) (unlink p)"
proof -
  have "read_file (a\<lparr>files := dict_del p (files a)\<rparr>) = (read_file a)(p := None)" for a
    by (auto simp: read_file_def dict_simps fun_eq_iff)
  then show ?thesis
    unfolding unlink_def
    by (intro within_with_disk) (auto simp: ret_def modify_def stays_ready_def assms)
qed

lemma ready_unlink:
  assumes "valid_generation cd sd m d" "prepared_still sd tok m d F"
  shows "q \<in> set (sidecars sd) \<Longrightarrow> prepared_still sd tok m d (F(q := None))"
    "n \<in> set artifact_names \<Longrightarrow> manifest_artifact_path sd m n = None \<Longrightarrow> prepared_still sd tok m d (F(sd @ [n] := None))"
    "n \<in> set artifact_names \<Longrightarrow> prepared_still sd tok m d (F(temporary_name sd tok n := None))"
  using assms(2) temporary_apart [where sd = sd and tok = tok] temporary_apart(1) [where sd = sd and tok = tok, THEN not_sym] root_not_sidecar [of _ sd]
    root_paths [where sd = sd] temporary_root [where sd = sd and tok = tok]
  by (auto simp: prepared_still_def still_def artifact_bytes_def)

lemma ready_replace:
  assumes "valid_generation cd sd m d" "n \<in> set artifact_names" "manifest_artifact_path sd m n = Some p"
    "prepared_still sd tok m d F" "F (temporary_name sd tok n) = Some b"
  shows "prepared_still sd tok m d (F(temporary_name sd tok n := None, sd @ [n] \<mapsto> b))"
  using assms(2-5) temporary_apart [where sd = sd and tok = tok] temporary_apart(1) [where sd = sd and tok = tok, THEN not_sym] root_not_sidecar [of _ sd]
    root_paths [where sd = sd] temporary_root [where sd = sd and tok = tok]
  by (auto simp: prepared_still_def still_def artifact_bytes_def)

lemma stays_swap:
  assumes v: "valid_generation cd sd m d"
  shows "q \<in> set (sidecars sd) \<Longrightarrow> within (stays_ready sd tok m d) (unlink q)"
    "n \<in> set artifact_names \<Longrightarrow> within (stays_ready sd tok m d) (unlink (temporary_name sd tok n))"
    "n \<in> set artifact_names \<Longrightarrow> within (stays_ready sd tok m d) (mirror_absent sd m n)"
    "n \<in> set artifact_names \<Longrightarrow> within (stays_ready sd tok m d) (mirror_prepared sd tok m n)"
proof -
  show "q \<in> set (sidecars sd) \<Longrightarrow> within (stays_ready sd tok m d) (unlink q)"
    by (intro stays_unlink ready_unlink [OF v])
  show "n \<in> set artifact_names \<Longrightarrow> within (stays_ready sd tok m d) (unlink (temporary_name sd tok n))"
    by (intro stays_unlink ready_unlink [OF v])
  show "n \<in> set artifact_names \<Longrightarrow> within (stays_ready sd tok m d) (mirror_absent sd m n)"
    by (auto simp: mirror_absent_def within_ret split: option.split intro!: stays_unlink ready_unlink(2) [OF v])
  assume n: "n \<in> set artifact_names"
  have "within (stays_ready sd tok m d) (replace_file (temporary_name sd tok n) (sd @ [n]))"
    if "manifest_artifact_path sd m n = Some p" for p
    unfolding replace_file_def
  proof (intro within_with_disk, clarify)
    fix a b
    assume mem: "b \<in> set (fst ((case read_file a (temporary_name sd tok n) of None \<Rightarrow> raise_error (MissingFile (temporary_name sd tok n))
       | Some b \<Rightarrow> modify (\<lambda>d. d\<lparr>files := dict_put (sd @ [n]) b (dict_del (temporary_name sd tok n) (files d))\<rparr>)) a))"
    then obtain c where c: "read_file a (temporary_name sd tok n) = Some c"
        and b: "b = a\<lparr>files := dict_put (sd @ [n]) c (dict_del (temporary_name sd tok n) (files a))\<rparr>"
      by (auto simp: raise_error_def modify_def split: option.splits)
    have "read_file b = (read_file a)(temporary_name sd tok n := None, sd @ [n] \<mapsto> c)"
      by (auto simp: b read_file_def dict_simps fun_eq_iff)
    then show "stays_ready sd tok m d a b"
      using ready_replace [where F = "read_file a" and b = c, OF v n that] c by (simp add: stays_ready_def)
  qed
  then show "within (stays_ready sd tok m d) (mirror_prepared sd tok m n)"
    by (auto simp: mirror_prepared_def within_ret split: option.split)
qed

lemma materialize_again:
  assumes v: "valid_generation cd sd m d" and m: "mirrored sd d m"
    and d': "d' \<in> set (fst (materialize_generation sd tok m d))"
  shows "mirrored sd d' m"
proof -
  let ?copy = "each (copy_to_temporary sd tok m) artifact_names"
  let ?clean = "each (\<lambda>name. unlink (temporary_name sd tok name)) artifact_names"
  define swap where "swap = then_act (each unlink (sidecars sd))
     (then_act (each (mirror_absent sd m) artifact_names) (each (mirror_prepared sd tok m) artifact_names))"
  define S where "S = set (map (\<lambda>n. sd @ [n]) artifact_names) \<union> set (sidecars sd) \<union> - root_level sd"
  have gr: "generation_refs sd m" using v by (simp add: valid_generation_def)
  have mirror: "mirrored sd e m" if "still sd m d (read_file e)" for e
  proof -
    have "artifact_bytes sd m e n = artifact_bytes sd m d n" for n
      by (rule artifact_bytes_cong) (use that root_not_refs [OF gr] in \<open>auto simp: still_def\<close>)
    then show ?thesis using that by (simp add: mirrored_def still_def)
  qed
  have still: "still sd m d (read_file d)" using m by (simp add: still_def mirrored_def)
  have "temporary_name sd tok n \<notin> S" if "n \<in> set artifact_names" for n
    using temporary_apart(1) [OF that, where sd = sd and tok = tok] temporary_apart(2) [OF that that, where sd = sd and tok = tok]
      temporary_root [OF that] by (auto simp: S_def)
  then have "within (keeps S) (copy_to_temporary sd tok m n)" if "n \<in> set artifact_names" for n
    unfolding copy_to_temporary_def using that by (auto intro!: within_rules keeps_write split: option.split)
  then have k1: "within (keeps S) ?copy" by (intro within_each keeps_preorder)
  have keep: "still sd m d (read_file e)" if "keeps S d e" for e
  proof -
    have "\<forall>p \<in> S. read_file e p = read_file d p" using that by (simp add: keeps_def)
    then have "\<forall>n \<in> set artifact_names. read_file e (sd @ [n]) = read_file d (sd @ [n])"
        "\<forall>q \<in> set (sidecars sd). read_file e q = read_file d q" "\<forall>p. p \<notin> root_level sd \<longrightarrow> read_file e p = read_file d p"
      by (simp_all add: S_def)
    then show ?thesis using still by (simp add: still_def)
  qed
  let ?d1 = "final ?copy d"
  have ens: "snd (?copy d) = Done ()" "prepared sd tok m d artifact_names (read_file ?d1)"
    using copies_ready [OF v, where d' = d and tok = tok] by (auto simp: ensures_def)
  have rd: "prepared_still sd tok m d (read_file ?d1)"
    using keep [OF within_final [OF keeps_preorder k1, of d]] ens(2) by (simp add: prepared_still_def prepared_def)
  have "within (stays_ready sd tok m d) swap" "within (stays_ready sd tok m d) ?clean"
    unfolding swap_def by (intro within_then within_each stays_swap [OF v] stays_ready_preorder, assumption+)+
  then have fin: "within (stays_ready sd tok m d) (finally_act swap ?clean)"
    by (intro within_finally stays_ready_preorder)
  have r: "prepared_still sd tok m d (read_file e)" if "e \<in> set (fst (finally_act swap ?clean ?d1))" for e
    using fin that rd unfolding within_def stays_ready_def by blast
  have "fst (materialize_generation sd tok m d) = fst (?copy d) @ fst (finally_act swap ?clean ?d1)"
    by (simp add: materialize_generation_def swap_def [symmetric] finally_simps then_simps ens(1))
  then have "d' \<in> set (fst (?copy d)) \<or> d' \<in> set (fst (finally_act swap ?clean ?d1))"
    using d' by auto
  then have "still sd m d (read_file d')"
    using keep r k1 unfolding within_def prepared_still_def by blast
  then show ?thesis by (rule mirror)
qed

lemma final_with_disk: "final (with_disk f) d = final (f d) d"
  by (simp add: final_def with_disk_def)

lemma read_publication_at:
  assumes "read_with_fallback (cd_sha cd) (disk_arts d) sd (mdir d) = Inr r"
  shows "read_publication cd sd f d = f r d"
  by (simp add: read_publication_def with_disk_def assms)

text \<open>Discarding when nothing was ever published.\<close>

lemma discard_steps:
  assumes "nothing_published d"
  shows "snd (discard_working_set sd d) = Done ()" "nothing_published (final (discard_working_set sd) d)"
    "roots_empty sd (final (discard_working_set sd) d)" "marker (final (discard_working_set sd) d) = marker d"
    "d' \<in> set (fst (discard_working_set sd d)) \<Longrightarrow> nothing_published d' \<and> marker d' = marker d"
proof -
  have k: "within (keeps {}) (discard_working_set sd)" by (rule keeps_discard) (simp add: generation_paths_def)
  show "snd (discard_working_set sd d) = Done ()" "roots_empty sd (final (discard_working_set sd) d)"
    using discard_empties [of sd d] by auto
  show "nothing_published (final (discard_working_set sd) d)" "marker (final (discard_working_set sd) d) = marker d"
    using within_final [OF keeps_preorder k, of d] assms by (auto simp: keeps_def nothing_published_def)
  show "d' \<in> set (fst (discard_working_set sd d)) \<Longrightarrow> nothing_published d' \<and> marker d' = marker d"
    using k assms by (auto simp: within_def keeps_def nothing_published_def)
qed

text \<open>Restoring then clearing the marker, the common part of rollback and of a failed save.\<close>

definition undo :: "pub_env \<Rightarrow> unit act" where
  "undo env = then_act (restore env) clear_publication_marker"

lemma undo_published:
  assumes p: "published (pe_codec env) (pe_dir env) d m"
  shows "snd (undo env d) = Done () \<and> published (pe_codec env) (pe_dir env) (final (undo env) d) m \<and>
    mirrored (pe_dir env) (final (undo env) d) m \<and> \<not> marker (final (undo env) d) \<and>
    (\<forall>d' \<in> set (fst (undo env d)). published (pe_codec env) (pe_dir env) d' m \<and>
       (marker d' = marker d \<or> mirrored (pe_dir env) d' m))"
proof -
  let ?cd = "pe_codec env" and ?sd = "pe_dir env"
  let ?act = "then_act (validate_published_generation ?cd ?sd m) (materialize_generation ?sd (pe_temp env) m)"
  note st = restore_steps [OF p, where tok = "pe_temp env"]
  obtain r where "read_with_fallback (cd_sha ?cd) (disk_arts d) ?sd (mdir d) = Inr r" "rr_manifest r = Some m"
    using published_read [OF p] by blast
  then have eq: "restore env d = ?act d"
    using p by (simp add: restore_def restore_last_published_generation_def read_publication_at published_def valid_generation_def)
  then have fin: "final (restore env) d = final ?act d" by (simp add: final_def)
  show ?thesis
    using st by (auto simp: undo_def then_simps eq fin clear_marker dest!: clear_marker(3))
qed

lemma undo_stays:
  assumes p: "published (pe_codec env) (pe_dir env) d m" "mirrored (pe_dir env) d m" "\<not> marker d"
    and d': "d' \<in> set (fst (undo env d))"
  shows "mirrored (pe_dir env) d' m"
proof -
  let ?mat = "materialize_generation (pe_dir env) (pe_temp env) m"
  obtain r where "read_with_fallback (cd_sha (pe_codec env)) (disk_arts d) (pe_dir env) (mdir d) = Inr r" "rr_manifest r = Some m"
    using published_read [OF p(1)] by blast
  then have eq: "restore env d = ?mat d"
    using p(1) by (simp add: restore_def restore_last_published_generation_def read_publication_at published_def valid_generation_def
        then_act_def bind_act_def validate_published_generation_def with_disk_def ret_def last_state_def)
  have v: "valid_generation (pe_codec env) (pe_dir env) m d" using p(1) by (simp add: published_def)
  have "\<not> marker (final ?mat d)" using undo_published [OF p(1)] p(3)
    using within_final [OF keeps_preorder keeps_materialize [where S = "{}" and sd = "pe_dir env" and tok = "pe_temp env" and m = m], of d]
    by (auto simp: keeps_def generation_paths_def)
  then have "fst (undo env d) = fst (?mat d)"
    using eq by (auto simp: undo_def then_fst final_def clear_publication_marker_def with_disk_def ret_def split: outcome.split)
  then show ?thesis using materialize_again [OF v p(2)] d' by simp
qed

lemma undo_nothing:
  assumes p: "nothing_published d"
  shows "snd (undo env d) = Done () \<and> nothing_published (final (undo env) d) \<and>
    roots_empty (pe_dir env) (final (undo env) d) \<and> \<not> marker (final (undo env) d) \<and>
    (\<forall>d' \<in> set (fst (undo env d)). nothing_published d' \<and> (marker d' = marker d \<or> roots_empty (pe_dir env) d'))"
proof -
  let ?cd = "pe_codec env" and ?sd = "pe_dir env"
  obtain r where "read_with_fallback (cd_sha ?cd) (disk_arts d) ?sd (mdir d) = Inr r" "rr_manifest r = None"
    using nothing_read [OF p] by blast
  then have eq: "restore env d = discard_working_set ?sd d"
    using p by (simp add: restore_def restore_last_published_generation_def read_publication_at with_disk_def nothing_published_def)
  then have fin: "final (restore env) d = final (discard_working_set ?sd) d" by (simp add: final_def)
  show ?thesis
    using discard_steps [OF p]
    by (auto simp: undo_def then_simps eq fin clear_marker roots_empty_def nothing_published_def dest!: clear_marker(3))
qed

lemma rollback_undo: "marker d \<Longrightarrow> fst (rollback env d) = fst (undo env d) \<and>
    snd (rollback env d) = (case snd (undo env d) of Done _ \<Rightarrow> Done True | Raised e \<Rightarrow> Raised e)"
  by (auto simp: rollback_def rollback_unpublished_changes_def undo_def restore_def with_disk_def then_simps ret_def
      clear_marker split: outcome.split)

subsection \<open>Recovery from any state a crash can leave\<close>

lemma recover_published:
  assumes p: "published (pe_codec env) (pe_dir env) d m" and ok: "marker d \<or> mirrored (pe_dir env) d m"
  shows "snd (recover env d) = Done () \<and> published (pe_codec env) (pe_dir env) (final (recover env) d) m \<and>
    mirrored (pe_dir env) (final (recover env) d) m \<and> \<not> marker (final (recover env) d) \<and>
    (\<forall>d' \<in> set (fst (recover env d)). published (pe_codec env) (pe_dir env) d' m \<and> (marker d' \<or> mirrored (pe_dir env) d' m))"
proof (cases "marker d")
  case False
  then show ?thesis using p ok by (simp add: recover_def recover_published_generation_def with_disk_def ret_def final_def last_state_def)
next
  case True
  let ?cd = "pe_codec env" and ?sd = "pe_dir env"
  define A where "A = then_act (validate_published_generation ?cd ?sd m) (materialize_generation ?sd (pe_temp env) m)"
  let ?tail = "then_act clear_publication_marker (prune_unreferenced_generations ?cd ?sd)"
  note st = restore_steps [OF p, where tok = "pe_temp env", folded A_def]
  obtain r where "read_with_fallback (cd_sha ?cd) (disk_arts d) ?sd (mdir d) = Inr r" "rr_manifest r = Some m"
    using published_read [OF p] by blast
  then have eq: "recover env d = then_act (validate_published_generation ?cd ?sd m)
      (then_act (materialize_generation ?sd (pe_temp env) m) ?tail) d"
    using p True by (simp add: recover_def recover_published_generation_def with_disk_def read_publication_at published_def valid_generation_def)
  have assoc: "then_act a (then_act b c) e = then_act (then_act a b) c e" for a b c :: "unit act" and e
    by (simp add: prod_eq_iff then_simps split: outcome.split)
  have eq': "recover env d = then_act A ?tail d" by (simp only: eq assoc A_def)
  then have fin: "final (recover env) d = final (then_act A ?tail) d" by (simp add: final_def)
  let ?d1 = "final A d" and ?d2 = "(final A d)\<lparr>marker := False\<rparr>"
  have d2: "published ?cd ?sd ?d2 m" "mirrored ?sd ?d2 m" using st by auto
  have rest: "published ?cd ?sd d' m \<and> mirrored ?sd d' m \<and> \<not> marker d'"
    if "d' = ?d2 \<or> d' \<in> set (fst (prune_unreferenced_generations ?cd ?sd ?d2))" for d'
    using that d2 prune_rest [OF d2] by auto
  have fin2: "final (recover env) d = final (prune_unreferenced_generations ?cd ?sd) ?d2"
    by (simp add: fin then_simps st(1) clear_marker)
  then have "final (recover env) d = ?d2 \<or> final (recover env) d \<in> set (fst (prune_unreferenced_generations ?cd ?sd ?d2))"
    using final_mem by metis
  moreover have "snd (recover env d) = Done ()" by (simp add: eq' then_simps st(1) clear_marker prune_done)
  moreover have "published ?cd ?sd d' m \<and> (marker d' \<or> mirrored ?sd d' m)" if "d' \<in> set (fst (recover env d))" for d'
    using that True st(5) rest by (auto simp: eq' then_simps st(1) clear_marker dest!: clear_marker(3))
  ultimately show ?thesis using rest by blast
qed

lemma recover_nothing:
  assumes p: "nothing_published d" and ok: "marker d \<or> roots_empty (pe_dir env) d"
  shows "snd (recover env d) = Done () \<and> nothing_published (final (recover env) d) \<and>
    roots_empty (pe_dir env) (final (recover env) d) \<and> \<not> marker (final (recover env) d) \<and>
    (\<forall>d' \<in> set (fst (recover env d)). nothing_published d' \<and> (marker d' \<or> roots_empty (pe_dir env) d'))"
proof (cases "marker d")
  case False
  then show ?thesis using p ok by (simp add: recover_def recover_published_generation_def with_disk_def ret_def final_def last_state_def)
next
  case True
  let ?cd = "pe_codec env" and ?sd = "pe_dir env"
  define rm where "rm = with_disk (\<lambda>d. if exists_under d (generation_root ?sd) then remove_tree (generation_root ?sd) else ret ())"
  obtain r where "read_with_fallback (cd_sha ?cd) (disk_arts d) ?sd (mdir d) = Inr r" "rr_manifest r = None"
      "rr_freshness r = ManifestMissing"
    using nothing_read [OF p] by blast
  then have eq: "recover env d = then_act (discard_working_set ?sd) (then_act rm clear_publication_marker) d"
    using True by (simp add: recover_def recover_published_generation_def with_disk_def read_publication_at rm_def)
  define d1 where "d1 = final (discard_working_set ?sd) d"
  define d2 where "d2 = final rm d1"
  have d1: "nothing_published d1" "roots_empty ?sd d1" "marker d1" using discard_steps [OF p] True by (auto simp: d1_def)
  have k: "within (keeps (root_level ?sd)) rm"
    unfolding rm_def by (auto intro!: within_rules keeps_remove_tree simp: root_level_def)
  have rm: "snd (rm e) = Done ()" for e by (simp add: rm_def with_disk_def ret_def remove_tree_done)
  have kr: "nothing_published e' \<and> roots_empty ?sd e' \<and> marker e' = marker e"
    if "e' \<in> set (fst (rm e)) \<or> e' = final rm e" "nothing_published e" "roots_empty ?sd e" for e e'
  proof -
    have "keeps (root_level ?sd) e e'" using that(1) k within_final [OF keeps_preorder k] by (auto simp: within_def)
    then show ?thesis using that(2,3) artifact_root by (auto simp: keeps_def nothing_published_def roots_empty_def)
  qed
  have d2: "nothing_published d2" "roots_empty ?sd d2" "marker d2" using kr [of d2 d1] d1 by (auto simp: d2_def)
  have fst: "fst (recover env d) = fst (discard_working_set ?sd d) @ fst (rm d1) @ fst (clear_publication_marker d2)"
    by (simp add: eq then_simps discard_steps [OF p] rm d1_def d2_def)
  have snd: "snd (recover env d) = Done ()" by (simp add: eq then_simps discard_steps [OF p] rm clear_marker)
  have "final (recover env) d = final (then_act (discard_working_set ?sd) (then_act rm clear_publication_marker)) d"
    by (simp add: final_def eq)
  then have fin: "final (recover env) d = d2\<lparr>marker := False\<rparr>"
    by (simp add: then_simps discard_steps [OF p] rm clear_marker d1_def d2_def)
  have "nothing_published d' \<and> (marker d' \<or> roots_empty ?sd d')" if "d' \<in> set (fst (recover env d))" for d'
  proof -
    from that consider "d' \<in> set (fst (discard_working_set ?sd d))" | "d' \<in> set (fst (rm d1))"
      | "d' \<in> set (fst (clear_publication_marker d2))" unfolding fst by auto
    then show ?thesis
    proof cases
      case 1
      then show ?thesis using discard_steps(5) [OF p] True by blast
    next
      case 2
      then show ?thesis using kr [of d' d1] d1 by simp
    next
      case 3
      then have "d' = d2\<lparr>marker := False\<rparr>" by (rule clear_marker(3))
      then show ?thesis using d2 by simp
    qed
  qed
  then show ?thesis using snd d2 by (simp add: fin)
qed

end
