(* ===== verification/Publication_Stage.thy ===== *)
theory Publication_Stage
  imports Publication_Recover
begin

text \<open>
  Staging a generation: what it leaves alone, and what the manifest it returns names.
\<close>

definition env_ok :: "pub_env \<Rightarrow> bool" where
  "env_ok env \<longleftrightarrow> ok_name (pe_token env) \<and> backslash \<notin> set (pe_token env)"

definition fresh :: "pub_env \<Rightarrow> disk \<Rightarrow> bool" where
  "fresh env d \<longleftrightarrow> \<not> exists_under d (candidate_dir env) \<and> \<not> exists_under d (generation_dir env)"

definition clear_of :: "pub_env \<Rightarrow> string list set \<Rightarrow> bool" where
  "clear_of env S \<longleftrightarrow> (\<forall>p \<in> S. \<not> prefix (candidate_dir env) p \<and> \<not> prefix (generation_dir env) p)"

lemma dirs_apart: "\<not> prefix (candidate_dir env) (generation_dir env)" "\<not> prefix (generation_dir env) (candidate_dir env)"
  by (auto simp: candidate_dir_def generation_dir_def prefix_def dest: arg_cong [where f = length])

lemma refs_apart: "valid_generation cd (pe_dir env) m d \<Longrightarrow> fresh env d \<Longrightarrow> clear_of env (refs (pe_dir env) m)"
  unfolding clear_of_def fresh_def exists_under_iff using refs_exist by blast

subsection \<open>Staging touches the two new directories only\<close>

lemma not_under: "\<forall>p \<in> S. \<not> prefix dir p \<Longrightarrow> dir @ x \<notin> S"
  by (auto simp: prefix_def)

lemma keeps_snapshot: "(\<forall>p \<in> S. \<not> prefix dir p) \<Longrightarrow> within (keeps S) (snapshot_sqlite cd sd dir name)"
  unfolding snapshot_sqlite_def Let_def
  by (intro within_reads) (auto intro!: within_rules keeps_write split: option.split simp: not_under)

lemma keeps_candidate: "(\<forall>p \<in> S. \<not> prefix dir p) \<Longrightarrow> within (keeps S) (write_candidate_generation cd sd w dir)"
  unfolding write_candidate_generation_def copy_stats_def write_optional_def
  by (intro within_reads) (auto intro!: within_rules keeps_write keeps_snapshot split: option.split simp: not_under)

lemma keeps_build: "within (keeps S) (build_generation_manifest cd cfg ep ts sd dir)"
  unfolding build_generation_manifest_def by (auto intro!: within_rules split: sum.split)

lemma keeps_stage: "clear_of env S \<Longrightarrow> within (keeps S) (stage env w)"
  unfolding stage_def stage_generation_def
  by (intro within_rules keeps_candidate keeps_build keeps_validate keeps_replace_dir dirs_apart)
     (auto simp: clear_of_def)

subsection \<open>The manifest of a staged generation\<close>

lemma artifact_entries_get:
  "artifact_entries sha arts pd specs d = Inr d' \<Longrightarrow> distinct (map art_name specs) \<Longrightarrow>
   dict_get d' name = (case map_of (map (\<lambda>s. (art_name s, s)) specs) name of
      None \<Rightarrow> dict_get d name
    | Some s \<Rightarrow> (case artifact_entry sha arts pd s of Inl _ \<Rightarrow> None | Inr e \<Rightarrow> Some e))"
proof (induction specs arbitrary: d)
  case (Cons s specs)
  then obtain e where e: "artifact_entry sha arts pd s = Inr e"
      "artifact_entries sha arts pd specs (dict_put (art_name s) e d) = Inr d'"
    by (auto simp: bindr_Inr)
  have "map_of (map (\<lambda>s. (art_name s, s)) specs) (art_name s) = None"
    using Cons.prems(2) by (force simp: map_of_eq_None_iff)
  then show ?case using Cons.IH [OF e(2)] Cons.prems(2) e(1) by (auto simp: dict_simps split: option.split)
qed simp

lemma artifact_entries_mem:
  "artifact_entries sha arts pd specs d = Inr d' \<Longrightarrow> (n, e) \<in> set d' \<Longrightarrow>
   (n, e) \<in> set d \<or> (\<exists>s \<in> set specs. artifact_entry sha arts pd s = Inr e)"
proof (induction specs arbitrary: d)
  case (Cons s specs)
  then obtain f where f: "artifact_entry sha arts pd s = Inr f"
      "artifact_entries sha arts pd specs (dict_put (art_name s) f d) = Inr d'"
    by (auto simp: bindr_Inr)
  then show ?case using Cons.IH [OF f(2) Cons.prems(2)] dict_put_mem [of n e "art_name s" f d] by auto
qed simp

lemma artifact_entries_nonempty: "artifact_entries sha arts pd specs d = Inr d' \<Longrightarrow> specs \<noteq> [] \<or> d \<noteq> [] \<Longrightarrow> d' \<noteq> []"
proof (induction specs arbitrary: d)
  case (Cons s specs)
  obtain e where e: "artifact_entries sha arts pd specs (dict_put (art_name s) e d) = Inr d'"
    using Cons.prems(1) by (auto simp: bindr_Inr)
  have "dict_put (art_name s) e d \<noteq> []" by (cases d) auto
  then show ?case using Cons.IH [OF e] by blast
qed simp

lemma artifact_entry_path:
  assumes "artifact_entry sha arts pd s = Inr e" "spec_ok pd s"
  shows "locate pd (entry_path e) = art_path s" "json_truthy e"
    "entry_path e = relative_path (drop (length pd) (art_path s))" "\<exists>b. arts (art_path s) = Artifact b"
proof -
  obtain rel b where r: "relative_name pd (art_path s) = Some rel" "arts (art_path s) = Artifact b"
      "entry_path e = rel" "json_truthy e"
    using assms(1) by (auto simp: artifact_entry_def entry_path_def jget_def split: artifact.splits option.splits)
  then show "locate pd (entry_path e) = art_path s" "json_truthy e" "\<exists>b. arts (art_path s) = Artifact b"
    using relative_name_locate [OF assms(2)] by auto
  let ?xs = "drop (length pd) (art_path s)"
  have "\<forall>c\<in>set (relative_path ?xs). c \<noteq> backslash"
    using relative_path_chars [of ?xs] assms(2) backslash_neq by (auto simp: spec_ok_def list_all_iff)
  then have "map (\<lambda>c. if c = backslash then CHR ''/'' else c) (relative_path ?xs) = relative_path ?xs"
    by (intro map_idI) auto
  then show "entry_path e = relative_path ?xs" using r by (auto simp: relative_name_def split: if_splits)
qed

lemma build_artifacts:
  assumes "build_manifest sha arts ep ts pd specs cfg = Inr m"
  shows "artifact_entries sha arts pd specs [] = Inr (manifest_artifacts m)"
proof -
  obtain d where d: "artifact_entries sha arts pd specs [] = Inr d"
    using assms by (auto simp: build_manifest_def bindr_Inr)
  have "\<exists>ob. m = JObj ob \<and> jget ob ''artifacts'' = Some (JObj d)"
    using assms d by (auto simp: build_manifest_def jget_def Let_def split: list.splits if_splits)
  then show ?thesis using d by (auto simp: manifest_artifacts_def)
qed

lemma artifact_names_ok: "list_all (\<lambda>n. ok_name n \<and> backslash \<notin> set n) (''.generations'' # artifact_names)"
  by code_simp

lemma generation_spec_ok:
  assumes "env_ok env" "name \<in> set artifact_names"
  shows "spec_ok (pe_dir env) (artifact_spec_for (generation_dir env) name n)"
  using assms artifact_names_ok
  by (auto simp: spec_ok_def artifact_spec_for_def generation_dir_def generation_root_def env_ok_def list_all_iff)

lemma generation_relative: "relative_path (drop (length (pe_dir env)) (generation_dir env @ [name])) =
    ''.generations/'' @ pe_token env @ ''/'' @ name"
  by (simp add: generation_dir_def generation_root_def relative_path_def)

definition optional_artifacts :: "string list" where
  "optional_artifacts = [''metadata.db'', ''fts5.db'', ''stats.json'', ''float_store.npy'']"

definition generation_specs :: "string list \<Rightarrow> disk \<Rightarrow> nat \<Rightarrow> nat \<Rightarrow> artifact_spec list" where
  "generation_specs dir d n rows = [artifact_spec_for dir ''chunk_ids.pkl'' (Some n),
     artifact_spec_for dir ''code.index'' (Some rows)] @
     map (\<lambda>name. artifact_spec_for dir name None)
       (filter (\<lambda>name. read_file d (dir @ [name]) \<noteq> None) optional_artifacts)"

lemma optional_names: "distinct (''chunk_ids.pkl'' # ''code.index'' # optional_artifacts)"
  "set artifact_names = {''chunk_ids.pkl'', ''code.index''} \<union> set optional_artifacts"
  by (auto simp: optional_artifacts_def artifact_names_def)

lemma spec_for_simps [simp]: "art_name (artifact_spec_for dir name n) = name" "art_path (artifact_spec_for dir name n) = dir @ [name]"
  by (simp_all add: artifact_spec_for_def)

lemma generation_specs_mem:
  "s \<in> set (generation_specs dir d n rows) \<Longrightarrow> (\<exists>k. s = artifact_spec_for dir (art_name s) k) \<and>
     (art_name s = ''chunk_ids.pkl'' \<or> art_name s = ''code.index'' \<or>
      art_name s \<in> set optional_artifacts \<and> read_file d (dir @ [art_name s]) \<noteq> None)"
  by (auto simp: generation_specs_def)

lemma generation_specs_name_set: "art_name ` set (generation_specs dir d n rows) =
    {''chunk_ids.pkl'', ''code.index''} \<union> {x \<in> set optional_artifacts. read_file d (dir @ [x]) \<noteq> None}"
  by (auto simp: generation_specs_def image_image)

lemma generation_specs_names:
  "distinct (map art_name (generation_specs dir d n rows))"
  "s \<in> set (generation_specs dir d n rows) \<Longrightarrow> \<exists>name k. name \<in> set artifact_names \<and> s = artifact_spec_for dir name k"
proof -
  have "map art_name (generation_specs dir d n rows) =
      ''chunk_ids.pkl'' # ''code.index'' # filter (\<lambda>name. read_file d (dir @ [name]) \<noteq> None) optional_artifacts"
    by (simp add: generation_specs_def o_def)
  then show "distinct (map art_name (generation_specs dir d n rows))"
    using optional_names(1) by (simp only: distinct.simps set_filter list.set) auto
  show "s \<in> set (generation_specs dir d n rows) \<Longrightarrow> \<exists>name k. name \<in> set artifact_names \<and> s = artifact_spec_for dir name k"
    using generation_specs_mem [of s dir d n rows] optional_names(2) by blast
qed

lemma generation_specs_get:
  assumes "read_file d (dir @ [''chunk_ids.pkl'']) \<noteq> None" "read_file d (dir @ [''code.index'']) \<noteq> None" "name \<in> set artifact_names"
  shows "case map_of (map (\<lambda>s. (art_name s, s)) (generation_specs dir d n rows)) name of
    None \<Rightarrow> read_file d (dir @ [name]) = None | Some s \<Rightarrow> art_path s = dir @ [name] \<and> read_file d (dir @ [name]) \<noteq> None"
proof (cases "map_of (map (\<lambda>s. (art_name s, s)) (generation_specs dir d n rows)) name")
  case None
  then have "name \<notin> art_name ` set (generation_specs dir d n rows)" by (auto simp: map_of_eq_None_iff image_iff)
  then have "read_file d (dir @ [name]) = None" using assms(3) unfolding generation_specs_name_set optional_names(2) by blast
  then show ?thesis using None by simp
next
  case (Some s)
  then have s: "s \<in> set (generation_specs dir d n rows)" "art_name s = name" by (auto dest!: map_of_SomeD)
  then obtain k where k: "s = artifact_spec_for dir name k" using generation_specs_mem by metis
  have "read_file d (dir @ [name]) \<noteq> None" using generation_specs_mem [OF s(1)] s(2) assms(1,2) by auto
  then show ?thesis using Some k by simp
qed

lemma generation_manifest_parts:
  assumes "generation_manifest cd cfg ep ts sd dir d = Inr m"
  obtains n rows cfg' where "read_file d (dir @ [''chunk_ids.pkl'']) \<noteq> None" "read_file d (dir @ [''code.index'']) \<noteq> None"
    "build_manifest (cd_sha cd) (disk_arts d) ep ts sd (generation_specs dir d n rows) cfg' = Inr m"
  using assms
  by (auto simp: generation_manifest_def generation_specs_def optional_artifacts_def Let_def split: option.splits prod.splits if_splits sum.splits)

lemma generation_manifest_names:
  assumes m: "generation_manifest cd cfg ep ts (pe_dir env) (generation_dir env) d = Inr m" and env: "env_ok env"
  shows "manifest_uses_generation m" "generation_refs (pe_dir env) m"
    "name \<in> set artifact_names \<Longrightarrow> artifact_bytes (pe_dir env) m d name = read_file d (generation_dir env @ [name])"
    "\<forall>p \<in> refs (pe_dir env) m. prefix (generation_dir env) p"
proof -
  let ?sd = "pe_dir env" and ?gen = "generation_dir env"
  obtain n rows cfg' where p: "read_file d (?gen @ [''chunk_ids.pkl'']) \<noteq> None" "read_file d (?gen @ [''code.index'']) \<noteq> None"
      "build_manifest (cd_sha cd) (disk_arts d) ep ts ?sd (generation_specs ?gen d n rows) cfg' = Inr m"
    using generation_manifest_parts [OF m] .
  let ?specs = "generation_specs ?gen d n rows"
  note es = build_artifacts [OF p(3)]
  have entry: "\<exists>name \<in> set artifact_names. locate ?sd (entry_path e) = ?gen @ [name] \<and> json_truthy e \<and>
      entry_path e = ''.generations/'' @ pe_token env @ ''/'' @ name" if e: "(k, e) \<in> set (manifest_artifacts m)" for k e
  proof -
    obtain s where s: "s \<in> set ?specs" "artifact_entry (cd_sha cd) (disk_arts d) ?sd s = Inr e"
      using artifact_entries_mem [OF es e] by auto
    obtain name c where nm: "name \<in> set artifact_names" "s = artifact_spec_for ?gen name c"
      using generation_specs_names(2) [OF s(1)] by blast
    have ok: "spec_ok ?sd s" using generation_spec_ok [OF env nm(1)] nm(2) by simp
    have path: "art_path s = ?gen @ [name]" by (simp add: nm artifact_spec_for_def)
    show ?thesis
      using artifact_entry_path [OF s(2) ok] nm(1) unfolding path generation_relative by blast
  qed
  have gen: "prefix (generation_root ?sd) (?gen @ [x]) \<and> length (generation_root ?sd) < length (?gen @ [x])" for x
    by (auto simp: generation_dir_def prefix_def)
  have "manifest_artifacts m \<noteq> []"
    using artifact_entries_nonempty [OF es] by (simp add: generation_specs_def)
  moreover have sw: "starts_with (map (\<lambda>c. if c = backslash then CHR ''/'' else c) (''.generations/'' @ x)) ''.generations/''" for x
    by (simp add: starts_with_def backslash_def)
  have "starts_with (map (\<lambda>c. if c = backslash then CHR ''/'' else c) (entry_path e)) ''.generations/''"
    if mem: "(k, e) \<in> set (manifest_artifacts m)" for k e
  proof -
    obtain name where "entry_path e = ''.generations/'' @ (pe_token env @ ''/'' @ name)" using entry [OF mem] by blast
    then show ?thesis using sw [of "pe_token env @ ''/'' @ name"] by (simp only: append_assoc)
  qed
  ultimately show "manifest_uses_generation m" unfolding manifest_uses_generation_def list_all_iff by blast
  have loc: "\<exists>name. locate ?sd (entry_path e) = ?gen @ [name]" if "(k, e) \<in> set (manifest_artifacts m)" for k e
    using entry [of k e] that by blast
  show "generation_refs ?sd m"
    unfolding generation_refs_def list_all_iff Let_def
  proof (clarify)
    fix k e assume "(k, e) \<in> set (manifest_artifacts m)"
    then obtain name where "locate ?sd (entry_path e) = ?gen @ [name]" using loc by blast
    then show "prefix (generation_root ?sd) (locate ?sd (entry_path e)) \<and>
        length (generation_root ?sd) < length (locate ?sd (entry_path e))" using gen [of name] by (simp only:)
  qed
  show "\<forall>p \<in> refs ?sd m. prefix ?gen p"
  proof
    fix p assume "p \<in> refs ?sd m"
    then obtain k e where "(k, e) \<in> set (manifest_artifacts m)" "p = locate ?sd (entry_path e)" by (auto simp: refs_def)
    then show "prefix ?gen p" using loc by fastforce
  qed
  assume name: "name \<in> set artifact_names"
  have sp: "case map_of (map (\<lambda>s. (art_name s, s)) ?specs) name of
      None \<Rightarrow> read_file d (?gen @ [name]) = None | Some s \<Rightarrow> art_path s = ?gen @ [name] \<and> read_file d (?gen @ [name]) \<noteq> None"
    by (rule generation_specs_get [OF p(1,2) name])
  show "artifact_bytes ?sd m d name = read_file d (?gen @ [name])"
  proof (cases "map_of (map (\<lambda>s. (art_name s, s)) ?specs) name")
    case None
    then show ?thesis using artifact_entries_get [OF es generation_specs_names(1), of name] sp
      by (simp add: artifact_bytes_def manifest_artifact_path_def)
  next
    case (Some s)
    then have s: "s \<in> set ?specs" by (auto dest!: map_of_SomeD)
    obtain nm c where nm: "nm \<in> set artifact_names" "s = artifact_spec_for ?gen nm c"
      using generation_specs_names(2) [OF s] by blast
    have ok: "spec_ok ?sd s" using generation_spec_ok [OF env nm(1)] nm(2) by simp
    have "disk_arts d (art_path s) = Artifact (the (read_file d (?gen @ [name])))"
      using sp Some by (auto simp: disk_arts_def)
    moreover have "relative_name ?sd (art_path s) \<noteq> None"
      using sp Some by (simp add: relative_name_def generation_dir_def generation_root_def)
    ultimately obtain e where e: "artifact_entry (cd_sha cd) (disk_arts d) ?sd s = Inr e"
      by (auto simp: artifact_entry_def)
    then have "dict_get (manifest_artifacts m) name = Some e"
      using artifact_entries_get [OF es generation_specs_names(1), of name] Some by simp
    then show ?thesis using artifact_entry_path(1,2) [OF e ok] sp Some
      by (simp add: artifact_bytes_def manifest_artifact_path_def)
  qed
qed

end
