(* ===== verification/Publication_Atomic.thy ===== *)
theory Publication_Atomic
  imports Publication_Stage
begin

text \<open>
  Saving is atomic and crashes are harmless. \<open>settled env o d\<close> says that the publication point of \<open>d\<close>
  is \<open>o\<close> (a manifest whose generation validates, or nothing yet) and that either the marker is set or
  the root files already agree with it. Every state any operation passes through is settled; only
  the last step of a commit moves the point.
\<close>

definition point :: "pub_env \<Rightarrow> json option \<Rightarrow> disk \<Rightarrow> bool" where
  "point env pt d = (case pt of None \<Rightarrow> nothing_published d
     | Some m \<Rightarrow> published (pe_codec env) (pe_dir env) d m)"

definition rest :: "pub_env \<Rightarrow> json option \<Rightarrow> disk \<Rightarrow> bool" where
  "rest env pt d = (case pt of None \<Rightarrow> roots_empty (pe_dir env) d | Some m \<Rightarrow> mirrored (pe_dir env) d m)"

definition settled :: "pub_env \<Rightarrow> json option \<Rightarrow> disk \<Rightarrow> bool" where
  "settled env pt d \<longleftrightarrow> point env pt d \<and> (marker d \<or> rest env pt d)"

definition point_refs :: "pub_env \<Rightarrow> json option \<Rightarrow> string list set" where
  "point_refs env pt = (case pt of None \<Rightarrow> {} | Some m \<Rightarrow> refs (pe_dir env) m)"

lemma point_keeps: "keeps S d d' \<Longrightarrow> point_refs env pt \<subseteq> S \<Longrightarrow> point env pt d \<Longrightarrow> point env pt d'"
  using published_keeps by (auto simp: point_def point_refs_def nothing_published_def keeps_def split: option.splits)

lemma rest_keeps: "keeps (root_level (pe_dir env) \<union> point_refs env pt) d d' \<Longrightarrow> rest env pt d \<Longrightarrow> rest env pt d'"
  using mirrored_keeps artifact_root
  by (auto simp: rest_def point_refs_def roots_empty_def keeps_def split: option.splits)

lemma point_paths: "point env pt d \<Longrightarrow> generation_paths (pe_dir env) (point_refs env pt)"
  using refs_paths by (auto simp: point_def point_refs_def published_def valid_generation_def generation_paths_def split: option.splits)

lemma point_apart: "point env pt d \<Longrightarrow> fresh env d \<Longrightarrow> clear_of env (point_refs env pt)"
  using refs_apart by (auto simp: point_def point_refs_def published_def clear_of_def split: option.splits)

lemma point_unmarked [simp]: "point env pt (d\<lparr>marker := b\<rparr>) = point env pt d"
  by (auto simp: point_def split: option.split)

lemma rest_unmarked [simp]: "rest env pt (d\<lparr>marker := b\<rparr>) = rest env pt d"
  by (auto simp: rest_def split: option.split)

lemma settled_recoverable: "(\<exists>pt. settled env pt d) \<longleftrightarrow> recoverable (pe_codec env) (pe_dir env) d"
proof
  assume "\<exists>pt. settled env pt d"
  then show "recoverable (pe_codec env) (pe_dir env) d"
    by (auto simp: settled_def recoverable_def point_def rest_def split: option.splits)
next
  assume "recoverable (pe_codec env) (pe_dir env) d"
  then consider m where "settled env (Some m) d" | "settled env None d"
    by (auto simp: settled_def recoverable_def point_def rest_def)
  then show "\<exists>pt. settled env pt d" by cases auto
qed

subsection \<open>Undoing, recovering, marking\<close>

lemma undo_point:
  assumes "point env pt d"
  shows "snd (undo env d) = Done () \<and> point env pt (final (undo env) d) \<and> rest env pt (final (undo env) d) \<and>
    \<not> marker (final (undo env) d) \<and>
    (\<forall>d' \<in> set (fst (undo env d)). point env pt d' \<and> (marker d' = marker d \<or> rest env pt d'))"
  using assms undo_published [of env d] undo_nothing [of d env] by (auto simp: point_def rest_def split: option.splits)

lemma recover_settled:
  assumes "settled env pt d"
  shows "snd (recover env d) = Done () \<and> point env pt (final (recover env) d) \<and> rest env pt (final (recover env) d) \<and>
    \<not> marker (final (recover env) d) \<and> (\<forall>d' \<in> set (fst (recover env d)). settled env pt d')"
  using assms recover_published [of env d] recover_nothing [of d env]
  by (auto simp: settled_def point_def rest_def split: option.splits)

lemma mark_dirty_settled:
  assumes "settled env pt d"
  shows "snd (mark_dirty env d) = Done () \<and> final (mark_dirty env) d = d\<lparr>marker := True\<rparr> \<and>
    (\<forall>d' \<in> set (fst (mark_dirty env d)). d' = d\<lparr>marker := True\<rparr>)"
proof (cases "marker d")
  case True
  then have "d\<lparr>marker := True\<rparr> = d" by (cases d) simp
  then show ?thesis using True by (simp add: mark_dirty_def with_disk_def ret_def final_def last_state_def)
next
  case False
  obtain r where r: "read_with_fallback (cd_sha (pe_codec env)) (disk_arts d) (pe_dir env) (mdir d) = Inr r"
      "rr_manifest r \<noteq> None \<or> root_file env d ''code.index'' = None"
  proof (cases pt)
    case None
    then have "nothing_published d" "roots_empty (pe_dir env) d" using assms False by (auto simp: settled_def point_def rest_def)
    then show ?thesis using that nothing_read by (fastforce simp: roots_empty_def root_file_def artifact_names_def)
  next
    case (Some m)
    then have "published (pe_codec env) (pe_dir env) d m" using assms by (simp add: settled_def point_def)
    then show ?thesis using that published_read by fastforce
  qed
  then have eq: "mark_dirty env d = then_act (ret ()) write_publication_marker d"
    using False by (auto simp: mark_dirty_def with_disk_def [of "\<lambda>d. if marker d then _ d else _ d"] with_disk_def read_publication_at)
  then have fin: "final (mark_dirty env) d = final (then_act (ret ()) write_publication_marker) d" by (simp add: final_def)
  show ?thesis
    by (simp add: fin eq then_simps) (simp add: ret_def write_publication_marker_def modify_def final_def last_state_def)
qed

subsection \<open>Staging and committing\<close>

lemma then_Done: "snd (then_act a b d) = Done x \<longleftrightarrow> snd (a d) = Done () \<and> snd (b (final a d)) = Done x"
  by (auto simp: then_snd split: outcome.split)

lemma bind_Done: "snd (bind_act a f d) = Done x \<longleftrightarrow> (\<exists>y. snd (a d) = Done y \<and> snd (f y (final a d)) = Done x)"
  by (auto simp: bind_snd split: outcome.split)

lemma final_then_Done: "snd (a d) = Done () \<Longrightarrow> final (then_act a b) d = final b (final a d)"
  by (simp add: then_final)

lemma build_pure: "fst (build_generation_manifest cd cfg ep ts sd dir d) = []"
  "final (build_generation_manifest cd cfg ep ts sd dir) d = d"
  "snd (build_generation_manifest cd cfg ep ts sd dir d) = Done m \<Longrightarrow> generation_manifest cd cfg ep ts sd dir d = Inr m"
  by (auto simp: build_generation_manifest_def with_disk_def raise_error_def ret_def final_def last_state_def split: sum.splits)

lemma validate_pure: "fst (validate_published_generation cd sd m d) = []"
  "final (validate_published_generation cd sd m) d = d"
  "snd (validate_published_generation cd sd m d) = Done () \<Longrightarrow> validate_error cd sd m d = None"
  by (auto simp: validate_published_generation_def with_disk_def raise_error_def ret_def final_def last_state_def split: option.splits)

lemma ret_simps: "fst (ret x d) = []" "snd (ret x d) = Done x" "final (ret x) d = d"
  by (simp_all add: ret_def final_def last_state_def)

definition saved_bytes :: "pub_env \<Rightarrow> working \<Rightarrow> disk \<Rightarrow> string list \<Rightarrow> bool" where
  "saved_bytes env w d dir \<longleftrightarrow> read_file d (dir @ [''code.index'']) = w_index w \<and>
     read_file d (dir @ [''chunk_ids.pkl'']) = Some (w_ids w)"

lemma candidate_bytes:
  assumes "snd (write_candidate_generation cd sd w dir d) = Done ()"
  shows "read_file (final (write_candidate_generation cd sd w dir) d) (dir @ [''code.index'']) = w_index w \<and>
    read_file (final (write_candidate_generation cd sd w dir) d) (dir @ [''chunk_ids.pkl'']) = Some (w_ids w)"
proof -
  let ?S = "{dir @ [''code.index''], dir @ [''chunk_ids.pkl'']}"
  define tl_act where "tl_act = then_act (write_optional (dir @ [''float_store.npy'']) (w_floats w))
         (then_act (snapshot_sqlite cd sd dir ''metadata.db'') (then_act (snapshot_sqlite cd sd dir ''fts5.db'') (copy_stats sd dir)))"
  obtain ix where ix: "w_index w = Some ix"
    and eq: "write_candidate_generation cd sd w dir d =
      then_act (write_bytes (dir @ [''code.index'']) ix) (then_act (write_bytes (dir @ [''chunk_ids.pkl'']) (w_ids w)) tl_act) d"
    using assms by (auto simp: write_candidate_generation_def with_disk_def raise_error_def tl_act_def split: option.splits if_splits)
  have "within (keeps ?S) (snapshot_sqlite cd sd dir n)" if "n \<in> {''metadata.db'', ''fts5.db''}" for n
    unfolding snapshot_sqlite_def Let_def
    by (intro within_reads) (use that in \<open>auto intro!: within_rules keeps_write split: option.split\<close>)
  then have tl: "within (keeps ?S) tl_act"
    unfolding tl_act_def write_optional_def copy_stats_def
    by (auto intro!: within_rules keeps_write split: option.split)
  let ?d1 = "final (write_bytes (dir @ [''code.index'']) ix) d"
  let ?d2 = "final (write_bytes (dir @ [''chunk_ids.pkl'']) (w_ids w)) ?d1"
  have d1: "snd (write_bytes (dir @ [''code.index'']) ix d) = Done ()" "read_file ?d1 = (read_file d)(dir @ [''code.index''] \<mapsto> ix)"
    using effect_write [of "dir @ [''code.index'']" ix d] by (auto simp: effect_def)
  have d2: "snd (write_bytes (dir @ [''chunk_ids.pkl'']) (w_ids w) ?d1) = Done ()"
      "read_file ?d2 = (read_file ?d1)(dir @ [''chunk_ids.pkl''] \<mapsto> w_ids w)"
    using effect_write [of "dir @ [''chunk_ids.pkl'']" "w_ids w" ?d1] by (auto simp: effect_def)
  have "final (write_candidate_generation cd sd w dir) d = final tl_act ?d2"
    using eq d1(1) d2(1) by (simp add: final_def [of "write_candidate_generation cd sd w dir"] final_def [symmetric] final_then_Done)
  moreover have "keeps ?S ?d2 (final tl_act ?d2)" by (rule within_final [OF keeps_preorder tl])
  ultimately show ?thesis using d1(2) d2(2) ix by (simp add: keeps_def)
qed

lemma replace_dir_Done:
  assumes "snd (replace_dir src dst d) = Done ()" "\<not> prefix dst src" "\<not> prefix src dst"
  shows "read_file (final (replace_dir src dst) d) (dst @ x) = read_file d (src @ x)"
proof -
  have fresh: "\<not> exists_under d dst" using assms(1) by (auto simp: replace_dir_def with_disk_def raise_error_def split: if_splits)
  then have nd: "\<forall>(q, _) \<in> set (files d). \<not> prefix dst q" by (auto simp: exists_under_def list_ex_iff)
  have "final (replace_dir src dst) d = d\<lparr>files := map (\<lambda>(q, b).
            (if prefix src q then dst @ drop (length src) q else q, b)) (files d)\<rparr>"
    using fresh by (simp add: replace_dir_def with_disk_def modify_def final_def last_state_def)
  then show ?thesis using read_moved [OF assms(2,3) nd, of "dst @ x"] by (simp add: read_file_def)
qed

lemma stage_done:
  assumes m: "snd (stage env w d) = Done m" and env: "env_ok env"
  defines "d1 \<equiv> final (stage env w) d"
  shows "valid_generation (pe_codec env) (pe_dir env) m d1" "\<forall>p \<in> refs (pe_dir env) m. prefix (generation_dir env) p"
    "artifact_bytes (pe_dir env) m d1 ''code.index'' = w_index w"
    "artifact_bytes (pe_dir env) m d1 ''chunk_ids.pkl'' = Some (w_ids w)"
proof -
  let ?cd = "pe_codec env" and ?sd = "pe_dir env" and ?cand = "candidate_dir env" and ?gen = "generation_dir env"
  let ?cand_act = "write_candidate_generation ?cd ?sd w ?cand"
  let ?build = "build_generation_manifest ?cd (pe_config env) (pe_epoch env) (pe_time env) ?sd"
  let ?dw = "final ?cand_act d"
  let ?dr = "final (replace_dir ?cand ?gen) ?dw"
  obtain m0 where o: "snd (?cand_act d) = Done ()" "snd (?build ?cand ?dw) = Done m0"
      "snd (validate_published_generation ?cd ?sd m0 ?dw) = Done ()" "snd (replace_dir ?cand ?gen ?dw) = Done ()"
      "snd (?build ?gen ?dr) = Done m" "snd (validate_published_generation ?cd ?sd m ?dr) = Done ()"
    using m by (auto simp: stage_def stage_generation_def then_Done bind_Done build_pure validate_pure ret_simps)
  have d1: "d1 = ?dr"
    using o by (simp add: d1_def stage_def stage_generation_def then_final final_bind build_pure validate_pure ret_simps)
  note gm = generation_manifest_names [OF build_pure(3) [OF o(5)] env]
  show "valid_generation ?cd ?sd m d1"
    using validate_pure(3) [OF o(6)] gm(1,2) by (simp add: valid_generation_def d1)
  show "\<forall>p \<in> refs ?sd m. prefix ?gen p" by (rule gm(4))
  have move: "read_file ?dr (?gen @ x) = read_file ?dw (?cand @ x)" for x
    by (rule replace_dir_Done [OF o(4)]) (use dirs_apart in auto)
  show "artifact_bytes ?sd m d1 ''code.index'' = w_index w" "artifact_bytes ?sd m d1 ''chunk_ids.pkl'' = Some (w_ids w)"
    using gm(3) [of "''code.index''"] gm(3) [of "''chunk_ids.pkl''"] candidate_bytes [OF o(1)]
    by (simp_all add: d1 move artifact_names_def)
qed

subsection \<open>The body of a save\<close>

text \<open>
  All states of a commit but the last keep the publication point; the last one moves it.
\<close>

lemma commit_point:
  assumes p: "point env pt d" and v: "valid_generation (pe_codec env) (pe_dir env) m d"
  defines "ss \<equiv> commit_states (cd_sha (pe_codec env)) (disk_arts d) (pe_dir env) m (mdir d)"
  shows "\<exists>xs s. tl ss = xs @ [s] \<and> list_all (\<lambda>s. point env pt (d\<lparr>mdir := s\<rparr>)) xs \<and> point env (Some m) (d\<lparr>mdir := s\<rparr>)"
proof -
  let ?sd = "pe_dir env" and ?cd = "pe_codec env"
  have valid: "valid_generation ?cd ?sd k (d\<lparr>mdir := s\<rparr>) = valid_generation ?cd ?sd k d" for k s
    using validate_cong [of ?sd k "d\<lparr>mdir := s\<rparr>" d ?cd] by (simp add: valid_generation_def read_file_def)
  let ?dir = "mdir d"
  let ?ver = "is_verified (cd_sha ?cd) (disk_arts d) ?sd (current_file ?dir)"
  let ?torn = "?dir\<lparr>candidate_file := Unreadable\<rparr>" and ?written = "?dir\<lparr>candidate_file := Holds m\<rparr>"
  let ?rot = "if current_file ?dir \<noteq> Absent \<and> ?ver
     then ?written\<lparr>prior_file := current_file ?dir, current_file := Absent\<rparr> else ?written"
  let ?prom = "?rot\<lparr>current_file := Holds m, candidate_file := Absent\<rparr>"
  have tl: "tl ss = [?torn, ?written, ?rot] @ [?prom]" by (simp add: ss_def commit_states_def Let_def)
  have a: "point env pt (d\<lparr>mdir := ?torn\<rparr>)" "point env pt (d\<lparr>mdir := ?written\<rparr>)"
    using p by (auto simp: point_def nothing_published_def published_def committed_def valid split: option.splits)
  have b: "point env pt (d\<lparr>mdir := ?rot\<rparr>)"
  proof (cases pt)
    case None
    then show ?thesis using p by (simp add: point_def nothing_published_def)
  next
    case (Some k)
    then have k: "committed ?dir k" "valid_generation ?cd ?sd k d" using p by (auto simp: point_def published_def)
    have "current_file ?dir = Holds k \<Longrightarrow> ?ver" using published_verifies(1) [OF k(2)] by (simp add: is_verified_def)
    then show ?thesis using Some k by (auto simp: point_def published_def committed_def valid)
  qed
  have c: "point env (Some m) (d\<lparr>mdir := ?prom\<rparr>)" using v by (simp add: point_def published_def committed_def valid)
  show ?thesis
    unfolding tl by (intro exI conjI) (rule refl, use a b c in \<open>simp_all del: if_split\<close>)
qed

definition body_after_stage :: "pub_env \<Rightarrow> json \<Rightarrow> unit act" where
  "body_after_stage env m = then_act write_publication_marker
     (then_act (materialize_generation (pe_dir env) (pe_temp env) m)
               (commit_epoch_manifest (pe_codec env) (pe_dir env) m))"

text \<open>What an attempt leaves: every state but the last of a success keeps the old point.\<close>

definition attempt_ok :: "pub_env \<Rightarrow> json option \<Rightarrow> (disk \<Rightarrow> bool) \<Rightarrow> disk list \<times> unit outcome \<Rightarrow> bool" where
  "attempt_ok env pt goal res \<longleftrightarrow> (\<exists>xs ys. fst res = xs @ ys \<and> (\<forall>d' \<in> set xs. point env pt d' \<and> marker d') \<and>
     (case snd res of Raised e \<Rightarrow> ys = [] | Done _ \<Rightarrow> (\<exists>d1. ys = [d1] \<and> marker d1 \<and> goal d1)))"

definition published_as :: "pub_env \<Rightarrow> working \<Rightarrow> disk \<Rightarrow> bool" where
  "published_as env w d \<longleftrightarrow> (\<exists>m. point env (Some m) d \<and> mirrored (pe_dir env) d m \<and>
     (\<forall>p \<in> refs (pe_dir env) m. prefix (generation_dir env) p) \<and>
     artifact_bytes (pe_dir env) m d ''code.index'' = w_index w \<and>
     artifact_bytes (pe_dir env) m d ''chunk_ids.pkl'' = Some (w_ids w))"

lemma keep_states: "within (keeps S) a \<Longrightarrow> point_refs env pt \<subseteq> S \<Longrightarrow> point env pt d \<Longrightarrow> d' \<in> set (fst (a d)) \<or> d' = final a d \<Longrightarrow>
    point env pt d' \<and> marker d' = marker d"
proof -
  assume k: "within (keeps S) a" and S: "point_refs env pt \<subseteq> S" and p: "point env pt d"
    and d': "d' \<in> set (fst (a d)) \<or> d' = final a d"
  have "keeps S d d'" using d' k within_final [OF keeps_preorder k, of d] by (auto simp: within_def)
  then show ?thesis using point_keeps [OF _ S p] by (auto simp: keeps_def)
qed

lemma body_after_stage_ok:
  assumes p: "point env pt d" and mk: "marker d" and v: "valid_generation (pe_codec env) (pe_dir env) m d"
    and g: "\<forall>p \<in> refs (pe_dir env) m. prefix (generation_dir env) p"
    and b: "artifact_bytes (pe_dir env) m d ''code.index'' = w_index w"
      "artifact_bytes (pe_dir env) m d ''chunk_ids.pkl'' = Some (w_ids w)"
  shows "attempt_ok env pt (published_as env w) (body_after_stage env m d)"
proof -
  let ?sd = "pe_dir env" and ?cd = "pe_codec env"
  let ?mat = "materialize_generation ?sd (pe_temp env) m"
  have same: "d\<lparr>marker := True\<rparr> = d" using mk by (cases d) simp
  have w: "write_publication_marker d = ([d], Done ())" by (simp add: write_publication_marker_def modify_def same)
  have wf: "final write_publication_marker d = d" by (simp add: final_def w last_state_def)
  let ?d1 = "final ?mat d"
  have gr: "generation_refs ?sd m" using v by (simp add: valid_generation_def)
  let ?S = "refs ?sd m \<union> point_refs env pt"
  have S: "generation_paths ?sd ?S" using refs_paths [OF gr] point_paths [OF p] by (auto simp: generation_paths_def)
  have k: "within (keeps ?S) ?mat" by (rule keeps_materialize [OF S])
  have mat: "snd (?mat d) = Done ()" "mirrored ?sd ?d1 m" using materialize_mirrors [OF v] by auto
  have kf: "keeps ?S d ?d1" by (rule within_final [OF keeps_preorder k])
  have p1: "point env pt ?d1" "marker ?d1" using keep_states [OF k _ p, of ?d1] mk by auto
  have v1: "valid_generation ?cd ?sd m ?d1" using valid_keeps [OF kf] v by auto
  obtain xs s where c: "tl (commit_states (cd_sha ?cd) (disk_arts ?d1) ?sd m (mdir ?d1)) = xs @ [s]"
      "list_all (\<lambda>s. point env pt (?d1\<lparr>mdir := s\<rparr>)) xs" "point env (Some m) (?d1\<lparr>mdir := s\<rparr>)"
    using commit_point [OF p1(1) v1] by blast
  let ?d2 = "?d1\<lparr>mdir := s\<rparr>"
  define M where "M = fst (?mat d)"
  define C where "C = map (\<lambda>s. ?d1\<lparr>mdir := s\<rparr>) xs"
  have com: "commit_epoch_manifest ?cd ?sd m ?d1 = (C @ [?d2], Done ())"
    by (simp add: commit_epoch_manifest_def c(1) C_def)
  have fst: "fst (body_after_stage env m d) = (d # M @ C) @ [?d2]"
    by (simp add: body_after_stage_def then_fst w wf mat(1) com M_def)
  have snd: "snd (body_after_stage env m d) = Done ()"
    by (simp add: body_after_stage_def then_snd w wf mat(1) com)
  have bytes: "artifact_bytes ?sd m ?d2 n = artifact_bytes ?sd m d n" for n
  proof (rule artifact_bytes_cong)
    show "\<forall>p \<in> refs ?sd m. read_file ?d2 p = read_file d p"
    proof
      fix p assume "p \<in> refs ?sd m"
      then have "read_file ?d1 p = read_file d p" using kf by (simp add: keeps_def)
      then show "read_file ?d2 p = read_file d p" by (simp add: read_file_def)
    qed
  qed
  have "mirrored ?sd ?d2 m" using mat(2) mirrored_cong [of ?d2 ?d1 ?sd m] by (simp add: read_file_def)
  then have goal: "published_as env w ?d2" unfolding published_as_def using c(3) g b by (auto simp only: bytes)
  have M: "point env pt d' \<and> marker d'" if "d' \<in> set M" for d'
    using keep_states [OF k _ p, of d'] that mk by (auto simp: M_def)
  have C: "point env pt d' \<and> marker d'" if "d' \<in> set C" for d'
    using that c(2) p1(2) by (auto simp: C_def list_all_iff)
  show ?thesis
    unfolding attempt_ok_def fst snd
  proof (intro exI conjI)
    show "(d # M @ C) @ [?d2] = (d # M @ C) @ [?d2]" ..
    show "\<forall>d' \<in> set (d # M @ C). point env pt d' \<and> marker d'" using p mk M C by auto
    show "case Done () of Raised e \<Rightarrow> [?d2] = [] | Done _ \<Rightarrow> \<exists>d1. [?d2] = [d1] \<and> marker d1 \<and> published_as env w d1"
      using goal p1(2) by simp
  qed
qed

text \<open>Prefixing an attempt with steps that keep the point.\<close>

lemma attempt_bind:
  assumes a: "within (keeps S) a" "point_refs env pt \<subseteq> S" and p: "point env pt d" "marker d"
    and k: "\<And>x. snd (a d) = Done x \<Longrightarrow> attempt_ok env pt goal (k x (final a d))"
  shows "attempt_ok env pt goal (bind_act a k d)"
proof -
  have st: "\<forall>d' \<in> set (fst (a d)). point env pt d' \<and> marker d'"
    using keep_states [OF a p(1)] p(2) by auto
  show ?thesis
  proof (cases "snd (a d)")
    case (Raised e)
    then show ?thesis using st by (auto simp: attempt_ok_def bind_fst bind_snd)
  next
    case (Done x)
    obtain xs ys where r: "fst (k x (final a d)) = xs @ ys" "\<forall>d' \<in> set xs. point env pt d' \<and> marker d'"
        "case snd (k x (final a d)) of Raised e \<Rightarrow> ys = [] | Done _ \<Rightarrow> (\<exists>d1. ys = [d1] \<and> marker d1 \<and> goal d1)"
      using k [OF Done] by (auto simp: attempt_ok_def)
    then show ?thesis
      using Done st unfolding attempt_ok_def
      by (intro exI [of _ "fst (a d) @ xs"] exI [of _ ys]) (auto simp: bind_fst bind_snd)
  qed
qed

lemma publish_body_ok:
  assumes p: "point env pt d" "marker d" and f: "fresh env d" and env: "env_ok env"
  shows "attempt_ok env pt (published_as env w) (publish_body env refresh w d)"
proof -
  let ?S = "point_refs env pt"
  let ?stats = "if refresh then write_bytes (pe_dir env @ [''stats.json'']) (w_stats w) else ret ()"
  have "pe_dir env @ [''stats.json''] \<notin> ?S"
    by (rule not_kept [OF point_paths [OF p(1)] artifact_root]) (simp add: artifact_names_def)
  then have ks: "within (keeps ?S) ?stats" by (auto intro!: within_rules keeps_write)
  have ap: "clear_of env ?S" by (rule point_apart [OF p(1) f])
  have kst: "within (keeps ?S) (stage env w)" by (rule keeps_stage [OF ap])
  have "attempt_ok env pt (published_as env w) (bind_act (stage env w) (body_after_stage env) (final ?stats d))"
  proof (rule attempt_bind [OF kst subset_refl])
    show p1: "point env pt (final ?stats d)" "marker (final ?stats d)"
      using keep_states [OF ks subset_refl p(1), of "final ?stats d"] p(2) by auto
    fix m assume m: "snd (stage env w (final ?stats d)) = Done m"
    let ?d1 = "final (stage env w) (final ?stats d)"
    show "attempt_ok env pt (published_as env w) (body_after_stage env m ?d1)"
      by (rule body_after_stage_ok [OF _ _ stage_done [OF m env]])
         (use keep_states [OF kst subset_refl p1(1), of ?d1] p1(2) in auto)
  qed
  then show ?thesis
    unfolding publish_body_def then_act_def [of ?stats] body_after_stage_def [symmetric]
    by (intro attempt_bind [OF ks subset_refl p]) simp
qed

text \<open>An interrupted attempt is one that fails.\<close>

lemma interrupted_ok:
  assumes "attempt_ok env pt goal (a d)"
  shows "attempt_ok env pt goal (interrupted fault a d)"
proof (cases "\<exists>k. fault = Some k \<and> k < length (fst (a d))")
  case False
  then show ?thesis using assms by (auto simp: interrupted_def split: option.split)
next
  case True
  then obtain k where k: "fault = Some k" "k < length (fst (a d))" by blast
  obtain xs ys where r: "fst (a d) = xs @ ys" "\<forall>d' \<in> set xs. point env pt d' \<and> marker d'" "length ys \<le> 1"
  proof -
    obtain xs ys where x: "fst (a d) = xs @ ys" "\<forall>d' \<in> set xs. point env pt d' \<and> marker d'"
        "case snd (a d) of Raised e \<Rightarrow> ys = [] | Done _ \<Rightarrow> (\<exists>d1. ys = [d1] \<and> marker d1 \<and> goal d1)"
      using assms unfolding attempt_ok_def by blast
    have "length ys \<le> 1" using x(3) by (auto split: outcome.splits)
    then show ?thesis using that x(1,2) by blast
  qed
  then have "take k (fst (a d)) = take k xs" using k by simp
  then have "interrupted fault a d = (take k xs, Raised IoError)" using k by (simp add: interrupted_def)
  then show ?thesis using r(2) by (auto simp: attempt_ok_def dest: in_set_takeD)
qed

end
