(* ===== verification/Publication_Correct.thy ===== *)
theory Publication_Correct
  imports Publication_Atomic
begin

text \<open>
  The properties of index publication: whatever sequence of saves, recoveries and rollbacks runs,
  each possibly stopped by a crash anywhere, the next recovery finds a validated generation and
  restores it; a save that is not stopped either publishes what it was given or leaves the
  previous publication; a transaction always ends with the store at rest.
\<close>

subsection \<open>Publishing\<close>

lemma keeps_leftovers:
  assumes "\<forall>p \<in> S. \<not> prefix (candidate_dir env) p" "c \<or> (\<forall>p \<in> S. \<not> prefix (generation_dir env) p)"
  shows "within (keeps (root_level (pe_dir env) \<union> S)) (remove_leftovers (pe_dir env) (candidate_dir env) (generation_dir env) c)"
proof -
  have r: "\<not> prefix (candidate_dir env) p" "\<not> prefix (generation_dir env) p" if "p \<in> root_level (pe_dir env)" for p
    using that by (auto simp: root_level_def candidate_dir_def generation_dir_def prefix_def)
  show ?thesis
    unfolding remove_leftovers_def
    by (intro within_reads within_then keeps_preorder)
       (use r assms in \<open>auto intro!: within_rules keeps_remove_tree\<close>)
qed

lemma settled_keeps:
  assumes k: "keeps (root_level (pe_dir env) \<union> point_refs env pt) d d'" and p: "point env pt d" "rest env pt d"
  shows "point env pt d' \<and> rest env pt d' \<and> marker d' = marker d"
  using point_keeps [OF k _ p(1)] rest_keeps [OF k p(2)] k by (auto simp: keeps_def)

lemma published_as_keeps:
  assumes "keeps (root_level (pe_dir env) \<union> S) d d'" "published_as env w d" "{p. prefix (generation_dir env) p} \<subseteq> S"
  shows "published_as env w d' \<and> marker d' = marker d"
proof -
  obtain m where m: "point env (Some m) d" "mirrored (pe_dir env) d m" "\<forall>p \<in> refs (pe_dir env) m. prefix (generation_dir env) p"
      "artifact_bytes (pe_dir env) m d ''code.index'' = w_index w" "artifact_bytes (pe_dir env) m d ''chunk_ids.pkl'' = Some (w_ids w)"
    using assms(2) unfolding published_as_def by blast
  have k: "keeps (root_level (pe_dir env) \<union> point_refs env (Some m)) d d'"
    using assms(1,3) m(3) by (auto simp: keeps_def point_refs_def)
  have "point env (Some m) d' \<and> mirrored (pe_dir env) d' m \<and> marker d' = marker d"
    using settled_keeps [OF k m(1)] m(2) by (simp add: rest_def)
  moreover have "artifact_bytes (pe_dir env) m d' n = artifact_bytes (pe_dir env) m d n" for n
    by (rule artifact_bytes_cong) (use k in \<open>auto simp: keeps_def point_refs_def\<close>)
  ultimately show ?thesis using m unfolding published_as_def by auto
qed

lemma published_as_unmarked [simp]: "published_as env w (d\<lparr>marker := b\<rparr>) = published_as env w d"
proof -
  have "artifact_bytes sd m (d\<lparr>marker := b\<rparr>) n = artifact_bytes sd m d n" for sd m n
    by (rule artifact_bytes_cong) simp
  then show ?thesis by (simp add: published_as_def)
qed

lemma published_as_settled: "published_as env w d \<Longrightarrow> \<exists>pt. settled env pt d \<and> rest env pt d"
proof -
  assume "published_as env w d"
  then obtain m where "point env (Some m) d" "mirrored (pe_dir env) d m" unfolding published_as_def by blast
  then have "settled env (Some m) d \<and> rest env (Some m) d" by (simp add: settled_def rest_def)
  then show ?thesis by blast
qed

lemma on_error_simps:
  "fst (on_error a h d) = fst (a d) @ (case snd (a d) of Done _ \<Rightarrow> [] | Raised _ \<Rightarrow> fst (h (final a d)))"
  "snd (on_error a h d) = snd (a d)"
  "final (on_error a h) d = (case snd (a d) of Done _ \<Rightarrow> final a d | Raised _ \<Rightarrow> final h (final a d))"
  by (auto simp: on_error_def final_def last_state_append split: prod.split outcome.split)

definition result_ok :: "pub_env \<Rightarrow> json option \<Rightarrow> working \<Rightarrow> unit act \<Rightarrow> disk \<Rightarrow> bool" where
  "result_ok env pt w a d \<longleftrightarrow> (\<forall>d' \<in> set (fst (a d)). \<exists>pt'. settled env pt' d') \<and> \<not> marker (final a d) \<and>
     (case snd (a d) of Done _ \<Rightarrow> published_as env w (final a d)
      | Raised _ \<Rightarrow> point env pt (final a d) \<and> rest env pt (final a d))"

lemma publish_generation_ok:
  assumes p: "point env pt d" "marker d" and f: "fresh env d" and env: "env_ok env"
  shows "result_ok env pt w (publish_generation env refresh w fault) d"
proof -
  define body where "body = interrupted fault (publish_body env refresh w)"
  define lo where "lo c = remove_leftovers (pe_dir env) (candidate_dir env) (generation_dir env) c" for c
  have "attempt_ok env pt (published_as env w) (body d)"
    unfolding body_def by (intro interrupted_ok publish_body_ok assms)
  then obtain xs ys where b: "fst (body d) = xs @ ys" "\<forall>d' \<in> set xs. point env pt d' \<and> marker d'"
      "case snd (body d) of Raised e \<Rightarrow> ys = [] | Done _ \<Rightarrow> (\<exists>d1. ys = [d1] \<and> marker d1 \<and> published_as env w d1)"
    unfolding attempt_ok_def by blast
  have ap: "\<forall>q \<in> point_refs env pt. \<not> prefix (candidate_dir env) q" "\<forall>q \<in> point_refs env pt. \<not> prefix (generation_dir env) q"
    using point_apart [OF p(1) f] by (auto simp: clear_of_def)
  have eq: "publish_generation env refresh w fault = bind_act (on_error body (finally_act (undo env) (lo False)))
      (\<lambda>_. finally_act clear_publication_marker (lo True))"
    by (simp add: publish_generation_def body_def lo_def undo_def Let_def)
  show ?thesis
  proof (cases "snd (body d)")
    case (Raised e)
    define d1 where "d1 = final body d"
    have d1: "point env pt d1" "marker d1"
      using b Raised p final_mem [of body d] by (auto simp: d1_def)
    define d2 where "d2 = final (undo env) d1"
    have u: "point env pt d2" "rest env pt d2" "\<not> marker d2"
        "\<forall>d' \<in> set (fst (undo env d1)). point env pt d' \<and> (marker d' \<or> rest env pt d')"
      using undo_point [OF d1(1), of ] d1(2) by (auto simp: d2_def)
    have k: "within (keeps (root_level (pe_dir env) \<union> point_refs env pt)) (lo False)"
      unfolding lo_def by (rule keeps_leftovers) (use ap in auto)
    have l: "point env pt d' \<and> rest env pt d' \<and> \<not> marker d'" if "d' \<in> set (fst (lo False d2)) \<or> d' = final (lo False) d2" for d'
    proof -
      have "keeps (root_level (pe_dir env) \<union> point_refs env pt) d2 d'"
        using that k within_final [OF keeps_preorder k, of d2] by (auto simp: within_def)
      then show ?thesis using settled_keeps [OF _ u(1,2)] u(3) by blast
    qed
    have fin: "final (publish_generation env refresh w fault) d = final (lo False) d2"
      and snd: "snd (publish_generation env refresh w fault d) = Raised e"
      and fst: "fst (publish_generation env refresh w fault d) = xs @ fst (undo env d1) @ fst (lo False d2)"
      using Raised b by (simp_all add: eq final_bind bind_snd bind_fst on_error_simps finally_simps d1_def d2_def)
    have "settled env pt d'" if "d' \<in> set (fst (publish_generation env refresh w fault d))" for d'
      using that b(2) u(4) l unfolding fst settled_def by auto
    then show ?thesis using l [of "final (lo False) d2"] by (auto simp: result_ok_def fin snd)
  next
    case (Done x)
    then obtain d1 where d1: "ys = [d1]" "marker d1" "published_as env w d1" using b(3) by auto
    have fb: "final body d = d1" using b(1) d1(1) by (simp add: final_def last_state_def)
    let ?d2 = "d1\<lparr>marker := False\<rparr>"
    have d2: "published_as env w ?d2" using d1(3) by simp
    have "\<not> prefix (candidate_dir env) q" if "prefix (generation_dir env) q" for q
      using that dirs_apart [of env] prefix_same_cases by blast
    then have k: "within (keeps (root_level (pe_dir env) \<union> {q. prefix (generation_dir env) q})) (lo True)"
      unfolding lo_def by (intro keeps_leftovers) auto
    have l: "published_as env w d' \<and> \<not> marker d'" if "d' \<in> set (fst (lo True ?d2)) \<or> d' = final (lo True) ?d2" for d'
    proof -
      have "keeps (root_level (pe_dir env) \<union> {q. prefix (generation_dir env) q}) ?d2 d'"
        using that k within_final [OF keeps_preorder k, of ?d2] by (auto simp: within_def)
      from published_as_keeps [OF this d2] show ?thesis by auto
    qed
    have fin: "final (publish_generation env refresh w fault) d = final (lo True) ?d2"
      and snd: "snd (publish_generation env refresh w fault d) = Done ()"
      and fst: "fst (publish_generation env refresh w fault d) = xs @ [d1] @ fst (clear_publication_marker d1) @ fst (lo True ?d2)"
      using Done b(1) d1(1) fb
      by (simp_all add: eq final_bind bind_snd bind_fst on_error_simps finally_simps clear_marker)
    have "\<exists>pt'. settled env pt' d'" if d': "d' \<in> set (fst (publish_generation env refresh w fault d))" for d'
    proof -
      from d' consider "d' \<in> set xs" | "d' = d1" | "d' \<in> set (fst (clear_publication_marker d1))" | "d' \<in> set (fst (lo True ?d2))"
        unfolding fst by auto
      then show ?thesis
      proof cases
        case 1
        then show ?thesis using b(2) by (auto simp: settled_def)
      next
        case 2
        then show ?thesis using published_as_settled d1(3) by blast
      next
        case 3
        then have "d' = ?d2" by (rule clear_marker(3))
        then show ?thesis using published_as_settled d2 by blast
      next
        case 4
        then show ?thesis using l published_as_settled by blast
      qed
    qed
    then show ?thesis using l [of "final (lo True) ?d2"] by (auto simp: result_ok_def fin snd)
  qed
qed

subsection \<open>Saving\<close>

lemma undo_settled:
  assumes s: "settled env pt d" and d': "d' \<in> set (fst (undo env d))" and m: "marker d \<or> (\<exists>m. pt = Some m)"
  shows "settled env pt d'"
proof -
  have p: "point env pt d" using s by (simp add: settled_def)
  note u = undo_point [OF p]
  show ?thesis
  proof (cases "marker d")
    case True
    then show ?thesis using u d' by (auto simp: settled_def)
  next
    case False
    then obtain m where "pt = Some m" "published (pe_codec env) (pe_dir env) d m" "mirrored (pe_dir env) d m"
      using s m by (auto simp: settled_def point_def rest_def)
    then show ?thesis using undo_stays [OF _ _ False d'] u d' by (auto simp: settled_def rest_def)
  qed
qed

lemma prune_published_as:
  assumes "published_as env w d" "d' \<in> set (fst (prune env d)) \<or> d' = final (prune env) d"
  shows "published_as env w d' \<and> marker d' = marker d"
proof -
  obtain m where m: "point env (Some m) d" "mirrored (pe_dir env) d m" "\<forall>p \<in> refs (pe_dir env) m. prefix (generation_dir env) p"
      "artifact_bytes (pe_dir env) m d ''code.index'' = w_index w" "artifact_bytes (pe_dir env) m d ''chunk_ids.pkl'' = Some (w_ids w)"
    using assms(1) unfolding published_as_def by blast
  have pub: "published (pe_codec env) (pe_dir env) d m" using m(1) by (simp add: point_def)
  consider "d' = d" | "d' \<in> set (fst (prune_unreferenced_generations (pe_codec env) (pe_dir env) d))"
    using assms(2) final_mem [of "prune env" d] by (auto simp: prune_def)
  then show ?thesis
  proof cases
    case 2
    have k: "keeps (root_level (pe_dir env) \<union> refs (pe_dir env) m) d d'"
      by (rule keeps_prune_roots [OF _ _ 2]) (use pub committed_verified in \<open>auto simp: published_def valid_generation_def\<close>)
    have "artifact_bytes (pe_dir env) m d' n = artifact_bytes (pe_dir env) m d n" for n
      by (rule artifact_bytes_cong) (use k in \<open>auto simp: keeps_def\<close>)
    then show ?thesis
      using prune_rest [OF pub m(2) 2] m unfolding published_as_def by (auto simp: point_def)
  qed (use assms(1) in simp)
qed

lemma save_ok:
  assumes s: "settled env pt d" and f: "fresh env d" and env: "env_ok env"
  shows "(\<forall>d' \<in> set (fst (save_index env force refresh w fault d)). \<exists>pt'. settled env pt' d') \<and>
    (case snd (save_index env force refresh w fault d) of
       Raised e \<Rightarrow> point env pt (final (save_index env force refresh w fault) d) \<and>
         rest env pt (final (save_index env force refresh w fault) d) \<and> \<not> marker (final (save_index env force refresh w fault) d)
     | Done _ \<Rightarrow> (w_index w = None \<and> final (save_index env force refresh w fault) d = d) \<or>
         (published_as env w (final (save_index env force refresh w fault) d) \<and> \<not> marker (final (save_index env force refresh w fault) d)))"
proof -
  let ?save = "save_index env force refresh w fault"
  have p: "point env pt d" using s by (simp add: settled_def)
  consider (refused) n k where "truncation_refused env force w d = Some (n, k)"
    | (empty) "truncation_refused env force w d = None" "w_index w = None"
    | (go) "truncation_refused env force w d = None" "w_index w \<noteq> None"
    by (cases "truncation_refused env force w d") auto
  then show ?thesis
  proof cases
    case refused
    define r :: "unit act" where "r = raise_error (TruncationRefused n k)"
    have r: "fst (r e) = []" "snd (r e) = Raised (TruncationRefused n k)" "final r e = e" for e
      by (simp_all add: r_def raise_error_def final_def last_state_def)
    have alt: "(?save d = then_act (undo env) r d \<and> (marker d \<or> (\<exists>m. pt = Some m))) \<or> (?save d = r d \<and> rest env pt d \<and> \<not> marker d)"
    proof (cases "marker d")
      case True
      then show ?thesis by (simp add: save_index_def with_disk_def refused refuse_truncation_def undo_def r_def Let_def)
    next
      case False
      obtain q where q: "read_with_fallback (cd_sha (pe_codec env)) (disk_arts d) (pe_dir env) (mdir d) = Inr q" "rr_manifest q = pt"
        using p published_read nothing_read by (fastforce simp: point_def split: option.splits)
      show ?thesis
        using False q s by (auto simp: save_index_def with_disk_def refused refuse_truncation_def undo_def r_def Let_def
            read_publication_at settled_def split: option.splits)
    qed
    then show ?thesis
    proof
      assume eq: "?save d = then_act (undo env) r d \<and> (marker d \<or> (\<exists>m. pt = Some m))"
      then have fin: "final ?save d = final (then_act (undo env) r) d" by (simp add: final_def)
      have st: "settled env pt d'" if "d' \<in> set (fst (undo env d))" for d'
        using undo_settled [OF s] that eq by blast
      show ?thesis using undo_point [OF p] st eq by (auto simp: fin then_simps r)
    next
      assume eq: "?save d = r d \<and> rest env pt d \<and> \<not> marker d"
      then have "final ?save d = d" using r(3) by (simp add: final_def)
      then show ?thesis using eq p by (simp add: r)
    qed
  next
    case empty
    then have "?save d = ([], Done ())" by (simp add: save_index_def with_disk_def ret_def)
    then show ?thesis using empty by (simp add: final_def last_state_def)
  next
    case go
    define pub where "pub = publish_generation env refresh w fault"
    have eq: "?save d = then_act (mark_dirty env) (then_act pub (prune env)) d"
      using go by (auto simp: save_index_def with_disk_def pub_def)
    then have fin: "final ?save d = final (then_act (mark_dirty env) (then_act pub (prune env))) d" by (simp add: final_def)
    let ?d1 = "d\<lparr>marker := True\<rparr>"
    note mk = mark_dirty_settled [OF s]
    have f1: "fresh env ?d1" using f by (simp add: fresh_def exists_under_iff)
    have ok: "result_ok env pt w pub ?d1"
      unfolding pub_def by (rule publish_generation_ok) (use p f1 env in auto)
    have s1: "settled env pt ?d1" using p by (simp add: settled_def)
    have prune_snd: "snd (prune env e) = Done ()" for e by (simp add: prune_def prune_done)
    show ?thesis
    proof (cases "snd (pub ?d1)")
      case (Raised e)
      have "final ?save d = final pub ?d1" "snd (?save d) = Raised e" "fst (?save d) = fst (mark_dirty env d) @ fst (pub ?d1)"
        using mk Raised by (simp_all add: fin eq then_simps)
      then show ?thesis using ok Raised mk s1 by (auto simp: result_ok_def)
    next
      case (Done x)
      let ?d2 = "final pub ?d1"
      have d2: "published_as env w ?d2" "\<not> marker ?d2" using ok Done by (auto simp: result_ok_def)
      have "final ?save d = final (prune env) ?d2" "snd (?save d) = Done ()"
          "fst (?save d) = fst (mark_dirty env d) @ fst (pub ?d1) @ fst (prune env ?d2)"
        using mk Done by (simp_all add: fin eq then_simps prune_snd)
      moreover have "published_as env w d' \<and> \<not> marker d'" if "d' \<in> set (fst (prune env ?d2)) \<or> d' = final (prune env) ?d2" for d'
        using prune_published_as [OF d2(1) that] d2(2) by simp
      ultimately show ?thesis using ok mk s1 published_as_settled by (auto simp: result_ok_def) blast+
    qed
  qed
qed


end
