(* ===== verification/Publication_Crash.thy ===== *)
theory Publication_Crash
  imports Publication_Correct
begin

text \<open>
  Crashes and transactions. \<open>pub_step\<close> is one event of the life of an index directory: a mutation of
  the working files under the marker, or an operation of \<open>Publication_Save\<close> that is left at any of
  the disk states it passes through (a crash) or runs to its end.
\<close>

subsection \<open>Life of an index directory\<close>

definition states_of :: "'r act \<Rightarrow> disk \<Rightarrow> disk set" where
  "states_of a d = insert (final a d) (set (fst (a d)))"

definition working_change :: "string list \<Rightarrow> disk \<Rightarrow> disk \<Rightarrow> bool" where
  "working_change sd d d' \<longleftrightarrow> mdir d' = mdir d \<and> marker d' = marker d \<and>
     (\<forall>p. p \<notin> root_level sd \<longrightarrow> read_file d' p = read_file d p)"

inductive pub_step :: "codec \<Rightarrow> string list \<Rightarrow> disk \<Rightarrow> disk \<Rightarrow> bool" for cd sd where
  mutate: "marker d \<Longrightarrow> working_change sd d d' \<Longrightarrow> pub_step cd sd d d'"
| mark: "pe_codec env = cd \<Longrightarrow> pe_dir env = sd \<Longrightarrow> d' \<in> states_of (mark_dirty env) d \<Longrightarrow> pub_step cd sd d d'"
| save: "pe_codec env = cd \<Longrightarrow> pe_dir env = sd \<Longrightarrow> env_ok env \<Longrightarrow> fresh env d \<Longrightarrow>
    d' \<in> states_of (save_index env force refresh w fault) d \<Longrightarrow> pub_step cd sd d d'"
| recover: "pe_codec env = cd \<Longrightarrow> pe_dir env = sd \<Longrightarrow> d' \<in> states_of (recover env) d \<Longrightarrow> pub_step cd sd d d'"
| rollback: "pe_codec env = cd \<Longrightarrow> pe_dir env = sd \<Longrightarrow> d' \<in> states_of (rollback env) d \<Longrightarrow> pub_step cd sd d d'"

inductive_cases pub_stepE: "pub_step cd sd d d'"

lemma states_final: "\<forall>d' \<in> set (fst (a d)). P d' \<Longrightarrow> P d \<Longrightarrow> d' \<in> states_of a d \<Longrightarrow> P d'"
  using final_mem [of a d] by (auto simp: states_of_def)

lemma mutate_settled: "settled env pt d \<Longrightarrow> marker d \<Longrightarrow> working_change (pe_dir env) d d' \<Longrightarrow> settled env pt d'"
proof -
  assume s: "settled env pt d" and m: "marker d" and w: "working_change (pe_dir env) d d'"
  have p: "point env pt d" using s by (simp add: settled_def)
  have "keeps (point_refs env pt) d d'"
    using w not_kept [OF point_paths [OF p]] unfolding keeps_def working_change_def by blast
  then show ?thesis using point_keeps [OF _ subset_refl p] w m by (simp add: settled_def working_change_def)
qed

lemma rollback_settled:
  assumes "settled env pt d" "d' \<in> states_of (rollback env) d"
  shows "settled env pt d'"
proof (cases "marker d")
  case True
  have "\<forall>d' \<in> set (fst (rollback env d)). settled env pt d'"
    using rollback_undo [OF True] undo_settled [OF assms(1)] True by auto
  then show ?thesis using states_final [where P = "settled env pt"] assms by blast
next
  case False
  then have "fst (rollback env d) = []"
    by (simp add: rollback_def rollback_unpublished_changes_def with_disk_def ret_def)
  then show ?thesis using states_final [where P = "settled env pt", OF _ assms] by simp
qed

lemma step_recoverable:
  assumes "pub_step cd sd d d'" "recoverable cd sd d"
  shows "recoverable cd sd d'"
proof -
  have goal: "recoverable cd sd d'" if "\<exists>pt. settled env pt d'" "pe_codec env = cd" "pe_dir env = sd" for env
    using that settled_recoverable by metis
  have start: "\<exists>pt. settled env pt d" if "pe_codec env = cd" "pe_dir env = sd" for env
    using assms(2) settled_recoverable [of env d] that by simp
  from assms(1) show ?thesis
  proof cases
    case mutate
    define env where "env = \<lparr>pe_codec = cd, pe_dir = sd, pe_config = undefined, pe_token = [], pe_temp = [], pe_epoch = [], pe_time = []\<rparr>"
    have e: "pe_codec env = cd" "pe_dir env = sd" by (simp_all add: env_def)
    show ?thesis using goal [OF _ e] start [OF e] mutate_settled [of env _ d d'] mutate e by blast
  next
    case (mark env)
    then obtain pt where s: "settled env pt d" using start by blast
    have "settled env pt (d\<lparr>marker := True\<rparr>)" using s by (simp add: settled_def)
    then have "\<forall>e \<in> set (fst (mark_dirty env d)). settled env pt e" using mark_dirty_settled [OF s] by metis
    from states_final [OF this s mark(3)] have "settled env pt d'" .
    then show ?thesis using goal mark by blast
  next
    case (save env force refresh w fault)
    then obtain pt where s: "settled env pt d" using start by blast
    have "\<exists>pt'. settled env pt' d'"
      by (rule states_final [OF _ _ save(5)]) (use save_ok [OF s save(4,3)] s in blast)+
    then show ?thesis using goal save by blast
  next
    case (recover env)
    then obtain pt where s: "settled env pt d" using start by blast
    have "settled env pt d'"
      using states_final [where P = "settled env pt" and a = "recover env"] recover(3) recover_settled [OF s] s by blast
    then show ?thesis using goal recover by blast
  next
    case (rollback env)
    then obtain pt where s: "settled env pt d" using start by blast
    then show ?thesis using goal rollback rollback_settled by blast
  qed
qed

lemma steps_recoverable: "(pub_step cd sd)\<^sup>*\<^sup>* d d' \<Longrightarrow> recoverable cd sd d \<Longrightarrow> recoverable cd sd d'"
  by (induction rule: rtranclp_induct) (auto intro: step_recoverable)

lemma recover_at_rest:
  assumes "recoverable (pe_codec env) (pe_dir env) d"
  shows "snd (recover env d) = Done () \<and> at_rest (pe_codec env) (pe_dir env) (final (recover env) d) \<and>
    (\<forall>d' \<in> states_of (recover env) d. recoverable (pe_codec env) (pe_dir env) d')"
proof -
  obtain pt where s: "settled env pt d" using assms settled_recoverable by blast
  have "at_rest (pe_codec env) (pe_dir env) (final (recover env) d)"
    using recover_settled [OF s] by (auto simp: at_rest_def point_def rest_def split: option.splits)
  moreover have "\<exists>pt. settled env pt d'" if "d' \<in> states_of (recover env) d" for d'
    by (rule states_final [OF _ _ that]) (use recover_settled [OF s] s in blast)+
  ultimately show ?thesis using recover_settled [OF s] settled_recoverable by blast
qed

text \<open>
  C3. An index directory survives crashes. From any directory at a publication point (or with
  nothing published and nothing at the root), after any sequence of mutations, saves, recoveries
  and rollbacks, each possibly killed at any disk operation, the next recovery succeeds: it clears
  the marker and leaves the root files exact copies of a validated published generation (or none,
  when nothing was ever published). The same holds when that recovery is itself killed and rerun.
\<close>

theorem crashed_index_recovers:
  assumes "recoverable (pe_codec env) (pe_dir env) d"
    and "(pub_step (pe_codec env) (pe_dir env))\<^sup>*\<^sup>* d d'"
  shows "snd (recover env d') = Done () \<and> at_rest (pe_codec env) (pe_dir env) (final (recover env) d') \<and>
    (\<forall>e \<in> states_of (recover env) d'. snd (recover env e) = Done () \<and>
       at_rest (pe_codec env) (pe_dir env) (final (recover env) e))"
  using recover_at_rest steps_recoverable [OF assms(2,1)] by blast

subsection \<open>Transactions\<close>

lemma mirrors_match:
  assumes p: "published cd sd d m" and m: "mirrored sd d m"
  shows "root_mirrors_match cd sd m d"
proof -
  have v: "validate_error cd sd m d = None" using p by (simp add: published_def valid_generation_def)
  have es: "verify_entries (cd_sha cd) (disk_arts d) sd (manifest_artifacts m) = Inr None"
    using verified_artifacts published_verifies(1) p by (simp add: published_def valid_generation_def)
  have "case dict_get (manifest_artifacts m) n of
        None \<Rightarrow> read_file d (sd @ [n]) = None
      | Some e \<Rightarrow> (case read_file d (sd @ [n]) of None \<Rightarrow> False | Some b \<Rightarrow> entry_sha e = JStr (cd_sha cd b))"
    if n: "n \<in> set artifact_names" for n
  proof (cases "dict_get (manifest_artifacts m) n")
    case None
    then show ?thesis using m n by (simp add: mirrored_def artifact_bytes_def manifest_artifact_path_def)
  next
    case (Some e)
    then have "(n, e) \<in> set (manifest_artifacts m)" by (rule map_of_SomeD)
    from verified_entry [OF es this] obtain ob b where e: "e = JObj ob" "jget ob ''sha256'' = Some (JStr (cd_sha cd b))"
        "disk_arts d (locate sd (entry_path e)) = Artifact b" by blast
    have "ob \<noteq> []" using e(2) by (auto simp: jget_def)
    then have "artifact_bytes sd m d n = Some b"
      using Some e by (auto simp: artifact_bytes_def manifest_artifact_path_def disk_arts_def split: option.splits)
    then show ?thesis using m n Some e by (simp add: mirrored_def entry_sha_def)
  qed
  then show ?thesis using m unfolding root_mirrors_match_def mirrored_def list_all_iff by blast
qed

lemma upgrade_at_rest: "point env pt d \<Longrightarrow> upgrade_legacy_manifest env d = ([], Done ())"
  by (auto simp: upgrade_legacy_manifest_def with_disk_def Let_def ret_def point_def published_def committed_def
      nothing_published_def valid_generation_def split: option.splits json_file.splits)

lemma repair_at_rest:
  assumes "point env pt d" "rest env pt d"
  shows "repair_root_mirrors (pe_codec env) (pe_dir env) (pe_temp env) d = ([], Done ())"
proof (cases pt)
  case None
  then have "nothing_published d" using assms(1) by (simp add: point_def)
  then obtain r where "read_with_fallback (cd_sha (pe_codec env)) (disk_arts d) (pe_dir env) (mdir d) = Inr r" "rr_manifest r = None"
    using nothing_read by blast
  then show ?thesis by (simp add: repair_root_mirrors_def read_publication_at ret_def)
next
  case (Some m)
  then have p: "published (pe_codec env) (pe_dir env) d m" and m: "mirrored (pe_dir env) d m"
    using assms by (auto simp: point_def rest_def)
  obtain r where "read_with_fallback (cd_sha (pe_codec env)) (disk_arts d) (pe_dir env) (mdir d) = Inr r" "rr_manifest r = Some m"
    using published_read [OF p] by blast
  then show ?thesis
    using mirrors_match [OF p m] p
    by (simp add: repair_root_mirrors_def read_publication_at ret_def published_def valid_generation_def then_act_def
        bind_act_def validate_published_generation_def with_disk_def last_state_def)
qed

lemma rebase_settled:
  assumes s: "settled env pt d"
  defines "d1 \<equiv> final (recover env) d"
  shows "fst (rebase_publication_working_set env d) = fst (recover env d)"
    "snd (rebase_publication_working_set env d) = Done ()" "final (rebase_publication_working_set env) d = d1"
    "point env pt d1 \<and> rest env pt d1 \<and> \<not> marker d1"
proof -
  have r: "snd (recover env d) = Done ()" "point env pt d1" "rest env pt d1" "\<not> marker d1"
    using recover_settled [OF s] by (auto simp: d1_def)
  note q = upgrade_at_rest [OF r(2)] repair_at_rest [OF r(2,3)]
  have fin: "final (upgrade_legacy_manifest env) d1 = d1" by (simp add: final_def q(1) last_state_def)
  have fin2: "final (repair_root_mirrors (pe_codec env) (pe_dir env) (pe_temp env)) d1 = d1"
    by (simp add: final_def q(2) last_state_def)
  show "fst (rebase_publication_working_set env d) = fst (recover env d)"
    "snd (rebase_publication_working_set env d) = Done ()" "final (rebase_publication_working_set env) d = d1"
    by (simp_all add: rebase_publication_working_set_def then_simps r(1) q fin fin2 flip: d1_def)
  show "point env pt d1 \<and> rest env pt d1 \<and> \<not> marker d1" using r by simp
qed

lemma rollback_ends:
  assumes s: "settled env pt d" and m: "marker d"
  shows "snd (rollback env d) = Done True" "final (rollback env) d = final (undo env) d"
    "at_rest (pe_codec env) (pe_dir env) (final (rollback env) d)"
proof -
  have p: "point env pt d" using s by (simp add: settled_def)
  note u = undo_point [OF p] and r = rollback_undo [OF m]
  show "snd (rollback env d) = Done True" using u r by simp
  show f: "final (rollback env) d = final (undo env) d" using r by (simp add: final_def)
  show "at_rest (pe_codec env) (pe_dir env) (final (rollback env) d)"
    unfolding f using u by (auto simp: at_rest_def point_def rest_def split: option.splits)
qed

lemma unmarked_at_rest: "recoverable cd sd d \<Longrightarrow> \<not> marker d \<Longrightarrow> at_rest cd sd d"
  by (auto simp: recoverable_def at_rest_def)

lemma rest_recoverable: "at_rest cd sd d \<Longrightarrow> recoverable cd sd d"
  by (auto simp: recoverable_def at_rest_def)

text \<open>The two ways a transaction can go on after its body.\<close>

lemma after_body:
  assumes r: "recoverable (pe_codec env) (pe_dir env) d"
  shows "(marker d \<and> snd (rollback env d) = Done True \<and> at_rest (pe_codec env) (pe_dir env) (final (rollback env) d) \<and>
      (\<forall>e \<in> set (fst (rollback env d)). recoverable (pe_codec env) (pe_dir env) e)) \<or>
    (\<not> marker d \<and> at_rest (pe_codec env) (pe_dir env) d)"
proof (cases "marker d")
  case True
  obtain pt where s: "settled env pt d" using r settled_recoverable by blast
  have "\<exists>pt. settled env pt e" if "e \<in> set (fst (rollback env d))" for e
    using rollback_settled [OF s] that by (auto simp: states_of_def)
  then show ?thesis using rollback_ends [OF s True] True settled_recoverable by blast
qed (use unmarked_at_rest [OF r] in blast)

lemma rollback_if_marked:
  "marker d \<Longrightarrow> snd (rollback env d) = Done True \<Longrightarrow> fst (rollback_if_marked env d) = fst (rollback env d) \<and>
     final (rollback_if_marked env) d = final (rollback env) d"
  "\<not> marker d \<Longrightarrow> rollback_if_marked env d = ([], Done ()) \<and> final (rollback_if_marked env) d = d"
  by (auto simp: rollback_if_marked_def with_disk_def then_act_def bind_act_def ret_def final_def last_state_def
      split: prod.splits)

lemma end_of_transaction:
  fixes env :: pub_env
  defines "k \<equiv> with_disk (\<lambda>d. if marker d then then_act (rollback env) (raise_error NotCommitted) else ret ()) :: unit act"
  shows "marker d \<Longrightarrow> snd (rollback env d) = Done True \<Longrightarrow> fst (k d) = fst (rollback env d) \<and>
     snd (k d) = Raised NotCommitted \<and> final k d = final (rollback env) d"
   "\<not> marker d \<Longrightarrow> k d = ([], Done ()) \<and> final k d = d"
  by (auto simp: k_def with_disk_def then_act_def bind_act_def ret_def raise_error_def final_def last_state_def
      split: prod.splits)

lemma transaction_simps:
  fixes env :: pub_env
  assumes s: "recoverable (pe_codec env) (pe_dir env) d"
  defines "d0 \<equiv> final (recover env) d"
  defines "k \<equiv> with_disk (\<lambda>d. if marker d then then_act (rollback env) (raise_error NotCommitted) else ret ()) :: unit act"
  shows "fst (publication_transaction env body d) = fst (recover env d) @ fst (then_act (on_error body (rollback_if_marked env)) k d0)"
    "snd (publication_transaction env body d) = snd (then_act (on_error body (rollback_if_marked env)) k d0)"
    "final (publication_transaction env body) d = final (then_act (on_error body (rollback_if_marked env)) k) d0"
proof -
  obtain pt where "settled env pt d" using s settled_recoverable by blast
  from rebase_settled [OF this]
  show "fst (publication_transaction env body d) = fst (recover env d) @ fst (then_act (on_error body (rollback_if_marked env)) k d0)"
    "snd (publication_transaction env body d) = snd (then_act (on_error body (rollback_if_marked env)) k d0)"
    "final (publication_transaction env body) d = final (then_act (on_error body (rollback_if_marked env)) k) d0"
    by (simp_all add: publication_transaction_def k_def d0_def then_fst [of "rebase_publication_working_set env"]
        then_snd [of "rebase_publication_working_set env"] then_final [of "rebase_publication_working_set env"])
qed


subsection \<open>Pruning\<close>

text \<open>
  C37. Pruning never removes an artifact of a manifest that verifies, current or prior, and it
  changes nothing when no manifest does; so a rollback to the prior epoch stays possible.
\<close>

theorem pruning_keeps_verified_generations:
  assumes "generation_refs (pe_dir env) m" "m \<in> set (verified_manifests (pe_codec env) (pe_dir env) d)"
    and "p \<in> refs (pe_dir env) m"
  shows "read_file (final (prune env) d) p = read_file d p \<and> snd (prune env d) = Done ()"
  using final_mem [of "prune env" d] keeps_prune [OF assms(2,1)] assms(3) prune_done
  by (auto simp: prune_def keeps_def)

subsection \<open>Clearing\<close>

lemma remove_tree_empties: "\<not> exists_under (final (remove_tree p) d) p"
proof -
  let ?ps = "filter (prefix p) (map fst (files d))"
  let ?I = "\<lambda>ys F. (\<forall>q. F q = None \<or> F q = read_file d q) \<and> (\<forall>q \<in> set ys. F q = None)"
  have "ensures (each unlink ?ps) d (?I ?ps)"
  proof (rule ensures_each)
    fix x ys zs d1 assume "?I ys (read_file d1)"
    then have "?I (ys @ [x]) ((read_file d1)(x := None))" by auto
    then show "ensures (unlink x) d1 (?I (ys @ [x]))" by (rule ensures_effect [OF effect_unlink])
  qed simp
  then have r: "?I ?ps (read_file (final (remove_tree p) d))"
    by (simp add: ensures_def remove_tree_def with_disk_def final_def)
  have "read_file (final (remove_tree p) d) q = None" if "prefix p q" for q
  proof (cases "read_file d q")
    case None
    then show ?thesis using r by metis
  next
    case (Some b)
    then have "q \<in> set ?ps" using that by (force simp: read_file_def dest: map_of_SomeD)
    then show ?thesis using r by blast
  qed
  then show ?thesis by (auto simp: exists_under_iff)
qed

lemma clear_states:
  fixes env :: pub_env and d :: disk
  defines "absent \<equiv> \<lparr>current_file = Absent, prior_file = Absent, candidate_file = Absent\<rparr>"
  defines "d1 \<equiv> final (discard_working_set (pe_dir env)) (d\<lparr>marker := True\<rparr>)"
  defines "d3 \<equiv> final (remove_tree (generation_root (pe_dir env))) (d1\<lparr>mdir := absent\<rparr>)"
  shows "snd (clear_index env d) = Done ()" "final (clear_index env) d = d3\<lparr>marker := False\<rparr>"
    "set (fst (clear_index env d)) \<subseteq> {d\<lparr>marker := True\<rparr>} \<union> set (fst (discard_working_set (pe_dir env) (d\<lparr>marker := True\<rparr>))) \<union>
       {d1\<lparr>mdir := (mdir d1)\<lparr>candidate_file := Absent\<rparr>\<rparr>,
        d1\<lparr>mdir := (mdir d1)\<lparr>candidate_file := Absent, current_file := Absent\<rparr>\<rparr>, d1\<lparr>mdir := absent\<rparr>} \<union>
       set (fst (remove_tree (generation_root (pe_dir env)) (d1\<lparr>mdir := absent\<rparr>))) \<union> {d3\<lparr>marker := False\<rparr>}"
proof -
  have w: "write_publication_marker d = ([d\<lparr>marker := True\<rparr>], Done ())" "final write_publication_marker d = d\<lparr>marker := True\<rparr>"
    by (simp_all add: write_publication_marker_def modify_def final_def last_state_def)
  have r: "snd (remove_manifest_dir e) = Done ()" "final remove_manifest_dir e = e\<lparr>mdir := absent\<rparr>"
    "set (fst (remove_manifest_dir e)) = {e\<lparr>mdir := (mdir e)\<lparr>candidate_file := Absent\<rparr>\<rparr>,
        e\<lparr>mdir := (mdir e)\<lparr>candidate_file := Absent, current_file := Absent\<rparr>\<rparr>, e\<lparr>mdir := absent\<rparr>}" for e
    by (auto simp: remove_manifest_dir_def Let_def absent_def final_def last_state_def)
  have dd: "snd (discard_working_set (pe_dir env) e) = Done ()" for e using discard_empties by blast
  note all = then_simps w r dd remove_tree_done clear_marker d1_def [symmetric] d3_def [symmetric]
  show "snd (clear_index env d) = Done ()" "final (clear_index env) d = d3\<lparr>marker := False\<rparr>"
    by (simp_all add: clear_index_def all)
  show "set (fst (clear_index env d)) \<subseteq> {d\<lparr>marker := True\<rparr>} \<union> set (fst (discard_working_set (pe_dir env) (d\<lparr>marker := True\<rparr>))) \<union>
       {d1\<lparr>mdir := (mdir d1)\<lparr>candidate_file := Absent\<rparr>\<rparr>,
        d1\<lparr>mdir := (mdir d1)\<lparr>candidate_file := Absent, current_file := Absent\<rparr>\<rparr>, d1\<lparr>mdir := absent\<rparr>} \<union>
       set (fst (remove_tree (generation_root (pe_dir env)) (d1\<lparr>mdir := absent\<rparr>))) \<union> {d3\<lparr>marker := False\<rparr>}"
    by (auto simp: clear_index_def all dest!: clear_marker(3))
qed

text \<open>
  Clearing ends with an empty store: nothing published, no root artifact, no generation, no
  marker. A crash on the way can always be recovered, though not always to the state before: once
  \<open>current.json\<close> is gone and \<open>prior.json\<close> is not, recovery publishes the prior epoch.
\<close>

lemma clearing_ends_empty:
  assumes "settled env pt d"
    and "prior_file (mdir d) = Absent \<or> (\<exists>m. prior_file (mdir d) = Holds m \<and> valid_generation (pe_codec env) (pe_dir env) m d)"
  shows "let d' = final (clear_index env) d in
    snd (clear_index env d) = Done () \<and> \<not> marker d' \<and> nothing_published d' \<and> roots_empty (pe_dir env) d' \<and>
    \<not> exists_under d' (generation_root (pe_dir env)) \<and>
    (\<forall>e \<in> states_of (clear_index env) d. recoverable (pe_codec env) (pe_dir env) e)"
proof -
  let ?rec = "recoverable (pe_codec env) (pe_dir env)" and ?sd = "pe_dir env" and ?cd = "pe_codec env"
  let ?absent = "\<lparr>current_file = Absent, prior_file = Absent, candidate_file = Absent\<rparr>"
  define d1 where "d1 = final (discard_working_set ?sd) (d\<lparr>marker := True\<rparr>)"
  define d2 where "d2 = d1\<lparr>mdir := ?absent\<rparr>"
  define d3 where "d3 = final (remove_tree (generation_root ?sd)) d2"
  note st = clear_states [of env d, folded d1_def, folded d2_def, folded d3_def]
  have p: "point env pt d" using assms(1) by (simp add: settled_def)
  have S: "generation_paths ?sd (- root_level ?sd)" by (auto simp: generation_paths_def root_level_def)
  have kd: "within (keeps (- root_level ?sd)) (discard_working_set ?sd)" by (rule keeps_discard [OF S])
  have sub: "point_refs env pt \<subseteq> - root_level ?sd" using not_kept [OF point_paths [OF p]] by blast
  have k1: "keeps (- root_level ?sd) (d\<lparr>marker := True\<rparr>) d1" unfolding d1_def by (rule within_final [OF keeps_preorder kd])
  have m1: "marker d1" "mdir d1 = mdir d" using k1 by (auto simp: keeps_def)
  have p1: "point env pt d1" using point_keeps [OF k1 sub] p by simp
  have e1: "roots_empty ?sd d1" unfolding d1_def using discard_empties by blast
  have marked: "?rec e" if "point env q e" "marker e" for q e
    using that settled_recoverable by (auto simp: settled_def)
  have kr: "within (keeps (root_level ?sd)) (remove_tree (generation_root ?sd))"
    by (rule keeps_remove_tree) (auto simp: root_level_def)
  have gone: "nothing_published e \<and> roots_empty ?sd e \<and> marker e" if "e \<in> states_of (remove_tree (generation_root ?sd)) d2" for e
  proof -
    have "keeps (root_level ?sd) d2 e"
      using that kr within_final [OF keeps_preorder kr] by (auto simp: states_of_def within_def)
    then show ?thesis
      using e1 m1 artifact_root by (auto simp: keeps_def d2_def nothing_published_def roots_empty_def read_file_def)
  qed
  have d3: "nothing_published d3" "roots_empty ?sd d3" "\<not> exists_under d3 (generation_root ?sd)"
    using gone [of d3] remove_tree_empties by (auto simp: d3_def states_of_def)
  have valid1: "valid_generation ?cd ?sd m (d1\<lparr>mdir := s\<rparr>)" if "valid_generation ?cd ?sd m d" for m s
  proof -
    have "refs ?sd m \<subseteq> - root_level ?sd" using that root_not_refs by (auto simp: valid_generation_def)
    then have "\<forall>q \<in> refs ?sd m. read_file (d1\<lparr>mdir := s\<rparr>) q = read_file d q"
      using k1 by (auto simp: keeps_def read_file_def)
    then show ?thesis using that validate_cong [of ?sd m "d1\<lparr>mdir := s\<rparr>" d ?cd] by (simp add: valid_generation_def)
  qed
  have c1: "?rec (d1\<lparr>mdir := (mdir d1)\<lparr>candidate_file := Absent\<rparr>\<rparr>)"
  proof (rule marked)
    show "point env pt (d1\<lparr>mdir := (mdir d1)\<lparr>candidate_file := Absent\<rparr>\<rparr>)"
      using p valid1 by (auto simp: point_def nothing_published_def published_def committed_def m1 split: option.splits)
  qed (simp add: m1)
  have c2: "?rec (d1\<lparr>mdir := (mdir d1)\<lparr>candidate_file := Absent, current_file := Absent\<rparr>\<rparr>)"
  proof (cases "prior_file (mdir d)")
    case Absent
    then have "point env None (d1\<lparr>mdir := (mdir d1)\<lparr>candidate_file := Absent, current_file := Absent\<rparr>\<rparr>)"
      by (simp add: point_def nothing_published_def m1)
    then show ?thesis by (rule marked) (simp add: m1)
  next
    case (Holds m)
    then have "point env (Some m) (d1\<lparr>mdir := (mdir d1)\<lparr>candidate_file := Absent, current_file := Absent\<rparr>\<rparr>)"
      using assms(2) valid1 by (simp add: point_def published_def committed_def m1)
    then show ?thesis by (rule marked) (simp add: m1)
  qed (use assms(2) in simp)
  have "set (fst (discard_working_set ?sd (d\<lparr>marker := True\<rparr>))) \<subseteq> Collect ?rec"
    using keep_states [OF kd sub, of "d\<lparr>marker := True\<rparr>"] p marked [of pt] by auto
  moreover have "?rec (d\<lparr>marker := True\<rparr>)" by (rule marked [of pt]) (use p in auto)
  moreover have "?rec d2" by (rule marked [of None]) (simp_all add: point_def nothing_published_def d2_def m1)
  moreover have "set (fst (remove_tree (generation_root ?sd) d2)) \<subseteq> Collect ?rec"
    using gone by (auto simp: states_of_def recoverable_def)
  moreover have "?rec (d3\<lparr>marker := False\<rparr>)" using d3 by (simp add: recoverable_def)
  ultimately have "states_of (clear_index env) d \<subseteq> Collect ?rec"
    using subset_trans [OF st(3), of "Collect ?rec"] st(2) c1 c2 by (simp add: states_of_def)
  then show ?thesis using st(1,2) d3 by (auto simp: Let_def exists_under_def)
qed

subsection \<open>A concrete store\<close>

definition demo_codec :: codec where
  "demo_codec = \<lparr>cd_sha = demo_sha, cd_ids = \<lambda>b. Some (length b), cd_index = \<lambda>b. Some (length b, 4),
     cd_floats = \<lambda>b. Some (length b), cd_db = \<lambda>_. True, cd_backup = \<lambda>b _. b\<rparr>"

definition demo_env :: pub_env where
  "demo_env = \<lparr>pe_codec = demo_codec, pe_dir = [''p''], pe_config = \<lparr>pc_manifest = demo_cfg, pc_dimension = 4\<rparr>,
     pe_token = ''g1'', pe_temp = ''t'', pe_epoch = ''e1'', pe_time = ''now''\<rparr>"

definition demo_work :: working where
  "demo_work = \<lparr>w_index = Some ''ab'', w_ids = ''cd'', w_len = 2, w_floats = None, w_stats = ''s''\<rparr>"

definition demo_empty :: disk where
  "demo_empty = \<lparr>files = [([''p'', ''metadata.db''], ''m'')],
     mdir = \<lparr>current_file = Absent, prior_file = Absent, candidate_file = Absent\<rparr>, marker = True\<rparr>"

abbreviation demo_save :: "unit act" where
  "demo_save \<equiv> save_index demo_env False True demo_work None"

lemma demo_simps: "pe_codec demo_env = demo_codec" "pe_dir demo_env = [''p'']"
  by (simp_all add: demo_env_def)

lemma demo_settled: "settled demo_env None demo_empty"
  by (simp add: settled_def point_def nothing_published_def demo_empty_def)

lemma demo_recoverable: "recoverable (pe_codec demo_env) (pe_dir demo_env) demo_empty"
  using demo_settled settled_recoverable by blast

lemma demo_env_ok: "env_ok demo_env"
  by code_simp

lemma demo_fresh: "fresh demo_env demo_empty"
  by code_simp

lemma demo_save_returns: "snd (demo_save demo_empty) = Done ()"
  by code_simp


definition demo_crashed :: disk where
  "demo_crashed = fst (demo_save demo_empty) ! 20"

lemma demo_crash: "demo_crashed \<in> set (fst (demo_save demo_empty))"
proof -
  have "20 < length (fst (demo_save demo_empty))" by code_simp
  then show ?thesis by (simp add: demo_crashed_def)
qed

theorem crashed_index_recovers_witness:
  "marker demo_crashed \<and> at_rest demo_codec [''p''] (final (recover demo_env) demo_crashed)"
proof
  show "marker demo_crashed" by code_simp
  have "pub_step (pe_codec demo_env) (pe_dir demo_env) demo_empty demo_crashed"
    by (rule pub_step.save [where env = demo_env and force = False and refresh = True and w = demo_work and fault = None])
       (use demo_env_ok demo_fresh demo_crash in \<open>simp_all add: states_of_def\<close>)
  then show "at_rest demo_codec [''p''] (final (recover demo_env) demo_crashed)"
    using crashed_index_recovers [OF demo_recoverable r_into_rtranclp] by (simp add: demo_simps)
qed


lemma demo_saved: "published_as demo_env demo_work (final demo_save demo_empty)"
  using save_ok [OF demo_settled demo_fresh demo_env_ok, of False True demo_work None] demo_save_returns
  by (simp add: demo_work_def)

theorem pruning_keeps_verified_generations_witness:
  "\<exists>p. prefix [''p'', ''.generations'', ''g1''] p \<and> read_file (final (prune demo_env) (final demo_save demo_empty)) p = Some ''ab''"
proof -
  let ?d = "final demo_save demo_empty"
  obtain m where m: "published demo_codec [''p''] ?d m" "\<forall>p \<in> refs [''p''] m. prefix (generation_dir demo_env) p"
      "artifact_bytes [''p''] m ?d ''code.index'' = Some ''ab''"
    using demo_saved unfolding published_as_def by (auto simp: point_def demo_simps demo_work_def)
  then obtain p where p: "manifest_artifact_path [''p''] m ''code.index'' = Some p" "read_file ?d p = Some ''ab''"
    by (auto simp: artifact_bytes_def split: option.splits)
  have v: "generation_refs [''p''] m" "m \<in> set (verified_manifests demo_codec [''p''] ?d)"
    using m(1) committed_verified by (auto simp: published_def valid_generation_def)
  have gd: "generation_dir demo_env = [''p'', ''.generations'', ''g1'']" by code_simp
  have "read_file (final (prune demo_env) ?d) p = read_file ?d p"
    using pruning_keeps_verified_generations [where env = demo_env and m = m and d = ?d and p = p] v manifest_path_refs [OF p(1)]
    by (simp add: demo_simps)
  then show ?thesis using p(2) m(2) manifest_path_refs [OF p(1)] gd by auto
qed

theorem clearing_ends_empty_witness:
  "exists_under (final demo_save demo_empty) [''p'', ''.generations''] \<and>
   \<not> exists_under (final (clear_index demo_env) (final demo_save demo_empty)) [''p'', ''.generations'']"
proof
  let ?d = "final demo_save demo_empty"
  show "exists_under ?d [''p'', ''.generations'']" by code_simp
  obtain pt where s: "settled demo_env pt ?d" using published_as_settled [OF demo_saved] by blast
  have "prior_file (mdir ?d) = Absent" by code_simp
  then show "\<not> exists_under (final (clear_index demo_env) ?d) [''p'', ''.generations'']"
    using clearing_ends_empty [OF s] by (simp add: Let_def demo_simps generation_root_def)
qed

end
