(* ===== verification/IncrementalIndex.thy ===== *)
theory IncrementalIndex
  imports SnapshotStore IndexStore_Query
begin

text \<open>
  The incremental indexer of \<open>search/incremental_indexer.py\<close>, which composes the change detector, the
  snapshot files, the chunker, the embedder and the index manager.

  \<open>project_state\<close> holds what a run changes: the manager's working set, the published index a reopened
  manager sees, the statistics file and the snapshot files. Publication is the atomic step that
  \<open>Publication_Correct\<close> and \<open>Publication_Crash\<close> justify: a save replaces the published index or fails
  and leaves it, and a rollback reloads it. Chunker and embedder are fields of \<open>tools\<close> (\<open>None\<close> is an
  exception); the source tree, the library functions, and which progress checkpoints and I/O
  operations fail in this run are fields of \<open>run_env\<close>. Progress reports, logging, timing and the
  smoke test change nothing.
\<close>

subsection \<open>Results\<close>

record chunking_diagnostics =
  files_attempted :: nat
  files_with_chunks :: nat
  files_zero_chunks :: nat
  chunks_extracted :: nat

definition no_diagnostics :: chunking_diagnostics where
  "no_diagnostics = \<lparr>files_attempted = 0, files_with_chunks = 0, files_zero_chunks = 0, chunks_extracted = 0\<rparr>"

text \<open>The rate as numerator and denominator.\<close>

definition zero_chunk_rate :: "chunking_diagnostics \<Rightarrow> nat \<times> nat" where
  "zero_chunk_rate d = (if files_attempted d = 0 then (0, 1) else (files_zero_chunks d, files_attempted d))"

datatype disposition = Completed | SkippedFresh | SkippedDisabled | Refused

datatype index_failure =
    DetectFailed
  | EmbedFailed
  | BatchesFailed nat nat nat
  | NoChunks
  | IncompleteEmbedding nat nat
  | AddFailed index_error
  | TruncationGuard nat nat
  | SaveFailed
  | NotPublished
  | SnapshotFailed

record index_result =
  files_added :: nat
  files_removed :: nat
  files_modified :: nat
  chunks_added :: nat
  chunks_removed :: nat
  success :: bool
  failure :: "index_failure option"
  diagnostics :: "chunking_diagnostics option"
  reindex_disposition :: disposition

definition empty_result :: "disposition \<Rightarrow> index_result" where
  "empty_result disp = \<lparr>files_added = 0, files_removed = 0, files_modified = 0, chunks_added = 0,
     chunks_removed = 0, success = True, failure = None, diagnostics = None, reindex_disposition = disp\<rparr>"

definition failed_result :: "index_failure \<Rightarrow> index_result" where
  "failed_result f = (empty_result Completed)\<lparr>success := False, failure := Some f\<rparr>"

subsection \<open>State and environment\<close>

datatype stop = Cancelled | Failed index_failure

record 'a project_state =
  ps_work :: "'a store"
  ps_pub :: "'a store"
  ps_stats :: "index_stats option"
  ps_snaps :: snapshot_files

record ('c, 'a) tools =
  is_supported :: "string \<Rightarrow> bool"
  chunk_file :: "string \<Rightarrow> 'c list option"
  embed_chunks_grouped :: "'c list \<Rightarrow> 'a embedding_result list option"
  batch_embed :: "('c list \<Rightarrow> 'a list list option) option"  \<comment> \<open>the Batch API, when it is switched on\<close>
  batch_threshold :: nat
  make_result :: "'c \<Rightarrow> 'a list \<Rightarrow> 'a embedding_result"
  output_dimension :: nat

record ('c, 'a) run_env =
  re_tools :: "('c, 'a) tools"
  re_lib :: "'a faiss_lib"
  re_sha :: "bytes \<Rightarrow> string"
  re_utf :: "bytes \<Rightarrow> bytes"
  re_md5 :: "bytes \<Rightarrow> string"
  re_resolve :: "string \<Rightarrow> string list"
  re_manager :: snapshot_manager
  re_clock :: clock
  re_tree :: entry
  re_walk_cancel :: "(nat \<Rightarrow> bool) option"
  re_interrupts :: "string \<Rightarrow> nat \<Rightarrow> bool"  \<comment> \<open>the progress callback raises at this phase and count\<close>
  re_save_fails :: bool
  re_snapshot_fails :: bool

type_synonym ('a, 'r) run = "'a project_state \<Rightarrow> (stop + 'r) \<times> 'a project_state"

definition checkpoint :: "('c, 'a) run_env \<Rightarrow> string \<Rightarrow> nat \<Rightarrow> stop + unit" where
  "checkpoint env phase n = (if re_interrupts env phase n then Inl Cancelled else Inr ())"

text \<open>\<open>rollback_unpublished_changes\<close>: with a marker, the published index is reloaded.\<close>

definition rollback_work :: "'a project_state \<Rightarrow> 'a project_state" where
  "rollback_work p = (if st_marker (ps_work p) then p\<lparr>ps_work := ps_pub p\<rparr> else p)"

definition on_work :: "('a store \<Rightarrow> (stop + 'r) \<times> 'a store) \<Rightarrow> ('a, 'r) run" where
  "on_work f p = (case f (ps_work p) of (r, s) \<Rightarrow> (r, p\<lparr>ps_work := s\<rparr>))"

definition bind_run :: "('a, 'r) run \<Rightarrow> ('r \<Rightarrow> ('a, 's) run) \<Rightarrow> ('a, 's) run" where
  "bind_run m f p = (case m p of (Inl e, p1) \<Rightarrow> (Inl e, p1) | (Inr x, p1) \<Rightarrow> f x p1)"

definition lift_run :: "stop + 'r \<Rightarrow> ('a, 'r) run" where
  "lift_run r p = (r, p)"

subsection \<open>Chunking and embedding\<close>

definition file_chunks :: "('c, 'a) tools \<Rightarrow> string \<Rightarrow> 'c list" where
  "file_chunks tools f = (case chunk_file tools f of None \<Rightarrow> [] | Some cs \<Rightarrow> cs)"

definition count_file :: "'c list \<Rightarrow> chunking_diagnostics \<Rightarrow> chunking_diagnostics" where
  "count_file cs d =
     (let d1 = d\<lparr>files_attempted := files_attempted d + 1\<rparr>
      in if cs \<noteq> []
         then d1\<lparr>files_with_chunks := files_with_chunks d1 + 1, chunks_extracted := chunks_extracted d1 + length cs\<rparr>
         else d1\<lparr>files_zero_chunks := files_zero_chunks d1 + 1\<rparr>)"

fun chunk_files :: "('c, 'a) run_env \<Rightarrow> nat \<Rightarrow> string list \<Rightarrow> 'c list \<Rightarrow> chunking_diagnostics \<Rightarrow>
    stop + 'c list \<times> chunking_diagnostics" where
  "chunk_files env idx [] chunks d = Inr (chunks, d)"
| "chunk_files env idx (f # fs) chunks d =
     (let cs = file_chunks (re_tools env) f
      in bindr (checkpoint env ''chunking'' (idx + 1)) (\<lambda>_.
           chunk_files env (idx + 1) fs (chunks @ cs) (count_file cs d)))"

definition chunk_supported :: "('c, 'a) run_env \<Rightarrow> string list \<Rightarrow> stop + 'c list \<times> chunking_diagnostics" where
  "chunk_supported env files = bindr (checkpoint env ''chunking'' 0) (\<lambda>_. chunk_files env 0 files [] no_diagnostics)"

definition stamp_project :: "string \<Rightarrow> 'a embedding_result \<Rightarrow> 'a embedding_result" where
  "stamp_project project r = r\<lparr>er_metadata := dict_put ''project_name'' (JStr project) (er_metadata r)\<rparr>"

text \<open>\<open>for chunk, result in zip(chunks, results)\<close> stamps as many results as there are chunks.\<close>

definition stamp_results :: "string \<Rightarrow> 'c list \<Rightarrow> 'a embedding_result list \<Rightarrow> 'a embedding_result list" where
  "stamp_results project cs rs = map (stamp_project project) (take (length cs) rs) @ drop (length cs) rs"

definition chunk_and_embed_changes ::
    "('c, 'a) run_env \<Rightarrow> string \<Rightarrow> file_changes \<Rightarrow> stop + 'a embedding_result list \<times> chunking_diagnostics" where
  "chunk_and_embed_changes env project changes =
     (let supported = filter (is_supported (re_tools env)) (get_files_to_reindex changes)
      in bindr (chunk_supported env supported) (\<lambda>(chunks, diag).
           if chunks = [] then Inr ([], diag)
           else bindr (checkpoint env ''embedding'' 0) (\<lambda>_.
             case embed_chunks_grouped (re_tools env) chunks of
               None \<Rightarrow> Inl (Failed EmbedFailed)
             | Some rs \<Rightarrow>
                 bindr (checkpoint env ''embedding'' (length chunks)) (\<lambda>_.
                   Inr (stamp_results project chunks rs, diag)))))"

subsection \<open>Changing the index\<close>

fun remove_files :: "('c, 'a) run_env \<Rightarrow> string \<Rightarrow> nat \<Rightarrow> string list \<Rightarrow> nat \<Rightarrow> 'a store \<Rightarrow> (stop + nat) \<times> 'a store" where
  "remove_files env project idx [] acc s = (Inr acc, s)"
| "remove_files env project idx (f # fs) acc s =
     (case remove_file_chunks (re_lib env) f (Some project) s of
        (n, s1) \<Rightarrow>
          (case checkpoint env ''removing'' (idx + 1) of
             Inl e \<Rightarrow> (Inl e, s1)
           | Inr _ \<Rightarrow> remove_files env project (idx + 1) fs (acc + n) s1))"

definition remove_old_chunks :: "('c, 'a) run_env \<Rightarrow> string \<Rightarrow> file_changes \<Rightarrow> ('a, nat) run" where
  "remove_old_chunks env project changes =
     bind_run (lift_run (checkpoint env ''removing'' 0)) (\<lambda>_.
       on_work (remove_files env project 0 (get_files_to_remove changes) 0))"

definition add_results :: "('c, 'a) run_env \<Rightarrow> 'a embedding_result list \<Rightarrow> ('a, unit) run" where
  "add_results env rs = on_work (\<lambda>s. case add_embeddings (re_lib env) rs s of
     (None, s1) \<Rightarrow> (Inr (), s1) | (Some e, s1) \<Rightarrow> (Inl (Failed (AddFailed e)), s1))"

definition published_store :: "'a store \<Rightarrow> 'a faiss_index \<Rightarrow> 'a store" where
  "published_store s ix = s\<lparr>st_marker := False, st_metadata := kv_commit (st_metadata s),
     disk_index := Readable ix, disk_chunk_ids := Readable (st_chunk_ids s)\<rparr>"

text \<open>
  \<open>save_index\<close> at this level: the truncation guard reads the root \<open>chunk_ids.pkl\<close>, an index that was
  never created is skipped, and a failure restores the published index.
\<close>

definition guard_refuses :: "bool \<Rightarrow> 'a store \<Rightarrow> (nat \<times> nat) option" where
  "guard_refuses force s = (case disk_chunk_ids s of
     Readable ids \<Rightarrow>
       if \<not> force \<and> 5 \<le> length ids \<and> 2 * length (st_chunk_ids s) < length ids
       then Some (length (st_chunk_ids s), length ids) else None
   | _ \<Rightarrow> None)"

definition save_working :: "('c, 'a) run_env \<Rightarrow> bool \<Rightarrow> ('a, unit) run" where
  "save_working env force p =
     (let s = ps_work p; restored = p\<lparr>ps_work := ps_pub p\<rparr> in
      case guard_refuses force s of
        Some (n, k) \<Rightarrow> (Inl (Failed (TruncationGuard n k)), restored)
      | None \<Rightarrow> (case st_index s of
          None \<Rightarrow> (Inr (), p)
        | Some ix \<Rightarrow>
            if re_save_fails env then (Inl (Failed SaveFailed), restored)
            else let s1 = published_store s ix
                 in (Inr (), p\<lparr>ps_work := s1, ps_pub := s1, ps_stats := Some (update_stats s1)\<rparr>)))"

definition index_transaction :: "('a, 'r) run \<Rightarrow> ('a, 'r) run" where
  "index_transaction body p =
     (case body (p\<lparr>ps_work := ps_pub p\<rparr>) of
        (Inl e, p1) \<Rightarrow> (Inl e, rollback_work p1)
      | (Inr x, p1) \<Rightarrow>
          if st_marker (ps_work p1) then (Inl (Failed NotPublished), rollback_work p1) else (Inr x, p1))"

definition record_snapshot :: "('c, 'a) run_env \<Rightarrow> merkle_dag \<Rightarrow> (string, json) dict \<Rightarrow> ('a, unit) run" where
  "record_snapshot env dag meta p =
     (if re_snapshot_fails env then (Inl (Failed SnapshotFailed), p)
      else (Inr (), p\<lparr>ps_snaps := save_snapshot (re_md5 env) (re_resolve env) (re_clock env) (re_manager env)
              dag (Some meta) (ps_snaps p)\<rparr>))"

text \<open>The handlers around a run: a cancelled run is re-raised (\<open>Inl ()\<close>), a failed one reported.\<close>

definition with_handlers :: "('a, index_result) run \<Rightarrow> 'a project_state \<Rightarrow> (unit + index_result) \<times> 'a project_state" where
  "with_handlers m p = (case m p of
     (Inr r, p1) \<Rightarrow> (Inr r, p1)
   | (Inl Cancelled, p1) \<Rightarrow> (Inl (), rollback_work p1)
   | (Inl (Failed f), p1) \<Rightarrow> (Inr (failed_result f), rollback_work p1))"

subsection \<open>Full indexing\<close>

definition full_dag :: "('c, 'a) run_env \<Rightarrow> string \<Rightarrow> stop + merkle_dag" where
  "full_dag env project_path =
     (case build (re_sha env) (re_utf env) (re_tree env)
         (merkle_init (re_resolve env project_path) (re_walk_cancel env)) of
        (Inl IndexingCancelled, _) \<Rightarrow> Inl Cancelled
      | (Inl OsError, _) \<Rightarrow> Inl (Failed DetectFailed)
      | (Inr _, dag) \<Rightarrow> Inr dag)"

text \<open>
  The Batch API path: incomplete output and exceptions (an interrupt of the progress callback is
  one) fall back to the loop below; what was already collected stays in the list.
\<close>

definition embed_by_batch_api ::
    "('c, 'a) run_env \<Rightarrow> string \<Rightarrow> 'c list \<Rightarrow> bool \<times> 'a embedding_result list" where
  "embed_by_batch_api env project chunks =
     (case batch_embed (re_tools env) of
        None \<Rightarrow> (False, [])
      | Some f \<Rightarrow>
          if length chunks < batch_threshold (re_tools env) \<or> chunks = [] then (False, [])
          else case f chunks of
            None \<Rightarrow> (False, [])
          | Some vs \<Rightarrow>
              if length vs \<noteq> length chunks then (False, [])
              else let rs = map2 (\<lambda>c v. stamp_project project (make_result (re_tools env) c v)) chunks vs
                   in (\<not> re_interrupts env ''embedding'' (length chunks), rs))"

text \<open>The real-time loop. An exception of a batch, the progress report included, is counted.\<close>

fun embed_batches :: "('c, 'a) run_env \<Rightarrow> string \<Rightarrow> 'c list list \<Rightarrow> 'a embedding_result list \<Rightarrow> nat \<Rightarrow>
    'a embedding_result list \<times> nat" where
  "embed_batches env project [] acc failures = (acc, failures)"
| "embed_batches env project (batch # batches) acc failures =
     (case embed_chunks_grouped (re_tools env) batch of
        None \<Rightarrow> embed_batches env project batches acc (failures + 1)
      | Some rs \<Rightarrow>
          let acc1 = acc @ stamp_results project batch rs
          in embed_batches env project batches acc1
               (if re_interrupts env ''embedding'' (length acc1) then failures + 1 else failures))"

definition embed_all :: "('c, 'a) run_env \<Rightarrow> string \<Rightarrow> 'c list \<Rightarrow> 'a embedding_result list \<times> nat" where
  "embed_all env project chunks =
     (case embed_by_batch_api env project chunks of (used, rs) \<Rightarrow>
        if used \<or> chunks = [] then (rs, 0) else embed_batches env project (batches_of 1000 chunks) rs 0)"

definition partial_result :: "nat \<Rightarrow> chunking_diagnostics \<Rightarrow> index_failure \<Rightarrow> index_result" where
  "partial_result n diag f = (failed_result f)\<lparr>files_added := n, diagnostics := Some diag\<rparr>"

definition replace_index :: "('c, 'a) run_env \<Rightarrow> 'a embedding_result list \<Rightarrow> ('a, unit) run" where
  "replace_index env rs =
     index_transaction (bind_run (on_work (\<lambda>s. (Inr (), begin_rebuild (re_lib env) s))) (\<lambda>_.
       bind_run (if rs \<noteq> [] then add_results env rs
                 else on_work (\<lambda>s. case create_index (re_lib env) (output_dimension (re_tools env)) ''flat'' s of
                   Inl e \<Rightarrow> (Inl (Failed (AddFailed e)), s) | Inr s1 \<Rightarrow> (Inr (), s1)))
         (\<lambda>_. save_working env True)))"

definition full_meta :: "string \<Rightarrow> nat \<Rightarrow> nat \<Rightarrow> nat \<Rightarrow> (string, json) dict" where
  "full_meta project total_files supported_files chunks_indexed =
     [(''project_name'', JStr project), (''full_index'', JBool True), (''total_files'', JInt (int total_files)),
      (''supported_files'', JInt (int supported_files)), (''chunks_indexed'', JInt (int chunks_indexed))]"

definition full_run :: "('c, 'a) run_env \<Rightarrow> string \<Rightarrow> string \<Rightarrow> ('a, index_result) run" where
  "full_run env project_path project =
     bind_run (lift_run (full_dag env project_path)) (\<lambda>dag.
       let all_files = get_all_files dag; supported = filter (is_supported (re_tools env)) all_files
       in bind_run (lift_run (chunk_supported env supported)) (\<lambda>(chunks, diag).
          bind_run (lift_run (checkpoint env ''embedding'' 0)) (\<lambda>_.
            case embed_all env project chunks of (rs, failures) \<Rightarrow>
              if 0 < failures then
                lift_run (Inr (partial_result (length supported) diag (BatchesFailed failures (length rs) (length chunks))))
              else if chunks = [] \<and> supported \<noteq> [] then lift_run (Inr (partial_result (length supported) diag NoChunks))
              else if length rs \<noteq> length chunks then
                lift_run (Inr (partial_result (length supported) diag (IncompleteEmbedding (length rs) (length chunks))))
              else
                bind_run (lift_run (checkpoint env ''saving'' 0)) (\<lambda>_.
                bind_run (replace_index env rs) (\<lambda>_.
                bind_run (record_snapshot env dag (full_meta project (length all_files) (length supported) (length rs))) (\<lambda>_.
                  lift_run (Inr ((empty_result Completed)\<lparr>files_added := length supported, chunks_added := length rs,
                    diagnostics := Some diag\<rparr>))))))))"

definition full_index :: "('c, 'a) run_env \<Rightarrow> string \<Rightarrow> string \<Rightarrow> 'a project_state \<Rightarrow>
    (unit + index_result) \<times> 'a project_state" where
  "full_index env project_path project = with_handlers (full_run env project_path project)"

subsection \<open>Incremental indexing\<close>

definition detect :: "('c, 'a) run_env \<Rightarrow> string \<Rightarrow> ('a, file_changes \<times> merkle_dag) run" where
  "detect env project_path p =
     (case checkpoint env ''detecting_changes'' 0 of
        Inl e \<Rightarrow> (Inl e, p)
      | Inr _ \<Rightarrow>
          (case detect_changes_from_snapshot (re_sha env) (re_utf env) (re_md5 env) (re_resolve env) (re_manager env)
              project_path (re_tree env) (ps_snaps p) of
             Inl IndexingCancelled \<Rightarrow> (Inl Cancelled, p)
           | Inl OsError \<Rightarrow> (Inl (Failed DetectFailed), p)
           | Inr r \<Rightarrow> (Inr r, p)))"

definition update_index :: "('c, 'a) run_env \<Rightarrow> string \<Rightarrow> file_changes \<Rightarrow> 'a embedding_result list \<Rightarrow> ('a, nat) run" where
  "update_index env project changes rs =
     index_transaction (bind_run (remove_old_chunks env project changes) (\<lambda>n.
       bind_run (if rs \<noteq> [] then bind_run (lift_run (checkpoint env ''saving'' 0)) (\<lambda>_. add_results env rs)
                 else lift_run (Inr ())) (\<lambda>_.
       bind_run (save_working env False) (\<lambda>_. lift_run (Inr n)))))"

definition update_meta :: "string \<Rightarrow> file_changes \<Rightarrow> (string, json) dict" where
  "update_meta project c =
     [(''project_name'', JStr project), (''incremental_update'', JBool True),
      (''files_added'', JInt (int (length (added c)))), (''files_removed'', JInt (int (length (removed c)))),
      (''files_modified'', JInt (int (length (modified c))))]"

definition incremental_run :: "('c, 'a) run_env \<Rightarrow> string \<Rightarrow> string \<Rightarrow> ('a, index_result) run" where
  "incremental_run env project_path project =
     bind_run (detect env project_path) (\<lambda>(changes, dag).
       if \<not> has_changes changes then lift_run (Inr (empty_result Completed))
       else bind_run (lift_run (chunk_and_embed_changes env project changes)) (\<lambda>(rs, diag).
            bind_run (update_index env project changes rs) (\<lambda>n.
            bind_run (record_snapshot env dag (update_meta project changes)) (\<lambda>_.
              lift_run (Inr \<lparr>files_added = length (added changes), files_removed = length (removed changes),
                files_modified = length (modified changes), chunks_added = length rs, chunks_removed = n,
                success = True, failure = None, diagnostics = Some diag, reindex_disposition = Completed\<rparr>)))))"

text \<open>An index without chunks only licenses the incremental path when the snapshot records an empty corpus.\<close>

definition json_zero :: "json option \<Rightarrow> bool" where
  "json_zero v \<longleftrightarrow> v = Some (JInt 0) \<or> v = Some (JBool False)"

definition declares_empty_corpus :: "json option \<Rightarrow> bool" where
  "declares_empty_corpus meta = (case meta of
     Some (JObj ob) \<Rightarrow> json_zero (jget ob ''supported_files'') \<and> json_zero (jget ob ''chunks_indexed'')
   | _ \<Rightarrow> False)"

definition needs_full :: "('c, 'a) run_env \<Rightarrow> bool \<Rightarrow> string \<Rightarrow> 'a project_state \<Rightarrow> bool" where
  "needs_full env force_full project_path p \<longleftrightarrow>
     force_full \<or> \<not> has_snapshot (re_md5 env) (re_resolve env) (re_manager env) project_path (ps_snaps p) \<or>
     ((case ps_stats p of None \<Rightarrow> 0 | Some st \<Rightarrow> total_chunks st) = 0 \<and>
      \<not> declares_empty_corpus (load_metadata (re_md5 env) (re_resolve env) (re_manager env) project_path (ps_snaps p))) \<or>
     (case stale_ratio (ps_work p) of None \<Rightarrow> False | Some (n, k) \<Rightarrow> k < 2 * n)"

definition incremental_index ::
    "('c, 'a) run_env \<Rightarrow> bool \<Rightarrow> string \<Rightarrow> string option \<Rightarrow> 'a project_state \<Rightarrow>
     (unit + index_result) \<times> 'a project_state" where
  "incremental_index env force_full path project_name p =
     (let project_path = path_str (re_resolve env path);
          project = (case project_name of Some n \<Rightarrow> if n = [] then Merkle.path_name (re_resolve env path) else n
                     | None \<Rightarrow> Merkle.path_name (re_resolve env path))
      in if needs_full env force_full project_path p then full_index env project_path project p
         else with_handlers (incremental_run env project_path project) p)"

definition needs_reindex :: "('c, 'a) run_env \<Rightarrow> string \<Rightarrow> int \<Rightarrow> 'a project_state \<Rightarrow> stop + bool" where
  "needs_reindex env project_path max_age_minutes p =
     (let md5 = re_md5 env; resolve = re_resolve env; mgr = re_manager env; fs = ps_snaps p in
      if \<not> has_snapshot md5 resolve mgr project_path fs then Inr True
      else case get_snapshot_age md5 resolve (re_clock env) mgr project_path fs of
        Some age \<Rightarrow>
          if age \<noteq> 0 \<and> max_age_minutes * 60 < age then Inr True
          else (case quick_check (re_sha env) (re_utf env) md5 resolve mgr project_path (re_tree env) fs of
             Inl IndexingCancelled \<Rightarrow> Inl Cancelled | Inl OsError \<Rightarrow> Inl (Failed DetectFailed) | Inr b \<Rightarrow> Inr b)
      | None \<Rightarrow> Inr True)"

text \<open>
  \<open>refuse\<close> is \<open>refuse_as_project_root_reason\<close>, \<open>disabled\<close> the environment switch. An exception of
  \<open>needs_reindex\<close> is not handled here.
\<close>

definition auto_reindex_if_needed ::
    "('c, 'a) run_env \<Rightarrow> (string \<Rightarrow> string option) \<Rightarrow> bool \<Rightarrow> string \<Rightarrow> string option \<Rightarrow> int \<Rightarrow>
     'a project_state \<Rightarrow> (unit + index_result) option \<times> 'a project_state" where
  "auto_reindex_if_needed env refuse disabled project_path project_name max_age_minutes p =
     (if refuse project_path \<noteq> None then (Some (Inr (empty_result Refused)), p)
      else if disabled then (Some (Inr (empty_result SkippedDisabled)), p)
      else case needs_reindex env project_path max_age_minutes p of
        Inl _ \<Rightarrow> (None, p)
      | Inr True \<Rightarrow> (case incremental_index env False project_path project_name p of (r, p1) \<Rightarrow> (Some r, p1))
      | Inr False \<Rightarrow> (Some (Inr (empty_result SkippedFresh)), p))"

end
