(* ===== verification/IncrementalIndex_Correct.thy ===== *)
theory IncrementalIndex_Correct
  imports IncrementalIndex
begin

text \<open>
  What an indexing run achieves: after a successful run the published index holds exactly the
  chunks of the current tree, and the snapshot describes that tree; a run that fails or is
  cancelled changes neither. The index is used through the interface \<open>chunk_index\<close>
  (interpretation \<open>chunks\<close>).
\<close>

subsection \<open>The index manager's operations inside a run\<close>

lemma remove_files_fold:
  "fst (remove_files env project idx fs n s) = Inr m \<Longrightarrow>
   snd (remove_files env project idx fs n s) = fold (\<lambda>f s. snd (remove_file_chunks (re_lib env) f (Some project) s)) fs s"
  by (induction env project idx fs n s rule: remove_files.induct)
     (auto simp: checkpoint_def split: prod.splits if_splits)

lemma remove_keeps_index: "store_ok s \<Longrightarrow> st_index (snd (remove_file_chunks lib f pr s)) = st_index s"
  by (auto simp: remove_file_chunks_def ensure_loaded_ok Let_def remove_fts_rows_def init_fts5_def mark_working_set_dirty_def
      split: option.split disk_file.split)

lemma removes_keep_index:
  "store_ok s \<Longrightarrow> st_index (fold (\<lambda>f s. snd (remove_file_chunks lib f pr s)) fs s) = st_index s"
proof (induction fs arbitrary: s)
  case (Cons f fs)
  have "store_ok (snd (remove_file_chunks lib f pr s))" using Cons.prems remove_refines [of s lib f pr] by auto
  then show ?case using Cons.IH remove_keeps_index [OF Cons.prems] by simp
qed simp

lemma added_fits:
  assumes s: "store_ok s" and b: "lower (quantization lib) \<noteq> ''binary''"
    and r: "add_embeddings lib rs s = (None, s')" and ne: "rs \<noteq> []"
  shows "batch_fits lib s rs" "st_index s' \<noteq> None"
proof -
  obtain s2 ix where s2:
    "(if st_index (mark_working_set_dirty s) = None
      then create_index lib (length (er_embedding (hd rs))) ''flat'' (mark_working_set_dirty s)
      else Inr (mark_working_set_dirty s)) = Inr s2" "st_index s2 = Some ix"
    "fx_d ix = (case st_index (mark_working_set_dirty s) of None \<Rightarrow> length (er_embedding (hd rs)) | Some ix \<Rightarrow> fx_d ix)"
    using with_index [OF _ b, of "mark_working_set_dirty s" "length (er_embedding (hd rs))"] s by (metis store_ok_marker)
  have d: "\<forall>r \<in> set rs. length (er_embedding r) = fx_d ix"
    using r ne s2(1,2) by (auto simp: add_embeddings_def ensure_loaded_ok [OF s] Let_def split: if_splits sum.splits)
  have "fx_d ix = batch_dim s rs" using s2(3) by (simp add: batch_dim_def mark_working_set_dirty_def)
  then show "batch_fits lib s rs" using d b by (simp add: batch_fits_def)
  show "st_index s' \<noteq> None"
    using r ne s2(1,2) by (auto simp: add_embeddings_def ensure_loaded_ok [OF s] Let_def add_to_fts_def init_fts5_def
        split: if_splits sum.splits option.splits disk_file.splits)
qed

lemma published_live: "st_index s = Some ix \<Longrightarrow> live (published_store s ix) = live s"
  by (simp add: fun_eq_iff live_def published_store_def kv.get_commit)

lemma published_ok: "st_index s = Some ix \<Longrightarrow> store_ok s \<Longrightarrow> store_ok (published_store s ix)"
  by (auto simp: store_ok_def index_ok_def published_store_def kv.get_commit kv.inv_commit fts_ok_def)

text \<open>A save that returns publishes the working set, unless no index was ever created.\<close>

lemma save_returns:
  assumes "save_working env force p = (Inr u, p')"
  shows "ps_snaps p' = ps_snaps p \<and>
    (case st_index (ps_work p) of None \<Rightarrow> p' = p
     | Some ix \<Rightarrow> ps_pub p' = published_store (ps_work p) ix \<and> ps_work p' = ps_pub p')"
  using assms by (auto simp: save_working_def Let_def split: option.splits if_splits)

lemma save_raises:
  "save_working env force p = (Inl e, p') \<Longrightarrow> ps_pub p' = ps_pub p \<and> ps_snaps p' = ps_snaps p \<and> ps_work p' = ps_pub p"
  by (auto simp: save_working_def Let_def split: option.splits if_splits)

lemma bind_run_Inr: "bind_run m f p = (Inr y, p') \<longleftrightarrow> (\<exists>x p1. m p = (Inr x, p1) \<and> f x p1 = (Inr y, p'))"
  by (auto simp: bind_run_def split: prod.splits sum.splits)

lemma lift_run_Inr [simp]: "lift_run r p = (Inr x, p') \<longleftrightarrow> r = Inr x \<and> p' = p"
  by (auto simp: lift_run_def)

lemma on_work_Inr: "on_work f p = (Inr x, p') \<longleftrightarrow> (\<exists>s. f (ps_work p) = (Inr x, s) \<and> p' = p\<lparr>ps_work := s\<rparr>)"
  by (auto simp: on_work_def split: prod.splits)

subsection \<open>An update of the published index\<close>

definition chunk_view :: "'a faiss_lib \<Rightarrow> 'a embedding_result \<Rightarrow> 'a list \<times> metadata" where
  "chunk_view lib r = (normalize_L2 lib (er_embedding r), er_metadata r)"

definition replaced :: "'a faiss_lib \<Rightarrow> string \<Rightarrow> string list \<Rightarrow> 'a embedding_result list \<Rightarrow>
    (string \<rightharpoonup> 'a list \<times> metadata) \<Rightarrow> string \<rightharpoonup> 'a list \<times> metadata" where
  "replaced lib project fs rs lv k =
     (case map_of (map (\<lambda>r. (er_chunk_id r, chunk_view lib r)) rs) k of
        Some c \<Rightarrow> Some c
      | None \<Rightarrow> (case lv k of None \<Rightarrow> None | Some c \<Rightarrow> if \<exists>f \<in> set fs. removes_chunk f (Some project) (snd c) then None else Some c))"

lemma update_returns:
  assumes u: "update_index env project changes rs p = (Inr n, p')" and s: "store_ok (ps_pub p)"
    and d: "distinct (map er_chunk_id rs)" and b: "lower (quantization (re_lib env)) \<noteq> ''binary''"
  shows "store_ok (ps_pub p') \<and> ps_snaps p' = ps_snaps p \<and>
    live (ps_pub p') = replaced (re_lib env) project (get_files_to_remove changes) rs (live (ps_pub p))"
proof -
  let ?lib = "re_lib env" and ?fs = "get_files_to_remove changes"
  let ?rm = "\<lambda>f s. snd (remove_file_chunks ?lib f (Some project) s)"
  let ?p0 = "p\<lparr>ps_work := ps_pub p\<rparr>"
  define s1 where "s1 = fold ?rm ?fs (ps_pub p)"
  have s1: "store_ok s1" unfolding s1_def by (rule chunks.inv_removes [OF s])
  obtain p1 p2 p3 where r: "remove_old_chunks env project changes ?p0 = (Inr n, p1)"
      "(if rs \<noteq> [] then bind_run (lift_run (checkpoint env ''saving'' 0)) (\<lambda>_. add_results env rs) else lift_run (Inr ())) p1 = (Inr (), p2)"
      "save_working env False p2 = (Inr (), p3)" "\<not> st_marker (ps_work p3)" "p' = p3"
    using u by (auto simp: update_index_def index_transaction_def bind_run_Inr split: prod.splits sum.splits if_splits)
  have p1: "p1 = ?p0\<lparr>ps_work := s1\<rparr>"
    using r(1) remove_files_fold [of env project 0 ?fs 0 "ps_pub p" n]
    by (auto simp: remove_old_chunks_def bind_run_Inr on_work_Inr s1_def)
  define s2 where "s2 = snd (add_embeddings ?lib rs s1)"
  have p2: "p2 = ?p0\<lparr>ps_work := s2\<rparr>" and add: "rs \<noteq> [] \<Longrightarrow> add_embeddings ?lib rs s1 = (None, s2)"
    using r(2) by (auto simp: p1 s2_def bind_run_Inr add_results_def on_work_Inr add_embeddings_def split: if_splits prod.splits option.splits)
  have fits: "rs = [] \<or> batch_fits ?lib s1 rs" "rs \<noteq> [] \<Longrightarrow> st_index s2 \<noteq> None"
    using added_fits [OF s1 b add] by auto
  have live2: "live s2 = replaced ?lib project ?fs rs (live (ps_pub p))" and s2: "store_ok s2"
  proof -
    have e: "s2 = s1" if "rs = []" using that by (simp add: s2_def add_embeddings_def)
    show "store_ok s2" using e s1 fits chunks.inv_add [OF s1 d, of ?lib] by (auto simp: s2_def)
    show "live s2 = replaced ?lib project ?fs rs (live (ps_pub p))"
    proof
      fix k
      show "live s2 k = replaced ?lib project ?fs rs (live (ps_pub p)) k"
      proof (cases "rs = []")
        case True
        then show ?thesis using e chunks.view_removes [OF s, of ?lib "Some project" ?fs] by (simp add: replaced_def s1_def)
      next
        case False
        then show ?thesis
          using fits chunks.replace_files [OF s d, of ?lib "Some project" ?fs k]
          by (simp add: replaced_def s2_def s1_def chunk_view_def)
      qed
    qed
  qed
  show ?thesis
  proof (cases "st_index s2")
    case None
    then have rs: "rs = []" using fits(2) by blast
    then have "s2 = s1" by (simp add: s2_def add_embeddings_def)
    then have "st_index (ps_pub p) = None" using None removes_keep_index [OF s] by (simp add: s1_def)
    then have "live (ps_pub p) = Map.empty" "live s2 = Map.empty" using None by (auto simp: live_def)
    moreover have "p3 = p2" using save_returns [OF r(3)] None by (simp add: p2)
    ultimately show ?thesis using live2 s r(5) by (simp add: p2)
  next
    case (Some ix)
    then have "ps_pub p3 = published_store s2 ix" "ps_snaps p3 = ps_snaps p" using save_returns [OF r(3)] by (auto simp: p2)
    then show ?thesis using live2 s2 published_live [OF Some] published_ok [OF Some] r(5) by simp
  qed
qed

lemma rebuilt_index: "st_index (begin_rebuild lib s) = None"
  by (simp add: begin_rebuild_def init_fts5_def Let_def discard_unpublished_working_set_def)

lemma replace_returns:
  assumes u: "replace_index env rs p = (Inr u, p')"
    and d: "distinct (map er_chunk_id rs)" and b: "lower (quantization (re_lib env)) \<noteq> ''binary''"
  shows "store_ok (ps_pub p') \<and> ps_snaps p' = ps_snaps p \<and>
    live (ps_pub p') = map_of (map (\<lambda>r. (er_chunk_id r, chunk_view (re_lib env) r)) rs)"
proof -
  let ?lib = "re_lib env" and ?p0 = "p\<lparr>ps_work := ps_pub p\<rparr>"
  define s1 where "s1 = begin_rebuild ?lib (ps_pub p)"
  have s1: "store_ok s1" "live s1 = Map.empty" using rebuild_empty by (auto simp: s1_def)
  obtain p2 p3 where r: "(if rs \<noteq> [] then add_results env rs
                 else on_work (\<lambda>s. case create_index ?lib (output_dimension (re_tools env)) ''flat'' s of
                   Inl e \<Rightarrow> (Inl (Failed (AddFailed e)), s) | Inr s1 \<Rightarrow> (Inr (), s1))) (?p0\<lparr>ps_work := s1\<rparr>) = (Inr (), p2)"
      "save_working env True p2 = (Inr (), p3)" "\<not> st_marker (ps_work p3)" "p' = p3"
    using u by (auto simp: replace_index_def index_transaction_def bind_run_Inr on_work_Inr s1_def split: prod.splits sum.splits if_splits)
  obtain s2 ix where s2: "p2 = ?p0\<lparr>ps_work := s2\<rparr>" "store_ok s2" "st_index s2 = Some ix"
      "live s2 = map_of (map (\<lambda>r. (er_chunk_id r, chunk_view ?lib r)) rs)"
  proof (cases "rs = []")
    case True
    obtain s2 ix where s2: "create_index ?lib (output_dimension (re_tools env)) ''flat'' s1 = Inr s2" "st_index s2 = Some ix"
        "store_ok s2" "live s2 = live s1"
      using with_index [OF s1(1) b, of "output_dimension (re_tools env)"] rebuilt_index [of ?lib "ps_pub p"]
      by (metis s1_def)
    show ?thesis using that [OF _ s2(3,2)] r(1) True s2(1,4) s1(2) by (auto simp: on_work_Inr)
  next
    case False
    define s2 where "s2 = snd (add_embeddings ?lib rs s1)"
    have a: "add_embeddings ?lib rs s1 = (None, s2)" "p2 = ?p0\<lparr>ps_work := s2\<rparr>"
      using r(1) False by (auto simp: add_results_def on_work_Inr s2_def split: prod.splits option.splits)
    have f: "batch_fits ?lib s1 rs" "st_index s2 \<noteq> None" using added_fits [OF s1(1) b a(1) False] by auto
    have "store_ok s2" using chunks.inv_add [OF s1(1) d f(1)] by (simp add: s2_def)
    moreover have "live s2 = map_of (map (\<lambda>r. (er_chunk_id r, chunk_view ?lib r)) rs)"
      using chunks.rebuild_files [OF d, of ?lib "ps_pub p"] f(1) by (simp add: s2_def s1_def chunk_view_def)
    ultimately show ?thesis using that a(2) f(2) by blast
  qed
  have "ps_pub p3 = published_store s2 ix" "ps_snaps p3 = ps_snaps p" using save_returns [OF r(2)] s2(3) by (auto simp: s2(1))
  then show ?thesis using s2 published_live published_ok r(4) by auto
qed

subsection \<open>Chunking and embedding\<close>

text \<open>
  What a run relies on: the embedder, when it answers, answers one result per chunk that does not
  depend on the batch, and the Batch API agrees with it; \<open>fr f h\<close> are the stamped results of the
  chunks of a file with content hash \<open>h\<close>.
\<close>

definition pipeline :: "('c, 'a) run_env \<Rightarrow> string \<Rightarrow> ('c \<Rightarrow> 'a embedding_result) \<Rightarrow>
    (string \<Rightarrow> string \<Rightarrow> 'a embedding_result list) \<Rightarrow> (string \<rightharpoonup> string) \<Rightarrow> bool" where
  "pipeline env project one fr H \<longleftrightarrow>
     (\<forall>cs rs. embed_chunks_grouped (re_tools env) cs = Some rs \<longrightarrow> rs = map one cs) \<and>
     (\<forall>g cs vs. batch_embed (re_tools env) = Some g \<longrightarrow> g cs = Some vs \<longrightarrow> length vs = length cs \<longrightarrow>
        map2 (make_result (re_tools env)) cs vs = map one cs) \<and>
     (\<forall>f h. H f = Some h \<longrightarrow> is_supported (re_tools env) f \<longrightarrow>
        fr f h = map (stamp_project project \<circ> one) (file_chunks (re_tools env) f))"

lemma chunk_files_all:
  "chunk_files env idx fs cs d = Inr (cs', d') \<Longrightarrow> cs' = cs @ concat (map (file_chunks (re_tools env)) fs)"
  by (induction env idx fs cs d rule: chunk_files.induct) (auto simp: bindr_Inr Let_def)

lemma chunk_supported_all:
  "chunk_supported env fs = Inr (cs, d) \<Longrightarrow> cs = concat (map (file_chunks (re_tools env)) fs)"
  using chunk_files_all by (fastforce simp: chunk_supported_def bindr_Inr)

lemma stamp_all [simp]: "stamp_results project cs (map one cs) = map (stamp_project project \<circ> one) cs"
  by (simp add: stamp_results_def)

definition expected_results :: "(string \<Rightarrow> bool) \<Rightarrow> (string \<Rightarrow> string \<Rightarrow> 'a embedding_result list) \<Rightarrow> (string \<rightharpoonup> string) \<Rightarrow>
    string list \<Rightarrow> 'a embedding_result list" where
  "expected_results supp fr H fs = concat (map (\<lambda>f. fr f (the (H f))) (filter supp fs))"

lemma expected_from_chunks:
  assumes "pipeline env project one fr H" "set fs \<subseteq> dom H"
  shows "map (stamp_project project \<circ> one) (concat (map (file_chunks (re_tools env)) (filter (is_supported (re_tools env)) fs))) =
    expected_results (is_supported (re_tools env)) fr H fs"
  using assms(2)
proof (induction fs)
  case (Cons f fs)
  then show ?case using assms(1) by (auto simp: expected_results_def pipeline_def)
qed (simp add: expected_results_def)

lemma chunk_and_embed_returns:
  assumes r: "chunk_and_embed_changes env project changes = Inr (rs, diag)"
    and p: "pipeline env project one fr H" "set (get_files_to_reindex changes) \<subseteq> dom H"
  shows "rs = expected_results (is_supported (re_tools env)) fr H (get_files_to_reindex changes)"
proof -
  let ?fs = "filter (is_supported (re_tools env)) (get_files_to_reindex changes)"
  obtain cs where cs: "chunk_supported env ?fs = Inr (cs, diag)"
      "(cs = [] \<and> rs = []) \<or> (\<exists>rs0. embed_chunks_grouped (re_tools env) cs = Some rs0 \<and> rs = stamp_results project cs rs0)"
    using r by (auto simp: chunk_and_embed_changes_def Let_def bindr_Inr split: if_splits option.splits)
  have "rs = map (stamp_project project \<circ> one) cs"
    using cs(2)
  proof
    assume "\<exists>rs0. embed_chunks_grouped (re_tools env) cs = Some rs0 \<and> rs = stamp_results project cs rs0"
    then have "rs = stamp_results project cs (map one cs)" using p(1) unfolding pipeline_def by blast
    then show ?thesis by simp
  qed simp
  then show ?thesis using expected_from_chunks [OF p] chunk_supported_all [OF cs(1)] by simp
qed

lemma embed_batches_all:
  assumes "\<forall>cs rs. embed_chunks_grouped (re_tools env) cs = Some rs \<longrightarrow> rs = map one cs"
  shows "embed_batches env project batches acc n = (rs, 0) \<Longrightarrow>
    n = 0 \<and> rs = acc @ map (stamp_project project \<circ> one) (concat batches)"
proof (induction batches arbitrary: acc n)
  case (Cons batch batches)
  obtain rs0 where e: "embed_chunks_grouped (re_tools env) batch = Some rs0"
    using Cons by (cases "embed_chunks_grouped (re_tools env) batch") auto
  then have "rs0 = map one batch" using assms by blast
  let ?acc = "acc @ map (stamp_project project \<circ> one) batch"
  have "embed_batches env project batches ?acc
      (if re_interrupts env ''embedding'' (length ?acc) then n + 1 else n) = (rs, 0)"
    using Cons.prems e \<open>rs0 = map one batch\<close> by (simp add: Let_def)
  from Cons.IH [OF this] show ?case by (auto split: if_splits)
qed simp

text \<open>The length check of the full run rejects a fallback on top of already collected results.\<close>

lemma embed_all_returns:
  assumes p: "pipeline env project one fr H" and e: "embed_all env project cs = (rs, 0)" and l: "length rs = length cs"
  shows "rs = map (stamp_project project \<circ> one) cs"
proof -
  obtain used rs0 where b: "embed_by_batch_api env project cs = (used, rs0)" by fastforce
  have rs0: "rs0 = [] \<and> \<not> used \<or> rs0 = map (stamp_project project \<circ> one) cs"
  proof -
    have "map2 (\<lambda>c v. stamp_project project (make_result (re_tools env) c v)) cs vs = map (stamp_project project \<circ> one) cs"
      if "batch_embed (re_tools env) = Some g" "g cs = Some vs" "length vs = length cs" for g vs
    proof -
      have "map2 (make_result (re_tools env)) cs vs = map one cs" using p that by (auto simp: pipeline_def)
      then have "map (stamp_project project) (map2 (make_result (re_tools env)) cs vs) = map (stamp_project project \<circ> one) cs" by simp
      then show ?thesis by (simp add: case_prod_beta' comp_def)
    qed
    then show ?thesis using b by (auto simp: embed_by_batch_api_def Let_def split: option.splits if_splits)
  qed
  show ?thesis
  proof (cases "used \<or> cs = []")
    case True
    then show ?thesis using e b rs0 by (auto simp: embed_all_def)
  next
    case False
    then have "embed_batches env project (batches_of 1000 cs) rs0 0 = (rs, 0)" using e b by (auto simp: embed_all_def)
    then have "rs = rs0 @ map (stamp_project project \<circ> one) cs"
      using embed_batches_all [of env one project "batches_of 1000 cs" rs0 0 rs] p concat_batches [of 1000 cs] by (simp add: pipeline_def)
    then show ?thesis using rs0 l False by auto
  qed
qed

subsection \<open>The index of a tree\<close>

text \<open>
  \<open>indexes lib supp fr H lv\<close>: the live chunks are exactly the results of the supported files of a tree
  with file hashes \<open>H\<close>.
\<close>

definition indexes :: "'a faiss_lib \<Rightarrow> (string \<Rightarrow> bool) \<Rightarrow> (string \<Rightarrow> string \<Rightarrow> 'a embedding_result list) \<Rightarrow>
    (string \<rightharpoonup> string) \<Rightarrow> (string \<rightharpoonup> 'a list \<times> metadata) \<Rightarrow> bool" where
  "indexes lib supp fr H lv \<longleftrightarrow> (\<forall>k c. lv k = Some c \<longleftrightarrow>
     (\<exists>f h r. H f = Some h \<and> supp f \<and> r \<in> set (fr f h) \<and> er_chunk_id r = k \<and> c = chunk_view lib r))"

text \<open>Chunk ids belong to one file, and the metadata names that file and the project.\<close>

definition results_ok :: "string \<Rightarrow> (string \<Rightarrow> string \<Rightarrow> 'a embedding_result list) \<Rightarrow> bool" where
  "results_ok project fr \<longleftrightarrow>
     (\<forall>f h f' h' r r'. r \<in> set (fr f h) \<longrightarrow> r' \<in> set (fr f' h') \<longrightarrow> er_chunk_id r = er_chunk_id r' \<longrightarrow> f = f') \<and>
     (\<forall>f h. distinct (map er_chunk_id (fr f h))) \<and>
     (\<forall>f h r. r \<in> set (fr f h) \<longrightarrow> rel_path (er_metadata r) = f \<and>
        dict_get (er_metadata r) ''project_name'' = Some (JStr project) \<and>
        (meta_text (er_metadata r) ''file_path'' = [] \<or>
         is_absolute_norm (normalize_path (meta_text (er_metadata r) ''file_path''))))"

definition plain_path :: "string \<Rightarrow> bool" where
  "plain_path f \<longleftrightarrow> f \<noteq> [] \<and> normalize_path f = f \<and> \<not> is_absolute_norm f"

lemma results_removed:
  assumes "results_ok project fr" "r \<in> set (fr f h)" "plain_path f" "plain_path g"
  shows "removes_chunk g (Some project) (snd (chunk_view lib r)) \<longleftrightarrow> f = g"
proof -
  have m: "meta_text (er_metadata r) ''relative_path'' = f" "dict_get (er_metadata r) ''project_name'' = Some (JStr project)"
      "meta_text (er_metadata r) ''file_path'' = [] \<or> is_absolute_norm (normalize_path (meta_text (er_metadata r) ''file_path''))"
    using assms(1,2) by (auto simp: results_ok_def rel_path_def)
  then show ?thesis
    using relative_target [of g f "meta_text (er_metadata r) ''file_path''"] assms(3,4)
    by (auto simp: removes_chunk_def Let_def chunk_view_def plain_path_def)
qed

lemma expected_ids_distinct:
  assumes "results_ok project fr" "distinct fs"
  shows "distinct (map er_chunk_id (expected_results supp fr H fs))"
  using assms(2)
proof (induction fs)
  case (Cons f fs)
  have "er_chunk_id r \<noteq> er_chunk_id r'" if r: "r \<in> set (fr f (the (H f)))" and r': "r' \<in> set (expected_results supp fr H fs)" for r r'
  proof
    assume eq: "er_chunk_id r = er_chunk_id r'"
    obtain g where "g \<in> set fs" "r' \<in> set (fr g (the (H g)))" using r' by (auto simp: expected_results_def)
    then have "f = g" using r eq assms(1) unfolding results_ok_def by blast
    then show False using \<open>g \<in> set fs\<close> Cons.prems by simp
  qed
  then show ?case using Cons assms(1) by (auto simp: expected_results_def results_ok_def)
qed (simp add: expected_results_def)

lemma expected_map:
  assumes ok: "results_ok project fr" and d: "distinct fs" "set fs \<subseteq> dom H"
  shows "map_of (map (\<lambda>r. (er_chunk_id r, chunk_view lib r)) (expected_results supp fr H fs)) k = Some c \<longleftrightarrow>
    (\<exists>f h r. f \<in> set fs \<and> H f = Some h \<and> supp f \<and> r \<in> set (fr f h) \<and> er_chunk_id r = k \<and> c = chunk_view lib r)"
proof -
  have "map_of (map (\<lambda>r. (er_chunk_id r, chunk_view lib r)) (expected_results supp fr H fs)) k = Some c \<longleftrightarrow>
      (k, c) \<in> (\<lambda>r. (er_chunk_id r, chunk_view lib r)) ` set (expected_results supp fr H fs)"
    using expected_ids_distinct [OF ok d(1), of supp H] by (subst map_of_eq_Some_iff) (simp_all add: o_def)
  also have "\<dots> \<longleftrightarrow> (\<exists>f h r. f \<in> set fs \<and> H f = Some h \<and> supp f \<and> r \<in> set (fr f h) \<and> er_chunk_id r = k \<and> c = chunk_view lib r)"
    using d(2) by (fastforce simp: expected_results_def)
  finally show ?thesis .
qed

lemma exact_lists:
  assumes "changes_exact H0 H1 c"
  shows "set (get_files_to_remove c) = {f \<in> dom H0. H1 f \<noteq> H0 f}" "set (get_files_to_reindex c) = {f \<in> dom H1. H1 f \<noteq> H0 f}"
  using assms by (auto simp: changes_exact_def get_files_to_remove_def get_files_to_reindex_def domIff)

lemma replaced_indexes:
  assumes i: "indexes lib supp fr H0 lv" and c: "changes_exact H0 H1 c" "distinct (get_files_to_reindex c)"
    and ok: "results_ok project fr" and pl: "\<forall>f \<in> dom H0 \<union> dom H1. plain_path f"
  shows "indexes lib supp fr H1
    (replaced lib project (get_files_to_remove c) (expected_results supp fr H1 (get_files_to_reindex c)) lv)"
  unfolding indexes_def
proof (intro allI)
  fix k v
  let ?new = "map_of (map (\<lambda>r. (er_chunk_id r, chunk_view lib r)) (expected_results supp fr H1 (get_files_to_reindex c)))"
  let ?goal = "\<exists>f h r. H1 f = Some h \<and> supp f \<and> r \<in> set (fr f h) \<and> er_chunk_id r = k \<and> v = chunk_view lib r"
  note l = exact_lists [OF c(1)]
  have sub: "set (get_files_to_reindex c) \<subseteq> dom H1" using l by auto
  note new = expected_map [OF ok c(2) sub, of lib supp k]
  have one: "f = g" if "r \<in> set (fr f h)" "r' \<in> set (fr g h')" "er_chunk_id r = er_chunk_id r'" for f g h h' r r'
    using ok that unfolding results_ok_def by blast
  have one': "r = r'" if "r \<in> set (fr f h)" "r' \<in> set (fr f h)" "er_chunk_id r = er_chunk_id r'" for f h r r'
    using ok that unfolding results_ok_def by (meson distinct_map inj_onD)
  show "(replaced lib project (get_files_to_remove c) (expected_results supp fr H1 (get_files_to_reindex c)) lv k = Some v) = ?goal"
  proof (cases "?new k")
    case (Some w)
    then obtain f h r where f: "f \<in> set (get_files_to_reindex c)" "H1 f = Some h" "supp f" "r \<in> set (fr f h)" "er_chunk_id r = k"
        "w = chunk_view lib r" using new [of w] by blast
    have "?goal \<longleftrightarrow> v = w"
    proof
      assume ?goal
      then obtain g h' r' where g: "H1 g = Some h'" "r' \<in> set (fr g h')" "er_chunk_id r' = k" "v = chunk_view lib r'" by blast
      then have "g = f" using one [OF g(2) f(4)] f(5) by simp
      then have "h' = h" using g(1) f(2) by simp
      then show "v = w" using one' [of r f h r'] f g \<open>g = f\<close> by auto
    qed (use f in blast)
    then show ?thesis using Some by (auto simp: replaced_def)
  next
    case None
    have old: "(replaced lib project (get_files_to_remove c) (expected_results supp fr H1 (get_files_to_reindex c)) lv k = Some v) \<longleftrightarrow>
        lv k = Some v \<and> \<not> (\<exists>f \<in> set (get_files_to_remove c). removes_chunk f (Some project) (snd v))"
      using None by (auto simp: replaced_def split: option.splits)
    show ?thesis
      unfolding old
    proof
      assume a: "lv k = Some v \<and> \<not> (\<exists>f \<in> set (get_files_to_remove c). removes_chunk f (Some project) (snd v))"
      then obtain f h r where f: "H0 f = Some h" "supp f" "r \<in> set (fr f h)" "er_chunk_id r = k" "v = chunk_view lib r"
        using i unfolding indexes_def by blast
      have "plain_path f" using pl f(1) by blast
      then have "f \<notin> set (get_files_to_remove c)"
        using a results_removed [OF ok f(3), of f lib] f(5) by blast
      then have "H1 f = Some h" using l(1) f(1) by auto
      then show ?goal using f by blast
    next
      assume ?goal
      then obtain f h r where f: "H1 f = Some h" "supp f" "r \<in> set (fr f h)" "er_chunk_id r = k" "v = chunk_view lib r" by blast
      have "f \<notin> set (get_files_to_reindex c)" using new [of v] f None by auto
      then have h0: "H0 f = Some h" using l(2) f(1) by auto
      then have "lv k = Some v" using i f unfolding indexes_def by blast
      moreover have "\<not> removes_chunk g (Some project) (snd v)" if "g \<in> set (get_files_to_remove c)" for g
      proof -
        have "plain_path f" "plain_path g" "g \<noteq> f" using that pl l(1) h0 f(1) by auto
        then show ?thesis using results_removed [OF ok f(3), of g lib] f(5) by simp
      qed
      ultimately show "lv k = Some v \<and> \<not> (\<exists>f \<in> set (get_files_to_remove c). removes_chunk f (Some project) (snd v))" by blast
    qed
  qed
qed

lemma rebuilt_indexes:
  assumes "results_ok project fr" "distinct fs" "set fs = dom H"
  shows "indexes lib supp fr H (map_of (map (\<lambda>r. (er_chunk_id r, chunk_view lib r)) (expected_results supp fr H fs)))"
  unfolding indexes_def using expected_map [OF assms(1,2), of H lib supp] assms(3) by (auto simp: dom_def)

end
