(* ===== verification/IncrementalIndex_Runs.thy ===== *)
theory IncrementalIndex_Runs
  imports IncrementalIndex_Correct
begin

text \<open>
  The properties of whole indexing runs. \<open>up_to_date env fr project path H p\<close>: the published index is
  consistent and holds exactly the chunks of a tree with file hashes \<open>H\<close>, and the stored snapshot
  describes that tree.
\<close>

definition canonical :: "('c, 'a) run_env \<Rightarrow> string \<Rightarrow> string" where
  "canonical env path = path_str (re_resolve env path)"

definition tree_dag :: "('c, 'a) run_env \<Rightarrow> string \<Rightarrow> merkle_dag" where
  "tree_dag env path = snd (build (re_sha env) (re_utf env) (re_tree env)
     (current_dag (re_resolve env) (re_manager env) (canonical env path)))"

definition tree_hashes :: "('c, 'a) run_env \<Rightarrow> string \<Rightarrow> string \<rightharpoonup> string" where
  "tree_hashes env path = map_of (get_file_hashes (tree_dag env path))"

definition stored_snapshot :: "('c, 'a) run_env \<Rightarrow> string \<Rightarrow> snapshot_files \<Rightarrow> merkle_dag option" where
  "stored_snapshot env path fs = load_snapshot (re_md5 env) (re_resolve env) (re_manager env) (canonical env path) fs"

definition up_to_date :: "('c, 'a) run_env \<Rightarrow> (string \<Rightarrow> string \<Rightarrow> 'a embedding_result list) \<Rightarrow> string \<Rightarrow>
    (string \<rightharpoonup> string) \<Rightarrow> 'a project_state \<Rightarrow> bool" where
  "up_to_date env fr path H p \<longleftrightarrow> store_ok (ps_pub p) \<and>
     indexes (re_lib env) (is_supported (re_tools env)) fr H (live (ps_pub p)) \<and>
     (\<exists>d. stored_snapshot env path (ps_snaps p) = Some d \<and> coherent d \<and> map_of (get_file_hashes d) = H)"

text \<open>The conditions of a run: a readable tree, a canonical project path outside which snapshots are stored.\<close>

definition run_ok :: "('c, 'a) run_env \<Rightarrow> string \<Rightarrow> bool" where
  "run_ok env path \<longleftrightarrow> stat_ok (re_tree env) \<and> names_ok (re_tree env) \<and>
     re_resolve env (canonical env path) = re_resolve env path \<and>
     current_dag (re_resolve env) (re_manager env) (canonical env path) = merkle_init (re_resolve env (canonical env path)) None \<and>
     uncancelled (merkle_init (re_resolve env path) (re_walk_cancel env)) \<and>
     lower (quantization (re_lib env)) \<noteq> ''binary'' \<and> (\<forall>f \<in> dom (tree_hashes env path). plain_path f)"

lemma hashes_distinct: "coherent d \<Longrightarrow> distinct (dict_keys (get_file_hashes d))"
  by (auto simp: coherent_def get_file_hashes_def distinct_map_filter comp_def case_prod_beta')

lemma tree_build:
  assumes "run_ok env path"
  shows "build (re_sha env) (re_utf env) (re_tree env) (current_dag (re_resolve env) (re_manager env) (canonical env path)) =
      (Inr (), tree_dag env path)"
    "coherent (tree_dag env path)" "path_str (root_path (tree_dag env path)) = canonical env path"
    "storable (re_resolve env) (tree_dag env path)"
proof -
  have t: "stat_ok (re_tree env)" "names_ok (re_tree env)" and r: "re_resolve env (canonical env path) = re_resolve env path"
    using assms by (auto simp: run_ok_def)
  show b: "build (re_sha env) (re_utf env) (re_tree env) (current_dag (re_resolve env) (re_manager env) (canonical env path)) =
      (Inr (), tree_dag env path)"
    using build_view [where sha = "re_sha env" and utf = "re_utf env" and dag = "current_dag (re_resolve env) (re_manager env) (canonical env path)",
        OF current_dag_simps(2) t] by (auto simp: tree_dag_def)
  show c: "coherent (tree_dag env path)" unfolding tree_dag_def by (rule build_coherent [OF current_dag_simps(2) t])
  have rp: "root_path (tree_dag env path) = re_resolve env path"
    by (simp add: tree_dag_def build_config r)
  then show "path_str (root_path (tree_dag env path)) = canonical env path" by (simp add: canonical_def)
  show "storable (re_resolve env) (tree_dag env path)" using c rp r by (simp add: storable_def canonical_def)
qed

text \<open>The walk of a full run sees the same files.\<close>

lemma full_dag_hashes:
  assumes ok: "run_ok env path" and d: "full_dag env (canonical env path) = Inr dag"
  shows "get_file_hashes dag = get_file_hashes (tree_dag env path) \<and> coherent dag \<and> root_path dag = re_resolve env path"
proof -
  let ?m = "merkle_init (re_resolve env (canonical env path)) (re_walk_cancel env)"
  have t: "stat_ok (re_tree env)" "names_ok (re_tree env)" and r: "re_resolve env (canonical env path) = re_resolve env path"
    and u: "uncancelled ?m" and cur: "current_dag (re_resolve env) (re_manager env) (canonical env path) =
      merkle_init (re_resolve env (canonical env path)) None"
    using ok by (auto simp: run_ok_def)
  have dag: "dag = snd (build (re_sha env) (re_utf env) (re_tree env) ?m)"
    using d by (auto simp: full_dag_def split: prod.splits sum.splits walk_exn.splits)
  have rp: "root_path (merkle_init q c) = q" for q c by (simp add: merkle_init_def)
  have u0: "uncancelled (merkle_init (re_resolve env (canonical env path)) None)" by (simp add: uncancelled_def merkle_init_def)
  have v: "root_view ?m (re_tree env) = root_view (merkle_init (re_resolve env (canonical env path)) None) (re_tree env)"
    by (simp add: root_view_def merkle_init_def)
  have "get_file_hashes dag = get_file_hashes (tree_dag env path)"
    using build_file_hashes [OF u t] build_file_hashes [OF u0 t] v by (simp add: dag tree_dag_def cur rp split: option.split)
  then show ?thesis
    using build_coherent [OF u t] by (simp add: dag build_config rp r)
qed

lemma all_files_distinct: "coherent d \<Longrightarrow> distinct (get_all_files d) \<and> set (get_all_files d) = dom (map_of (get_file_hashes d))"
  by (auto simp: coherent_def get_all_files_def get_file_hashes_def distinct_map_filter dom_map_of_conv_image_fst case_prod_beta'
      image_image)

lemma recorded_snapshot:
  assumes "record_snapshot env dag meta p = (Inr u, p')" "storable (re_resolve env) dag" "path_str (root_path dag) = canonical env path"
  shows "ps_pub p' = ps_pub p \<and> (\<exists>d. stored_snapshot env path (ps_snaps p') = Some d \<and> coherent d \<and>
    map_of (get_file_hashes d) = map_of (get_file_hashes dag))"
proof -
  have "p' = p\<lparr>ps_snaps := save_snapshot (re_md5 env) (re_resolve env) (re_clock env) (re_manager env) dag (Some meta) (ps_snaps p)\<rparr>"
    using assms(1) by (auto simp: record_snapshot_def split: if_splits)
  then show ?thesis
    using load_saved_snapshot [OF assms(2), of "re_md5 env" "re_manager env" "re_clock env" "Some meta" "ps_snaps p"] assms(3)
    by (auto simp: stored_snapshot_def)
qed

subsection \<open>Full runs\<close>

lemma full_run_returns:
  assumes r: "full_run env (canonical env path) project p = (Inr res, p')" "success res"
    and ok: "run_ok env path" "results_ok project fr" "pipeline env project one fr (tree_hashes env path)"
  shows "up_to_date env fr path (tree_hashes env path) p'"
proof -
  let ?sup = "is_supported (re_tools env)" and ?H = "tree_hashes env path"
  obtain dag cs diag where e0: "full_dag env (canonical env path) = Inr dag"
      "chunk_supported env (filter ?sup (get_all_files dag)) = Inr (cs, diag)"
    using r(1) by (auto simp: full_run_def bind_run_Inr Let_def)
  obtain rs n where "embed_all env project cs = (rs, n)" by fastforce
  note e = e0 this
  obtain p1 meta where "n = 0" "length rs = length cs"
      "replace_index env rs p = (Inr (), p1)" "record_snapshot env dag meta p1 = (Inr (), p')"
  proof (cases "0 < n \<or> (cs = [] \<and> filter ?sup (get_all_files dag) \<noteq> []) \<or> length rs \<noteq> length cs")
    case True
    then have "\<not> success res"
      using r(1) e by (auto simp: full_run_def bind_run_Inr Let_def partial_result_def failed_result_def split: if_splits)
    then show ?thesis using r(2) by simp
  next
    case False
    then show ?thesis using that r(1) e by (auto simp: full_run_def bind_run_Inr Let_def split: if_splits)
  qed
  then have f: "full_dag env (canonical env path) = Inr dag"
      "chunk_supported env (filter ?sup (get_all_files dag)) = Inr (cs, diag)"
      "embed_all env project cs = (rs, 0)" "length rs = length cs"
      "replace_index env rs p = (Inr (), p1)" "record_snapshot env dag meta p1 = (Inr (), p')"
    using e by auto
  note h = full_dag_hashes [OF ok(1) f(1)]
  have files: "distinct (get_all_files dag)" "set (get_all_files dag) = dom ?H"
    using all_files_distinct [of dag] h by (auto simp: tree_hashes_def)
  have rs: "rs = expected_results ?sup fr ?H (get_all_files dag)"
    using embed_all_returns [OF ok(3) f(3,4)] chunk_supported_all [OF f(2)] expected_from_chunks [OF ok(3)] files(2) by simp
  have d: "distinct (map er_chunk_id rs)" unfolding rs by (rule expected_ids_distinct [OF ok(2) files(1)])
  have i: "store_ok (ps_pub p1) \<and> live (ps_pub p1) = map_of (map (\<lambda>r. (er_chunk_id r, chunk_view (re_lib env) r)) rs)"
    using replace_returns [OF f(5) d] ok(1) by (simp add: run_ok_def)
  have s: "storable (re_resolve env) dag" "path_str (root_path dag) = canonical env path"
    using h ok(1) by (auto simp: storable_def run_ok_def canonical_def)
  have "indexes (re_lib env) ?sup fr ?H (live (ps_pub p1))"
    using rebuilt_indexes [OF ok(2) files, of "re_lib env" ?sup] i by (simp add: rs)
  then show ?thesis
    using recorded_snapshot [OF f(6) s] i h by (auto simp: up_to_date_def tree_hashes_def)
qed

lemma handled: "with_handlers m p = (Inr res, p') \<Longrightarrow> success res \<Longrightarrow> m p = (Inr res, p')"
  by (auto simp: with_handlers_def failed_result_def split: prod.splits sum.splits stop.splits)

subsection \<open>Incremental runs\<close>

lemma detect_returns:
  assumes "detect env (canonical env path) p = (Inr (c, dag), p1)" "run_ok env path"
  shows "p1 = p \<and> dag = tree_dag env path \<and> c = changes_against (stored_snapshot env path (ps_snaps p)) dag"
  using assms(1) tree_build(1) [OF assms(2)]
  by (auto simp: detect_def detect_changes_from_snapshot_def stored_snapshot_def checkpoint_def split: if_splits sum.splits walk_exn.splits)

lemma incremental_returns:
  assumes "incremental_run env (canonical env path) project p = (Inr res, p')" "run_ok env path"
  defines "c \<equiv> changes_against (stored_snapshot env path (ps_snaps p)) (tree_dag env path)"
  shows "(\<not> has_changes c \<and> p' = p) \<or>
    (\<exists>rs diag n p1. chunk_and_embed_changes env project c = Inr (rs, diag) \<and> update_index env project c rs p = (Inr n, p1) \<and>
       record_snapshot env (tree_dag env path) (update_meta project c) p1 = (Inr (), p'))"
proof -
  obtain c' dag p0 where d: "detect env (canonical env path) p = (Inr (c', dag), p0)"
      "(if \<not> has_changes c' then lift_run (Inr (empty_result Completed))
       else bind_run (lift_run (chunk_and_embed_changes env project c')) (\<lambda>(rs, diag).
            bind_run (update_index env project c' rs) (\<lambda>n.
            bind_run (record_snapshot env dag (update_meta project c')) (\<lambda>_.
              lift_run (Inr \<lparr>files_added = length (added c'), files_removed = length (removed c'),
                files_modified = length (modified c'), chunks_added = length rs, chunks_removed = n,
                success = True, failure = None, diagnostics = Some diag, reindex_disposition = Completed\<rparr>))))) p0 = (Inr res, p')"
    using assms(1) unfolding incremental_run_def bind_run_Inr by auto
  have e: "p0 = p" "dag = tree_dag env path" "c' = c" using detect_returns [OF d(1) assms(2)] by (auto simp: c_def)
  show ?thesis
    using d(2) unfolding e by (auto simp: bind_run_Inr split: if_splits)
qed

lemma incremental_up_to_date:
  assumes r: "incremental_run env (canonical env path) project p = (Inr res, p')"
    and u: "up_to_date env fr path H p" "\<forall>f \<in> dom H. plain_path f"
    and ok: "run_ok env path" "results_ok project fr" "pipeline env project one fr (tree_hashes env path)"
  shows "up_to_date env fr path (tree_hashes env path) p'"
proof -
  let ?H = "tree_hashes env path" and ?dag = "tree_dag env path"
  obtain d where d: "stored_snapshot env path (ps_snaps p) = Some d" "coherent d" "map_of (get_file_hashes d) = H"
    using u(1) by (auto simp: up_to_date_def)
  define c where "c = detect_changes d ?dag"
  have exact: "changes_exact H ?H c" using compare_hashes_exact d(3) by (auto simp: c_def detect_changes_def tree_hashes_def)
  have dist: "distinct (get_files_to_reindex c)"
    using compare_hashes_distinct [OF hashes_distinct [OF d(2)] hashes_distinct [OF tree_build(2) [OF ok(1)]]]
    by (auto simp: c_def detect_changes_def get_files_to_reindex_def)
  have "(\<not> has_changes c \<and> p' = p) \<or>
    (\<exists>rs diag n p1. chunk_and_embed_changes env project c = Inr (rs, diag) \<and> update_index env project c rs p = (Inr n, p1) \<and>
       record_snapshot env ?dag (update_meta project c) p1 = (Inr (), p'))"
    using incremental_returns [OF r ok(1)] by (simp add: d(1) changes_against_def c_def)
  then show ?thesis
  proof
    assume "\<not> has_changes c \<and> p' = p"
    then show ?thesis using exact_none [OF exact] u(1) by simp
  next
    assume "\<exists>rs diag n p1. chunk_and_embed_changes env project c = Inr (rs, diag) \<and> update_index env project c rs p = (Inr n, p1) \<and>
       record_snapshot env ?dag (update_meta project c) p1 = (Inr (), p')"
    then obtain rs diag n p1 where e: "chunk_and_embed_changes env project c = Inr (rs, diag)"
        "update_index env project c rs p = (Inr n, p1)" "record_snapshot env ?dag (update_meta project c) p1 = (Inr (), p')" by blast
    have rs: "rs = expected_results (is_supported (re_tools env)) fr ?H (get_files_to_reindex c)"
      by (rule chunk_and_embed_returns [OF e(1) ok(3)]) (use exact_lists [OF exact] in auto)
    have "distinct (map er_chunk_id rs)" unfolding rs by (rule expected_ids_distinct [OF ok(2) dist])
    then have "store_ok (ps_pub p1) \<and>
        live (ps_pub p1) = replaced (re_lib env) project (get_files_to_remove c) rs (live (ps_pub p))"
      using update_returns [OF e(2)] u(1) ok(1) by (simp add: up_to_date_def run_ok_def)
    moreover have "indexes (re_lib env) (is_supported (re_tools env)) fr ?H
        (replaced (re_lib env) project (get_files_to_remove c) rs (live (ps_pub p)))"
      unfolding rs
      by (rule replaced_indexes [OF _ exact dist ok(2)]) (use u ok(1) in \<open>auto simp: up_to_date_def run_ok_def\<close>)
    ultimately show ?thesis
      using recorded_snapshot [OF e(3) tree_build(4) [OF ok(1)] tree_build(3) [OF ok(1)]] by (auto simp: up_to_date_def tree_hashes_def)
  qed
qed

subsection \<open>Properties\<close>

lemma incremental_index_cases:
  assumes "incremental_index env force path (Some project) p = (Inr res, p')" "success res" "project \<noteq> []"
  shows "full_run env (canonical env path) project p = (Inr res, p') \<or>
    (incremental_run env (canonical env path) project p = (Inr res, p') \<and> \<not> force)"
  using assms by (auto simp: incremental_index_def Let_def canonical_def full_index_def needs_full_def dest!: handled split: if_splits)

lemma index_run_up_to_date:
  assumes "incremental_index env force path (Some project) p = (Inr res, p')" "success res" "project \<noteq> []"
    and "force \<or> (\<exists>H. up_to_date env fr path H p \<and> (\<forall>f \<in> dom H. plain_path f))"
    and "run_ok env path" "results_ok project fr" "pipeline env project one fr (tree_hashes env path)"
  shows "up_to_date env fr path (tree_hashes env path) p'"
  using incremental_index_cases [OF assms(1-3)] assms(4) full_run_returns [OF _ assms(2,5-7)] incremental_up_to_date [OF _ _ _ assms(5-7)]
  by metis


lemma indexes_unique:
  assumes a: "indexes lib supp fr H lv" and b: "indexes lib supp fr H lv'"
  shows "lv = lv'"
proof
  fix k
  have "lv k = Some c \<longleftrightarrow> lv' k = Some c" for c
    using trans [OF a [unfolded indexes_def, THEN spec, THEN spec, of k c]
        sym [OF b [unfolded indexes_def, THEN spec, THEN spec, of k c]]] .
  then show "lv k = lv' k" by (metis not_None_eq)
qed


subsection \<open>Runs that do not succeed\<close>

text \<open>\<open>kept p p'\<close>: neither the published index nor the snapshots changed.\<close>

definition kept :: "'a project_state \<Rightarrow> 'a project_state \<Rightarrow> bool" where
  "kept p p' \<longleftrightarrow> ps_pub p' = ps_pub p \<and> ps_snaps p' = ps_snaps p"

lemma kept_simps [simp]: "kept p p" "kept p (p'\<lparr>ps_work := s\<rparr>) = kept p p'" "kept (p\<lparr>ps_work := s\<rparr>) p' = kept p p'"
  "kept p (rollback_work p') = kept p p'"
  by (simp_all add: kept_def rollback_work_def)

lemma kept_trans: "kept p q \<Longrightarrow> kept q r \<Longrightarrow> kept p r"
  by (simp add: kept_def)

text \<open>
  Three kinds of steps: those that never publish, those whose failure publishes nothing (except the
  failure to record the snapshot), and those that can only fail to record the snapshot.
\<close>

definition never_publishes :: "('a, 'r) run \<Rightarrow> bool" where
  "never_publishes m \<longleftrightarrow> (\<forall>p. kept p (snd (m p)))"

definition clean :: "'a project_state \<Rightarrow> stop \<Rightarrow> 'a project_state \<Rightarrow> bool" where
  "clean p e p' \<longleftrightarrow> ps_snaps p' = ps_snaps p \<and> (ps_pub p' = ps_pub p \<or> e = Failed SnapshotFailed)"

definition fails_clean :: "('a, 'r) run \<Rightarrow> bool" where
  "fails_clean m \<longleftrightarrow> (\<forall>p e p'. m p = (Inl e, p') \<longrightarrow> clean p e p') \<and>
     (\<forall>p x p'. m p = (Inr x, p') \<longrightarrow> ps_snaps p' = ps_snaps p)"

definition fails_late :: "('a, 'r) run \<Rightarrow> bool" where
  "fails_late m \<longleftrightarrow> (\<forall>p e p'. m p = (Inl e, p') \<longrightarrow> e = Failed SnapshotFailed \<and> ps_snaps p' = ps_snaps p)"

definition ends_clean :: "('a, 'r) run \<Rightarrow> bool" where
  "ends_clean m \<longleftrightarrow> (\<forall>p e p'. m p = (Inl e, p') \<longrightarrow> clean p e p')"

lemma bind_run_Inl: "bind_run m f p = (Inl e, p') \<longleftrightarrow>
    m p = (Inl e, p') \<or> (\<exists>x p1. m p = (Inr x, p1) \<and> f x p1 = (Inl e, p'))"
  by (auto simp: bind_run_def split: prod.splits sum.splits)

lemma clean_after: "kept p p1 \<Longrightarrow> clean p1 e p' \<Longrightarrow> clean p e p'" "kept p p' \<Longrightarrow> clean p e p'"
  "ps_snaps p1 = ps_snaps p \<Longrightarrow> e = Failed SnapshotFailed \<Longrightarrow> ps_snaps p' = ps_snaps p1 \<Longrightarrow> clean p e p'"
  by (auto simp: kept_def clean_def)

lemma never_publishesD: "never_publishes m \<Longrightarrow> m p = (r, p') \<Longrightarrow> kept p p'"
  unfolding never_publishes_def by (metis snd_conv)

named_theorems run_rules \<open>how steps of a run compose\<close>

lemma never_basic [run_rules]: "never_publishes (lift_run r)" "never_publishes (on_work g)" "never_publishes (detect env pp)"
  by (auto simp: never_publishes_def lift_run_def on_work_def detect_def split: prod.split sum.split walk_exn.split)

lemma never_bind [run_rules]: "never_publishes m \<Longrightarrow> (\<And>x. never_publishes (f x)) \<Longrightarrow> never_publishes (bind_run m f)"
  unfolding never_publishes_def bind_run_def by (auto split: prod.split sum.split) (metis kept_trans snd_conv)+

lemma never_add [run_rules]: "never_publishes (add_results env rs)"
  unfolding add_results_def by (rule run_rules)

lemma never_remove [run_rules]: "never_publishes (remove_old_chunks env project c)"
  unfolding remove_old_chunks_def by (intro run_rules)

lemma clean_basic [run_rules]: "fails_clean (lift_run r)" "ends_clean (lift_run r)" "fails_late (record_snapshot env dag meta)"
  "fails_late (lift_run (Inr x))"
  by (auto simp: fails_clean_def ends_clean_def fails_late_def clean_def lift_run_def record_snapshot_def split: if_splits)

lemma clean_save [run_rules]: "fails_clean (save_working env force)"
  unfolding fails_clean_def using save_raises save_returns by (fastforce simp: clean_def)

lemma clean_bind [run_rules]:
  assumes "never_publishes m" "\<And>x. fails_clean (f x)"
  shows "fails_clean (bind_run m f)"
  unfolding fails_clean_def
proof (intro conjI allI impI)
  fix p e p' assume "bind_run m f p = (Inl e, p')"
  then consider "m p = (Inl e, p')" | x p1 where "m p = (Inr x, p1)" "f x p1 = (Inl e, p')" unfolding bind_run_Inl by blast
  then show "clean p e p'"
  proof cases
    case 1
    then show ?thesis using never_publishesD [OF assms(1)] clean_after(2) by blast
  next
    case 2
    then show ?thesis using never_publishesD [OF assms(1)] assms(2) clean_after(1) unfolding fails_clean_def by blast
  qed
next
  fix p y p' assume "bind_run m f p = (Inr y, p')"
  then obtain x p1 where m: "m p = (Inr x, p1)" "f x p1 = (Inr y, p')" unfolding bind_run_Inr by blast
  have "kept p p1" by (rule never_publishesD [OF assms(1) m(1)])
  moreover have "ps_snaps p' = ps_snaps p1" using assms(2) m(2) unfolding fails_clean_def by blast
  ultimately show "ps_snaps p' = ps_snaps p" by (simp add: kept_def)
qed

lemma clean_then_return [run_rules]: "fails_clean m \<Longrightarrow> fails_clean (bind_run m (\<lambda>x. lift_run (Inr (g x))))"
  unfolding fails_clean_def bind_run_Inl bind_run_Inr lift_run_def by blast

lemma ends_bind [run_rules]:
  assumes "never_publishes m" "\<And>x. ends_clean (f x)"
  shows "ends_clean (bind_run m f)"
  unfolding ends_clean_def bind_run_Inl
  using never_publishesD [OF assms(1)] assms(2) clean_after(1,2) unfolding ends_clean_def by blast

lemma ends_publish [run_rules]:
  assumes "fails_clean m" "\<And>x. fails_late (f x)"
  shows "ends_clean (bind_run m f)"
  unfolding ends_clean_def bind_run_Inl
  using assms clean_after(3) unfolding fails_clean_def fails_late_def by blast

lemma late_bind [run_rules]: "fails_late m \<Longrightarrow> fails_late (bind_run m (\<lambda>x. lift_run (Inr (g x))))"
  unfolding fails_late_def bind_run_Inl lift_run_def by blast

lemma clean_transaction:
  assumes "fails_clean body" "\<And>p x p'. body p = (Inr x, p') \<Longrightarrow> st_marker (ps_work p') \<Longrightarrow> kept p p'"
  shows "fails_clean (index_transaction body)"
proof -
  have kept: "case r of Inl e \<Rightarrow> clean p e p1 | Inr x \<Rightarrow> ps_snaps p1 = ps_snaps p \<and> (st_marker (ps_work p1) \<longrightarrow> kept p p1)"
    if b: "body (p\<lparr>ps_work := ps_pub p\<rparr>) = (r, p1)" for p r p1
  proof (cases r)
    case (Inl e)
    then have "clean (p\<lparr>ps_work := ps_pub p\<rparr>) e p1" using assms(1) b unfolding fails_clean_def by blast
    then show ?thesis using Inl by (simp add: clean_def)
  next
    case (Inr x)
    then have "ps_snaps p1 = ps_snaps (p\<lparr>ps_work := ps_pub p\<rparr>)" using assms(1) b unfolding fails_clean_def by blast
    moreover have "st_marker (ps_work p1) \<Longrightarrow> kept (p\<lparr>ps_work := ps_pub p\<rparr>) p1" using assms(2) b Inr by blast
    ultimately show ?thesis using Inr by simp
  qed
  have roll: "ps_snaps (rollback_work q) = ps_snaps q" "ps_pub (rollback_work q) = ps_pub q" for q :: "'a project_state"
    by (simp_all add: rollback_work_def)
  show ?thesis
    unfolding fails_clean_def index_transaction_def
    using kept by (fastforce simp: clean_def kept_def roll split: prod.splits sum.splits if_splits)
qed

lemma update_fails_clean: "fails_clean (update_index env project c rs)"
  unfolding update_index_def
proof (rule clean_transaction)
  let ?body = "bind_run (remove_old_chunks env project c) (\<lambda>n.
       bind_run (if rs \<noteq> [] then bind_run (lift_run (checkpoint env ''saving'' 0)) (\<lambda>_. add_results env rs)
                 else lift_run (Inr ())) (\<lambda>_.
       bind_run (save_working env False) (\<lambda>_. lift_run (Inr n))))"
  have np: "never_publishes (if rs \<noteq> [] then bind_run (lift_run (checkpoint env ''saving'' 0)) (\<lambda>_. add_results env rs)
                 else lift_run (Inr ()))" by (auto intro: run_rules)
  show "fails_clean ?body" by (intro run_rules np)
  fix p x p' assume r: "?body p = (Inr x, p')" and m: "st_marker (ps_work p')"
  obtain n p1 p2 where s: "remove_old_chunks env project c p = (Inr n, p1)"
      "(if rs \<noteq> [] then bind_run (lift_run (checkpoint env ''saving'' 0)) (\<lambda>_. add_results env rs)
        else lift_run (Inr ())) p1 = (Inr (), p2)" "save_working env False p2 = (Inr (), p')"
    using r unfolding bind_run_Inr by auto
  have "kept p p2" using kept_trans [OF never_publishesD [OF never_remove s(1)] never_publishesD [OF np s(2)]] .
  moreover have "p' = p2" using save_returns [OF s(3)] m by (auto simp: published_store_def split: option.splits)
  ultimately show "kept p p'" by simp
qed

lemma replace_fails_clean: "fails_clean (replace_index env rs)"
  unfolding replace_index_def
proof (rule clean_transaction)
  let ?add = "if rs \<noteq> [] then add_results env rs
      else on_work (\<lambda>s. case create_index (re_lib env) (output_dimension (re_tools env)) ''flat'' s of
        Inl e \<Rightarrow> (Inl (Failed (AddFailed e)), s) | Inr s1 \<Rightarrow> (Inr (), s1))"
  let ?body = "bind_run (on_work (\<lambda>s. (Inr (), begin_rebuild (re_lib env) s))) (\<lambda>_. bind_run ?add (\<lambda>_. save_working env True))"
  have np: "never_publishes ?add" by (auto intro: run_rules)
  show "fails_clean ?body" by (intro run_rules np)
  fix p x p' assume r: "?body p = (Inr x, p')" and m: "st_marker (ps_work p')"
  obtain p1 p2 where s: "on_work (\<lambda>s. (Inr (), begin_rebuild (re_lib env) s)) p = (Inr (), p1)" "?add p1 = (Inr (), p2)"
      "save_working env True p2 = (Inr x, p')"
    using r unfolding bind_run_Inr by auto
  have "kept p p2" using kept_trans [OF never_publishesD [OF never_basic(2) s(1)] never_publishesD [OF np s(2)]] .
  moreover have "p' = p2" using save_returns [OF s(3)] m by (auto simp: published_store_def split: option.splits)
  ultimately show "kept p p'" by simp
qed

lemma ends_cases [run_rules]: "ends_clean m \<Longrightarrow> ends_clean m' \<Longrightarrow> ends_clean (if b then m else m')"
  "(\<And>x y. z = (x, y) \<Longrightarrow> ends_clean (g x y)) \<Longrightarrow> ends_clean (case z of (x, y) \<Rightarrow> g x y)"
  by (auto split: prod.split)

lemma late_cases [run_rules]: "(\<And>x y. z = (x, y) \<Longrightarrow> fails_late (g' x y)) \<Longrightarrow> fails_late (case z of (x, y) \<Rightarrow> g' x y)"
  by (auto split: prod.split)

lemma incremental_ends_clean: "ends_clean (incremental_run env pp project)"
  unfolding incremental_run_def
  by (intro never_basic ends_bind ends_cases clean_basic ends_publish [OF update_fails_clean] late_bind)

lemma full_ends_clean: "ends_clean (full_run env pp project)"
  unfolding full_run_def Let_def
  by (intro never_basic ends_bind ends_cases clean_basic ends_publish [OF replace_fails_clean] late_bind)

lemma full_partial:
  assumes r: "full_run env pp project p = (Inr res, p')" "\<not> success res"
  shows "p' = p"
proof -
  obtain dag cs diag where e0: "full_dag env pp = Inr dag"
      "chunk_supported env (filter (is_supported (re_tools env)) (get_all_files dag)) = Inr (cs, diag)"
    using r(1) by (auto simp: full_run_def bind_run_Inr Let_def)
  obtain rs n where "embed_all env project cs = (rs, n)" by fastforce
  note e = e0 this
  show ?thesis
  proof (cases "0 < n \<or> (cs = [] \<and> filter (is_supported (re_tools env)) (get_all_files dag) \<noteq> []) \<or> length rs \<noteq> length cs")
    case True
    then show ?thesis using r(1) e by (auto simp: full_run_def bind_run_Inr Let_def split: if_splits)
  next
    case False
    then have "success res" using r(1) e by (auto simp: full_run_def bind_run_Inr Let_def empty_result_def split: if_splits)
    then show ?thesis using r(2) by simp
  qed
qed

lemma incremental_succeeds: "incremental_run env pp project p = (Inr res, p') \<Longrightarrow> success res"
  by (auto simp: incremental_run_def bind_run_Inr empty_result_def split: if_splits)

lemma handled_failure:
  assumes m: "ends_clean m" "\<And>res p'. m p = (Inr res, p') \<Longrightarrow> \<not> success res \<Longrightarrow> p' = p"
    and r: "with_handlers m p = (r, p')" "\<not> (\<exists>res. r = Inr res \<and> success res)"
  shows "ps_snaps p' = ps_snaps p \<and> (ps_pub p' = ps_pub p \<or> (\<exists>res. r = Inr res \<and> failure res = Some SnapshotFailed))"
proof -
  obtain q p1 where q: "m p = (q, p1)" by fastforce
  have roll: "ps_snaps (rollback_work p1) = ps_snaps p1" "ps_pub (rollback_work p1) = ps_pub p1"
    by (simp_all add: rollback_work_def)
  show ?thesis
  proof (cases q)
    case (Inl e)
    have "clean p e p1" using m(1) q Inl unfolding ends_clean_def by blast
    then show ?thesis using r q Inl by (cases e) (auto simp: with_handlers_def clean_def roll failed_result_def empty_result_def)
  next
    case (Inr res)
    then show ?thesis using r q m(2) by (auto simp: with_handlers_def)
  qed
qed


subsection \<open>Where the snapshot and the index disagree\<close>


end
