(* ===== verification/IncrementalIndex_Demo.thy ===== *)
theory IncrementalIndex_Demo
  imports IncrementalIndex_Runs
begin

text \<open>
  Concrete runs: a project of one source directory and one changing file, indexed from scratch,
  updated after an edit, with a save that fails, and with a snapshot that cannot be recorded. They
  show that the hypotheses of the properties of \<open>IncrementalIndex_Runs\<close> hold together.
\<close>



text \<open>One chunk per file, named after the file and its content; the project is indexed as \<open>p\<close>.\<close>

definition demo_tools :: "bytes \<Rightarrow> (string \<times> string, int) tools" where
  "demo_tools raw = \<lparr>is_supported = (\<lambda>f. f \<in> {''m.py'', ''src/a.py''}),
     chunk_file = (\<lambda>f. Some [(f, demo_sha (if f = ''m.py'' then raw else ''x''))]),
     embed_chunks_grouped = (\<lambda>cs. Some (map (\<lambda>c. \<lparr>er_embedding = [1, 0], er_chunk_id = fst c @ ''@'' @ snd c,
       er_metadata = [(''relative_path'', JStr (fst c))]\<rparr>) cs)),
     batch_embed = None, batch_threshold = 100,
     make_result = (\<lambda>c v. \<lparr>er_embedding = v, er_chunk_id = fst c @ ''@'' @ snd c, er_metadata = [(''relative_path'', JStr (fst c))]\<rparr>),
     output_dimension = 2\<rparr>"

definition demo_one :: "string \<times> string \<Rightarrow> int embedding_result" where
  "demo_one c = \<lparr>er_embedding = [1, 0], er_chunk_id = fst c @ ''@'' @ snd c, er_metadata = [(''relative_path'', JStr (fst c))]\<rparr>"

definition demo_fr :: "string \<Rightarrow> string \<Rightarrow> int embedding_result list" where
  "demo_fr f h = (if f \<in> {''m.py'', ''src/a.py''} then [stamp_project ''p'' (demo_one (f, h))] else [])"

definition demo_env :: "string \<Rightarrow> bytes \<Rightarrow> bool \<Rightarrow> bool \<Rightarrow> (string \<times> string, int) run_env" where
  "demo_env n raw save_fails snapshot_fails = \<lparr>re_tools = demo_tools raw, re_lib = demo_lib, re_sha = demo_sha, re_utf = id,
     re_md5 = id, re_resolve = path_parts, re_manager = demo_mgr ''voyage'', re_clock = demo_clock,
     re_tree = demo_fs n raw, re_walk_cancel = None, re_interrupts = (\<lambda>_ _. False),
     re_save_fails = save_fails, re_snapshot_fails = snapshot_fails\<rparr>"

definition demo_fresh :: "int project_state" where
  "demo_fresh = \<lparr>ps_work = demo_start, ps_pub = demo_start, ps_stats = None, ps_snaps = []\<rparr>"

abbreviation index_demo :: "string \<Rightarrow> bytes \<Rightarrow> bool \<Rightarrow> bool \<Rightarrow> bool \<Rightarrow> int project_state \<Rightarrow> (unit + index_result) \<times> int project_state" where
  "index_demo n raw save_fails snapshot_fails force \<equiv>
     incremental_index (demo_env n raw save_fails snapshot_fails) force ''/r'' (Some ''p'')"

definition demo_indexed :: "string \<Rightarrow> bytes \<Rightarrow> int project_state" where
  "demo_indexed n raw = snd (index_demo n raw False False True demo_fresh)"

lemma demo_results: "results_ok ''p'' demo_fr"
  unfolding results_ok_def demo_fr_def stamp_project_def demo_one_def
  by (auto simp: rel_path_def meta_text_def split: if_splits)

lemma demo_hashes:
  "tree_hashes (demo_env ''m.py'' ''1'' b b') ''/r'' = map_of [(''m.py'', ''10000000''), (''src/a.py'', ''x0000000'')]"
  "tree_hashes (demo_env ''m.py'' ''2'' b b') ''/r'' = map_of [(''m.py'', ''20000000''), (''src/a.py'', ''x0000000'')]"
  "tree_hashes (demo_env ''n.txt'' ''1'' b b') ''/r'' = map_of [(''n.txt'', ''10000000''), (''src/a.py'', ''x0000000'')]"
  unfolding tree_hashes_def by (rule arg_cong [of _ _ map_of], code_simp)+

lemma demo_plain: "plain_path ''m.py''" "plain_path ''n.txt''" "plain_path ''src/a.py''"
  by code_simp+

lemma demo_run_ok:
  assumes "(n, raw) \<in> {(''m.py'', ''1''), (''m.py'', ''2''), (''n.txt'', ''1'')}"
  shows "run_ok (demo_env n raw b b') ''/r''"
proof -
  have e: "re_tree (demo_env n raw b b') = demo_fs n raw" "re_resolve (demo_env n raw b b') = path_parts"
    "re_manager (demo_env n raw b b') = demo_mgr ''voyage''" "re_walk_cancel (demo_env n raw b b') = None" "re_lib (demo_env n raw b b') = demo_lib"
    by (simp_all add: demo_env_def)
  have "stat_ok (demo_fs n raw)" "names_ok (demo_fs n raw)" using assms by (elim insertE; simp; code_simp)+
  moreover have "path_str (path_parts ''/r'') = ''/r''" by code_simp
  moreover have "\<not> prefix (path_parts ''/r'') (storage_dir (demo_mgr ''voyage''))" by code_simp
  then have "current_dag path_parts (demo_mgr ''voyage'') ''/r'' = merkle_init (path_parts ''/r'') None"
    by (simp add: current_dag_def Let_def)
  moreover have "uncancelled (merkle_init (path_parts ''/r'') None)" by (simp add: uncancelled_def merkle_init_def)
  moreover have "\<forall>f \<in> dom (tree_hashes (demo_env n raw b b') ''/r''). plain_path f"
    using assms demo_hashes demo_plain by (auto split: if_splits)
  ultimately show ?thesis using demo_hyps(4) by (simp add: run_ok_def e canonical_def)
qed

lemma demo_pipeline: "(n, raw) \<in> {(''m.py'', ''1''), (''m.py'', ''2''), (''n.txt'', ''1'')} \<Longrightarrow>
    pipeline (demo_env n raw b b') ''p'' demo_one demo_fr (tree_hashes (demo_env n raw b b') ''/r'')"
  using demo_hashes [of b b']
  by (auto simp: pipeline_def demo_env_def demo_tools_def demo_one_def demo_fr_def file_chunks_def demo_sha_def split: if_splits)

lemma demo_incremental:
  assumes "(n, raw) \<in> {(''m.py'', ''1''), (''m.py'', ''2''), (''n.txt'', ''1'')}" "\<not> needs_full (demo_env n raw b b') False ''/r'' p"
    and "changes_against (stored_snapshot (demo_env n raw b b') ''/r'' (ps_snaps p)) (tree_dag (demo_env n raw b b') ''/r'') = c" "has_changes c"
    and "chunk_and_embed_changes (demo_env n raw b b') ''p'' c = Inr (rs, diag)" "update_index (demo_env n raw b b') ''p'' c rs p = (r, p1)"
  shows "r = Inr k \<Longrightarrow> \<not> b' \<Longrightarrow> \<exists>res p2. index_demo n raw b b' False p = (Inr res, p2) \<and> success res"
    and "r = Inr k \<Longrightarrow> b' \<Longrightarrow> index_demo n raw b b' False p = (Inr (failed_result SnapshotFailed), rollback_work p1)"
    and "r = Inl (Failed e) \<Longrightarrow> index_demo n raw b b' False p = (Inr (failed_result e), rollback_work p1)"
proof -
  let ?env = "demo_env n raw b b'"
  have pp: "path_str (path_parts ''/r'') = ''/r''" by code_simp
  then have canon: "canonical ?env ''/r'' = ''/r''" by (simp add: canonical_def demo_env_def)
  have "detect ?env ''/r'' p = (Inr (c, tree_dag ?env ''/r''), p)"
    using tree_build(1) [OF demo_run_ok [OF assms(1)], of b b'] assms(3)
    by (simp add: detect_def detect_changes_from_snapshot_def stored_snapshot_def checkpoint_def canon) (simp add: demo_env_def)
  then have run: "incremental_run ?env ''/r'' ''p'' p =
      bind_run (\<lambda>p. (r, p1)) (\<lambda>n. bind_run (record_snapshot ?env (tree_dag ?env ''/r'') (update_meta ''p'' c)) (\<lambda>_.
        lift_run (Inr \<lparr>files_added = length (added c), files_removed = length (removed c), files_modified = length (modified c),
          chunks_added = length rs, chunks_removed = n, success = True, failure = None, diagnostics = Some diag,
          reindex_disposition = Completed\<rparr>))) p"
    using assms(4-6) by (simp add: incremental_run_def bind_run_def lift_run_def)
  have idx: "index_demo n raw b b' False p = with_handlers (incremental_run ?env ''/r'' ''p'') p"
    using assms(2) pp by (simp add: incremental_index_def Let_def) (simp add: demo_env_def)
  have flag: "re_snapshot_fails (demo_env n raw b x) = x" for x by (simp add: demo_env_def)
  note steps = bind_run_def record_snapshot_def flag lift_run_def
  show "r = Inr k \<Longrightarrow> \<not> b' \<Longrightarrow> \<exists>res p2. index_demo n raw b b' False p = (Inr res, p2) \<and> success res" unfolding idx with_handlers_def run by (simp add: steps)
  show "r = Inr k \<Longrightarrow> b' \<Longrightarrow> index_demo n raw b b' False p = (Inr (failed_result SnapshotFailed), rollback_work p1)" unfolding idx with_handlers_def run by (simp add: steps)
  show "r = Inl (Failed e) \<Longrightarrow> index_demo n raw b b' False p = (Inr (failed_result e), rollback_work p1)" unfolding idx with_handlers_def run by (simp add: steps)
qed

definition demo_new :: "int embedding_result list" where
  "demo_new = [stamp_project ''p'' (demo_one (''m.py'', ''20000000''))]"

definition demo_edit :: file_changes where
  "demo_edit = \<lparr>added = [], removed = [], modified = [''m.py''], unchanged = [''src/a.py'']\<rparr>"

lemma demo_full_runs_1: "map_sum id success (fst (index_demo ''m.py'' ''1'' False False True demo_fresh)) = Inr True"
  by code_simp

lemma demo_full_runs_2: "map_sum id success (fst (index_demo ''m.py'' ''2'' False False True (demo_indexed ''m.py'' ''1''))) = Inr True"
  by code_simp

lemmas demo_full_runs = demo_full_runs_1 demo_full_runs_2

lemma demo_up_to_date: "up_to_date (demo_env ''m.py'' ''2'' b b') demo_fr ''/r'' (map_of [(''m.py'', ''10000000''), (''src/a.py'', ''x0000000'')])
    (demo_indexed ''m.py'' ''1'')"
proof -
  let ?env = "demo_env ''m.py'' ''1'' False False"
  obtain res where r: "index_demo ''m.py'' ''1'' False False True demo_fresh = (Inr res, demo_indexed ''m.py'' ''1'')" "success res"
    using demo_full_runs(1) unfolding demo_indexed_def by (cases "index_demo ''m.py'' ''1'' False False True demo_fresh"; cases "fst (index_demo ''m.py'' ''1'' False False True demo_fresh)") auto
  have "up_to_date ?env demo_fr ''/r'' (tree_hashes ?env ''/r'') (demo_indexed ''m.py'' ''1'')"
    by (rule index_run_up_to_date [OF r(1,2) _ _ demo_run_ok demo_results demo_pipeline]) simp_all
  moreover have "up_to_date (demo_env ''m.py'' ''2'' b b') = up_to_date ?env"
    unfolding up_to_date_def [abs_def] stored_snapshot_def [abs_def] canonical_def by (simp add: demo_env_def demo_tools_def)
  ultimately show ?thesis by (simp add: demo_hashes)
qed

lemma demo_second_1: "\<not> needs_full (demo_env ''m.py'' ''2'' b b') False ''/r'' (demo_indexed ''m.py'' ''1'')"
  by code_simp

lemma demo_second_2: "changes_against (stored_snapshot (demo_env ''m.py'' ''2'' b b') ''/r'' (ps_snaps (demo_indexed ''m.py'' ''1'')))
     (tree_dag (demo_env ''m.py'' ''2'' b b') ''/r'') = demo_edit"
  by code_simp

lemma demo_second_3: "has_changes demo_edit"
  by code_simp

lemma demo_second_4: "chunk_and_embed_changes (demo_env ''m.py'' ''2'' b b') ''p'' demo_edit =
     Inr (demo_new, \<lparr>files_attempted = 1, files_with_chunks = 1, files_zero_chunks = 0, chunks_extracted = 1\<rparr>)"
  by code_simp

lemma demo_second_5: "fst (update_index (demo_env ''m.py'' ''2'' False False) ''p'' demo_edit demo_new (demo_indexed ''m.py'' ''1'')) = Inr 1"
  by code_simp

lemma demo_second_6: "fst (update_index (demo_env ''m.py'' ''2'' True False) ''p'' demo_edit demo_new (demo_indexed ''m.py'' ''1'')) = Inl (Failed SaveFailed)"
  by code_simp

lemmas demo_second = demo_second_1 demo_second_2 demo_second_3 demo_second_4 demo_second_5 demo_second_6

lemma demo_rebuilt: "\<exists>res p'. index_demo ''m.py'' ''2'' False False True (demo_indexed ''m.py'' ''1'') = (Inr res, p') \<and> success res"
  using demo_full_runs(2) by (cases "index_demo ''m.py'' ''2'' False False True (demo_indexed ''m.py'' ''1'')";
    cases "fst (index_demo ''m.py'' ''2'' False False True (demo_indexed ''m.py'' ''1''))") auto

lemma demo_updated: "\<exists>res p'. index_demo ''m.py'' ''2'' False False False (demo_indexed ''m.py'' ''1'') = (Inr res, p') \<and> success res"
proof -
  obtain p1 where u: "update_index (demo_env ''m.py'' ''2'' False False) ''p'' demo_edit demo_new (demo_indexed ''m.py'' ''1'') = (Inr 1, p1)"
    using demo_second(5) by (metis prod.collapse)
  show ?thesis using demo_incremental(1) [OF _ demo_second(1-4) u refl] by simp
qed




subsubsection \<open>A file the snapshot does not list\<close>

definition demo_listed :: "int project_state" where
  "demo_listed = demo_indexed ''n.txt'' ''1''"

definition demo_first :: file_changes where
  "demo_first = \<lparr>added = [''m.py''], removed = [''n.txt''], modified = [], unchanged = [''src/a.py'']\<rparr>"

definition demo_old :: "int embedding_result" where
  "demo_old = stamp_project ''p'' (demo_one (''m.py'', ''10000000''))"

definition demo_unlisted :: "int project_state" where
  "demo_unlisted = rollback_work (snd (update_index (demo_env ''m.py'' ''1'' False True) ''p'' demo_first [demo_old] demo_listed))"

lemma demo_first_step_1: "\<not> needs_full (demo_env ''m.py'' ''1'' False True) False ''/r'' demo_listed"
  by code_simp

lemma demo_first_step_2: "changes_against (stored_snapshot (demo_env ''m.py'' ''1'' False True) ''/r'' (ps_snaps demo_listed))
     (tree_dag (demo_env ''m.py'' ''1'' False True) ''/r'') = demo_first"
  by code_simp

lemma demo_first_step_3: "has_changes demo_first"
  by code_simp

lemma demo_first_step_4: "chunk_and_embed_changes (demo_env ''m.py'' ''1'' False True) ''p'' demo_first =
     Inr ([demo_old], \<lparr>files_attempted = 1, files_with_chunks = 1, files_zero_chunks = 0, chunks_extracted = 1\<rparr>)"
  by code_simp

lemma demo_first_step_5: "fst (update_index (demo_env ''m.py'' ''1'' False True) ''p'' demo_first [demo_old] demo_listed) = Inr 0"
  by code_simp

lemmas demo_first_step = demo_first_step_1 demo_first_step_2 demo_first_step_3 demo_first_step_4 demo_first_step_5

lemma demo_lost_snapshot: "index_demo ''m.py'' ''1'' False True False demo_listed = (Inr (failed_result SnapshotFailed), demo_unlisted)"
proof -
  obtain p1 where u: "update_index (demo_env ''m.py'' ''1'' False True) ''p'' demo_first [demo_old] demo_listed = (Inr 0, p1)"
    using demo_first_step(5) by (metis prod.collapse)
  then show ?thesis using demo_incremental(2) [OF _ demo_first_step(1-4) u refl] by (simp add: demo_unlisted_def)
qed

lemma demo_again_step_1: "\<not> needs_full (demo_env ''m.py'' ''2'' False False) False ''/r'' demo_unlisted"
  by code_simp

lemma demo_again_step_2: "changes_against (stored_snapshot (demo_env ''m.py'' ''2'' False False) ''/r'' (ps_snaps demo_unlisted))
     (tree_dag (demo_env ''m.py'' ''2'' False False) ''/r'') = demo_first"
  by code_simp

lemma demo_again_step_3: "chunk_and_embed_changes (demo_env ''m.py'' ''2'' False False) ''p'' demo_first =
     Inr (demo_new, \<lparr>files_attempted = 1, files_with_chunks = 1, files_zero_chunks = 0, chunks_extracted = 1\<rparr>)"
  by code_simp

lemma demo_again_step_4: "fst (update_index (demo_env ''m.py'' ''2'' False False) ''p'' demo_first demo_new demo_unlisted) = Inr 0"
  by code_simp

lemma demo_again_step_5: "live (ps_pub demo_unlisted) (er_chunk_id demo_old) = Some (chunk_view demo_lib demo_old)"
  by code_simp

lemmas demo_again_step = demo_again_step_1 demo_again_step_2 demo_again_step_3 demo_again_step_4 demo_again_step_5

lemma demo_listed_up_to_date:
  "up_to_date (demo_env ''n.txt'' ''1'' False False) demo_fr ''/r'' (map_of [(''n.txt'', ''10000000''), (''src/a.py'', ''x0000000'')]) demo_listed"
proof -
  have f: "map_sum id success (fst (index_demo ''n.txt'' ''1'' False False True demo_fresh)) = Inr True" by code_simp
  obtain res0 where r0: "index_demo ''n.txt'' ''1'' False False True demo_fresh = (Inr res0, demo_listed)" "success res0"
    using f unfolding demo_listed_def demo_indexed_def
    by (cases "index_demo ''n.txt'' ''1'' False False True demo_fresh"; cases "fst (index_demo ''n.txt'' ''1'' False False True demo_fresh)") auto
  have "up_to_date (demo_env ''n.txt'' ''1'' False False) demo_fr ''/r'' (tree_hashes (demo_env ''n.txt'' ''1'' False False) ''/r'') demo_listed"
    by (rule index_run_up_to_date [OF r0 _ _ demo_run_ok demo_results demo_pipeline]) simp_all
  then show ?thesis by (simp add: demo_hashes)
qed

lemma demo_unlisted_state: "store_ok (ps_pub demo_unlisted)" "ps_snaps demo_unlisted = ps_snaps demo_listed"
proof -
  have ud: "distinct (map er_chunk_id [demo_old])" "lower (quantization (re_lib (demo_env ''m.py'' ''1'' False True))) \<noteq> ''binary''"
    using demo_hyps(4) by (simp_all add: demo_env_def)
  obtain q where q: "update_index (demo_env ''m.py'' ''1'' False True) ''p'' demo_first [demo_old] demo_listed = (Inr 0, q)"
    using demo_first_step(5) by (metis prod.collapse)
  show "store_ok (ps_pub demo_unlisted)" "ps_snaps demo_unlisted = ps_snaps demo_listed"
    using update_returns [OF q _ ud] demo_listed_up_to_date by (auto simp: up_to_date_def demo_unlisted_def q rollback_work_def)
qed

lemma demo_unlisted_snapshot:
  assumes "stored_snapshot (demo_env ''m.py'' ''2'' False False) ''/r'' (ps_snaps demo_unlisted) = Some d"
  shows "coherent d \<and> dict_get (get_file_hashes d) ''m.py'' = None \<and> (\<forall>g \<in> set (dict_keys (get_file_hashes d)). plain_path g)"
proof -
  have same: "stored_snapshot (demo_env ''m.py'' ''2'' False False) = stored_snapshot (demo_env ''n.txt'' ''1'' False False)"
    by (simp add: stored_snapshot_def [abs_def] canonical_def demo_env_def)
  have d: "coherent d" "map_of (get_file_hashes d) = map_of [(''n.txt'', ''10000000''), (''src/a.py'', ''x0000000'')]"
    using assms demo_listed_up_to_date by (auto simp: up_to_date_def same demo_unlisted_state(2))
  have "set (dict_keys (get_file_hashes d)) = dom (map_of (get_file_hashes d))" by (simp add: dom_map_of_conv_image_fst)
  then show ?thesis using d demo_plain by (auto split: if_splits)
qed

end
