(* ===== verification/WriterLock.thy ===== *)
theory WriterLock
  imports Prelude
begin

text \<open>
  The locks of \<open>search/indexer.py\<close> around an index directory: \<open>_ProcessAwareRLock\<close> and
  \<open>_InterProcessWriterLock\<close>, which combines a \<open>threading.RLock\<close> with an exclusive \<open>flock\<close> (the POSIX
  branch) on \<open>.code-search-writer.lock\<close> and drops what it inherited after a fork.

  A process has its own copy of the lock object. The operating system's view is \<open>lock_file\<close>: which
  open file description holds the lock, and which processes have it open; a fork duplicates the open
  ones, \<open>LOCK_UN\<close> or closing the last duplicate frees the lock. A process identifier is never reused.
\<close>

type_synonym pid = nat
type_synonym tid = nat

subsection \<open>The re-entrant thread lock\<close>

record rlock =
  rl_owner :: "tid option"
  rl_count :: nat

definition free_rlock :: rlock where
  "free_rlock = \<lparr>rl_owner = None, rl_count = 0\<rparr>"

text \<open>\<open>None\<close>: the caller blocks, respectively \<open>RuntimeError\<close>.\<close>

definition rlock_acquire :: "tid \<Rightarrow> rlock \<Rightarrow> rlock option" where
  "rlock_acquire t r =
     (if rl_owner r = None \<or> rl_owner r = Some t then Some \<lparr>rl_owner = Some t, rl_count = rl_count r + 1\<rparr> else None)"

definition rlock_release :: "tid \<Rightarrow> rlock \<Rightarrow> rlock option" where
  "rlock_release t r =
     (if rl_owner r \<noteq> Some t then None
      else if rl_count r \<le> 1 then Some free_rlock else Some (r\<lparr>rl_count := rl_count r - 1\<rparr>))"

subsection \<open>The process-local storage lock\<close>

record process_lock =
  pl_lock :: rlock
  pl_pid :: pid
  pl_context_pids :: "pid list"

definition storage_reset_after_fork :: "pid \<Rightarrow> process_lock \<Rightarrow> process_lock" where
  "storage_reset_after_fork p l = (if p = pl_pid l then l else l\<lparr>pl_lock := free_rlock, pl_pid := p\<rparr>)"

definition storage_enter :: "pid \<Rightarrow> tid \<Rightarrow> process_lock \<Rightarrow> process_lock option" where
  "storage_enter p t l =
     (let l0 = storage_reset_after_fork p l
      in map_option (\<lambda>r. l0\<lparr>pl_lock := r, pl_context_pids := pl_context_pids l0 @ [p]\<rparr>) (rlock_acquire t (pl_lock l0)))"

definition storage_release :: "pid \<Rightarrow> tid \<Rightarrow> pid option \<Rightarrow> process_lock \<Rightarrow> process_lock option" where
  "storage_release p t acquired_pid l =
     (if acquired_pid \<noteq> None \<and> acquired_pid \<noteq> Some p then Some (storage_reset_after_fork p l)
      else if p \<noteq> pl_pid l then Some (storage_reset_after_fork p l)
      else map_option (\<lambda>r. l\<lparr>pl_lock := r\<rparr>) (rlock_release t (pl_lock l)))"

definition storage_exit :: "pid \<Rightarrow> tid \<Rightarrow> process_lock \<Rightarrow> process_lock option" where
  "storage_exit p t l =
     (if pl_context_pids l = [] then None
      else storage_release p t (Some (List.last (pl_context_pids l)))
             (l\<lparr>pl_context_pids := butlast (pl_context_pids l)\<rparr>))"

subsection \<open>The lock file\<close>

record lock_file =
  lf_holder :: "nat option"
  lf_open :: "(pid \<times> nat) list"
  lf_next :: nat

definition open_handle :: "pid \<Rightarrow> lock_file \<Rightarrow> nat \<times> lock_file" where
  "open_handle p f = (lf_next f, f\<lparr>lf_open := (p, lf_next f) # lf_open f, lf_next := lf_next f + 1\<rparr>)"

definition drop_open :: "(pid \<times> nat \<Rightarrow> bool) \<Rightarrow> lock_file \<Rightarrow> lock_file" where
  "drop_open gone f =
     (let still = filter (\<lambda>x. \<not> gone x) (lf_open f)
      in f\<lparr>lf_open := still,
           lf_holder := (case lf_holder f of None \<Rightarrow> None | Some d \<Rightarrow> if d \<in> snd ` set still then Some d else None)\<rparr>)"

definition close_handle :: "pid \<Rightarrow> nat \<Rightarrow> lock_file \<Rightarrow> lock_file" where
  "close_handle p d = drop_open (\<lambda>x. x = (p, d))"

definition unlock_handle :: "nat \<Rightarrow> lock_file \<Rightarrow> lock_file" where
  "unlock_handle d f = (if lf_holder f = Some d then f\<lparr>lf_holder := None\<rparr> else f)"

subsection \<open>The writer lock\<close>

record writer_lock =
  wl_thread_lock :: rlock
  wl_depth :: nat
  wl_owner :: "tid option"
  wl_handle :: "nat option"
  wl_pid :: pid
  wl_context_pids :: "pid list"

definition new_writer_lock :: "pid \<Rightarrow> writer_lock" where
  "new_writer_lock p = \<lparr>wl_thread_lock = free_rlock, wl_depth = 0, wl_owner = None, wl_handle = None, wl_pid = p,
     wl_context_pids = []\<rparr>"

definition reset_after_fork :: "pid \<Rightarrow> writer_lock \<times> lock_file \<Rightarrow> writer_lock \<times> lock_file" where
  "reset_after_fork p lf =
     (case lf of (l, f) \<Rightarrow>
        if p = wl_pid l then (l, f)
        else ((new_writer_lock p)\<lparr>wl_context_pids := wl_context_pids l\<rparr>,
              case wl_handle l of None \<Rightarrow> f | Some d \<Rightarrow> close_handle p d f))"

text \<open>
  \<open>acquire\<close> up to the point where it waits for the file lock with the thread lock held, the return of
  \<open>flock\<close>, and its failure.
\<close>

datatype attempt = Blocked | Refused | MustWait nat | Entered

definition start_acquire :: "pid \<Rightarrow> tid \<Rightarrow> writer_lock \<times> lock_file \<Rightarrow> attempt \<times> writer_lock \<times> lock_file" where
  "start_acquire p t lf =
     (case reset_after_fork p lf of (l, f) \<Rightarrow>
        case rlock_acquire t (wl_thread_lock l) of
          None \<Rightarrow> (Blocked, l, f)
        | Some r \<Rightarrow>
            if wl_depth l = 0 then
              (case open_handle p f of (d, f1) \<Rightarrow> (MustWait d, l\<lparr>wl_thread_lock := r\<rparr>, f1))
            else if wl_owner l \<noteq> Some t then (Refused, l, f)
            else (Entered, l\<lparr>wl_thread_lock := r, wl_depth := wl_depth l + 1\<rparr>, f))"

definition lock_granted :: "tid \<Rightarrow> nat \<Rightarrow> writer_lock \<times> lock_file \<Rightarrow> (writer_lock \<times> lock_file) option" where
  "lock_granted t d lf =
     (case lf of (l, f) \<Rightarrow>
        if lf_holder f = None
        then Some (l\<lparr>wl_handle := Some d, wl_owner := Some t, wl_depth := wl_depth l + 1\<rparr>, f\<lparr>lf_holder := Some d\<rparr>)
        else None)"

definition unwind_thread_lock :: "tid \<Rightarrow> writer_lock \<Rightarrow> writer_lock" where
  "unwind_thread_lock t l = (case rlock_release t (wl_thread_lock l) of None \<Rightarrow> l | Some r \<Rightarrow> l\<lparr>wl_thread_lock := r\<rparr>)"

definition lock_failed :: "pid \<Rightarrow> tid \<Rightarrow> nat \<Rightarrow> writer_lock \<times> lock_file \<Rightarrow> writer_lock \<times> lock_file" where
  "lock_failed p t d lf = (case lf of (l, f) \<Rightarrow> (unwind_thread_lock t l, close_handle p d f))"

datatype exit_outcome = Returned | RaisedError

definition release :: "pid \<Rightarrow> tid \<Rightarrow> pid option \<Rightarrow> writer_lock \<times> lock_file \<Rightarrow> exit_outcome \<times> writer_lock \<times> lock_file" where
  "release p t acquired_pid lf =
     (case lf of (l, f) \<Rightarrow>
        if acquired_pid \<noteq> None \<and> acquired_pid \<noteq> Some p then (Returned, reset_after_fork p (l, f))
        else if p \<noteq> wl_pid l then (Returned, reset_after_fork p (l, f))
        else (case wl_handle l of
          None \<Rightarrow> (RaisedError, l, f)
        | Some d \<Rightarrow>
            if wl_depth l = 0 \<or> wl_owner l \<noteq> Some t then (RaisedError, l, f)
            else let l1 = unwind_thread_lock t (l\<lparr>wl_depth := wl_depth l - 1\<rparr>)
                 in if wl_depth l = 1
                    then (Returned, l1\<lparr>wl_handle := None, wl_owner := None\<rparr>, close_handle p d (unlock_handle d f))
                    else (Returned, l1, f)))"

definition is_reentrant_acquisition :: "tid \<Rightarrow> writer_lock \<Rightarrow> bool" where
  "is_reentrant_acquisition t l \<longleftrightarrow> wl_owner l = Some t \<and> 1 < wl_depth l"

definition note_context :: "pid \<Rightarrow> writer_lock \<Rightarrow> writer_lock" where
  "note_context p l = l\<lparr>wl_context_pids := wl_context_pids l @ [p]\<rparr>"

definition exit_context :: "pid \<Rightarrow> tid \<Rightarrow> writer_lock \<times> lock_file \<Rightarrow> exit_outcome \<times> writer_lock \<times> lock_file" where
  "exit_context p t lf =
     (case lf of (l, f) \<Rightarrow>
        if wl_context_pids l = [] then (RaisedError, l, f)
        else release p t (Some (List.last (wl_context_pids l))) (l\<lparr>wl_context_pids := butlast (wl_context_pids l)\<rparr>, f))"

subsection \<open>Processes\<close>

text \<open>
  \<open>sy_blocks s (p, t)\<close>: the \<open>with\<close> blocks thread \<open>t\<close> of process \<open>p\<close> is in, innermost first, each with the
  process that entered it; \<open>sy_waiting\<close>: who waits for the file lock, with the handle opened for it.
\<close>

record system =
  sy_locks :: "pid \<Rightarrow> writer_lock option"
  sy_file :: lock_file
  sy_waiting :: "pid \<times> tid \<Rightarrow> nat option"
  sy_blocks :: "pid \<times> tid \<Rightarrow> pid list"
  sy_next :: pid

definition no_processes :: system where
  "no_processes = \<lparr>sy_locks = (\<lambda>_. None), sy_file = \<lparr>lf_holder = None, lf_open = [], lf_next = 0\<rparr>,
     sy_waiting = (\<lambda>_. None), sy_blocks = (\<lambda>_. []), sy_next = 0\<rparr>"

definition put_lock :: "pid \<Rightarrow> writer_lock \<times> lock_file \<Rightarrow> system \<Rightarrow> system" where
  "put_lock p lf s = s\<lparr>sy_locks := (sy_locks s)(p := Some (fst lf)), sy_file := snd lf\<rparr>"

definition fork_process :: "pid \<Rightarrow> tid \<Rightarrow> writer_lock \<Rightarrow> system \<Rightarrow> system" where
  "fork_process p t l s =
     (let c = sy_next s; f = sy_file s
      in s\<lparr>sy_locks := (sy_locks s)(c := Some l),
           sy_file := f\<lparr>lf_open := map (\<lambda>x. (c, snd x)) (filter (\<lambda>x. fst x = p) (lf_open f)) @ lf_open f\<rparr>,
           sy_blocks := (sy_blocks s)((c, t) := sy_blocks s (p, t)), sy_next := c + 1\<rparr>)"

definition kill_process :: "pid \<Rightarrow> system \<Rightarrow> system" where
  "kill_process p s = s\<lparr>sy_locks := (sy_locks s)(p := None), sy_file := drop_open (\<lambda>x. fst x = p) (sy_file s),
     sy_waiting := (\<lambda>x. if fst x = p then None else sy_waiting s x),
     sy_blocks := (\<lambda>x. if fst x = p then [] else sy_blocks s x)\<rparr>"

inductive lock_step :: "system \<Rightarrow> system \<Rightarrow> bool" where
  start_process: "lock_step s (s\<lparr>sy_locks := (sy_locks s)(sy_next s := Some (new_writer_lock (sy_next s))), sy_next := sy_next s + 1\<rparr>)"
| enter_waits: "sy_locks s p = Some l \<Longrightarrow> sy_waiting s (p, t) = None \<Longrightarrow>
    start_acquire p t (l, sy_file s) = (MustWait d, lf) \<Longrightarrow>
    lock_step s ((put_lock p lf s)\<lparr>sy_waiting := (sy_waiting s)((p, t) := Some d)\<rparr>)"
| enter_again: "sy_locks s p = Some l \<Longrightarrow> sy_waiting s (p, t) = None \<Longrightarrow>
    start_acquire p t (l, sy_file s) = (Entered, l1, f1) \<Longrightarrow>
    lock_step s ((put_lock p (note_context p l1, f1) s)\<lparr>sy_blocks := (sy_blocks s)((p, t) := p # sy_blocks s (p, t))\<rparr>)"
| enter_fails: "sy_locks s p = Some l \<Longrightarrow> sy_waiting s (p, t) = None \<Longrightarrow>
    start_acquire p t (l, sy_file s) = (a, lf) \<Longrightarrow> a \<in> {Blocked, Refused} \<Longrightarrow> lock_step s (put_lock p lf s)"
| granted: "sy_locks s p = Some l \<Longrightarrow> sy_waiting s (p, t) = Some d \<Longrightarrow>
    lock_granted t d (l, sy_file s) = Some (l1, f1) \<Longrightarrow>
    lock_step s ((put_lock p (note_context p l1, f1) s)\<lparr>sy_waiting := (sy_waiting s)((p, t) := None),
      sy_blocks := (sy_blocks s)((p, t) := p # sy_blocks s (p, t))\<rparr>)"
| failed: "sy_locks s p = Some l \<Longrightarrow> sy_waiting s (p, t) = Some d \<Longrightarrow>
    lock_step s ((put_lock p (lock_failed p t d (l, sy_file s)) s)\<lparr>sy_waiting := (sy_waiting s)((p, t) := None)\<rparr>)"
| leave: "sy_locks s p = Some l \<Longrightarrow> sy_waiting s (p, t) = None \<Longrightarrow> sy_blocks s (p, t) = b # bs \<Longrightarrow>
    exit_context p t (l, sy_file s) = (r, lf) \<Longrightarrow>
    lock_step s ((put_lock p lf s)\<lparr>sy_blocks := (sy_blocks s)((p, t) := bs)\<rparr>)"
| fork: "sy_locks s p = Some l \<Longrightarrow> sy_waiting s (p, t) = None \<Longrightarrow> lock_step s (fork_process p t l s)"
| kill: "lock_step s (kill_process p s)"

end
