(* ===== verification/WriterLock_Safe.thy ===== *)
theory WriterLock_Safe
  imports WriterLock
begin

text \<open>
  The writer lock excludes: at any time at most one thread of one process is in a \<open>with\<close> block it
  entered itself, whatever forks, deaths and failures happen. \<open>own s p l\<close>: the lock object of process
  \<open>p\<close> is \<open>l\<close> and \<open>p\<close> has used it since it was forked.
\<close>

definition own :: "system \<Rightarrow> pid \<Rightarrow> writer_lock \<Rightarrow> bool" where
  "own s p l \<longleftrightarrow> sy_locks s p = Some l \<and> wl_pid l = p"

text \<open>An idle lock object, or one that holds the file lock through its handle.\<close>

definition good :: "lock_file \<Rightarrow> pid \<Rightarrow> writer_lock \<Rightarrow> bool" where
  "good f p l \<longleftrightarrow> (case wl_handle l of
     None \<Rightarrow> wl_depth l = 0 \<and> wl_owner l = None
   | Some d \<Rightarrow> 0 < wl_depth l \<and> lf_holder f = Some d \<and> (p, d) \<in> set (lf_open f) \<and> d < lf_next f \<and>
       (\<exists>t. wl_owner l = Some t \<and> wl_thread_lock l = \<lparr>rl_owner = Some t, rl_count = wl_depth l\<rparr>))"

definition waiting_ok :: "system \<Rightarrow> pid \<times> tid \<Rightarrow> nat \<Rightarrow> bool" where
  "waiting_ok s x d \<longleftrightarrow> (\<exists>l. own s (fst x) l \<and> wl_depth l = 0 \<and> wl_thread_lock l = \<lparr>rl_owner = Some (snd x), rl_count = 1\<rparr> \<and>
     (fst x, d) \<in> set (lf_open (sy_file s)) \<and> d < lf_next (sy_file s) \<and> lf_holder (sy_file s) \<noteq> Some d)"

definition blocks_ok :: "system \<Rightarrow> pid \<times> tid \<Rightarrow> bool" where
  "blocks_ok s x \<longleftrightarrow> (\<exists>n rest. sy_blocks s x = replicate n (fst x) @ rest \<and> fst x \<notin> set rest \<and>
     (0 < n \<longrightarrow> (\<exists>l. own s (fst x) l \<and> wl_owner l = Some (snd x) \<and> n \<le> wl_depth l)))"

definition lock_inv :: "system \<Rightarrow> bool" where
  "lock_inv s \<longleftrightarrow>
     (\<forall>p l. sy_locks s p = Some l \<longrightarrow> p < sy_next s \<and> wl_pid l < sy_next s) \<and>
     (\<forall>p l. own s p l \<longrightarrow> good (sy_file s) p l) \<and>
     (\<forall>p l q l'. own s p l \<longrightarrow> own s q l' \<longrightarrow> p \<noteq> q \<longrightarrow> wl_handle l = None \<or> wl_handle l' = None) \<and>
     (\<forall>x d. sy_waiting s x = Some d \<longrightarrow> waiting_ok s x d \<and> (\<forall>y. sy_waiting s y = Some d \<longrightarrow> y = x)) \<and>
     (\<forall>x. blocks_ok s x \<and> (\<forall>q \<in> set (sy_blocks s x). q < sy_next s)) \<and>
     (\<forall>d. lf_holder (sy_file s) = Some d \<longrightarrow> d < lf_next (sy_file s)) \<and>
     (\<forall>p l. own s p l \<longrightarrow> wl_depth l = 0 \<longrightarrow> (\<forall>t. sy_waiting s (p, t) = None) \<longrightarrow> wl_thread_lock l = free_rlock)"

lemma lock_invD:
  assumes "lock_inv s"
  shows "\<forall>p l. sy_locks s p = Some l \<longrightarrow> p < sy_next s \<and> wl_pid l < sy_next s"
    and "\<forall>p l. own s p l \<longrightarrow> good (sy_file s) p l"
    and "\<forall>p l q l'. own s p l \<longrightarrow> own s q l' \<longrightarrow> p \<noteq> q \<longrightarrow> wl_handle l = None \<or> wl_handle l' = None"
    and "\<forall>x d. sy_waiting s x = Some d \<longrightarrow> waiting_ok s x d"
    and "\<forall>x y d. sy_waiting s x = Some d \<longrightarrow> sy_waiting s y = Some d \<longrightarrow> y = x"
    and "\<forall>x. blocks_ok s x"
    and "\<forall>x. \<forall>q \<in> set (sy_blocks s x). q < sy_next s"
    and "\<forall>d. lf_holder (sy_file s) = Some d \<longrightarrow> d < lf_next (sy_file s)"
    and "\<forall>p l. own s p l \<longrightarrow> wl_depth l = 0 \<longrightarrow> (\<forall>t. sy_waiting s (p, t) = None) \<longrightarrow> wl_thread_lock l = free_rlock"
  using assms unfolding lock_inv_def by simp_all

lemma lock_invI:
  assumes "\<And>p l. sy_locks s p = Some l \<Longrightarrow> p < sy_next s \<and> wl_pid l < sy_next s"
    and "\<And>p l. own s p l \<Longrightarrow> good (sy_file s) p l"
    and "\<And>p l q l'. own s p l \<Longrightarrow> own s q l' \<Longrightarrow> p \<noteq> q \<Longrightarrow> wl_handle l = None \<or> wl_handle l' = None"
    and "\<And>x d. sy_waiting s x = Some d \<Longrightarrow> waiting_ok s x d"
    and "\<And>x y d. sy_waiting s x = Some d \<Longrightarrow> sy_waiting s y = Some d \<Longrightarrow> y = x"
    and "\<And>x. blocks_ok s x"
    and "\<And>x q. q \<in> set (sy_blocks s x) \<Longrightarrow> q < sy_next s"
    and "\<And>d. lf_holder (sy_file s) = Some d \<Longrightarrow> d < lf_next (sy_file s)"
    and "\<And>p l. own s p l \<Longrightarrow> wl_depth l = 0 \<Longrightarrow> (\<And>t. sy_waiting s (p, t) = None) \<Longrightarrow> wl_thread_lock l = free_rlock"
  shows "lock_inv s"
  unfolding lock_inv_def using assms by blast

lemma put_simps [simp]:
  "sy_file (put_lock p lf s) = snd lf" "sy_waiting (put_lock p lf s) = sy_waiting s" "sy_blocks (put_lock p lf s) = sy_blocks s"
  "sy_next (put_lock p lf s) = sy_next s" "put_lock p lf (put_lock p lf' s) = put_lock p lf s"
  "sy_locks (put_lock p lf s) q = (if q = p then Some (fst lf) else sy_locks s q)"
  by (simp_all add: put_lock_def)

lemma put_lock_id: "sy_locks s p = Some l \<Longrightarrow> put_lock p (l, sy_file s) s = s"
  by (simp add: put_lock_def fun_upd_idem)

lemma own_put [simp]: "own (put_lock p lf s) q l \<longleftrightarrow> (if q = p then l = fst lf \<and> wl_pid l = p else own s q l)"
  by (auto simp: own_def)

lemma own_parts [simp]: "own (s\<lparr>sy_waiting := w\<rparr>) p l = own s p l" "own (s\<lparr>sy_blocks := b\<rparr>) p l = own s p l"
  by (simp_all add: own_def)

lemma own_unique: "own s p l \<Longrightarrow> own s p l' \<Longrightarrow> l = l'"
  by (simp add: own_def)

subsection \<open>What a step of one process does to the others\<close>

text \<open>The file lock changes without taking it from another process that holds it.\<close>

definition harmless :: "pid \<Rightarrow> lock_file \<Rightarrow> lock_file \<Rightarrow> bool" where
  "harmless p f f' \<longleftrightarrow> lf_next f \<le> lf_next f' \<and>
     (\<forall>q d. q \<noteq> p \<longrightarrow> (q, d) \<in> set (lf_open f) \<longrightarrow> (q, d) \<in> set (lf_open f') \<and> (lf_holder f = Some d \<longrightarrow> lf_holder f' = Some d)) \<and>
     (\<forall>d. lf_holder f' = Some d \<longrightarrow> lf_holder f = Some d)"

lemma harmless_simps [simp]: "harmless p f f" "harmless p f (close_handle p d f)" "harmless p f (snd (open_handle p f))"
  by (simp_all add: harmless_def close_handle_def drop_open_def open_handle_def Let_def split: option.split) force

lemma harmless_good: "harmless p f f' \<Longrightarrow> q \<noteq> p \<Longrightarrow> good f q l \<Longrightarrow> good f' q l"
  by (auto simp: harmless_def good_def split: option.splits)

text \<open>Either that, or nobody else holds it, and it may go to a handle \<open>p\<close> waits with.\<close>

definition yields :: "system \<Rightarrow> pid \<Rightarrow> lock_file \<Rightarrow> bool" where
  "yields s p f \<longleftrightarrow> harmless p (sy_file s) f \<or>
     (\<forall>q l'. q \<noteq> p \<longrightarrow> own s q l' \<longrightarrow> wl_handle l' = None) \<and> lf_next (sy_file s) \<le> lf_next f \<and>
     (\<forall>q d. q \<noteq> p \<longrightarrow> (q, d) \<in> set (lf_open (sy_file s)) \<longrightarrow> (q, d) \<in> set (lf_open f)) \<and>
     (\<forall>d. lf_holder f = Some d \<longrightarrow> (\<exists>t. sy_waiting s (p, t) = Some d))"

lemma yields_harmless: "harmless p (sy_file s) f \<Longrightarrow> yields s p f"
  by (simp add: yields_def)

lemma yields_good:
  assumes "lock_inv s" "yields s p f" "q \<noteq> p" "own s q l'"
  shows "good f q l'"
proof -
  have g: "good (sy_file s) q l'" using lock_invD(2) [OF assms(1)] assms(4) by blast
  have "harmless p (sy_file s) f \<or> wl_handle l' = None" using assms(2-4) unfolding yields_def by auto
  then show ?thesis
  proof
    assume "harmless p (sy_file s) f"
    then show ?thesis using harmless_good g assms(3) by blast
  next
    assume "wl_handle l' = None"
    then show ?thesis using g by (simp add: good_def)
  qed
qed

lemma yields_waiting:
  assumes s: "lock_inv s" and f: "yields s p f" and q: "q \<noteq> p" "sy_waiting s (q, t) = Some d"
  shows "waiting_ok (put_lock p (l, f) s) (q, t) d"
proof -
  obtain l' where l': "own s q l'" "wl_depth l' = 0" "wl_thread_lock l' = \<lparr>rl_owner = Some t, rl_count = 1\<rparr>"
      "(q, d) \<in> set (lf_open (sy_file s))" "d < lf_next (sy_file s)" "lf_holder (sy_file s) \<noteq> Some d"
    using lock_invD(4) [OF s, rule_format, OF q(2)] by (auto simp: waiting_ok_def)
  have "\<not> (\<exists>u. sy_waiting s (p, u) = Some d)" using lock_invD(5) [OF s, rule_format, OF q(2)] q(1) by blast
  then have "(q, d) \<in> set (lf_open f) \<and> d < lf_next f \<and> lf_holder f \<noteq> Some d"
    using f l'(4-6) q(1) unfolding yields_def harmless_def by (meson order_less_le_trans)
  then show ?thesis using l'(1-3) q(1) by (auto simp: waiting_ok_def)
qed

lemma yields_holder:
  assumes s: "lock_inv s" and f: "yields s p f" and d: "lf_holder f = Some d"
  shows "d < lf_next f"
proof -
  have "d < lf_next (sy_file s)"
  proof (cases "lf_holder (sy_file s) = Some d")
    case True
    then show ?thesis using lock_invD(8) [OF s] by blast
  next
    case False
    then obtain t where "sy_waiting s (p, t) = Some d" using f d unfolding yields_def harmless_def by blast
    then show ?thesis using lock_invD(4) [OF s] by (fastforce simp: waiting_ok_def)
  qed
  moreover have "lf_next (sy_file s) \<le> lf_next f" using f unfolding yields_def harmless_def by blast
  ultimately show ?thesis by simp
qed

text \<open>
  The rule for the steps: process \<open>p\<close> replaces its lock object and the file, changes its own waiting
  and blocks, and leaves the others alone.
\<close>

lemma inv_step:
  assumes s: "lock_inv s" and l: "sy_locks s p = Some l0" "wl_pid l < sy_next s" and f: "yields s p f"
    and g: "wl_pid l = p \<Longrightarrow> good f p l" "wl_pid l = p \<Longrightarrow> wl_depth l = 0 \<Longrightarrow> (\<forall>t. w (p, t) = None) \<Longrightarrow> wl_thread_lock l = free_rlock"
    and h: "\<And>q l'. wl_pid l = p \<Longrightarrow> q \<noteq> p \<Longrightarrow> own s q l' \<Longrightarrow> wl_handle l = None \<or> wl_handle l' = None"
    and w: "\<And>q t. q \<noteq> p \<Longrightarrow> w (q, t) = sy_waiting s (q, t)"
      "\<And>t d. w (p, t) = Some d \<Longrightarrow> waiting_ok (put_lock p (l, f) s) (p, t) d \<and> (\<forall>y. w y = Some d \<longrightarrow> y = (p, t))"
    and b: "\<And>q t. q \<noteq> p \<Longrightarrow> b (q, t) = sy_blocks s (q, t)"
      "\<And>t. blocks_ok ((put_lock p (l, f) s)\<lparr>sy_blocks := b\<rparr>) (p, t) \<and> (\<forall>q \<in> set (b (p, t)). q < sy_next s)"
  shows "lock_inv ((put_lock p (l, f) s)\<lparr>sy_waiting := w, sy_blocks := b\<rparr>)" (is "lock_inv ?s'")
proof -
  note inv = lock_invD [OF s, rule_format]
  have rec: "sy_locks ?s' = sy_locks (put_lock p (l, f) s)" "sy_file ?s' = f" "own ?s' = own (put_lock p (l, f) s)"
      "sy_waiting ?s' = w" "sy_blocks ?s' = b" "sy_next ?s' = sy_next s" "waiting_ok ?s' = waiting_ok (put_lock p (l, f) s)"
      "blocks_ok ?s' = blocks_ok ((put_lock p (l, f) s)\<lparr>sy_blocks := b\<rparr>)"
    by (auto simp: waiting_ok_def [abs_def] blocks_ok_def [abs_def] own_def [abs_def])
  have waits: "waiting_ok (put_lock p (l, f) s) x d \<and> (\<forall>y. w y = Some d \<longrightarrow> y = x)" if "w x = Some d" for x d
  proof (cases "fst x = p")
    case True
    then show ?thesis using w(2) that by (metis prod.collapse)
  next
    case False
    then have x: "sy_waiting s x = Some d" using w(1) that by (metis prod.collapse)
    have "y = x" if y: "w y = Some d" for y
    proof (cases "fst y = p")
      case True
      then have "x = y" using w(2) [of "snd y" d] y \<open>w x = Some d\<close> by (metis prod.collapse)
      then show ?thesis ..
    next
      case False
      then show ?thesis using w(1) y inv(5) [OF x] by (metis prod.collapse)
    qed
    then show ?thesis using yields_waiting [OF s f, of "fst x" "snd x" d] False x by simp
  qed
  have blocks: "blocks_ok ((put_lock p (l, f) s)\<lparr>sy_blocks := b\<rparr>) x \<and> (\<forall>q \<in> set (b x). q < sy_next s)" for x
  proof (cases "fst x = p")
    case True
    then show ?thesis using b(2) by (metis prod.collapse)
  next
    case False
    then have "b x = sy_blocks s x" using b(1) by (metis prod.collapse)
    then show ?thesis using inv(6) [of x] inv(7) [of _ x] False by (auto simp: blocks_ok_def)
  qed
  have pids: "q < sy_next s \<and> wl_pid l' < sy_next s" if "sy_locks (put_lock p (l, f) s) q = Some l'" for q l'
    using that inv(1) l by (auto split: if_splits)
  have goods: "good f q l'" if "own (put_lock p (l, f) s) q l'" for q l'
    using that yields_good [OF s f, of q l'] g(1) by (auto split: if_splits)
  have one: "wl_handle l1 = None \<or> wl_handle l2 = None"
    if "own (put_lock p (l, f) s) q1 l1" "own (put_lock p (l, f) s) q2 l2" "q1 \<noteq> q2" for q1 l1 q2 l2
    using that inv(3) [of q1 l1 q2 l2] h [of q1 l1] h [of q2 l2] by (auto split: if_splits)
  have idle: "wl_thread_lock l' = free_rlock"
    if "own (put_lock p (l, f) s) q l'" "wl_depth l' = 0" "\<forall>t. w (q, t) = None" for q l'
  proof (cases "q = p")
    case True
    then have "l' = l" "wl_pid l = p" using that(1) by auto
    then show ?thesis using g(2) that(2,3) True by blast
  next
    case False
    then have "own s q l'" "\<forall>t. sy_waiting s (q, t) = None" using that w(1) [OF False] by auto
    then show ?thesis using lock_invD(9) [OF s] that(2) by blast
  qed
  show ?thesis
    by (rule lock_invI; unfold rec)
      (erule pids, erule goods, erule one, assumption+, use waits in metis, use waits in metis, use blocks in metis,
       use blocks in metis, erule yields_holder [OF s f], use idle in metis)
qed

subsection \<open>The methods\<close>

lemma put_same [simp]:
  "(put_lock p lf s)\<lparr>sy_waiting := sy_waiting s, sy_blocks := b\<rparr> = (put_lock p lf s)\<lparr>sy_blocks := b\<rparr>"
  "(put_lock p lf s)\<lparr>sy_waiting := w, sy_blocks := sy_blocks s\<rparr> = (put_lock p lf s)\<lparr>sy_waiting := w\<rparr>"
  "(put_lock p lf s)\<lparr>sy_blocks := sy_blocks s\<rparr> = put_lock p lf s"
  by (simp_all add: put_lock_def)

lemma no_blocks:
  assumes "lock_inv s" "\<not> own s p l" "sy_locks s p = Some l"
  shows "p \<notin> set (sy_blocks s (p, t))"
proof -
  have "blocks_ok s (p, t)" using lock_invD(6) [OF assms(1)] by blast
  then obtain n rest where n: "sy_blocks s (p, t) = replicate n p @ rest" "p \<notin> set rest" "0 < n \<longrightarrow> (\<exists>l. own s p l)"
    unfolding blocks_ok_def by auto
  then have "n = 0" using assms(2,3) by (auto simp: own_def)
  then show ?thesis using n by simp
qed

lemma blocks_ok_none: "p \<notin> set (sy_blocks s (p, t)) \<Longrightarrow> blocks_ok s (p, t)"
  by (auto simp: blocks_ok_def intro!: exI [of _ "0::nat"])

lemma inv_reset:
  assumes s: "lock_inv s" and l: "sy_locks s p = Some l"
  shows "lock_inv (put_lock p (reset_after_fork p (l, sy_file s)) s)"
proof (cases "wl_pid l = p")
  case True
  then show ?thesis using s put_lock_id [OF l] by (simp add: reset_after_fork_def)
next
  case False
  let ?f = "case wl_handle l of None \<Rightarrow> sy_file s | Some d \<Rightarrow> close_handle p d (sy_file s)"
  let ?l = "(new_writer_lock p)\<lparr>wl_context_pids := wl_context_pids l\<rparr>"
  note inv = lock_invD [OF s, rule_format]
  have w: "sy_waiting s (p, t) = None" for t
    using inv(4) [of "(p, t)"] False l by (fastforce simp: waiting_ok_def own_def)
  have "lock_inv ((put_lock p (?l, ?f) s)\<lparr>sy_waiting := sy_waiting s, sy_blocks := sy_blocks s\<rparr>)"
  proof (rule inv_step [OF s l])
    show "wl_pid ?l < sy_next s" using inv(1) [OF l] by (simp add: new_writer_lock_def)
    show "blocks_ok ((put_lock p (?l, ?f) s)\<lparr>sy_blocks := sy_blocks s\<rparr>) (p, t) \<and> (\<forall>q \<in> set (sy_blocks s (p, t)). q < sy_next s)" for t
      using no_blocks [OF s _ l] False inv(7) by (auto simp: own_def intro!: blocks_ok_none)
  qed (auto simp: good_def new_writer_lock_def w intro!: yields_harmless split: option.split)
  then show ?thesis using False by (simp add: reset_after_fork_def)
qed


lemma own_idle:
  assumes "lock_inv s" "own s p l" "wl_depth l = 0"
  shows "wl_handle l = None" "wl_owner l = None"
  using lock_invD(2) [OF assms(1), rule_format, OF assms(2)] assms(3) by (auto simp: good_def split: option.splits)

lemma own_busy:
  assumes "lock_inv s" "own s p l" "0 < wl_depth l"
  obtains d t where "wl_handle l = Some d" "wl_owner l = Some t" "wl_thread_lock l = \<lparr>rl_owner = Some t, rl_count = wl_depth l\<rparr>"
    "lf_holder (sy_file s) = Some d" "(p, d) \<in> set (lf_open (sy_file s))" "d < lf_next (sy_file s)"
  using lock_invD(2) [OF assms(1), rule_format, OF assms(2)] assms(3) by (auto simp: good_def split: option.splits)

lemma busy_no_wait:
  assumes "lock_inv s" "own s p l" "0 < wl_depth l"
  shows "sy_waiting s (p, u) = None"
proof (rule ccontr)
  assume "sy_waiting s (p, u) \<noteq> None"
  then obtain d where "waiting_ok s (p, u) d" using lock_invD(4) [OF assms(1)] by blast
  then show False using own_unique [OF assms(2)] assms(3) by (auto simp: waiting_ok_def)
qed

text \<open>The own blocks of a thread are its innermost ones, and no more than the depth of the lock it owns.\<close>

lemma own_blocks:
  assumes "lock_inv s" "own s p l"
  obtains n rest where "sy_blocks s (p, u) = replicate n p @ rest" "p \<notin> set rest" "0 < n \<Longrightarrow> wl_owner l = Some u \<and> n \<le> wl_depth l"
proof -
  have "blocks_ok s (p, u)" using lock_invD(6) [OF assms(1)] by blast
  then obtain n rest where n: "sy_blocks s (p, u) = replicate n p @ rest" "p \<notin> set rest"
      "0 < n \<longrightarrow> (\<exists>l. own s p l \<and> wl_owner l = Some u \<and> n \<le> wl_depth l)" unfolding blocks_ok_def fst_conv snd_conv by blast
  then have "0 < n \<Longrightarrow> wl_owner l = Some u \<and> n \<le> wl_depth l" using own_unique [OF assms(2)] by blast
  then show ?thesis using that n by blast
qed

lemma idle_no_blocks:
  assumes "lock_inv s" "own s p l" "wl_owner l \<noteq> Some u"
  shows "p \<notin> set (sy_blocks s (p, u))"
proof -
  obtain n rest where n: "sy_blocks s (p, u) = replicate n p @ rest" "p \<notin> set rest" "0 < n \<Longrightarrow> wl_owner l = Some u \<and> n \<le> wl_depth l"
    by (rule own_blocks [OF assms(1,2)]) blast
  then have "n = 0" using assms(3) by blast
  then show ?thesis using n(1,2) by simp
qed

lemma blocks_ok_replicate:
  "sy_blocks s (p, u) = replicate n p @ rest \<Longrightarrow> p \<notin> set rest \<Longrightarrow> (0 < n \<Longrightarrow> \<exists>l. own s p l \<and> wl_owner l = Some u \<and> n \<le> wl_depth l) \<Longrightarrow>
    blocks_ok s (p, u)"
  unfolding blocks_ok_def by auto

text \<open>The core steps of a process whose lock object is its own.\<close>

lemma inv_wait:
  assumes s: "lock_inv s" and l: "own s p l" "wl_depth l = 0" "rlock_acquire t (wl_thread_lock l) = Some r"
    and w: "sy_waiting s (p, t) = None"
  shows "lock_inv ((put_lock p (l\<lparr>wl_thread_lock := r\<rparr>, snd (open_handle p (sy_file s))) s)
    \<lparr>sy_waiting := (sy_waiting s)((p, t) := Some (lf_next (sy_file s)))\<rparr>)"
proof -
  note inv = lock_invD [OF s, rule_format] and h = own_idle [OF s l(1,2)]
  have fresh: "\<not> sy_waiting s x = Some (lf_next (sy_file s))" for x using inv(4) [of x] by (auto simp: waiting_ok_def)
  have holder: "lf_holder (sy_file s) \<noteq> Some (lf_next (sy_file s))" using inv(8) by fastforce
  have "sy_waiting s (p, u) = None" for u
  proof (rule ccontr)
    assume "sy_waiting s (p, u) \<noteq> None"
    then have "wl_thread_lock l = \<lparr>rl_owner = Some u, rl_count = 1\<rparr>" "u \<noteq> t"
      using inv(4) [of "(p, u)"] l(1) own_unique w by (fastforce simp: waiting_ok_def)+
    then show False using l(3) by (simp add: rlock_acquire_def split: if_splits)
  qed
  then have alone: "wl_thread_lock l = free_rlock" "\<forall>u. sy_waiting s (p, u) = None" using inv(9) [OF l(1,2)] by blast+
  have r: "r = \<lparr>rl_owner = Some t, rl_count = 1\<rparr>" using l(3) alone(1) by (simp add: rlock_acquire_def free_rlock_def)
  have p: "sy_locks s p = Some l" "wl_pid l = p" using l(1) by (simp_all add: own_def)
  have "lock_inv ((put_lock p (l\<lparr>wl_thread_lock := r\<rparr>, snd (open_handle p (sy_file s))) s)
    \<lparr>sy_waiting := (sy_waiting s)((p, t) := Some (lf_next (sy_file s))), sy_blocks := sy_blocks s\<rparr>)"
  proof (rule inv_step [OF s p(1)])
    show "((sy_waiting s)((p, t) := Some (lf_next (sy_file s)))) (p, u) = Some d \<Longrightarrow>
      waiting_ok (put_lock p (l\<lparr>wl_thread_lock := r\<rparr>, snd (open_handle p (sy_file s))) s) (p, u) d \<and>
      (\<forall>y. ((sy_waiting s)((p, t) := Some (lf_next (sy_file s)))) y = Some d \<longrightarrow> y = (p, u))" for u d
      using alone(2) fresh holder p l(2) by (auto simp: waiting_ok_def r open_handle_def split: if_splits)
    show "blocks_ok ((put_lock p (l\<lparr>wl_thread_lock := r\<rparr>, snd (open_handle p (sy_file s))) s)\<lparr>sy_blocks := sy_blocks s\<rparr>) (p, u) \<and>
      (\<forall>q \<in> set (sy_blocks s (p, u)). q < sy_next s)" for u
      using idle_no_blocks [OF s l(1)] h(2) inv(7) by (auto intro!: blocks_ok_none)
  qed (use inv(1) [OF p(1)] h l(2) in \<open>auto simp: good_def intro!: yields_harmless split: if_splits\<close>)
  then show ?thesis by simp
qed

lemma waiting_alone:
  assumes s: "lock_inv s" and w: "sy_waiting s (p, t) = Some d"
  obtains l where "own s p l" "wl_depth l = 0" "wl_thread_lock l = \<lparr>rl_owner = Some t, rl_count = 1\<rparr>"
    "(p, d) \<in> set (lf_open (sy_file s))" "d < lf_next (sy_file s)" "\<And>u. u \<noteq> t \<Longrightarrow> sy_waiting s (p, u) = None"
proof -
  obtain l where l: "own s p l" "wl_depth l = 0" "wl_thread_lock l = \<lparr>rl_owner = Some t, rl_count = 1\<rparr>"
      "(p, d) \<in> set (lf_open (sy_file s))" "d < lf_next (sy_file s)"
    using lock_invD(4) [OF s, rule_format, OF w] by (auto simp: waiting_ok_def)
  have "sy_waiting s (p, u) = None" if "u \<noteq> t" for u
  proof (rule ccontr)
    assume "sy_waiting s (p, u) \<noteq> None"
    then obtain d' where "waiting_ok s (p, u) d'" using lock_invD(4) [OF s] by blast
    then have "wl_thread_lock l = \<lparr>rl_owner = Some u, rl_count = 1\<rparr>" using own_unique [OF l(1)] by (auto simp: waiting_ok_def)
    then show False using l(3) that by simp
  qed
  then show ?thesis using that l by blast
qed

lemma inv_granted:
  assumes s: "lock_inv s" and w: "sy_waiting s (p, t) = Some d" and l: "sy_locks s p = Some l"
    and g: "lock_granted t d (l, sy_file s) = Some (l1, f1)"
  shows "lock_inv ((put_lock p (note_context p l1, f1) s)\<lparr>sy_waiting := (sy_waiting s)((p, t) := None),
      sy_blocks := (sy_blocks s)((p, t) := p # sy_blocks s (p, t))\<rparr>)"
proof -
  note inv = lock_invD [OF s, rule_format]
  have own: "own s p l" "wl_depth l = 0" "wl_thread_lock l = \<lparr>rl_owner = Some t, rl_count = 1\<rparr>"
      "(p, d) \<in> set (lf_open (sy_file s))" "d < lf_next (sy_file s)" "\<And>u. u \<noteq> t \<Longrightarrow> sy_waiting s (p, u) = None"
    using waiting_alone [OF s w] l by (auto simp: own_def)
  have g': "lf_holder (sy_file s) = None" "l1 = l\<lparr>wl_handle := Some d, wl_owner := Some t, wl_depth := 1\<rparr>"
      "f1 = (sy_file s)\<lparr>lf_holder := Some d\<rparr>"
    using g own(2) by (auto simp: lock_granted_def split: if_splits)
  have free: "wl_handle l' = None" if "own s q l'" for q l'
    using inv(2) [OF that] g'(1) by (auto simp: good_def split: option.splits)
  have none: "p \<notin> set (sy_blocks s (p, u))" for u using idle_no_blocks [OF s own(1)] own_idle(2) [OF s own(1,2)] by simp
  have pid: "wl_pid l = p" using own(1) by (simp add: own_def)
  show ?thesis
  proof (rule inv_step [OF s l])
    show "yields s p f1" using free w by (auto simp: yields_def g'(3))
    show "good f1 p (note_context p l1)" using own(3-5) by (simp add: good_def g'(2,3) note_context_def)
    show "blocks_ok ((put_lock p (note_context p l1, f1) s)\<lparr>sy_blocks := (sy_blocks s)((p, t) := p # sy_blocks s (p, t))\<rparr>) (p, u) \<and>
      (\<forall>q \<in> set (((sy_blocks s)((p, t) := p # sy_blocks s (p, t))) (p, u)). q < sy_next s)" for u
    proof (cases "u = t")
      case True
      have "blocks_ok ((put_lock p (note_context p l1, f1) s)\<lparr>sy_blocks := (sy_blocks s)((p, t) := p # sy_blocks s (p, t))\<rparr>) (p, t)"
        by (rule blocks_ok_replicate [where n = 1 and rest = "sy_blocks s (p, t)"]) (use none pid in \<open>simp_all add: g'(2) note_context_def\<close>)
      then show ?thesis using True inv(1) [OF l] inv(7) by auto
    next
      case False
      then show ?thesis using none inv(7) by (auto intro!: blocks_ok_none)
    qed
    show "((sy_waiting s)((p, t) := None)) (p, u) = Some e \<Longrightarrow>
      waiting_ok (put_lock p (note_context p l1, f1) s) (p, u) e \<and> (\<forall>y. ((sy_waiting s)((p, t) := None)) y = Some e \<longrightarrow> y = (p, u))" for u e
      using own(6) by (cases "u = t") auto
  qed (use free inv(1) [OF l] in \<open>auto simp: note_context_def g'(2)\<close>)
qed

lemma inv_failed:
  assumes s: "lock_inv s" and w: "sy_waiting s (p, t) = Some d" and l: "sy_locks s p = Some l"
  shows "lock_inv ((put_lock p (lock_failed p t d (l, sy_file s)) s)\<lparr>sy_waiting := (sy_waiting s)((p, t) := None)\<rparr>)"
proof -
  note inv = lock_invD [OF s, rule_format]
  have own: "own s p l" "wl_depth l = 0" "wl_thread_lock l = \<lparr>rl_owner = Some t, rl_count = 1\<rparr>"
      "\<And>u. u \<noteq> t \<Longrightarrow> sy_waiting s (p, u) = None"
    using waiting_alone [OF s w] l by (auto simp: own_def)
  have fl: "lock_failed p t d (l, sy_file s) = (l\<lparr>wl_thread_lock := free_rlock\<rparr>, close_handle p d (sy_file s))"
    by (simp add: lock_failed_def unwind_thread_lock_def rlock_release_def own(3))
  have none: "p \<notin> set (sy_blocks s (p, u))" for u using idle_no_blocks [OF s own(1)] own_idle(2) [OF s own(1,2)] by simp
  have "lock_inv ((put_lock p (l\<lparr>wl_thread_lock := free_rlock\<rparr>, close_handle p d (sy_file s)) s)
      \<lparr>sy_waiting := (sy_waiting s)((p, t) := None), sy_blocks := sy_blocks s\<rparr>)"
  proof (rule inv_step [OF s l])
    show "blocks_ok ((put_lock p (l\<lparr>wl_thread_lock := free_rlock\<rparr>, close_handle p d (sy_file s)) s)\<lparr>sy_blocks := sy_blocks s\<rparr>) (p, u) \<and>
      (\<forall>q \<in> set (sy_blocks s (p, u)). q < sy_next s)" for u
      using none inv(7) by (auto intro!: blocks_ok_none)
    show "((sy_waiting s)((p, t) := None)) (p, u) = Some e \<Longrightarrow>
      waiting_ok (put_lock p (l\<lparr>wl_thread_lock := free_rlock\<rparr>, close_handle p d (sy_file s)) s) (p, u) e \<and>
      (\<forall>y. ((sy_waiting s)((p, t) := None)) y = Some e \<longrightarrow> y = (p, u))" for u e
      using own(4) by (cases "u = t") auto
  qed (use own(2) own_idle [OF s own(1,2)] inv(1) [OF l] in \<open>auto simp: good_def intro!: yields_harmless\<close>)
  then show ?thesis by (simp add: fl)
qed

lemma inv_again:
  assumes s: "lock_inv s" and l: "own s p l" "0 < wl_depth l" "wl_owner l = Some t" "rlock_acquire t (wl_thread_lock l) = Some r"
  shows "lock_inv ((put_lock p (note_context p (l\<lparr>wl_thread_lock := r, wl_depth := wl_depth l + 1\<rparr>), sy_file s) s)
    \<lparr>sy_blocks := (sy_blocks s)((p, t) := p # sy_blocks s (p, t))\<rparr>)"
proof -
  let ?l = "note_context p (l\<lparr>wl_thread_lock := r, wl_depth := wl_depth l + 1\<rparr>)"
  let ?b = "(sy_blocks s)((p, t) := p # sy_blocks s (p, t))"
  note inv = lock_invD [OF s, rule_format] and w = busy_no_wait [OF s l(1,2)]
  have p: "sy_locks s p = Some l" "wl_pid l = p" using l(1) by (simp_all add: own_def)
  obtain d where d: "wl_handle l = Some d" "wl_thread_lock l = \<lparr>rl_owner = Some t, rl_count = wl_depth l\<rparr>"
      "lf_holder (sy_file s) = Some d" "(p, d) \<in> set (lf_open (sy_file s))" "d < lf_next (sy_file s)"
    by (rule own_busy [OF s l(1,2)]) (use l(3) in auto)
  have r: "r = \<lparr>rl_owner = Some t, rl_count = wl_depth l + 1\<rparr>" using l(4) by (simp add: rlock_acquire_def d(2))
  have "lock_inv ((put_lock p (?l, sy_file s) s)\<lparr>sy_waiting := sy_waiting s, sy_blocks := ?b\<rparr>)"
  proof (rule inv_step [OF s p(1)])
    show "good (sy_file s) p ?l" using d l(3) by (simp add: good_def note_context_def r)
    show "wl_handle ?l = None \<or> wl_handle l' = None" if "q \<noteq> p" "own s q l'" for q l'
      using inv(3) [OF l(1) that(2)] that(1) d(1) by (auto simp: note_context_def)
    show "blocks_ok ((put_lock p (?l, sy_file s) s)\<lparr>sy_blocks := ?b\<rparr>) (p, u) \<and> (\<forall>q \<in> set (?b (p, u)). q < sy_next s)" for u
    proof (cases "u = t")
      case True
      obtain n rest where n: "sy_blocks s (p, t) = replicate n p @ rest" "p \<notin> set rest" "0 < n \<Longrightarrow> n \<le> wl_depth l"
        by (rule own_blocks [OF s l(1), of t]) blast
      have "blocks_ok ((put_lock p (?l, sy_file s) s)\<lparr>sy_blocks := ?b\<rparr>) (p, t)"
        by (rule blocks_ok_replicate [where n = "Suc n" and rest = rest])
          (use n p(2) l(3) in \<open>auto simp: note_context_def\<close>)
      then show ?thesis using True inv(1) [OF p(1)] inv(7) by auto
    next
      case False
      then have "p \<notin> set (sy_blocks s (p, u))" using idle_no_blocks [OF s l(1)] l(3) by simp
      then show ?thesis using False inv(7) by (auto intro!: blocks_ok_none)
    qed
  qed (use inv(1) [OF p(1)] w in \<open>auto simp: note_context_def intro!: yields_harmless\<close>)
  then show ?thesis by simp
qed

subsection \<open>Leaving a block\<close>

lemma own_context [simp]: "good f p (l\<lparr>wl_context_pids := x\<rparr>) = good f p l"
  by (simp add: good_def split: option.split)

lemma inv_context:
  assumes s: "lock_inv s" and l: "sy_locks s p = Some l"
  shows "lock_inv (put_lock p (l\<lparr>wl_context_pids := x\<rparr>, sy_file s) s)"
proof -
  let ?l = "l\<lparr>wl_context_pids := x\<rparr>"
  note inv = lock_invD [OF s, rule_format]
  have o: "own s p l \<longleftrightarrow> wl_pid l = p" using l by (simp add: own_def)
  have w: "waiting_ok (put_lock p (?l, sy_file s) s) (p, t) d" if "sy_waiting s (p, t) = Some d" for t d
    using inv(4) [OF that] l by (auto simp: waiting_ok_def own_def)
  have b: "blocks_ok (put_lock p (?l, sy_file s) s) (p, t)" for t
  proof (cases "own s p l")
    case True
    obtain n rest where n: "sy_blocks s (p, t) = replicate n p @ rest" "p \<notin> set rest" "0 < n \<Longrightarrow> wl_owner l = Some t \<and> n \<le> wl_depth l"
      by (rule own_blocks [OF s True, of t]) blast
    show ?thesis by (rule blocks_ok_replicate [OF _ n(2)]) (use n True in \<open>auto simp: own_def\<close>)
  next
    case False
    then show ?thesis using no_blocks [OF s False l] by (auto intro!: blocks_ok_none)
  qed
  have "lock_inv ((put_lock p (?l, sy_file s) s)\<lparr>sy_waiting := sy_waiting s, sy_blocks := sy_blocks s\<rparr>)"
  proof (rule inv_step [OF s l])
    show "blocks_ok ((put_lock p (?l, sy_file s) s)\<lparr>sy_blocks := sy_blocks s\<rparr>) (p, t) \<and> (\<forall>q \<in> set (sy_blocks s (p, t)). q < sy_next s)" for t
      using b inv(7) by simp
    show "sy_waiting s (p, t) = Some d \<Longrightarrow> waiting_ok (put_lock p (?l, sy_file s) s) (p, t) d \<and> (\<forall>y. sy_waiting s y = Some d \<longrightarrow> y = (p, t))" for t d
      using w inv(5) by blast
    show "wl_handle ?l = None \<or> wl_handle l' = None" if "wl_pid ?l = p" "q \<noteq> p" "own s q l'" for q l'
      using that inv(3) [of p l q l'] o by auto
    show "wl_thread_lock ?l = free_rlock" if "wl_pid ?l = p" "wl_depth ?l = 0" "\<forall>t. sy_waiting s (p, t) = None"
      using that inv(9) [of p l] o by auto
  qed (use inv(1) [OF l] inv(2) [of p l] o in \<open>auto intro!: yields_harmless\<close>)
  then show ?thesis by simp
qed

lemma inv_pop:
  assumes s: "lock_inv s" and b: "sy_blocks s (p, t) = c # bs"
  shows "lock_inv (s\<lparr>sy_blocks := (sy_blocks s)((p, t) := bs)\<rparr>)" (is "lock_inv ?s'")
proof -
  note inv = lock_invD [OF s]
  have ok: "blocks_ok ?s' x" for x
  proof (cases "x = (p, t)")
    case True
    have "blocks_ok s (p, t)" using inv(6) by blast
    then obtain n rest where n: "c # bs = replicate n p @ rest" "p \<notin> set rest"
        "0 < n \<longrightarrow> (\<exists>l. own s p l \<and> wl_owner l = Some t \<and> n \<le> wl_depth l)"
      unfolding blocks_ok_def fst_conv snd_conv b by blast
    show ?thesis
    proof (cases n)
      case 0
      then show ?thesis using n True by (auto intro!: blocks_ok_none)
    next
      case (Suc m)
      then have "bs = replicate m p @ rest" using n(1) by simp
      then show ?thesis unfolding True
        by (intro blocks_ok_replicate [OF _ n(2), of _ _ m]) (use n(3) Suc in auto)
    qed
  next
    case False
    then have "sy_blocks ?s' x = sy_blocks s x" by simp
    then show ?thesis using inv(6) unfolding blocks_ok_def own_parts by presburger
  qed
  have "waiting_ok ?s' = waiting_ok s" by (auto simp: waiting_ok_def [abs_def])
  moreover have "\<forall>q \<in> set (sy_blocks ?s' x). q < sy_next s" for x
  proof (cases "x = (p, t)")
    case True
    then show ?thesis using inv(7) b by (simp, metis list.set_intros(2))
  next
    case False
    then have "sy_blocks ?s' x = sy_blocks s x" by simp
    then show ?thesis using inv(7) by metis
  qed
  ultimately show ?thesis
    using inv ok unfolding lock_inv_def by simp
qed

lemma inv_released:
  assumes s: "lock_inv s" and l: "own s p l" "wl_handle l = Some d" "wl_owner l = Some t" "wl_depth l \<noteq> 0"
    and b: "sy_blocks s (p, t) = c # bs" and rel: "release p t (Some p) (l, sy_file s) = (r, lf)"
  shows "lock_inv ((put_lock p lf s)\<lparr>sy_blocks := (sy_blocks s)((p, t) := bs)\<rparr>)"
proof -
  let ?b = "(sy_blocks s)((p, t) := bs)"
  note inv = lock_invD [OF s, rule_format]
  have p: "sy_locks s p = Some l" "wl_pid l = p" using l(1) by (simp_all add: own_def)
  have dep: "0 < wl_depth l" using l(4) by simp
  note w = busy_no_wait [OF s l(1) dep]
  obtain lk: "wl_thread_lock l = \<lparr>rl_owner = Some t, rl_count = wl_depth l\<rparr>" "lf_holder (sy_file s) = Some d"
      "(p, d) \<in> set (lf_open (sy_file s))" "d < lf_next (sy_file s)"
    by (rule own_busy [OF s l(1) dep]) (use l(2,3) in auto)
  have alone: "wl_handle l' = None" if "q \<noteq> p" "own s q l'" for q l'
    using inv(3) [OF l(1) that(2)] that(1) l(2) by auto
  obtain n rest where n: "bs = replicate n p @ rest" "p \<notin> set rest" "n < wl_depth l"
  proof -
    obtain m rest where m: "c # bs = replicate m p @ rest" "p \<notin> set rest" "0 < m \<Longrightarrow> m \<le> wl_depth l"
      by (rule own_blocks [OF s l(1), of t]) (use b in auto)
    show ?thesis
    proof (cases m)
      case 0
      then show ?thesis using m that [of 0 bs] dep by auto
    next
      case (Suc k)
      then show ?thesis using m that [of k rest] by auto
    qed
  qed
  have others: "blocks_ok ((put_lock p X s)\<lparr>sy_blocks := ?b\<rparr>) (p, u)" if "u \<noteq> t" for u X
    using idle_no_blocks [OF s l(1), of u] l(3) that by (auto intro!: blocks_ok_none)
  have pids: "\<forall>q \<in> set (?b (p, u)). q < sy_next s" for u
    using inv(7) [of _ "(p, u)"] b by auto
  show ?thesis
  proof (cases "wl_depth l = 1")
    case True
    then have lf: "lf = (l\<lparr>wl_depth := 0, wl_thread_lock := free_rlock, wl_handle := None, wl_owner := None\<rparr>,
        close_handle p d (unlock_handle d (sy_file s)))" (is "lf = (?l, ?f)")
      using rel l p by (auto simp: release_def unwind_thread_lock_def rlock_release_def lk(1) Let_def)
    have "lock_inv ((put_lock p (?l, ?f) s)\<lparr>sy_waiting := sy_waiting s, sy_blocks := ?b\<rparr>)"
    proof (rule inv_step [OF s p(1)])
      show "yields s p ?f"
        using alone lk(2) by (auto simp: yields_def unlock_handle_def close_handle_def drop_open_def Let_def)
      show "blocks_ok ((put_lock p (?l, ?f) s)\<lparr>sy_blocks := ?b\<rparr>) (p, u) \<and> (\<forall>q \<in> set (?b (p, u)). q < sy_next s)" for u
      proof -
        have "blocks_ok ((put_lock p (?l, ?f) s)\<lparr>sy_blocks := ?b\<rparr>) (p, t)" using n True by (auto intro!: blocks_ok_none)
        then show ?thesis using others [of u] pids [of u] by (cases "u = t") (simp_all only: simp_thms)
      qed
    qed (use inv(1) [OF p(1)] w in \<open>auto simp: good_def\<close>)
    then show ?thesis by (simp add: lf)
  next
    case False
    then have lf: "lf = (l\<lparr>wl_depth := wl_depth l - 1, wl_thread_lock := \<lparr>rl_owner = Some t, rl_count = wl_depth l - 1\<rparr>\<rparr>, sy_file s)" (is "lf = (?l, _)")
      using rel l p by (auto simp: release_def unwind_thread_lock_def rlock_release_def lk(1) Let_def)
    have "lock_inv ((put_lock p (?l, sy_file s) s)\<lparr>sy_waiting := sy_waiting s, sy_blocks := ?b\<rparr>)"
    proof (rule inv_step [OF s p(1)])
      show "blocks_ok ((put_lock p (?l, sy_file s) s)\<lparr>sy_blocks := ?b\<rparr>) (p, u) \<and> (\<forall>q \<in> set (?b (p, u)). q < sy_next s)" for u
      proof (cases "u = t")
        case True
        have "blocks_ok ((put_lock p (?l, sy_file s) s)\<lparr>sy_blocks := ?b\<rparr>) (p, t)"
          by (rule blocks_ok_replicate [OF _ n(2), of _ _ n]) (use n(1,3) p(2) l(3) in auto)
        then show ?thesis using True pids [of t] by simp
      next
        case False
        then show ?thesis using others [of u] pids [of u] by (cases "u = t") (simp_all only: simp_thms)
      qed
    qed (use inv(1) [OF p(1)] w lk l False alone in \<open>auto simp: good_def intro!: yields_harmless\<close>)
    then show ?thesis by (simp add: lf)
  qed
qed

lemma inv_leave:
  assumes s: "lock_inv s" and l: "sy_locks s p = Some l" and b: "sy_blocks s (p, t) = c # bs"
    and e: "exit_context p t (l, sy_file s) = (r, lf)"
  shows "lock_inv ((put_lock p lf s)\<lparr>sy_blocks := (sy_blocks s)((p, t) := bs)\<rparr>)"
proof (cases "wl_context_pids l = []")
  case True
  then have "put_lock p lf s = s" using e put_lock_id [OF l] by (simp add: exit_context_def)
  then show ?thesis using inv_pop [OF s b] by simp
next
  case False
  let ?l = "l\<lparr>wl_context_pids := butlast (wl_context_pids l)\<rparr>"
  define s1 where "s1 = put_lock p (?l, sy_file s) s"
  have s1: "lock_inv s1" "sy_locks s1 p = Some ?l" "sy_blocks s1 = sy_blocks s" "sy_file s1 = sy_file s"
    using inv_context [OF s l] by (simp_all add: s1_def)
  have put: "put_lock p x s1 = put_lock p x s" for x by (simp add: s1_def)
  have b1: "sy_blocks s1 (p, t) = c # bs" using b s1(3) by simp
  have rel: "release p t (Some (List.last (wl_context_pids l))) (?l, sy_file s1) = (r, lf)"
    using e False s1(4) by (simp add: exit_context_def)
  have unchanged: ?thesis if "lf = (?l, sy_file s)"
    using inv_pop [OF s1(1) b1] s1(3) that by (simp add: s1_def)
  show ?thesis
  proof (cases "wl_pid l = p \<and> List.last (wl_context_pids l) = p")
    case False
    then have "lf = reset_after_fork p (?l, sy_file s1)" using rel by (auto simp: release_def split: if_splits)
    then have "lock_inv (put_lock p lf s1)" using inv_reset [OF s1(1,2)] by simp
    from inv_pop [OF this] b1 show ?thesis using s1(3) by (simp add: put)
  next
    case True
    then have o: "own s1 p ?l" using s1(2) by (simp add: own_def)
    show ?thesis
    proof (cases "\<exists>d. wl_handle ?l = Some d \<and> wl_owner ?l = Some t \<and> wl_depth ?l \<noteq> 0")
      case True
      then obtain d where d: "wl_handle ?l = Some d" "wl_owner ?l = Some t" "wl_depth ?l \<noteq> 0" by blast
      have "release p t (Some p) (?l, sy_file s1) = (r, lf)" using rel \<open>wl_pid l = p \<and> _\<close> by simp
      from inv_released [OF s1(1) o d b1 this] show ?thesis using s1(3) by (simp add: put)
    next
      case False
      then have "lf = (?l, sy_file s)" using rel True s1(4) by (auto simp: release_def split: option.splits)
      then show ?thesis by (rule unchanged)
    qed
  qed
qed

subsection \<open>Processes come and go\<close>

lemma next_unused:
  assumes "lock_inv s"
  shows "sy_locks s (sy_next s) = None" "sy_waiting s (sy_next s, t) = None"
proof -
  show n: "sy_locks s (sy_next s) = None"
    using lock_invD(1) [OF assms] by (metis nat_less_le not_None_eq)
  show "sy_waiting s (sy_next s, t) = None"
  proof (rule ccontr)
    assume "sy_waiting s (sy_next s, t) \<noteq> None"
    then obtain d where "waiting_ok s (sy_next s, t) d" using lock_invD(4) [OF assms] by blast
    then show False using n by (auto simp: waiting_ok_def own_def)
  qed
qed

text \<open>A new process, started or forked, whose blocks were entered by others.\<close>

lemma inv_new:
  assumes s: "lock_inv s" and l: "wl_pid l \<le> sy_next s" "wl_pid l = sy_next s \<Longrightarrow> l = new_writer_lock (sy_next s)"
    and f: "lf_holder f = lf_holder (sy_file s)" "lf_next f = lf_next (sy_file s)" "set (lf_open (sy_file s)) \<subseteq> set (lf_open f)"
    and b: "\<And>x. fst x \<noteq> sy_next s \<Longrightarrow> b x = sy_blocks s x" "\<And>t. \<forall>q \<in> set (b (sy_next s, t)). q < sy_next s"
  shows "lock_inv (s\<lparr>sy_locks := (sy_locks s)(sy_next s := Some l), sy_file := f, sy_blocks := b, sy_next := sy_next s + 1\<rparr>)"
    (is "lock_inv ?s'")
proof -
  note inv = lock_invD [OF s, rule_format]
  let ?c = "sy_next s"
  have own: "own ?s' q l' \<longleftrightarrow> own s q l' \<or> (q = ?c \<and> l' = l \<and> wl_pid l = ?c)" for q l'
    using next_unused(1) [OF s] by (auto simp: own_def)
  have fresh: "wl_handle l' = None \<and> good f q l' \<and> wl_thread_lock l' = free_rlock" if "q = ?c \<and> l' = l \<and> wl_pid l = ?c" for q l'
    using that l(2) by (simp add: new_writer_lock_def good_def)
  have g: "good f q l'" if "own s q l'" for q l'
    using inv(2) [OF that] f by (auto simp: good_def split: option.splits)
  have w: "waiting_ok ?s' x d" if "sy_waiting s x = Some d" for x d
    using inv(4) [OF that] f own by (auto simp: waiting_ok_def)
  have bl: "blocks_ok ?s' x \<and> (\<forall>q \<in> set (b x). q < ?c + 1)" for x
  proof (cases "fst x = ?c")
    case True
    then have x: "x = (?c, snd x)" by (metis prod.collapse)
    have "?c \<notin> set (sy_blocks ?s' (?c, snd x))" using b(2) [of "snd x"] by auto
    then show ?thesis using b(2) [of "snd x"] x blocks_ok_none by (metis less_SucI Suc_eq_plus1)
  next
    case False
    then have "sy_blocks ?s' x = sy_blocks s x" "b x = sy_blocks s x" using b(1) by simp_all
    then show ?thesis using inv(6) [of x] inv(7) [of _ x] own unfolding blocks_ok_def by (metis less_SucI Suc_eq_plus1)
  qed
  have p: "q < ?c + 1 \<and> wl_pid l' < ?c + 1" if "((sy_locks s)(?c := Some l)) q = Some l'" for q l'
    using that inv(1) [of q l'] l(1) by (auto split: if_splits)
  have rec: "sy_locks ?s' = (sy_locks s)(?c := Some l)" "sy_file ?s' = f" "sy_waiting ?s' = sy_waiting s" "sy_blocks ?s' = b" "sy_next ?s' = ?c + 1"
    by simp_all
  show ?thesis
  proof (rule lock_invI; (unfold rec own)?)
    show "own s q l1 \<or> (q = ?c \<and> l1 = l \<and> wl_pid l = ?c) \<Longrightarrow> own s q' l2 \<or> (q' = ?c \<and> l2 = l \<and> wl_pid l = ?c) \<Longrightarrow> q \<noteq> q' \<Longrightarrow>
        wl_handle l1 = None \<or> wl_handle l2 = None" for q l1 q' l2
      using inv(3) fresh by metis
    show "own s q l' \<or> (q = ?c \<and> l' = l \<and> wl_pid l = ?c) \<Longrightarrow> wl_depth l' = 0 \<Longrightarrow> (\<And>t. sy_waiting s (q, t) = None) \<Longrightarrow>
        wl_thread_lock l' = free_rlock" for q l'
      using inv(9) fresh by metis
    show "lf_holder f = Some d \<Longrightarrow> d < lf_next f" for d using inv(8) f by simp
  qed (use p in metis, use g fresh in metis, use w in metis, use inv(5) in metis, use bl in metis, use bl in metis)
qed

lemma inv_kill:
  assumes s: "lock_inv s"
  shows "lock_inv (kill_process p s)" (is "lock_inv ?s'")
proof -
  note inv = lock_invD [OF s, rule_format]
  let ?f = "drop_open (\<lambda>x. fst x = p) (sy_file s)"
  have h: "harmless p (sy_file s) ?f" by (simp add: harmless_def drop_open_def Let_def split: option.split) force
  have own: "own ?s' q l \<longleftrightarrow> q \<noteq> p \<and> own s q l" for q l by (auto simp: own_def kill_process_def)
  have w: "waiting_ok ?s' x d" if "sy_waiting s x = Some d" "fst x \<noteq> p" for x d
    using yields_waiting [OF s yields_harmless [OF h], of "fst x" "snd x" d] that own
    by (auto simp: waiting_ok_def kill_process_def)
  have bl: "blocks_ok ?s' x \<and> (\<forall>q \<in> set (sy_blocks ?s' x). q < sy_next s)" for x
  proof (cases "fst x = p")
    case True
    then show ?thesis by (simp add: blocks_ok_def kill_process_def)
  next
    case False
    then have "sy_blocks ?s' x = sy_blocks s x" by (simp add: kill_process_def)
    then show ?thesis using inv(6) [of x] inv(7) [of _ x] own False unfolding blocks_ok_def by metis
  qed
  have rec: "sy_locks ?s' = (sy_locks s)(p := None)" "sy_file ?s' = ?f" "sy_next ?s' = sy_next s"
    "\<And>x. sy_waiting ?s' x = (if fst x = p then None else sy_waiting s x)"
    by (simp_all add: kill_process_def)
  have "good ?f q l" if "q \<noteq> p \<and> own s q l" for q l
    using harmless_good [OF h] inv(2) that by blast
  moreover have "d < lf_next ?f" if "lf_holder ?f = Some d" for d
    by (rule yields_holder [OF s yields_harmless [OF h] that])
  moreover have "q < sy_next s \<and> wl_pid l < sy_next s" if "((sy_locks s)(p := None)) q = Some l" for q l
    using that inv(1) by (auto split: if_splits)
  ultimately show ?thesis
  proof (intro lock_invI; (unfold rec own)?)
    show "q \<noteq> p \<and> own s q l1 \<Longrightarrow> q' \<noteq> p \<and> own s q' l2 \<Longrightarrow> q \<noteq> q' \<Longrightarrow> wl_handle l1 = None \<or> wl_handle l2 = None" for q l1 q' l2
      using inv(3) by metis
    show "q \<noteq> p \<and> own s q l \<Longrightarrow> wl_depth l = 0 \<Longrightarrow> (\<And>t. (if fst (q, t) = p then None else sy_waiting s (q, t)) = None) \<Longrightarrow>
        wl_thread_lock l = free_rlock" for q l
      using inv(9) [of q l] by simp
    show "(if fst x = p then None else sy_waiting s x) = Some d \<Longrightarrow> (if fst y = p then None else sy_waiting s y) = Some d \<Longrightarrow> y = x" for x y d
      using inv(5) [of x d y] by (simp split: if_splits)
    show "(if fst x = p then None else sy_waiting s x) = Some d \<Longrightarrow> waiting_ok ?s' x d" for x d
      using w [of x d] by (simp split: if_splits)
  qed (use bl in metis)+
qed

lemma inv_steps: "lock_step s s' \<Longrightarrow> lock_inv s \<Longrightarrow> lock_inv s'"
proof (induction rule: lock_step.induct)
  case (start_process s)
  have "lock_inv (s\<lparr>sy_locks := (sy_locks s)(sy_next s := Some (new_writer_lock (sy_next s))), sy_file := sy_file s,
      sy_blocks := sy_blocks s, sy_next := sy_next s + 1\<rparr>)"
    by (rule inv_new [OF start_process]) (use lock_invD(7) [OF start_process] in \<open>simp_all add: new_writer_lock_def\<close>)
  then show ?case by simp
next
  case (enter_waits s p l t d lf)
  obtain l0 f0 where r: "reset_after_fork p (l, sy_file s) = (l0, f0)" by fastforce
  note i = inv_reset [OF enter_waits(4,1), unfolded r]
  obtain r0 where a: "rlock_acquire t (wl_thread_lock l0) = Some r0" "wl_depth l0 = 0"
      "d = lf_next f0" "lf = (l0\<lparr>wl_thread_lock := r0\<rparr>, snd (open_handle p f0))"
    using enter_waits(3) by (auto simp: start_acquire_def r open_handle_def split: option.splits if_splits)
  have o: "own (put_lock p (l0, f0) s) p l0" using r by (auto simp: reset_after_fork_def new_writer_lock_def split: if_splits)
  from inv_wait [OF i o a(2,1)] enter_waits(2) show ?case by (simp add: a(3,4))
next
  case (enter_again s p l t l1 f1)
  obtain l0 f0 where r: "reset_after_fork p (l, sy_file s) = (l0, f0)" by fastforce
  note i = inv_reset [OF enter_again(4,1), unfolded r]
  obtain r0 where a: "rlock_acquire t (wl_thread_lock l0) = Some r0" "0 < wl_depth l0" "wl_owner l0 = Some t"
      "l1 = l0\<lparr>wl_thread_lock := r0, wl_depth := wl_depth l0 + 1\<rparr>" "f1 = f0"
    using enter_again(3) by (auto simp: start_acquire_def r split: option.splits if_splits prod.splits)
  have o: "own (put_lock p (l0, f0) s) p l0" using r by (auto simp: reset_after_fork_def new_writer_lock_def split: if_splits)
  from inv_again [OF i o a(2,3,1)] show ?case by (simp add: a(4,5))
next
  case (enter_fails s p l t a lf)
  obtain l0 f0 where r: "reset_after_fork p (l, sy_file s) = (l0, f0)" by fastforce
  have "lf = (l0, f0)"
    using enter_fails(3,4) by (auto simp: start_acquire_def r split: option.splits if_splits prod.splits)
  then show ?case using inv_reset [OF enter_fails(5,1)] by (simp add: r)
next
  case (granted s p l t d l1 f1)
  then show ?case by (intro inv_granted)
next
  case (failed s p l t d)
  then show ?case by (intro inv_failed)
next
  case (leave s p l t b bs r lf)
  then show ?case by (intro inv_leave)
next
  case (fork s p l t)
  let ?c = "sy_next s" and ?f = "sy_file s"
  have "wl_pid l < ?c" using lock_invD(1) [OF fork(3)] fork(1) by blast
  then show ?case
    unfolding fork_process_def Let_def
    by (intro inv_new [OF fork(3)]) (use lock_invD(7) [OF fork(3)] in auto)
next
  case (kill s p)
  then show ?case by (rule inv_kill)
qed

lemma inv_initial: "lock_inv no_processes"
  by (rule lock_invI) (auto simp: no_processes_def own_def blocks_ok_def)

lemma inv_reachable: "lock_step\<^sup>*\<^sup>* no_processes s \<Longrightarrow> lock_inv s"
  by (induction rule: rtranclp_induct) (auto simp: inv_initial inv_steps)

lemma own_block_holds:
  assumes s: "lock_inv s" and b: "p \<in> set (sy_blocks s (p, t))"
  shows "\<exists>l d. own s p l \<and> wl_owner l = Some t \<and> wl_handle l = Some d \<and> lf_holder (sy_file s) = Some d"
proof -
  have "blocks_ok s (p, t)" using lock_invD(6) [OF s] by blast
  then obtain n rest where n: "sy_blocks s (p, t) = replicate n p @ rest" "p \<notin> set rest"
      "0 < n \<longrightarrow> (\<exists>l. own s p l \<and> wl_owner l = Some t \<and> n \<le> wl_depth l)"
    unfolding blocks_ok_def fst_conv snd_conv by blast
  then have "0 < n" using b by (cases n) auto
  then obtain l where l: "own s p l" "wl_owner l = Some t" "0 < wl_depth l" using n(3) by auto
  then show ?thesis using own_busy [OF s l(1,3)] by metis
qed

subsection \<open>Mutual exclusion\<close>

text \<open>
  C10. The writer lock excludes across threads, processes, forks and process deaths. In every reachable
  state a thread inside a block it entered itself (not one it inherited by being forked inside it)
  owns its process's lock object, whose handle holds the file lock, and no other thread of any
  process is inside such a block.
\<close>

theorem writer_lock_excludes:
  assumes "lock_step\<^sup>*\<^sup>* no_processes s" "p \<in> set (sy_blocks s (p, t))"
  shows "(\<exists>l d. sy_locks s p = Some l \<and> wl_owner l = Some t \<and> wl_handle l = Some d \<and> lf_holder (sy_file s) = Some d) \<and>
    (\<forall>q u. q \<in> set (sy_blocks s (q, u)) \<longrightarrow> q = p \<and> u = t)"
proof -
  have s: "lock_inv s" by (rule inv_reachable [OF assms(1)])
  obtain l d where l: "own s p l" "wl_owner l = Some t" "wl_handle l = Some d" "lf_holder (sy_file s) = Some d"
    using own_block_holds [OF s assms(2)] by blast
  have "q = p \<and> u = t" if q: "q \<in> set (sy_blocks s (q, u))" for q u
  proof -
    obtain l' d' where l': "own s q l'" "wl_owner l' = Some u" "wl_handle l' = Some d'"
      using own_block_holds [OF s q] by blast
    have "q = p" using lock_invD(3) [OF s, rule_format, OF l(1) l'(1)] l(3) l'(3) by auto
    then show ?thesis using own_unique [OF l(1)] l'(1,2) l(2) by auto
  qed
  then show ?thesis using l by (auto simp: own_def)
qed

subsection \<open>Instances\<close>

definition demo_running :: "pid \<Rightarrow> system" where
  "demo_running n = no_processes\<lparr>sy_locks := (\<lambda>p. if p < n then Some (new_writer_lock p) else None), sy_next := n\<rparr>"

lemma demo_two_run: "lock_step\<^sup>*\<^sup>* no_processes (demo_running 2)"
proof -
  have step: "lock_step (demo_running n) (demo_running (Suc n))" for n
  proof -
    have "(\<lambda>p. if p < n then Some (new_writer_lock p) else None)(n := Some (new_writer_lock n)) =
        (\<lambda>p. if p < Suc n then Some (new_writer_lock p) else None)"
      by (rule ext) (simp add: less_Suc_eq)
    then show ?thesis using start_process [of "demo_running n"] by (simp add: demo_running_def no_processes_def)
  qed
  have "no_processes = demo_running 0" by (simp add: demo_running_def no_processes_def)
  then show ?thesis using step [of 0] step [of 1] by (auto simp: numeral_2_eq_2)
qed

text \<open>Process 0 enters, forks the child 2 inside the block, and the child leaves the inherited block.\<close>

definition demo_entered :: system where
  "demo_entered =
     (let s = demo_running 2; f = \<lparr>lf_holder = Some 0, lf_open = [(0, 0)], lf_next = 1\<rparr>;
          l = \<lparr>wl_thread_lock = \<lparr>rl_owner = Some 5, rl_count = 1\<rparr>, wl_depth = 1, wl_owner = Some 5, wl_handle = Some 0, wl_pid = 0,
               wl_context_pids = [0]\<rparr>
      in (put_lock 0 (l, f) s)\<lparr>sy_blocks := (sy_blocks s)((0, 5) := [0])\<rparr>)"

lemma demo_enters: "lock_step\<^sup>*\<^sup>* (demo_running 2) demo_entered"
proof -
  let ?s = "demo_running 2"
  have w: "start_acquire 0 5 (new_writer_lock 0, sy_file ?s) =
      (MustWait 0, (new_writer_lock 0)\<lparr>wl_thread_lock := \<lparr>rl_owner = Some 5, rl_count = 1\<rparr>\<rparr>, \<lparr>lf_holder = None, lf_open = [(0, 0)], lf_next = 1\<rparr>)"
    by (simp add: start_acquire_def reset_after_fork_def new_writer_lock_def rlock_acquire_def free_rlock_def open_handle_def
        demo_running_def no_processes_def)
  have "lock_step ?s ((put_lock 0 ((new_writer_lock 0)\<lparr>wl_thread_lock := \<lparr>rl_owner = Some 5, rl_count = 1\<rparr>\<rparr>,
      \<lparr>lf_holder = None, lf_open = [(0, 0)], lf_next = 1\<rparr>) ?s)\<lparr>sy_waiting := (sy_waiting ?s)((0, 5) := Some 0)\<rparr>)" (is "lock_step _ ?s1")
    by (rule enter_waits [OF _ _ w]) (simp_all add: demo_running_def no_processes_def)
  moreover have "lock_step ?s1 demo_entered"
    using granted [of ?s1 0 "(new_writer_lock 0)\<lparr>wl_thread_lock := \<lparr>rl_owner = Some 5, rl_count = 1\<rparr>\<rparr>" 5 0]
    by (simp add: lock_granted_def demo_entered_def put_lock_def note_context_def new_writer_lock_def Let_def demo_running_def
        no_processes_def fun_upd_def cong: if_cong)
  ultimately show ?thesis by auto
qed

theorem writer_lock_excludes_witness:
  "lf_holder (sy_file demo_entered) \<noteq> None \<and> 1 \<notin> set (sy_blocks demo_entered (1, 7))"
proof -
  have "lock_step\<^sup>*\<^sup>* no_processes demo_entered" using demo_two_run demo_enters by simp
  moreover have "0 \<in> set (sy_blocks demo_entered (0, 5))" by (simp add: demo_entered_def Let_def)
  ultimately show ?thesis using writer_lock_excludes [of demo_entered 0 5] by auto
qed

text \<open>
  The context stack belongs to the lock object, not to a thread: a thread that leaves a block it
  inherited takes the entry of another thread of the child, which then leaves without unlocking.
\<close>

lemma inherited_exit_takes_context:
  "let l = \<lparr>wl_thread_lock = \<lparr>rl_owner = Some 7, rl_count = 1\<rparr>, wl_depth = 1, wl_owner = Some 7, wl_handle = Some 1, wl_pid = 2,
        wl_context_pids = [0, 2]\<rparr>; f = \<lparr>lf_holder = Some 1, lf_open = [(2, 1)], lf_next = 2\<rparr>;
      (r1, x1) = exit_context 2 5 (l, f); (r2, l2, f2) = exit_context 2 7 x1
   in r1 = RaisedError \<and> r2 = Returned \<and> lf_holder f2 = Some 1 \<and> wl_depth l2 = 1"
  by code_simp

end
