(* ===== verification/IndexJobs.thy ===== *)
theory IndexJobs
  imports Prelude
begin

text \<open>
  The background job state of \<open>search/index_jobs.py\<close>, with the updates the server's
  \<open>index_directory\<close> thread makes of it (\<open>mcp_server/code_search_server.py\<close>).

  A job is a dictionary, and its readers index it (\<open>job["total"]\<close>), so an absent key or a value of
  another type is an error: \<open>Inl\<close>. The values that are not JSON (the captured identity, the path of
  the info file) are opaque and stored as \<open>JNull\<close>; the rounded percentage of a progress response
  is given as numerator and denominator. Every method body runs under the lock, so it is one step.
\<close>

type_synonym job = "(string, json) dict"

datatype job_error = KeyMissing string | WrongType string

definition terminal_statuses :: "json list" where
  "terminal_statuses = [JStr ''completed'', JStr ''failed'', JStr ''cancelled'']"

definition job_get :: "job \<Rightarrow> string \<Rightarrow> json \<Rightarrow> json" where
  "job_get j k v = dict_get_or j k v"

definition job_index :: "job \<Rightarrow> string \<Rightarrow> job_error + json" where
  "job_index j k = (case dict_get j k of None \<Rightarrow> Inl (KeyMissing k) | Some v \<Rightarrow> Inr v)"

definition job_int :: "job \<Rightarrow> string \<Rightarrow> job_error + int" where
  "job_int j k = bindr (job_index j k) (\<lambda>v. case v of
     JInt i \<Rightarrow> Inr i | JBool b \<Rightarrow> Inr (of_bool b) | _ \<Rightarrow> Inl (WrongType k))"

definition json_text :: "json \<Rightarrow> string" where
  "json_text v = (case v of JStr s \<Rightarrow> s | _ \<Rightarrow> [])"

subsection \<open>The foreground job\<close>

type_synonym job_state = "job option"

definition snapshot :: "job_state \<Rightarrow> job_state" where
  "snapshot st = st"

definition put_fields :: "(string \<times> json) list \<Rightarrow> job \<Rightarrow> job" where
  "put_fields updates j = fold (\<lambda>(k, v). dict_put k v) updates j"

definition owns_job :: "string \<Rightarrow> job \<Rightarrow> bool" where
  "owns_job job_id j \<longleftrightarrow> j \<noteq> [] \<and> job_get j ''job_id'' JNull = JStr job_id"

definition update :: "string \<Rightarrow> (string \<times> json) list \<Rightarrow> job_state \<Rightarrow> bool \<times> job_state" where
  "update job_id updates st = (case st of
     None \<Rightarrow> (False, st)
   | Some j \<Rightarrow> if owns_job job_id j then (True, Some (put_fields updates j)) else (False, st))"

definition is_active :: "job_state \<Rightarrow> bool" where
  "is_active st = (case st of None \<Rightarrow> False | Some j \<Rightarrow> j \<noteq> [] \<and> job_get j ''status'' JNull = JStr ''indexing'')"

definition request_cancel :: "job_state \<Rightarrow> (job_error + json option) \<times> job_state" where
  "request_cancel st = (case st of
     None \<Rightarrow> (Inr None, st)
   | Some j \<Rightarrow>
       if \<not> is_active st then (Inr None, st)
       else let j1 = dict_put ''cancel_requested'' (JBool True) j
            in (bindr (job_index j1 ''job_id'') (\<lambda>v. Inr (Some v)), Some j1))"

definition cancel_requested :: "string \<Rightarrow> job_state \<Rightarrow> bool" where
  "cancel_requested job_id st = (case st of
     None \<Rightarrow> False | Some j \<Rightarrow> owns_job job_id j \<and> json_truthy (job_get j ''cancel_requested'' JNull))"

text \<open>The progress callback: whether it raises \<open>InterruptedError\<close>, and the new state.\<close>

definition progress :: "string \<Rightarrow> string \<Rightarrow> int \<Rightarrow> int \<Rightarrow> job_state \<Rightarrow> bool \<times> job_state" where
  "progress job_id phase current all st = (case st of
     None \<Rightarrow> (False, st)
   | Some j \<Rightarrow>
       if \<not> owns_job job_id j then (False, st)
       else let j1 = put_fields [(''phase'', JStr phase), (''current'', JInt current), (''total'', JInt all)] j
            in (json_truthy (job_get j1 ''cancel_requested'' JNull), Some j1))"

subsection \<open>Responses\<close>

text \<open>\<open>strip().lower()\<close> of a provider; blanks count as no provider.\<close>

definition provider_of :: "json \<Rightarrow> string option" where
  "provider_of v = (case v of JStr s \<Rightarrow> if strip_by py_space s = [] then None else Some (lower (strip_by py_space s)) | _ \<Rightarrow> None)"

definition opt_json :: "string option \<Rightarrow> json" where
  "opt_json p = (case p of None \<Rightarrow> JNull | Some s \<Rightarrow> JStr s)"

text \<open>
  \<open>resolve\<close> is \<open>str(Path(p).resolve())\<close>, \<open>plan\<close> the resolved \<open>plan_storage_target\<close>, \<open>name_of\<close> is
  \<open>Path(p).name\<close>; the text of the message is left out.
\<close>

definition active_conflict_response ::
    "(string \<Rightarrow> string) \<Rightarrow> (string \<Rightarrow> string option \<Rightarrow> string) \<Rightarrow> (string \<Rightarrow> string) \<Rightarrow> string \<Rightarrow> string option \<Rightarrow>
     job_state \<Rightarrow> job_error + job option" where
  "active_conflict_response resolve plan name_of directory_path provider st = (case st of
     None \<Rightarrow> Inr None
   | Some j \<Rightarrow>
       if j = [] then Inr None
       else bindr (job_index j ''status'') (\<lambda>status.
         if status \<noteq> JStr ''indexing'' then Inr None
         else bindr (job_index j ''job_id'') (\<lambda>job_id.
           let requested = resolve directory_path;
               active = json_text (job_get j ''directory'' (JStr []));
               active_provider = provider_of (job_get j ''provider'' JNull);
               stored = job_get j ''storage_target'' JNull;
               active_target = (if json_truthy stored then resolve (json_text stored) else plan active active_provider);
               requested_target = plan requested provider;
               directory_conflict = requested \<noteq> active;
               provider_conflict = provider \<noteq> active_provider;
               target_conflict = requested_target \<noteq> active_target;
               stored_name = json_text (job_get j ''project_name'' (JStr []));
               active_project = (if stored_name \<noteq> [] then stored_name
                 else if name_of active \<noteq> [] then name_of active else ''unknown'')
           in Inr (Some ([(''status'', JStr ''indexing''), (''index_ready'', JBool False), (''job_id'', job_id),
                (''phase'', job_get j ''phase'' (JStr ''unknown'')), (''chunks_done'', job_get j ''current'' (JInt 0)),
                (''chunks_total'', job_get j ''total'' (JInt 0)), (''directory'', JStr active),
                (''project_name'', JStr active_project), (''provider'', opt_json active_provider),
                (''storage_target'', JStr active_target), (''requested_directory'', JStr requested),
                (''requested_provider'', opt_json provider), (''requested_storage_target'', JStr requested_target),
                (''indexing_conflict'', JBool (directory_conflict \<or> provider_conflict \<or> target_conflict))] @
              (if directory_conflict then [(''conflict_reason'', JStr ''different_project_indexing'')]
               else if provider_conflict then [(''conflict_reason'', JStr ''different_provider_indexing'')]
               else if target_conflict then [(''conflict_reason'', JStr ''different_storage_target_indexing'')]
               else []))))))"

definition idle_response :: "bool \<Rightarrow> job" where
  "idle_response background_active =
     [(''status'', JStr (if background_active then ''background_reindex_active'' else ''idle'')), (''index_ready'', JBool False),
      (''background_reindex_active'', JBool background_active)]"

definition progress_fields :: "job \<Rightarrow> job_error + job \<times> (int \<times> int) option" where
  "progress_fields j =
     bindr (job_int j ''total'') (\<lambda>all.
       if all \<le> 0 then Inr ([], None)
       else bindr (job_index j ''current'') (\<lambda>current. bindr (job_index j ''total'') (\<lambda>all_value.
            bindr (job_int j ''current'') (\<lambda>done.
              let phase = job_get j ''phase'' (JStr [])
              in Inr ([(''chunks_done'', current), (''chunks_total'', all_value)] @
                   (if phase \<in> {JStr ''chunking'', JStr ''removing''} then [(''unit'', JStr ''files'')]
                    else if phase \<in> {JStr ''embedding'', JStr ''saving''} then [(''unit'', JStr ''chunks'')] else []),
                   Some (100 * done, all))))))"

definition result_fields :: "job \<Rightarrow> json \<Rightarrow> job" where
  "result_fields j status =
     (let r = job_get j ''result'' JNull
      in if status \<in> set terminal_statuses \<and> json_truthy r
         then [(''result'', case r of
                JObj ob \<Rightarrow> JObj (put_fields (concat (map (\<lambda>k. case dict_get j k of None \<Rightarrow> [] | Some v \<Rightarrow> [(k, v)])
                                    [''provider'', ''storage_target''])) ob)
              | _ \<Rightarrow> r)]
         else [])"

definition progress_response :: "bool \<Rightarrow> job_state \<Rightarrow> job_error + job \<times> (int \<times> int) option" where
  "progress_response background_active st = (case snapshot st of
     None \<Rightarrow> Inr (idle_response background_active, None)
   | Some j \<Rightarrow>
       if j = [] then Inr (idle_response background_active, None)
       else bindr (job_index j ''job_id'') (\<lambda>job_id. bindr (job_index j ''status'') (\<lambda>status. bindr (job_index j ''phase'') (\<lambda>phase.
         bindr (progress_fields j) (\<lambda>(fields, percent).
           Inr ([(''job_id'', job_id), (''status'', status), (''phase'', phase), (''directory'', job_get j ''directory'' (JStr [])),
                 (''project_name'', job_get j ''project_name'' (JStr [])), (''provider'', job_get j ''provider'' JNull),
                 (''storage_target'', job_get j ''storage_target'' JNull),
                 (''background_reindex_active'', JBool background_active),
                 (''index_ready'', JBool (json_truthy (job_get j ''index_ready'' (JBool False))))] @
                fields @ result_fields j status, percent))))))"

subsection \<open>The life of a job\<close>

text \<open>The job \<open>index_directory\<close> creates, and the terminal updates of its thread.\<close>

definition new_job :: "string \<Rightarrow> string \<Rightarrow> string \<Rightarrow> string option \<Rightarrow> string \<Rightarrow> job" where
  "new_job job_id directory project_name provider storage_target =
     [(''job_id'', JStr job_id), (''status'', JStr ''indexing''), (''phase'', JStr ''preparing''), (''current'', JInt 0),
      (''total'', JInt 0), (''errors'', JArr []), (''directory'', JStr directory), (''project_name'', JStr project_name),
      (''provider'', opt_json provider), (''storage_target'', JStr storage_target), (''result'', JNull),
      (''cancel_requested'', JBool False), (''identity_start'', JNull), (''identity_start_error'', JNull),
      (''identity_info_file'', JNull), (''index_ready'', JBool False)]"

definition start_job ::
    "(string \<Rightarrow> string) \<Rightarrow> (string \<Rightarrow> string option \<Rightarrow> string) \<Rightarrow> (string \<Rightarrow> string) \<Rightarrow> string \<Rightarrow> string \<Rightarrow> string \<Rightarrow>
     string option \<Rightarrow> job_state \<Rightarrow> (job_error + job option) \<times> job_state" where
  "start_job resolve plan name_of job_id directory project_name provider st =
     (case active_conflict_response resolve plan name_of directory provider st of
        Inr None \<Rightarrow> (Inr None, Some (new_job job_id directory project_name provider (plan directory provider)))
      | r \<Rightarrow> (r, st))"

definition job_terminal_state :: "bool \<Rightarrow> string \<times> string" where
  "job_terminal_state ok = (if ok then (''completed'', ''done'') else (''failed'', ''error''))"

definition finished :: "bool \<Rightarrow> bool \<Rightarrow> json \<Rightarrow> (string \<times> json) list" where
  "finished ok index_ready result =
     [(''status'', JStr (fst (job_terminal_state ok))), (''phase'', JStr (snd (job_terminal_state ok))),
      (''index_ready'', JBool index_ready), (''result'', result)]"

definition cancelled :: "json \<Rightarrow> (string \<times> json) list" where
  "cancelled result = [(''status'', JStr ''cancelled''), (''phase'', JStr ''cancelled''), (''index_ready'', JBool False), (''result'', result)]"

definition crashed :: "json \<Rightarrow> (string \<times> json) list" where
  "crashed result = [(''status'', JStr ''failed''), (''phase'', JStr ''error''), (''index_ready'', JBool False), (''result'', result)]"

definition starting :: "json \<Rightarrow> json \<Rightarrow> (string \<times> json) list" where
  "starting identity err = [(''phase'', JStr ''starting''), (''identity_start'', identity), (''identity_start_error'', err)]"

text \<open>Everything that changes the job: requests, the indexing thread of a job, and cancel requests.\<close>

datatype job_op =
    Request string string string "string option"
  | Captured string json json
  | Report string string nat nat
  | Cancel
  | Finish string bool bool json
  | Stop string json
  | Crash string json

fun apply_op :: "(string \<Rightarrow> string) \<Rightarrow> (string \<Rightarrow> string option \<Rightarrow> string) \<Rightarrow> (string \<Rightarrow> string) \<Rightarrow> job_op \<Rightarrow> job_state \<Rightarrow> job_state" where
  "apply_op resolve plan name_of (Request job_id directory project_name provider) st =
     snd (start_job resolve plan name_of job_id directory project_name provider st)"
| "apply_op resolve plan name_of (Captured job_id identity err) st = snd (update job_id (starting identity err) st)"
| "apply_op resolve plan name_of (Report job_id phase current all) st = snd (progress job_id phase (int current) (int all) st)"
| "apply_op resolve plan name_of Cancel st = snd (request_cancel st)"
| "apply_op resolve plan name_of (Finish job_id ok index_ready result) st = snd (update job_id (finished ok index_ready result) st)"
| "apply_op resolve plan name_of (Stop job_id result) st = snd (update job_id (cancelled result) st)"
| "apply_op resolve plan name_of (Crash job_id result) st = snd (update job_id (crashed result) st)"

subsection \<open>The background guard\<close>

record bg_guard =
  bg_active :: bool
  bg_started_at :: "int option"

definition new_guard :: bg_guard where
  "new_guard = \<lparr>bg_active = False, bg_started_at = None\<rparr>"

definition try_acquire :: "int \<Rightarrow> int \<Rightarrow> bg_guard \<Rightarrow> bool \<times> bg_guard" where
  "try_acquire now watchdog_seconds g =
     (let started = (case bg_started_at g of None \<Rightarrow> now | Some t \<Rightarrow> if t = 0 then now else t)
      in if bg_active g \<and> now - started \<le> watchdog_seconds then (False, g)
         else (True, \<lparr>bg_active = True, bg_started_at = Some now\<rparr>))"

definition release_guard :: "bg_guard \<Rightarrow> bg_guard" where
  "release_guard g = g\<lparr>bg_active := False, bg_started_at := None\<rparr>"

text \<open>
  The guard does not know its holder: the late \<open>release\<close> of a run the watchdog gave up on frees the
  guard of the run that replaced it, and a third run starts beside it.
\<close>

lemma late_release_frees_new_run:
  "let (a, g1) = try_acquire 10 60 new_guard; (b, g2) = try_acquire 100 60 g1; g3 = release_guard g2;
       (c, g4) = try_acquire 101 60 g3
   in a \<and> b \<and> c"
  by code_simp

end
