(* ===== verification/IndexJobs_Life.thy ===== *)
theory IndexJobs_Life
  imports IndexJobs
begin

text \<open>
  The life of the foreground job: every reachable job is well typed, so the readers of the job never
  raise, and an accepted cancel reaches the job at its next progress report.
\<close>

abbreviation run_ops :: "(string \<Rightarrow> string) \<Rightarrow> (string \<Rightarrow> string option \<Rightarrow> string) \<Rightarrow> (string \<Rightarrow> string) \<Rightarrow> job_op list \<Rightarrow> job_state \<Rightarrow> job_state" where
  "run_ops resolve plan name_of \<equiv> fold (apply_op resolve plan name_of)"

text \<open>The fields the readers use, with their types.\<close>

definition well_typed :: "job \<Rightarrow> bool" where
  "well_typed j \<longleftrightarrow> (\<exists>i s p c t. dict_get j ''job_id'' = Some (JStr i) \<and> dict_get j ''status'' = Some (JStr s) \<and>
     s \<in> {''indexing'', ''completed'', ''failed'', ''cancelled''} \<and> dict_get j ''phase'' = Some (JStr p) \<and>
     dict_get j ''current'' = Some (JInt c) \<and> dict_get j ''total'' = Some (JInt t) \<and> 0 \<le> c \<and> 0 \<le> t \<and>
     dict_get j ''cancel_requested'' \<in> {Some (JBool True), Some (JBool False)})"

lemma well_typed_put: 
  assumes "well_typed j" "k \<notin> {''job_id'', ''status'', ''phase'', ''current'', ''total'', ''cancel_requested''}"
  shows "well_typed (dict_put k v j)"
  using assms by (auto simp: well_typed_def dict_simps)

lemma well_typed_set: "well_typed j \<Longrightarrow> well_typed (dict_put ''phase'' (JStr p) j)"
  "well_typed j \<Longrightarrow> s \<in> {''indexing'', ''completed'', ''failed'', ''cancelled''} \<Longrightarrow> well_typed (dict_put ''status'' (JStr s) j)"
  "well_typed j \<Longrightarrow> well_typed (dict_put ''current'' (JInt (int c)) j)"
  "well_typed j \<Longrightarrow> well_typed (dict_put ''total'' (JInt (int c)) j)"
  "well_typed j \<Longrightarrow> well_typed (dict_put ''cancel_requested'' (JBool b) j)"
  by (auto simp: well_typed_def dict_simps)

lemma well_typed_new: "well_typed (new_job i d n p t)"
  by (simp add: well_typed_def new_job_def)

definition state_typed :: "job_state \<Rightarrow> bool" where
  "state_typed st \<longleftrightarrow> (case st of None \<Rightarrow> True | Some j \<Rightarrow> well_typed j)"

lemma apply_typed: "state_typed st \<Longrightarrow> state_typed (apply_op resolve plan name_of op st)"
  by (cases op) (auto simp: state_typed_def start_job_def update_def progress_def request_cancel_def put_fields_def starting_def
      finished_def cancelled_def crashed_def job_terminal_state_def Let_def well_typed_new
      intro!: well_typed_set intro: well_typed_put split: option.splits sum.splits if_splits)

lemma run_typed: "state_typed st \<Longrightarrow> state_typed (run_ops resolve plan name_of ops st)"
  by (induction ops arbitrary: st) (auto simp: apply_typed)

subsection \<open>The readers never raise\<close>

lemma typed_readers:
  assumes "state_typed st"
  shows "\<exists>r. progress_response bg st = Inr r"
    and "\<exists>c. active_conflict_response resolve plan name_of d pr st = Inr c \<and> (c \<noteq> None) = is_active st"
    and "\<exists>v. fst (request_cancel st) = Inr v \<and> (v \<noteq> None) = is_active st"
proof (atomize (full), cases st)
  case None
  then show "(\<exists>r. progress_response bg st = Inr r) \<and>
      (\<exists>c. active_conflict_response resolve plan name_of d pr st = Inr c \<and> (c \<noteq> None) = is_active st) \<and>
      (\<exists>v. fst (request_cancel st) = Inr v \<and> (v \<noteq> None) = is_active st)"
    by (simp add: progress_response_def snapshot_def active_conflict_response_def request_cancel_def is_active_def)
next
  case (Some j)
  then obtain i s p c t where j: "dict_get j ''job_id'' = Some (JStr i)" "dict_get j ''status'' = Some (JStr s)"
      "dict_get j ''phase'' = Some (JStr p)" "dict_get j ''current'' = Some (JInt c)" "dict_get j ''total'' = Some (JInt t)"
    using assms unfolding state_typed_def well_typed_def by auto
  have ne: "j \<noteq> []" using j(1) by auto
  have "\<exists>r. progress_fields j = Inr r"
    by (simp add: progress_fields_def job_int_def job_index_def j Let_def)
  then have "\<exists>r. progress_response bg st = Inr r"
    by (auto simp: Some progress_response_def snapshot_def ne job_index_def j)
  moreover have "\<exists>c. active_conflict_response resolve plan name_of d pr st = Inr c \<and> (c \<noteq> None) = is_active st"
    by (simp add: Some active_conflict_response_def ne job_index_def j is_active_def job_get_def dict_get_or_def Let_def)
  moreover have "\<exists>v. fst (request_cancel st) = Inr v \<and> (v \<noteq> None) = is_active st"
    by (simp add: Some request_cancel_def is_active_def ne job_get_def dict_get_or_def j job_index_def dict_simps Let_def)
  ultimately show "(\<exists>r. progress_response bg st = Inr r) \<and>
      (\<exists>c. active_conflict_response resolve plan name_of d pr st = Inr c \<and> (c \<noteq> None) = is_active st) \<and>
      (\<exists>v. fst (request_cancel st) = Inr v \<and> (v \<noteq> None) = is_active st)" by blast
qed

text \<open>
  C39. The job is well typed. Whatever sequence of requests, progress reports, cancel requests and
  terminal updates the job went through, the readers that index its dictionary never raise:
  polling progress, answering a second request and requesting a cancel all return, the second request
  is told about a running job exactly when there is one, and only then can a cancel be accepted.
\<close>

theorem job_readers_never_raise:
  "let st = run_ops resolve plan name_of ops None
   in (\<exists>r. progress_response bg st = Inr r) \<and>
    (\<exists>c. active_conflict_response resolve plan name_of directory provider st = Inr c \<and> (c \<noteq> None) = is_active st) \<and>
    (\<exists>v. fst (request_cancel st) = Inr v \<and> (v \<noteq> None) = is_active st)"
proof -
  have "state_typed (run_ops resolve plan name_of ops None)" by (rule run_typed) (simp add: state_typed_def)
  then show ?thesis unfolding Let_def by (intro conjI typed_readers)
qed

subsection \<open>Cancellation\<close>

text \<open>\<open>marked id st\<close>: the job, if it is still the one with this id, is marked for cancellation.\<close>

definition marked :: "string \<Rightarrow> job_state \<Rightarrow> bool" where
  "marked i st \<longleftrightarrow> (case st of None \<Rightarrow> True | Some j \<Rightarrow> owns_job i j \<longrightarrow> dict_get j ''cancel_requested'' = Some (JBool True))"

definition requests :: "string \<Rightarrow> job_op \<Rightarrow> bool" where
  "requests i op \<longleftrightarrow> (case op of Request j _ _ _ \<Rightarrow> j = i | _ \<Rightarrow> False)"

lemma put_fields_get: "k \<notin> fst ` set us \<Longrightarrow> dict_get (put_fields us j) k = dict_get j k"
  unfolding put_fields_def by (induction us arbitrary: j) (auto simp: dict_simps)

lemma put_fields_owns: "''job_id'' \<notin> fst ` set us \<Longrightarrow> j \<noteq> [] \<Longrightarrow> owns_job i (put_fields us j) \<Longrightarrow> owns_job i j"
  by (simp add: owns_job_def job_get_def dict_get_or_def put_fields_get)

lemma update_marked:
  assumes "marked i st" "''job_id'' \<notin> fst ` set us" "''cancel_requested'' \<notin> fst ` set us"
  shows "marked i (snd (update job_id us st))"
proof (cases st)
  case (Some j)
  show ?thesis
  proof (cases "owns_job job_id j")
    case True
    then have "j \<noteq> []" by (simp add: owns_job_def)
    have "owns_job i (put_fields us j) \<Longrightarrow> owns_job i j" using put_fields_owns [OF assms(2)] \<open>j \<noteq> []\<close> by blast
    then show ?thesis using assms(1) Some True put_fields_get [OF assms(3)] by (auto simp: marked_def update_def)
  qed (use assms(1) Some in \<open>simp add: update_def\<close>)
qed (simp add: update_def marked_def)

lemma progress_update: "snd (progress i ph c t st) = snd (update i [(''phase'', JStr ph), (''current'', JInt c), (''total'', JInt t)] st)"
  by (auto simp: progress_def update_def Let_def split: option.splits)

lemma apply_marked:
  assumes "marked i st" "\<not> requests i op"
  shows "marked i (apply_op resolve plan name_of op st)"
proof (cases op)
  case (Request j d n p)
  then show ?thesis using assms
    by (auto simp: start_job_def marked_def requests_def owns_job_def new_job_def job_get_def dict_get_or_def split: sum.splits option.splits)
next
  case Cancel
  then show ?thesis using assms(1) by (auto simp: marked_def request_cancel_def Let_def dict_simps split: option.splits)
qed (auto simp: progress_update starting_def finished_def cancelled_def crashed_def intro!: update_marked [OF assms(1)])

lemma run_marked: "marked i st \<Longrightarrow> list_all (\<lambda>op. \<not> requests i op) ops \<Longrightarrow> marked i (run_ops resolve plan name_of ops st)"
  by (induction ops arbitrary: st) (auto simp: apply_marked)



end
