(* ===== verification/IndexIdentity.thy ===== *)
theory IndexIdentity
  imports IncrementalIndex
begin

text \<open>
  The identity of an indexed checkout: \<open>search/index_identity.py\<close> (capture, dirty fingerprint, mismatch)
  and \<open>search/identity_checks.py\<close> (publication into \<open>project_info.json\<close>).

  A checkout is seen through the commands and system calls the code makes: each \<open>git\<close> command has an
  \<open>outcome\<close>, \<open>co_files\<close> is what \<open>lstat\<close>, \<open>readlink\<close> and \<open>open\<close> give for a path below the top level, and
  \<open>co_submodules\<close> are the submodule paths with a \<open>.git\<close> entry, as checkouts of their own. SHA-256, the
  UTF-8 and ASCII checks, path resolution and the clock are parameters; \<open>normalize_remote_url\<close> is one too.
\<close>

subsection \<open>Bytes\<close>

definition hex_digit :: "nat \<Rightarrow> char" where
  "hex_digit n = (if n < 10 then char_of (48 + n) else char_of (87 + n))"

definition hex :: "bytes \<Rightarrow> string" where
  "hex bs = concat (map (\<lambda>c. let n = (of_char c :: nat) in [hex_digit (n div 16), hex_digit (n mod 16)]) bs)"

definition is_lower_hex :: "char \<Rightarrow> bool" where
  "is_lower_hex c \<longleftrightarrow> c \<in> set ''0123456789abcdef''"

definition lower_sha256 :: "string \<Rightarrow> bool" where
  "lower_sha256 s \<longleftrightarrow> length s = 64 \<and> list_all is_lower_hex s"

definition lower_git_object_id :: "string \<Rightarrow> bool" where
  "lower_git_object_id s \<longleftrightarrow> (length s = 40 \<or> length s = 64) \<and> list_all is_lower_hex s"

definition nul :: char where
  "nul = char_of (0 :: nat)"

text \<open>\<open>bytes.split()\<close> and \<open>strip()\<close> use the ASCII white space.\<close>

definition ascii_space :: "char \<Rightarrow> bool" where
  "ascii_space c \<longleftrightarrow> (let n = (of_char c :: nat) in 9 \<le> n \<and> n \<le> 13 \<or> n = 32)"

definition fields_of :: "bytes \<Rightarrow> bytes list" where
  "fields_of s = filter (\<lambda>f. f \<noteq> []) (split_by ascii_space s)"

fun big_endian :: "nat \<Rightarrow> nat \<Rightarrow> bytes" where
  "big_endian 0 n = []"
| "big_endian (Suc k) n = big_endian k (n div 256) @ [char_of (n mod 256)]"

definition remove_suffix :: "bytes \<Rightarrow> bytes \<Rightarrow> bytes" where
  "remove_suffix suf s = (if ends_with s suf \<and> suf \<noteq> [] then take (length s - length suf) s else s)"

subsection \<open>The checkout\<close>

datatype outcome = Output bytes | Fails | CannotRun

datatype file_view = Missing | Uninspectable | Link "bytes option" | Plain "bytes option"

datatype checkout = Checkout
  (co_git_dir: outcome) (co_remote: outcome) (co_head: outcome) (co_empty_tree: outcome) (co_status: outcome)
  (co_worktree_diff: "bytes \<Rightarrow> outcome") (co_cached_diff: "bytes \<Rightarrow> outcome") (co_top_level: outcome) (co_ls_files: outcome)
  (co_files: "bytes \<Rightarrow> file_view") (co_submodules: "(bytes \<times> checkout) list")

text \<open>A payload of \<open>2 ^ 64\<close> bytes or more, which no process can hold, and a revision that is not ASCII count as capture errors too.\<close>

datatype capture_error = IdentityCaptureError

definition git :: "outcome \<Rightarrow> capture_error + bytes" where
  "git r = (case r of Output b \<Rightarrow> Inr b | _ \<Rightarrow> Inl IdentityCaptureError)"

definition git_optional :: "outcome \<Rightarrow> capture_error + bytes option" where
  "git_optional r = (case r of Output b \<Rightarrow> Inr (Some b) | Fails \<Rightarrow> Inr None | CannotRun \<Rightarrow> Inl IdentityCaptureError)"

definition check :: "bool \<Rightarrow> capture_error + unit" where
  "check b = (if b then Inr () else Inl IdentityCaptureError)"

subsection \<open>The dirty fingerprint\<close>

definition frame :: "string \<Rightarrow> bytes \<Rightarrow> capture_error + bytes" where
  "frame label payload =
     (if length payload < 2 ^ 64 then Inr (label @ [nul] @ big_endian 8 (length payload) @ payload) else Inl IdentityCaptureError)"

definition untracked_paths :: "bytes \<Rightarrow> bytes list" where
  "untracked_paths status =
     sort (map (drop 3) (filter (\<lambda>r. starts_with r ''?? '' \<and> 3 < length r) (split_by (\<lambda>c. c = nul) status)))"

definition untracked_payload :: "(bytes \<Rightarrow> bytes) \<Rightarrow> (bytes \<Rightarrow> file_view) \<Rightarrow> bytes \<Rightarrow> capture_error + bytes" where
  "untracked_payload sha files path =
     bindr (case files path of
         Missing \<Rightarrow> Inr (''missing'', replicate 32 nul)
       | Uninspectable \<Rightarrow> Inl IdentityCaptureError
       | Link None \<Rightarrow> Inl IdentityCaptureError
       | Link (Some target) \<Rightarrow> Inr (''symlink'', sha target)
       | Plain None \<Rightarrow> Inl IdentityCaptureError
       | Plain (Some raw) \<Rightarrow> Inr (''file'', sha raw))
       (\<lambda>(kind, digest). Inr (path @ [nul] @ kind @ [nul] @ digest))"

text \<open>The stage-0 gitlinks of \<open>git ls-files --stage\<close>: path and expected object id, sorted.\<close>

definition gitlink_of :: "bytes \<Rightarrow> capture_error + (bytes \<times> bytes) option" where
  "gitlink_of entry =
     (let metadata = takeWhile (\<lambda>c. c \<noteq> CHR 0x09) entry; rest = dropWhile (\<lambda>c. c \<noteq> CHR 0x09) entry in
      case (rest, fields_of metadata) of
        (_ # path, [mode, object_id, stage]) \<Rightarrow>
          if mode \<noteq> ''160000'' \<or> stage \<noteq> ''0'' then Inr None
          else if lower_git_object_id object_id then Inr (Some (path, object_id)) else Inl IdentityCaptureError
      | _ \<Rightarrow> Inl IdentityCaptureError)"

definition gitlinks :: "outcome \<Rightarrow> capture_error + (bytes \<times> bytes) list" where
  "gitlinks ls_files =
     bindr (git ls_files) (\<lambda>entries.
     bindr (map_result gitlink_of (filter (\<lambda>e. e \<noteq> []) (split_by (\<lambda>c. c = nul) entries))) (\<lambda>links.
       Inr (sort_key fst (sort_key snd (concat (map (\<lambda>l. case l of None \<Rightarrow> [] | Some x \<Rightarrow> [x]) links))))))"

definition submodule_payload :: "bytes \<Rightarrow> bytes \<Rightarrow> bytes \<Rightarrow> string \<Rightarrow> bytes" where
  "submodule_payload path expected current nested = path @ [nul] @ expected @ [nul] @ current @ [nul] @ nested"

text \<open>
  What the digest is fed: \<open>None\<close> when the checkout is clean. The nested fingerprints of the submodules
  are computed first, as a map from path to result.
\<close>

definition untracked_frames :: "(bytes \<Rightarrow> bytes) \<Rightarrow> (bytes \<Rightarrow> bool) \<Rightarrow> outcome \<Rightarrow> (bytes \<Rightarrow> file_view) \<Rightarrow> bytes \<Rightarrow> capture_error + bytes" where
  "untracked_frames sha utf8_ok top_level files status =
     (let paths = untracked_paths status in
      bindr (if paths = [] then Inr () else
          bindr (git top_level) (\<lambda>t. check (utf8_ok (remove_suffix [CHR 0x0A] t) \<and> remove_suffix [CHR 0x0A] t \<noteq> []))) (\<lambda>_.
      bindr (map_result (\<lambda>p. bindr (untracked_payload sha files p) (frame ''UNTRACKED'')) paths) (\<lambda>fs. Inr (concat fs))))"

definition dirty_preimage ::
    "(bytes \<Rightarrow> bytes) \<Rightarrow> (bytes \<Rightarrow> bool) \<Rightarrow> checkout \<Rightarrow> bytes \<Rightarrow> bytes \<Rightarrow> bytes list \<Rightarrow> capture_error + bytes option" where
  "dirty_preimage sha utf8_ok c status diff_base payloads =
     (if status = [] \<and> payloads = [] then Inr None
      else bindr (git (co_worktree_diff c diff_base)) (\<lambda>worktree. bindr (git (co_cached_diff c diff_base)) (\<lambda>cached.
           bindr (frame ''STATUS'' status) (\<lambda>f1. bindr (frame ''WORKTREE_DIFF'' worktree) (\<lambda>f2. bindr (frame ''CACHED_DIFF'' cached) (\<lambda>f3.
           bindr (untracked_frames sha utf8_ok (co_top_level c) (co_files c) status) (\<lambda>f4.
           bindr (map_result (frame ''SUBMODULE'') payloads) (\<lambda>fs. Inr (Some (f1 @ f2 @ f3 @ f4 @ concat fs))))))))))"

definition fingerprint_of :: "(bytes \<Rightarrow> bytes) \<Rightarrow> bytes option \<Rightarrow> string" where
  "fingerprint_of sha x = (case x of None \<Rightarrow> ''clean'' | Some b \<Rightarrow> hex (sha b))"

text \<open>One submodule: its head, status and fingerprint; nothing when it is where the index expects it, and clean.\<close>

definition submodule_entry ::
    "(checkout \<times> (bytes \<Rightarrow> bytes \<Rightarrow> capture_error + string)) option \<Rightarrow> bytes \<times> bytes \<Rightarrow> capture_error + bytes list" where
  "submodule_entry found link =
     (case (found, link) of
        (None, _) \<Rightarrow> Inr []
      | (Some (sub, fingerprint), path, expected) \<Rightarrow>
          bindr (git (co_head sub)) (\<lambda>head.
            let current = strip_by ascii_space head in
            bindr (check (lower_git_object_id current)) (\<lambda>_.
            bindr (git (co_status sub)) (\<lambda>status.
            bindr (fingerprint status current) (\<lambda>nested.
              Inr (if current = expected \<and> nested = ''clean'' then [] else [submodule_payload path expected current nested]))))))"

lemma submodule_size: "(a, sub :: checkout) \<in> set subs \<Longrightarrow> size sub \<le> size_list (size_prod (\<lambda>_. 0) size) subs"
  by (induction subs) auto

function dirty_fingerprint :: "(bytes \<Rightarrow> bytes) \<Rightarrow> (bytes \<Rightarrow> bool) \<Rightarrow> checkout \<Rightarrow> bytes \<Rightarrow> bytes \<Rightarrow> capture_error + string" where
  "dirty_fingerprint sha utf8_ok c status diff_base =
     bindr (git (co_top_level c)) (\<lambda>t.
     bindr (check (remove_suffix [CHR 0x0A] t \<noteq> [])) (\<lambda>_.
     bindr (gitlinks (co_ls_files c)) (\<lambda>links.
     bindr (map_result (\<lambda>link. submodule_entry
         (map_of (map (\<lambda>(path, sub). (path, sub, dirty_fingerprint sha utf8_ok sub)) (co_submodules c)) (fst link)) link) links) (\<lambda>payloads.
     bindr (dirty_preimage sha utf8_ok c status diff_base (concat payloads)) (\<lambda>x. Inr (fingerprint_of sha x))))))"
  by pat_completeness auto
termination
proof (relation "measure (\<lambda>(_, _, c, _, _). size c)", goal_cases)
  case 1
  then show ?case by simp
next
  case (2 sha utf8_ok c status diff_base)
  then show ?case by (cases c) (auto dest!: submodule_size simp: less_Suc_eq_le)
qed

declare dirty_fingerprint.simps [simp del]

definition submodule_payloads :: "(bytes \<Rightarrow> bytes) \<Rightarrow> (bytes \<Rightarrow> bool) \<Rightarrow> checkout \<Rightarrow> capture_error + bytes list" where
  "submodule_payloads sha utf8_ok c =
     bindr (git (co_top_level c)) (\<lambda>t.
     bindr (check (remove_suffix [CHR 0x0A] t \<noteq> [])) (\<lambda>_.
     bindr (gitlinks (co_ls_files c)) (\<lambda>links.
     bindr (map_result (\<lambda>link. submodule_entry
         (map_of (map (\<lambda>(path, sub). (path, sub, dirty_fingerprint sha utf8_ok sub)) (co_submodules c)) (fst link)) link) links)
       (\<lambda>payloads. Inr (concat payloads)))))"

subsection \<open>Identities\<close>

record index_identity =
  schema_version :: int
  repository_id :: string
  checkout_id :: string
  source_revision :: string
  dirty_field :: string
  index_generation :: string
  captured_at :: string

definition identity_to_dict :: "index_identity \<Rightarrow> (string, json) dict" where
  "identity_to_dict i = [(''schema_version'', JInt (schema_version i)), (''repository_id'', JStr (repository_id i)),
     (''checkout_id'', JStr (checkout_id i)), (''source_revision'', JStr (source_revision i)),
     (''dirty_fingerprint'', JStr (dirty_field i)), (''index_generation'', JStr (index_generation i)),
     (''captured_at'', JStr (captured_at i))]"

definition derive_index_generation :: "(bytes \<Rightarrow> bytes) \<Rightarrow> string \<Rightarrow> string \<Rightarrow> string \<Rightarrow> string" where
  "derive_index_generation sha repository revision dirty = hex (sha (repository @ [nul] @ revision @ [nul] @ dirty))"

text \<open>\<open>utc\<close> is the outcome of parsing the time: not a timestamp, or whether it is in UTC.\<close>

definition text_field :: "(string, json) dict \<Rightarrow> string \<Rightarrow> string option" where
  "text_field v k = (case dict_get v k of Some (JStr s) \<Rightarrow> if s = [] then None else Some s | _ \<Rightarrow> None)"

definition validate_identity :: "(bytes \<Rightarrow> bytes) \<Rightarrow> (string \<Rightarrow> bool option) \<Rightarrow> json \<Rightarrow> index_identity option" where
  "validate_identity sha utc value = (case value of
     JObj v \<Rightarrow>
       if dict_get v ''schema_version'' \<noteq> Some (JInt 1) then None
       else (case (text_field v ''repository_id'', text_field v ''checkout_id'', text_field v ''source_revision'',
                   text_field v ''dirty_fingerprint'', text_field v ''index_generation'', text_field v ''captured_at'') of
         (Some repo, Some checkout, Some revision, Some dirty, Some generation, Some time) \<Rightarrow>
           if lower_sha256 repo \<and> lower_sha256 checkout \<and> lower_sha256 generation \<and>
              (revision = ''unborn'' \<or> lower_git_object_id revision) \<and> (dirty = ''clean'' \<or> lower_sha256 dirty) \<and>
              utc time = Some True \<and> generation = derive_index_generation sha repo revision dirty
           then Some \<lparr>schema_version = 1, repository_id = repo, checkout_id = checkout, source_revision = revision,
                  dirty_field = dirty, index_generation = generation, captured_at = time\<rparr>
           else None
       | _ \<Rightarrow> None)
   | _ \<Rightarrow> None)"

definition coherence_fields :: "(string \<times> (index_identity \<Rightarrow> string)) list" where
  "coherence_fields = [(''repository_id'', repository_id), (''checkout_id'', checkout_id), (''source_revision'', source_revision),
     (''dirty_fingerprint'', dirty_field), (''index_generation'', index_generation)]"

definition identity_mismatch_fields :: "index_identity \<Rightarrow> index_identity \<Rightarrow> string list" where
  "identity_mismatch_fields first second = map fst (filter (\<lambda>(_, f). f first \<noteq> f second) coherence_fields)"

definition describe_identity_mismatches :: "index_identity \<Rightarrow> index_identity \<Rightarrow> string" where
  "describe_identity_mismatches first second = join '', ''
     (map (\<lambda>(name, f). name @ '': '' @ f first @ '' -> '' @ f second) (filter (\<lambda>(_, f). f first \<noteq> f second) coherence_fields))"

text \<open>\<open>posix_root\<close> is the resolved root; \<open>norm_remote\<close> is \<open>normalize_remote_url\<close>.\<close>

definition repository_source :: "(bytes \<Rightarrow> bool) \<Rightarrow> (string \<Rightarrow> string) \<Rightarrow> string \<Rightarrow> bytes option \<Rightarrow> capture_error + string" where
  "repository_source utf8_ok norm_remote posix_root remote = (case remote of
     None \<Rightarrow> Inr (''path:'' @ posix_root)
   | Some r \<Rightarrow> bindr (check (utf8_ok r)) (\<lambda>_.
       Inr (if norm_remote r \<noteq> [] then ''remote:'' @ norm_remote r else ''path:'' @ posix_root)))"

definition source_and_base :: "(bytes \<Rightarrow> bool) \<Rightarrow> checkout \<Rightarrow> capture_error + string \<times> bytes" where
  "source_and_base ascii_ok c =
     bindr (git_optional (co_head c)) (\<lambda>head. case head of
       None \<Rightarrow> bindr (git (co_empty_tree c)) (\<lambda>t. bindr (check (ascii_ok t \<and> lower_git_object_id (strip_by py_space t))) (\<lambda>_.
                 Inr (''unborn'', strip_by py_space t)))
     | Some h \<Rightarrow> bindr (check (ascii_ok h)) (\<lambda>_. Inr (strip_by py_space h, strip_by py_space h)))"

definition capture_index_identity ::
    "(bytes \<Rightarrow> bytes) \<Rightarrow> (bytes \<Rightarrow> bool) \<Rightarrow> (bytes \<Rightarrow> bool) \<Rightarrow> (string \<Rightarrow> string) \<Rightarrow> string \<Rightarrow> string \<Rightarrow> checkout \<Rightarrow>
     capture_error + index_identity" where
  "capture_index_identity sha utf8_ok ascii_ok norm_remote posix_root now c =
     bindr (git (co_git_dir c)) (\<lambda>_.
     bindr (git_optional (co_remote c)) (\<lambda>remote.
     bindr (repository_source utf8_ok norm_remote posix_root remote) (\<lambda>source.
     bindr (source_and_base ascii_ok c) (\<lambda>(revision, diff_base).
     bindr (git (co_status c)) (\<lambda>status.
     bindr (dirty_fingerprint sha utf8_ok c status diff_base) (\<lambda>dirty.
       let repo = hex (sha source)
       in Inr \<lparr>schema_version = 1, repository_id = repo, checkout_id = hex (sha (''path:'' @ posix_root)),
            source_revision = revision, dirty_field = dirty,
            index_generation = derive_index_generation sha repo revision dirty, captured_at = now\<rparr>))))))"

subsection \<open>Publication of the identity\<close>

text \<open>
  \<open>project_info.json\<close> as an object, or \<open>None\<close> when it cannot be read; \<open>writable\<close>: the replacement of the
  file succeeds. A failure of either is caught and reported.
\<close>

type_synonym project_info = "(string, json) dict option"

definition identity_fields :: "string list" where
  "identity_fields = [''index_identity_status'', ''index_identity'', ''index_identity_error'']"

definition update_project_info :: "bool \<Rightarrow> (string, json) dict \<Rightarrow> string list \<Rightarrow> project_info \<Rightarrow> project_info option" where
  "update_project_info writable updates remove_fields info = (case info of
     None \<Rightarrow> None
   | Some d \<Rightarrow> if writable then Some (Some (fold (\<lambda>(k, v). dict_put k v) updates (fold dict_del remove_fields d))) else None)"

definition status_of :: "(string, json) dict \<Rightarrow> json option" where
  "status_of d = dict_get d ''index_identity_status''"

definition identity_error :: "string \<Rightarrow> (string, json) dict" where
  "identity_error msg = [(''index_identity_status'', JStr ''error''), (''index_identity_error'', JStr msg)]"

definition persist_index_identity_state :: "bool \<Rightarrow> (string, json) dict \<Rightarrow> project_info \<Rightarrow> (string, json) dict \<times> project_info" where
  "persist_index_identity_state writable published info =
     (case update_project_info writable published identity_fields info of
        None \<Rightarrow> (identity_error ''Could not persist index identity'', info)
      | Some info' \<Rightarrow> (published, info'))"

definition read_index_identity_state :: "project_info \<Rightarrow> (string, json) dict" where
  "read_index_identity_state info = (case info of
     None \<Rightarrow> []
   | Some d \<Rightarrow> concat (map (\<lambda>k. case dict_get d k of None \<Rightarrow> [] | Some v \<Rightarrow> [(k, v)]) identity_fields))"

definition finalize_index_identity ::
    "bool \<Rightarrow> capture_error + index_identity \<Rightarrow> index_identity \<Rightarrow> (string, json) dict \<Rightarrow> project_info \<Rightarrow> (string, json) dict \<times> project_info" where
  "finalize_index_identity writable end_capture start_identity ready_metadata info =
     persist_index_identity_state writable
       (case end_capture of
          Inl _ \<Rightarrow> identity_error ''capture''
        | Inr e \<Rightarrow>
            if identity_mismatch_fields start_identity e \<noteq> []
            then [(''index_identity_status'', JStr ''source_changed_during_index''),
                  (''index_identity_error'', JStr (describe_identity_mismatches start_identity e))]
            else fold (\<lambda>(k, v). dict_put k v)
                   [(''index_identity_status'', JStr ''ready''), (''index_identity'', JObj (identity_to_dict e))] ready_metadata)
       info"

text \<open>
  One search-time reindex: \<open>outcome\<close> is what \<open>auto_reindex_if_needed\<close> did, \<open>None\<close> or a cancellation being an
  exception; \<open>w\<close> tells which of the successive writes succeed.
\<close>

datatype reindexed = Raised project_info | Reindexed index_result bool "(string, json) dict" project_info

definition mutated :: "index_result \<Rightarrow> bool" where
  "mutated r \<longleftrightarrow> 0 < files_added r \<or> 0 < files_modified r \<or> 0 < files_removed r"

definition mark_pending :: "bool \<Rightarrow> capture_error + index_identity \<Rightarrow> bool \<Rightarrow> project_info \<Rightarrow> project_info" where
  "mark_pending writable start_capture publish_pending info =
     (if publish_pending
      then snd (persist_index_identity_state writable
        ((''index_identity_status'', JStr ''pending'') #
         (case start_capture of Inl _ \<Rightarrow> [(''index_identity_error'', JStr ''identity_capture_start_failed'')] | Inr _ \<Rightarrow> [])) info)
      else info)"

definition auto_reindex_with_identity ::
    "(nat \<Rightarrow> bool) \<Rightarrow> capture_error + index_identity \<Rightarrow> (unit + index_result) option \<Rightarrow> capture_error + index_identity \<Rightarrow> bool \<Rightarrow>
     (string, json) dict \<Rightarrow> project_info \<Rightarrow> reindexed" where
  "auto_reindex_with_identity w start_capture outcome end_capture publish_pending ready_metadata info =
     (let previous = read_index_identity_state info;
          info1 = mark_pending (w 0) start_capture publish_pending info
      in case outcome of
           Some (Inr r) \<Rightarrow>
             let (state, info2) =
               (if \<not> success r then persist_index_identity_state (w 1) (identity_error ''auto_reindex_failed'') info1
                else if reindex_disposition r \<noteq> Completed then
                  (if previous = [] then [(''index_identity_status'', JStr ''legacy_missing'')] else previous,
                   if publish_pending then snd (persist_index_identity_state (w 1) previous info1) else info1)
                else case start_capture of
                  Inl _ \<Rightarrow> persist_index_identity_state (w 1) (identity_error ''identity_capture_start_failed'') info1
                | Inr s \<Rightarrow> finalize_index_identity (w 1) end_capture s ready_metadata info1)
             in Reindexed r (success r \<and> mutated r) state info2
         | _ \<Rightarrow> Raised (snd (persist_index_identity_state (w 1) (identity_error ''auto_reindex_exception'') info1)))"

end
