(* ===== verification/IndexIdentity_Sound.thy ===== *)
theory IndexIdentity_Sound
  imports IndexIdentity
begin

text \<open>
  Two facts about identities: the bytes fed to the dirty fingerprint determine the state of the
  checkout (the frames can be told apart), and \<open>project_info.json\<close> says \<open>ready\<close> only for an index whose
  source was the same before and after the run.
\<close>

subsection \<open>Frames\<close>

lemma big_endian_length [simp]: "length (big_endian k n) = k"
  by (induction k arbitrary: n) auto

lemma big_endian_inj: "big_endian k m = big_endian k n \<Longrightarrow> m < 256 ^ k \<Longrightarrow> n < 256 ^ k \<Longrightarrow> m = n"
proof (induction k arbitrary: m n)
  case (Suc k)
  have c: "char_of (m mod 256) = (char_of (n mod 256) :: char)" and r: "big_endian k (m div 256) = big_endian k (n div 256)"
    using Suc.prems(1) by auto
  have "m mod 256 = n mod 256" using arg_cong [OF c, of "of_char :: char \<Rightarrow> nat"] by (simp add: of_char_of)
  moreover have "m div 256 = n div 256"
    by (rule Suc.IH [OF r]) (use Suc.prems(2,3) in \<open>simp_all add: less_mult_imp_div_less mult.commute\<close>)
  ultimately show ?case by (metis div_mult_mod_eq)
qed simp

lemma frame_Inr: "frame l p = Inr b \<longleftrightarrow> length p < 2 ^ 64 \<and> b = l @ [nul] @ big_endian 8 (length p) @ p"
  by (auto simp: frame_def)

lemma takeWhile_label: "nul \<notin> set l \<Longrightarrow> takeWhile (\<lambda>c. c \<noteq> nul) (l @ nul # x) = l"
  by (induction l) auto

lemma frame_unique:
  assumes "frame l p = Inr a" "frame l' p' = Inr b" "a @ x = b @ y" "nul \<notin> set l" "nul \<notin> set l'"
  shows "l = l' \<and> p = p' \<and> x = y"
proof -
  have e: "l @ nul # big_endian 8 (length p) @ p @ x = l' @ nul # big_endian 8 (length p') @ p' @ y"
    using assms(1-3) by (simp add: frame_Inr)
  have l: "l = l'" using takeWhile_label [OF assms(4)] takeWhile_label [OF assms(5)] e by metis
  then have "big_endian 8 (length p) @ p @ x = big_endian 8 (length p') @ p' @ y" using e by simp
  then have b: "big_endian 8 (length p) = big_endian 8 (length p')" "p @ x = p' @ y"
    using append_eq_append_conv [of "big_endian 8 (length p)" "big_endian 8 (length p')"] by auto
  have "length p = length p'"
    by (rule big_endian_inj [OF b(1)]) (use assms(1,2) in \<open>simp_all add: frame_Inr\<close>)
  then show ?thesis using l b(2) by simp
qed

text \<open>A sequence of labelled frames can be read back.\<close>

abbreviation frames :: "(string \<times> bytes) list \<Rightarrow> capture_error + bytes list" where
  "frames \<equiv> map_result (\<lambda>(l, p). frame l p)"

lemma frames_unique:
  "frames xs = Inr a \<Longrightarrow> frames ys = Inr b \<Longrightarrow> concat a = concat b \<Longrightarrow> \<forall>(l, p) \<in> set (xs @ ys). nul \<notin> set l \<Longrightarrow> xs = ys"
proof (induction xs arbitrary: ys a b)
  case Nil
  then show ?case by (cases ys) (auto simp: bindr_Inr frame_Inr)
next
  case (Cons x xs)
  obtain l p where x: "x = (l, p)" by fastforce
  then obtain f as where a: "frame l p = Inr f" "frames xs = Inr as" "a = f # as"
    using Cons.prems(1) by (auto simp: bindr_Inr)
  show ?case
  proof (cases ys)
    case Nil
    then show ?thesis using Cons.prems(2,3) a by (auto simp: frame_Inr)
  next
    case (Cons y ys')
    obtain l' p' where y: "y = (l', p')" by fastforce
    obtain g bs where b: "frame l' p' = Inr g" "frames ys' = Inr bs" "b = g # bs"
      using Cons.prems(2) by (auto simp: bindr_Inr y Cons)
    have "l = l' \<and> p = p' \<and> concat as = concat bs"
      by (rule frame_unique [OF a(1) b(1)]) (use Cons.prems(3,4) a(3) b(3) in \<open>auto simp: x y Cons\<close>)
    then show ?thesis using Cons.IH [OF a(2) b(2)] Cons.prems(4) by (auto simp: x y Cons)
  qed
qed

lemma frames_append: "frames (xs @ ys) = bindr (frames xs) (\<lambda>a. bindr (frames ys) (\<lambda>b. Inr (a @ b)))"
  by (induction xs) (auto simp: bindr_def split: sum.splits)

subsection \<open>Hexadecimal digests\<close>

lemma hex_digit_inj: "m < 16 \<Longrightarrow> n < 16 \<Longrightarrow> hex_digit m = hex_digit n \<Longrightarrow> m = n"
proof -
  have "list_all (\<lambda>m. list_all (\<lambda>n. hex_digit m = hex_digit n \<longrightarrow> m = n) [0..<16]) [0..<16]" by code_simp
  then show "m < 16 \<Longrightarrow> n < 16 \<Longrightarrow> hex_digit m = hex_digit n \<Longrightarrow> m = n" by (simp add: list_all_iff)
qed

lemma hex_Cons: "hex (c # bs) = hex_digit (of_char c div 16) # hex_digit (of_char c mod 16) # hex bs"
  by (simp add: hex_def Let_def)

lemma char_code_div: "(of_char c :: nat) div 16 < 16"
proof -
  have "(of_char c :: nat) < 256" using of_char_mod_256 [of c, where ?'a = nat] by (metis mod_less_divisor zero_less_numeral)
  then show ?thesis by (simp add: less_mult_imp_div_less)
qed

lemma hex_inj: "hex a = hex b \<Longrightarrow> a = b"
proof (induction a arbitrary: b)
  case Nil
  then show ?case by (cases b) (auto simp: hex_Cons, simp add: hex_def)
next
  case (Cons c a)
  then obtain d b' where b: "b = d # b'" by (cases b) (auto simp: hex_Cons, simp add: hex_def)
  have "(of_char c :: nat) div 16 = of_char d div 16" "(of_char c :: nat) mod 16 = of_char d mod 16"
    using Cons.prems hex_digit_inj [OF char_code_div char_code_div] hex_digit_inj [of "of_char c mod 16" "of_char d mod 16"]
    by (simp_all add: b hex_Cons)
  then have "(of_char c :: nat) = of_char d" by (metis div_mult_mod_eq)
  then show ?case using Cons by (simp add: b hex_Cons of_char_eq_iff)
qed

lemma hex_digits: "n < 16 \<Longrightarrow> is_lower_hex (hex_digit n)"
proof -
  have "list_all (\<lambda>n. is_lower_hex (hex_digit n)) [0..<16]" by code_simp
  then show "n < 16 \<Longrightarrow> is_lower_hex (hex_digit n)" by (simp add: list_all_iff)
qed

lemma hex_lower: "list_all is_lower_hex (hex bs)" "length (hex bs) = 2 * length bs"
proof -
  show "list_all is_lower_hex (hex bs)" 
    by (induction bs) (simp add: hex_def, simp add: hex_Cons hex_digits char_code_div)
  show "length (hex bs) = 2 * length bs" by (induction bs) (auto simp: hex_Cons, simp add: hex_def)
qed

lemma hex_not_clean: "hex bs \<noteq> ''clean''"
proof
  assume "hex bs = ''clean''"
  then have "list_all is_lower_hex ''clean''" using hex_lower(1) [of bs] by simp
  then show False by (simp add: is_lower_hex_def)
qed

subsection \<open>The input of the fingerprint\<close>

definition framed :: "bytes \<Rightarrow> bytes \<Rightarrow> bytes \<Rightarrow> bytes list \<Rightarrow> bytes list \<Rightarrow> (string \<times> bytes) list" where
  "framed status worktree cached untracked payloads =
     [(''STATUS'', status), (''WORKTREE_DIFF'', worktree), (''CACHED_DIFF'', cached)] @
     map (Pair ''UNTRACKED'') untracked @ map (Pair ''SUBMODULE'') payloads"

lemma framed_unique: "framed s w c u p = framed s' w' c' u' p' \<Longrightarrow> s = s' \<and> w = w' \<and> c = c' \<and> u = u' \<and> p = p'"
proof -
  assume e: "framed s w c u p = framed s' w' c' u' p'"
  have k: "map snd (filter (\<lambda>x. fst x = ''UNTRACKED'') (framed s w c u p)) = u" "map snd (filter (\<lambda>x. fst x = ''SUBMODULE'') (framed s w c u p)) = p"
    for s w c u p by (simp_all add: framed_def filter_map comp_def)
  show ?thesis using e k [of s w c u p] k [of s' w' c' u' p'] by (simp add: framed_def)
qed

lemma frames_pair: "frames (map (Pair l) ps) = map_result (frame l) ps"
  by (induction ps) auto

lemma untracked_split:
  "map_result (\<lambda>p. bindr (f p) (frame l)) ps = Inr fs \<Longrightarrow> \<exists>us. map_result f ps = Inr us \<and> map_result (frame l) us = Inr fs"
proof (induction ps arbitrary: fs)
  case (Cons p ps)
  then obtain u g gs where 1: "f p = Inr u" "frame l u = Inr g" "fs = g # gs"
      "map_result (\<lambda>p. bindr (f p) (frame l)) ps = Inr gs" by (auto simp: bindr_Inr)
  obtain us where "map_result f ps = Inr us" "map_result (frame l) us = Inr gs" using Cons.IH [OF 1(4)] by blast
  then show ?case using 1(1-3) by simp
qed simp

lemma preimage_frames:
  assumes "dirty_preimage sha utf8_ok c status base payloads = Inr (Some x)"
  obtains w cd us fs where "co_worktree_diff c base = Output w" "co_cached_diff c base = Output cd"
    "map_result (untracked_payload sha (co_files c)) (untracked_paths status) = Inr us"
    "frames (framed status w cd us payloads) = Inr fs" "x = concat fs"
proof -
  have g: "git r = Inr b \<longleftrightarrow> r = Output b" for r b by (auto simp: git_def split: outcome.splits)
  obtain w cd f1 f2 f3 f4 gs where e: "co_worktree_diff c base = Output w" "co_cached_diff c base = Output cd"
      "frame ''STATUS'' status = Inr f1" "frame ''WORKTREE_DIFF'' w = Inr f2" "frame ''CACHED_DIFF'' cd = Inr f3"
      "untracked_frames sha utf8_ok (co_top_level c) (co_files c) status = Inr f4"
      "map_result (frame ''SUBMODULE'') payloads = Inr gs" "x = f1 @ f2 @ f3 @ f4 @ concat gs"
    using assms by (auto simp: dirty_preimage_def bindr_Inr g split: if_splits)
  obtain hs where h: "map_result (\<lambda>p. bindr (untracked_payload sha (co_files c) p) (frame ''UNTRACKED'')) (untracked_paths status) = Inr hs"
      "f4 = concat hs"
    using e(6) by (auto simp: untracked_frames_def Let_def bindr_Inr)
  obtain us where u: "map_result (untracked_payload sha (co_files c)) (untracked_paths status) = Inr us"
      "map_result (frame ''UNTRACKED'') us = Inr hs" using untracked_split [OF h(1)] by blast
  have "frames (framed status w cd us payloads) = Inr (f1 # f2 # f3 # hs @ gs)"
    by (simp add: framed_def frames_append frames_pair e(3-5,7) u(2))
  then show ?thesis by (rule that [OF e(1,2) u(1)]) (simp add: e(8) h(2))
qed

lemma input_determines_state:
  assumes a: "dirty_preimage sha utf8_ok c status base payloads = Inr x"
    and b: "dirty_preimage sha utf8_ok c' status' base' payloads' = Inr x"
  shows "status = status' \<and> payloads = payloads' \<and>
    (x \<noteq> None \<longrightarrow> co_worktree_diff c base = co_worktree_diff c' base' \<and> co_cached_diff c base = co_cached_diff c' base' \<and>
       map_result (untracked_payload sha (co_files c)) (untracked_paths status) =
       map_result (untracked_payload sha (co_files c')) (untracked_paths status))"
proof (cases x)
  case None
  have "status = [] \<and> payloads = []" if "dirty_preimage sha utf8_ok c status base payloads = Inr None" for c status base payloads
    using that by (auto simp: dirty_preimage_def bindr_Inr split: if_splits)
  then show ?thesis using a b None by blast
next
  case (Some y)
  from a obtain w cd us fs where 1: "co_worktree_diff c base = Output w" "co_cached_diff c base = Output cd"
      "map_result (untracked_payload sha (co_files c)) (untracked_paths status) = Inr us"
      "frames (framed status w cd us payloads) = Inr fs" "y = concat fs"
    unfolding Some by (rule preimage_frames)
  from b obtain w' cd' us' fs' where 2: "co_worktree_diff c' base' = Output w'" "co_cached_diff c' base' = Output cd'"
      "map_result (untracked_payload sha (co_files c')) (untracked_paths status') = Inr us'"
      "frames (framed status' w' cd' us' payloads') = Inr fs'" "y = concat fs'"
    unfolding Some by (rule preimage_frames)
  have "framed status w cd us payloads = framed status' w' cd' us' payloads'"
    by (rule frames_unique [OF 1(4) 2(4)]) (use 1(5) 2(5) in \<open>auto simp: framed_def nul_def char_of_def\<close>)
  then show ?thesis using framed_unique 1 2 by metis
qed

subsection \<open>Equal fingerprints\<close>

lemma dirty_fingerprint_steps:
  "dirty_fingerprint sha utf8_ok c status base =
     bindr (submodule_payloads sha utf8_ok c) (\<lambda>ps. bindr (dirty_preimage sha utf8_ok c status base ps) (\<lambda>x. Inr (fingerprint_of sha x)))"
  by (subst dirty_fingerprint.simps) (simp add: submodule_payloads_def bindr_def split: sum.splits)

definition fingerprint_input :: "(bytes \<Rightarrow> bytes) \<Rightarrow> (bytes \<Rightarrow> bool) \<Rightarrow> checkout \<Rightarrow> bytes \<Rightarrow> bytes \<Rightarrow> capture_error + bytes option" where
  "fingerprint_input sha utf8_ok c status base = bindr (submodule_payloads sha utf8_ok c) (dirty_preimage sha utf8_ok c status base)"

lemma fingerprint_by_input:
  "dirty_fingerprint sha utf8_ok c status base = bindr (fingerprint_input sha utf8_ok c status base) (\<lambda>x. Inr (fingerprint_of sha x))"
  by (simp add: dirty_fingerprint_steps fingerprint_input_def bindr_def split: sum.splits)

lemma fingerprint_of_inj:
  assumes "fingerprint_of sha x = fingerprint_of sha y" "\<And>a b. x = Some a \<Longrightarrow> y = Some b \<Longrightarrow> sha a = sha b \<Longrightarrow> a = b"
  shows "x = y"
proof (cases x)
  case None
  then show ?thesis using assms(1) hex_not_clean by (cases y) (auto simp: fingerprint_of_def)
next
  case (Some a)
  then obtain b where b: "y = Some b" using assms(1) hex_not_clean by (cases y) (auto simp: fingerprint_of_def)
  have "sha a = sha b" by (rule hex_inj) (use assms(1) in \<open>simp add: fingerprint_of_def Some b\<close>)
  then show ?thesis using assms(2) Some b by blast
qed


definition demo_checkout :: "outcome \<Rightarrow> checkout" where
  "demo_checkout remote = Checkout (Output ''.git'') remote (Output (replicate 40 CHR ''a'')) Fails (Output (''?? x'' @ [nul]))
     (\<lambda>_. Output ''-old'') (\<lambda>_. Output []) (Output ''/r'') (Output []) (\<lambda>_. Plain (Some ''new'')) []"

abbreviation demo_status :: bytes where
  "demo_status \<equiv> ''?? x'' @ [nul]"

lemma demo_payloads: "submodule_payloads id (\<lambda>_. True) (demo_checkout r) = Inr []"
  by (simp add: submodule_payloads_def demo_checkout_def gitlinks_def git_def check_def remove_suffix_def ends_with_def)

lemma demo_untracked: "untracked_paths demo_status = [''x'']"
  by code_simp

lemma demo_preimage: "\<exists>b. dirty_preimage id (\<lambda>_. True) (demo_checkout Fails) demo_status ''b'' [] = Inr (Some b)"
  by (simp add: dirty_preimage_def demo_checkout_def untracked_frames_def demo_untracked git_def check_def
      remove_suffix_def ends_with_def frame_def untracked_payload_def del: append.simps)

lemma demo_fingerprint: "\<exists>d. d \<noteq> ''clean'' \<and> (\<forall>r. dirty_fingerprint id (\<lambda>_. True) (demo_checkout r) demo_status ''b'' = Inr d)"
proof -
  have "dirty_preimage id (\<lambda>_. True) (demo_checkout r) demo_status ''b'' [] =
        dirty_preimage id (\<lambda>_. True) (demo_checkout Fails) demo_status ''b'' []" for r
    by (simp add: dirty_preimage_def demo_checkout_def)
  then show ?thesis using demo_preimage hex_not_clean by (auto simp: dirty_fingerprint_steps demo_payloads fingerprint_of_def)
qed


end
