(* ===== verification/IndexIdentity_Publish.thy ===== *)
theory IndexIdentity_Publish
  imports IndexIdentity
begin

text \<open>
  What a search-time reindex leaves in \<open>project_info.json\<close>: an identity is published as \<open>ready\<close> only when the
  run completed and the source was the same before and after it.
\<close>

abbreviation puts :: "(string, json) dict \<Rightarrow> (string, json) dict \<Rightarrow> (string, json) dict" where
  "puts \<equiv> fold (\<lambda>(k, v). dict_put k v)"

lemma get_puts_other: "k \<notin> fst ` set us \<Longrightarrow> dict_get (puts us d) k = dict_get d k"
  by (induction us arbitrary: d) (auto simp: dict_simps)

lemma get_dels: "dict_get (fold dict_del ks d) k = (if k \<in> set ks then None else dict_get d k)"
  by (induction ks arbitrary: d) (auto simp: dict_simps)

lemma persisted:
  "snd (persist_index_identity_state writable pub (Some d)) = Some (if writable then puts pub (fold dict_del identity_fields d) else d)"
  by (simp add: persist_index_identity_state_def update_project_info_def)

lemma persisted_get:
  "k \<notin> fst ` set pub \<Longrightarrow>
     dict_get (puts pub (fold dict_del identity_fields d)) k = (if k \<in> set identity_fields then None else dict_get d k)"
  by (simp add: get_puts_other get_dels)

text \<open>The fields read before the run, written back, are what they were.\<close>

lemma read_keys: "fst ` set (read_index_identity_state info) \<subseteq> set identity_fields"
  by (auto simp: read_index_identity_state_def split: option.splits)

lemma get_puts_read:
  "dict_get (puts (concat (map (\<lambda>k. case dict_get d0 k of None \<Rightarrow> [] | Some v \<Rightarrow> [(k, v)]) ks)) d) k =
     (if k \<in> set ks \<and> dict_get d0 k \<noteq> None then dict_get d0 k else dict_get d k)"
proof (induction ks arbitrary: d)
  case (Cons a ks)
  then show ?case by (cases "dict_get d0 a") (auto simp: update_conv')
qed simp

lemma restored:
  "k \<in> set identity_fields \<Longrightarrow>
     dict_get (puts (read_index_identity_state (Some d0)) (fold dict_del identity_fields d)) k = dict_get d0 k"
  by (simp add: read_index_identity_state_def get_puts_read get_dels)

text \<open>The result published by \<open>finalize_index_identity\<close>.\<close>

definition same_source :: "capture_error + index_identity \<Rightarrow> capture_error + index_identity \<Rightarrow> index_identity option" where
  "same_source first second = (case (first, second) of
     (Inr s, Inr e) \<Rightarrow> if list_all (\<lambda>(_, f). f s = f e) coherence_fields then Some e else None | _ \<Rightarrow> None)"

lemma no_mismatch: "identity_mismatch_fields s e = [] \<longleftrightarrow> list_all (\<lambda>(_, f). f s = f e) coherence_fields"
  by (auto simp: identity_mismatch_fields_def list_all_iff filter_empty_conv)

definition publishes :: "json option \<Rightarrow> string list \<Rightarrow> (string, json) dict \<Rightarrow> (string, json) dict \<Rightarrow> bool" where
  "publishes identity extra d0 d \<longleftrightarrow> dict_get d ''index_identity'' = identity \<and>
     (status_of d = Some (JStr ''ready'') \<longleftrightarrow> identity \<noteq> None) \<and>
     (\<forall>k. k \<notin> set identity_fields \<longrightarrow> k \<notin> set extra \<longrightarrow> dict_get d k = dict_get d0 k)"

lemma publishes_error:
  assumes "\<And>k. k \<notin> set identity_fields \<Longrightarrow> dict_get d1 k = dict_get d0 k" "s \<noteq> ''ready''"
  shows "publishes None extra d0 (puts [(''index_identity_status'', JStr s), (''index_identity_error'', m)] (fold dict_del identity_fields d1))"
  using assms by (auto simp: publishes_def status_of_def get_dels identity_fields_def dict_simps)

lemma publishes_ready:
  assumes "\<And>k. k \<notin> set identity_fields \<Longrightarrow> dict_get d1 k = dict_get d0 k" "fst ` set ready \<inter> set identity_fields = {}"
  shows "publishes (Some j) (map fst ready) d0
    (puts (puts [(''index_identity_status'', JStr ''ready''), (''index_identity'', j)] ready) (fold dict_del identity_fields d1))"
proof -
  have f: "''index_identity_status'' \<notin> fst ` set ready" "''index_identity'' \<notin> fst ` set ready"
    using assms(2) by (auto simp: identity_fields_def)
  have "puts [(''index_identity_status'', JStr ''ready''), (''index_identity'', j)] ready =
        ready @ [(''index_identity_status'', JStr ''ready''), (''index_identity'', j)]"
    using f by (simp add: dict_put_fresh)
  then show ?thesis
    using assms(1) f by (auto simp: publishes_def status_of_def get_puts_other get_dels identity_fields_def dict_simps)
qed

lemma finalize_publishes:
  assumes "\<And>k. k \<notin> set identity_fields \<Longrightarrow> dict_get d1 k = dict_get d0 k" "fst ` set ready \<inter> set identity_fields = {}"
  shows "\<exists>d. snd (finalize_index_identity True en s ready (Some d1)) = Some d \<and>
    publishes (map_option (\<lambda>e. JObj (identity_to_dict e)) (same_source (Inr s) en)) (map fst ready) d0 d"
proof (cases en)
  case (Inl x)
  then show ?thesis using publishes_error [OF assms(1), of "''error''"]
    by (simp add: finalize_index_identity_def persisted same_source_def identity_error_def)
next
  case (Inr e)
  show ?thesis
  proof (cases "identity_mismatch_fields s e = []")
    case True
    then show ?thesis using publishes_ready [OF assms]
      by (simp add: finalize_index_identity_def persisted same_source_def Inr no_mismatch del: fold.simps)
  next
    case False
    then show ?thesis using publishes_error [OF assms(1), of "''source_changed_during_index''"]
      by (simp add: finalize_index_identity_def persisted same_source_def Inr no_mismatch)
  qed
qed

definition published_info :: "reindexed \<Rightarrow> project_info" where
  "published_info r = (case r of Raised info \<Rightarrow> info | Reindexed _ _ _ info \<Rightarrow> info)"

lemma marked_pending:
  "\<exists>d1. mark_pending writable start pending (Some d0) = Some d1 \<and>
     (\<forall>k. k \<notin> set identity_fields \<longrightarrow> dict_get d1 k = dict_get d0 k) \<and> (\<not> pending \<longrightarrow> d1 = d0)"
  by (auto simp: mark_pending_def persisted identity_fields_def get_dels update_conv' split: sum.splits)

text \<open>
  C12. A search-time reindex whose last write succeeds publishes an identity as \<open>ready\<close> exactly when the run
  succeeded, scanned the tree to the end, and the captures before and after it agree on all coherence fields;
  what is published is then the second capture. After any other run there is no identity and the status is not
  \<open>ready\<close>, except that a run that was skipped puts the previous fields back. All fields that are neither
  identity fields nor among those the caller adds are kept.
\<close>

theorem ready_identity_is_current:
  assumes "w 1" "fst ` set ready \<inter> set identity_fields = {}"
  shows "\<exists>d. published_info (auto_reindex_with_identity w start tried en pending ready (Some d0)) = Some d \<and>
    (case tried of
       Some (Inr r) \<Rightarrow>
         if success r \<and> reindex_disposition r \<noteq> Completed then \<forall>k. dict_get d k = dict_get d0 k
         else publishes (if success r then map_option (\<lambda>e. JObj (identity_to_dict e)) (same_source start en) else None) (map fst ready) d0 d
     | _ \<Rightarrow> publishes None [] d0 d)"
proof -
  obtain d1 where i: "mark_pending (w 0) start pending (Some d0) = Some d1"
    and k: "\<And>k. k \<notin> set identity_fields \<Longrightarrow> dict_get d1 k = dict_get d0 k" and n: "\<not> pending \<Longrightarrow> d1 = d0"
    using marked_pending by blast
  note defs = auto_reindex_with_identity_def published_info_def i assms(1) [unfolded One_nat_def] persisted identity_error_def split_beta
  show ?thesis
  proof (cases "\<exists>r. tried = Some (Inr r)")
    case False
    then show ?thesis using publishes_error [OF k, of "''error''"]
      by (cases tried) (auto simp: defs split: sum.splits)
  next
    case True
    then obtain r where r: "tried = Some (Inr r)" by blast
    have skip: "dict_get (puts (read_index_identity_state (Some d0)) (fold dict_del identity_fields d1)) k = dict_get d0 k" for k
      using restored [of k d0 d1] persisted_get [of k "read_index_identity_state (Some d0)" d1] k read_keys [of "Some d0"] by fastforce
    show ?thesis
    proof (cases "success r")
      case False
      then show ?thesis using publishes_error [OF k, of "''error''"] by (simp add: r defs)
    next
      case True
      show ?thesis
      proof (cases "reindex_disposition r = Completed")
        case False
        then show ?thesis using skip True n i by (cases pending) (simp_all add: r defs Let_def)
      next
        case c: True
        show ?thesis
        proof (cases start)
          case (Inl x)
          then show ?thesis using publishes_error [OF k, of "''error''"] True c i
            by (simp add: r defs same_source_def Let_def)
        next
          case (Inr s)
          then show ?thesis using finalize_publishes [OF k assms(2), of en s] True c i
            by (simp add: r defs Let_def)
        qed
      qed
    qed
  qed
qed

definition demo_identity :: "string \<Rightarrow> index_identity" where
  "demo_identity revision = \<lparr>schema_version = 1, repository_id = ''r'', checkout_id = ''c'', source_revision = revision,
     dirty_field = ''clean'', index_generation = ''g'', captured_at = ''t''\<rparr>"

definition demo_result :: index_result where
  "demo_result = (empty_result Completed)\<lparr>files_added := 1, chunks_added := 2\<rparr>"

theorem ready_identity_witness:
  "\<exists>d. published_info (auto_reindex_with_identity (\<lambda>n. n = 1) (Inr (demo_identity ''a'')) (Some (Inr demo_result))
      (Inr (demo_identity ''a'')) True [(''version'', JInt 2)] (Some [(''name'', JStr ''p'')])) = Some d \<and>
    dict_get d ''index_identity'' = Some (JObj (identity_to_dict (demo_identity ''a'')))"
  using ready_identity_is_current [of "\<lambda>n. n = 1" "[(''version'', JInt 2)]" "Inr (demo_identity ''a'')" "Some (Inr demo_result)"
      "Inr (demo_identity ''a'')" True "[(''name'', JStr ''p'')]"]
  by (auto simp: publishes_def demo_result_def empty_result_def same_source_def identity_fields_def list_all_iff)

end
