(* ===== verification/QuerySignals.thy ===== *)
theory QuerySignals
  imports Complex_Main Prelude
begin

text \<open>
  Code signals of a query, \<open>search/query_signals.py\<close>, and the synonym expansion of \<open>search/query_expansion.py\<close>.

  A query is a list of code points below 256. The regular expressions of the source are written as scanners:
  where a repetition is greedy, the scanner takes the longest run, and backs off where the expression can.
  \<open>casefold\<close> is \<open>lower\<close>, which is exact on ASCII. File names contain no line break. Boosts are rationals.
\<close>

subsection \<open>Characters and words\<close>

definition code_point :: "char \<Rightarrow> nat" where
  "code_point c = of_char c"

definition is_upper :: "char \<Rightarrow> bool" where
  "is_upper c \<longleftrightarrow> 65 \<le> code_point c \<and> code_point c \<le> 90"

definition is_lower :: "char \<Rightarrow> bool" where
  "is_lower c \<longleftrightarrow> 97 \<le> code_point c \<and> code_point c \<le> 122"

definition ident_start :: "char \<Rightarrow> bool" where
  "ident_start c \<longleftrightarrow> is_upper c \<or> is_lower c \<or> c = CHR ''_''"

definition ident_char :: "char \<Rightarrow> bool" where
  "ident_char c \<longleftrightarrow> ident_start c \<or> 48 \<le> code_point c \<and> code_point c \<le> 57"

definition token_char :: "char \<Rightarrow> bool" where
  "token_char c \<longleftrightarrow> ident_char c \<or> c = CHR ''.'' \<or> c = CHR ''-''"

text \<open>\<open>\w\<close> of a Python pattern, on Latin-1.\<close>

definition word_char :: "char \<Rightarrow> bool" where
  "word_char c \<longleftrightarrow> ident_char c \<or>
     (let n = code_point c in n \<in> {170, 178, 179, 181, 185, 186, 188, 189, 190} \<or> 192 \<le> n \<and> n \<noteq> 215 \<and> n \<noteq> 247)"

definition line_break :: "char \<Rightarrow> bool" where
  "line_break c \<longleftrightarrow> (let n = code_point c in 10 \<le> n \<and> n \<le> 13 \<or> 28 \<le> n \<and> n \<le> 30 \<or> n = 133)"

text \<open>\<open>findall\<close> of maximal runs that begin with a character of \<open>P\<close> and go on with those of \<open>Q\<close>.\<close>

function runs :: "(char \<Rightarrow> bool) \<Rightarrow> (char \<Rightarrow> bool) \<Rightarrow> string \<Rightarrow> string list" where
  "runs P Q [] = []"
| "runs P Q (c # s) = (if P c then (c # takeWhile Q s) # runs P Q (dropWhile Q s) else runs P Q s)"
  by pat_completeness auto
termination by (relation "measure (\<lambda>(_, _, s). length s)") (auto simp: less_Suc_eq_le length_dropWhile_le)

definition code_tokens :: "string \<Rightarrow> string list" where
  "code_tokens = runs ident_start token_char"

definition words :: "string \<Rightarrow> string list" where
  "words = runs word_char word_char"

definition first_line :: "string \<Rightarrow> string" where
  "first_line s = takeWhile (\<lambda>c. \<not> line_break c) s"

function unify_newlines :: "string \<Rightarrow> string" where
  "unify_newlines [] = []"
| "unify_newlines (c # s) =
     (if c = CHR 0x0D then CHR 0x0A # unify_newlines (if starts_with s [CHR 0x0A] then tl s else s) else c # unify_newlines s)"
  by pat_completeness auto
termination by (relation "measure length") auto

text \<open>The text split at its inline code spans: a back quote, a run without back quotes and line feeds, a back quote.\<close>

datatype piece = Raw char | Code string

function code_pieces :: "bool \<Rightarrow> string \<Rightarrow> piece list" where
  "code_pieces tick [] = []"
| "code_pieces tick (c # s) =
     (let span = takeWhile (\<lambda>c. c \<noteq> CHR ''`'' \<and> c \<noteq> CHR 0x0A) s; rest = dropWhile (\<lambda>c. c \<noteq> CHR ''`'' \<and> c \<noteq> CHR 0x0A) s in
      if c = CHR ''`'' \<and> \<not> tick \<and> span \<noteq> [] \<and> starts_with rest ''`'' \<and> \<not> starts_with (tl rest) ''`''
      then Code span # code_pieces True (tl rest) else Raw c # code_pieces (c = CHR ''`'') s)"
  by pat_completeness auto
termination
  by (relation "measure (\<lambda>(_, s). length s)") (auto simp: less_Suc_eq_le intro: order.trans [OF length_dropWhile_le] order.trans [OF diff_le_self])

definition code_spans :: "string \<Rightarrow> string list" where
  "code_spans s = concat (map (\<lambda>p. case p of Raw _ \<Rightarrow> [] | Code t \<Rightarrow> [t]) (code_pieces False s))"

definition without_spans :: "string \<Rightarrow> string" where
  "without_spans s = map (\<lambda>p. case p of Raw c \<Rightarrow> c | Code _ \<Rightarrow> CHR '' '') (code_pieces False s)"

subsection \<open>Links\<close>

definition after_scheme :: "string \<Rightarrow> string option" where
  "after_scheme s = (if starts_with s ''https://'' then Some (drop 8 s) else if starts_with s ''http://'' then Some (drop 7 s) else None)"

definition no_space :: "char \<Rightarrow> bool" where
  "no_space c \<longleftrightarrow> \<not> py_space c"

lemma after_scheme_length: "after_scheme s = Some r \<Longrightarrow> length r < length s"
  by (cases s) (auto simp: after_scheme_def starts_with_def split: if_splits)

function without_urls :: "string \<Rightarrow> string" where
  "without_urls [] = []"
| "without_urls (c # s) = (case after_scheme (c # s) of
     None \<Rightarrow> c # without_urls s
   | Some r \<Rightarrow> if takeWhile no_space r \<noteq> [] then CHR '' '' # without_urls (dropWhile no_space r) else c # without_urls s)"
  by pat_completeness auto
termination
  by (relation "measure length") (auto dest!: after_scheme_length intro: le_less_trans [OF length_dropWhile_le])

definition hex_any :: "char \<Rightarrow> bool" where
  "hex_any c \<longleftrightarrow> lower_char c \<in> set ''0123456789abcdef''"

text \<open>\<open>/blob/<40 hex>/<path>\<close>: the path and what follows; \<open>blob_path n r\<close> backs off from an owner and name of \<open>n\<close> characters.\<close>

definition blob_tail :: "string \<Rightarrow> (string \<times> string) option" where
  "blob_tail r =
     (let path = takeWhile (\<lambda>c. c \<noteq> CHR ''#'' \<and> no_space c \<and> c \<noteq> CHR '')'') (drop 47 r) in
      if starts_with (lower r) ''/blob/'' \<and> length (take 40 (drop 6 r)) = 40 \<and> list_all hex_any (take 40 (drop 6 r)) \<and>
         starts_with (drop 46 r) ''/'' \<and> path \<noteq> []
      then Some (path, drop (length path) (drop 47 r)) else None)"

fun blob_path :: "nat \<Rightarrow> string \<Rightarrow> (string \<times> string) option" where
  "blob_path 0 r = None"
| "blob_path (Suc n) r = (case blob_tail (drop (Suc n) r) of Some x \<Rightarrow> Some x | None \<Rightarrow> blob_path n r)"

definition github_link :: "string \<Rightarrow> (string \<times> string) option" where
  "github_link s = (if starts_with (lower s) ''https://github.com/''
     then let r = drop 19 s in blob_path (length (takeWhile (\<lambda>c. no_space c \<and> c \<noteq> CHR '')'') r)) r else None)"

lemma blob_tail_length: "blob_tail r = Some (p, t) \<Longrightarrow> length t \<le> length r"
  by (auto simp: blob_tail_def Let_def split: if_splits)

lemma blob_path_length: "blob_path n r = Some (p, t) \<Longrightarrow> length t \<le> length r"
proof (induction n)
  case (Suc n)
  then show ?case using blob_tail_length [of "drop (Suc n) r" p t] by (auto split: option.splits)
qed simp

lemma github_link_length: "github_link s = Some (p, t) \<Longrightarrow> length t < length s"
  by (cases s) (auto simp: github_link_def Let_def lower_def starts_with_def dest!: blob_path_length split: if_splits)

function github_paths :: "string \<Rightarrow> string list" where
  "github_paths [] = []"
| "github_paths (c # s) = (case github_link (c # s) of
     None \<Rightarrow> github_paths s | Some (path, rest) \<Rightarrow> path # github_paths rest)"
  by pat_completeness auto
termination by (relation "measure length") (auto dest!: github_link_length)

subsection \<open>Extraction\<close>

record query_signals =
  original_query :: string
  explicit :: bool
  identifiers :: "string list"
  path_hints :: "string list"
  owner_members :: "(string \<times> string) list"
  lexical_terms :: "string list"

definition stop_words :: "string list" where
  "stop_words = [''about'', ''after'', ''again'', ''against'', ''been'', ''before'', ''being'', ''below'', ''bug'', ''cannot'', ''could'',
     ''current'', ''default'', ''does'', ''from'', ''have'', ''here'', ''into'', ''least'', ''more'', ''not'', ''only'', ''security'',
     ''should'', ''shown'', ''summary'', ''than'', ''that'', ''the'', ''their'', ''then'', ''there'', ''these'', ''this'', ''through'',
     ''when'', ''where'', ''which'', ''with'', ''would'']"

definition known_file_suffixes :: "string list" where
  "known_file_suffixes = [''c'', ''cc'', ''cpp'', ''go'', ''h'', ''hpp'', ''java'', ''js'', ''json'', ''jsx'', ''md'', ''py'', ''rb'', ''rs'',
     ''toml'', ''ts'', ''tsx'', ''yaml'', ''yml'']"

definition term_edge :: "char \<Rightarrow> bool" where
  "term_edge c \<longleftrightarrow> c \<in> set ''`\"()[]{}<>.,:;!?*'' \<or> c = CHR 0x27"

definition dedupe_append :: "string \<Rightarrow> string list \<Rightarrow> string list" where
  "dedupe_append value values =
     (let cleaned = strip_by term_edge (strip_by py_space value) in
      if cleaned = [] \<or> lower cleaned \<in> lower ` set values then values else values @ [cleaned])"

definition is_identifier :: "string \<Rightarrow> bool" where
  "is_identifier s \<longleftrightarrow> s \<noteq> [] \<and> ident_start (hd s) \<and> list_all ident_char s"

definition dotted :: "string \<Rightarrow> string list" where
  "dotted = split_by (\<lambda>c. c = CHR ''.'')"

definition is_owner_member :: "string \<Rightarrow> bool" where
  "is_owner_member value = (case dotted value of
     [owner, member] \<Rightarrow> lower member \<notin> set known_file_suffixes \<and> is_identifier owner \<and> is_identifier member
   | _ \<Rightarrow> False)"

definition add_identifier :: "string \<Rightarrow> query_signals \<Rightarrow> query_signals" where
  "add_identifier value s =
     (let cleaned = (let v = strip_by py_space value in if ends_with v ''()'' then take (length v - 2) v else v) in
      if cleaned = [] then s
      else let s1 = s\<lparr>identifiers := dedupe_append cleaned (identifiers s)\<rparr> in
        case (is_owner_member cleaned, dotted cleaned) of
          (True, [owner, member]) \<Rightarrow>
            s1\<lparr>owner_members := (if (lower owner, lower member) \<in> set (owner_members s) then owner_members s
                                 else owner_members s @ [(lower owner, lower member)]),
               lexical_terms := dedupe_append member (dedupe_append owner (lexical_terms s))\<rparr>
        | _ \<Rightarrow> s1\<lparr>lexical_terms := dedupe_append cleaned (lexical_terms s)\<rparr>)"

definition add_path :: "string \<Rightarrow> query_signals \<Rightarrow> query_signals" where
  "add_path raw s =
     (let path = strip_by (\<lambda>c. c \<in> set ''.,:;!?'') raw in
      s\<lparr>path_hints := dedupe_append path (path_hints s), lexical_terms := dedupe_append path (lexical_terms s)\<rparr>)"

fun camel :: "string \<Rightarrow> bool" where
  "camel (a # b # s) \<longleftrightarrow> is_lower a \<and> is_upper b \<or> camel (b # s)"
| "camel _ \<longleftrightarrow> False"

definition all_caps :: "string \<Rightarrow> bool" where
  "all_caps t \<longleftrightarrow> list_ex is_upper t \<and> \<not> list_ex is_lower t"

definition token_edge :: "char \<Rightarrow> bool" where
  "token_edge c \<longleftrightarrow> c \<in> set ''._-''"

definition explicit_token :: "string \<Rightarrow> bool" where
  "explicit_token t \<longleftrightarrow> CHR ''_'' \<in> set t \<or> CHR ''.'' \<in> set t \<or> (all_caps t \<and> 2 \<le> length t \<and> length t \<le> 16) \<or> camel t"

fun add_terms :: "nat \<Rightarrow> string list \<Rightarrow> string list \<Rightarrow> string list" where
  "add_terms limit [] terms = terms"
| "add_terms limit (token # tokens) terms =
     (let cleaned = strip_by token_edge token in
      if length cleaned < 3 \<or> lower cleaned \<in> set stop_words then add_terms limit tokens terms
      else let terms1 = (if CHR ''.'' \<in> set cleaned \<and> is_owner_member cleaned then fold dedupe_append (dotted cleaned) terms
                         else dedupe_append cleaned terms)
           in if limit \<le> length terms1 then terms1 else add_terms limit tokens terms1)"

definition no_signals :: "string \<Rightarrow> query_signals" where
  "no_signals query = \<lparr>original_query = query, explicit = False, identifiers = [], path_hints = [], owner_members = [], lexical_terms = []\<rparr>"

definition extract_query_signals :: "nat \<Rightarrow> string \<Rightarrow> query_signals" where
  "extract_query_signals limit query =
     (let normalized = strip_by py_space (unify_newlines query);
          s1 = fold add_identifier (concat (map code_tokens (code_spans normalized))) (no_signals query);
          s2 = fold add_path (github_paths normalized) s1;
          without_code = without_spans (without_urls normalized);
          s3 = fold add_identifier (filter explicit_token (map (strip_by token_edge) (code_tokens without_code))) s2;
          has_explicit = (identifiers s3 \<noteq> [] \<or> path_hints s3 \<noteq> []);
          terms = (if has_explicit
            then add_terms limit (code_tokens (first_line normalized @ [CHR 0x0A] @ without_code)) (lexical_terms s3)
            else lexical_terms s3)
      in s3\<lparr>explicit := has_explicit, lexical_terms := take limit terms\<rparr>)"

definition build_lexical_query :: "string \<Rightarrow> string" where
  "build_lexical_query query =
     (let s = extract_query_signals 12 query in
      if \<not> explicit s \<or> lexical_terms s = [] then query else join '' '' (lexical_terms s))"

subsection \<open>Boosts\<close>

definition forward_slashes :: "string \<Rightarrow> string" where
  "forward_slashes p = map (\<lambda>c. if c = CHR 0x5C then CHR ''/'' else c) p"

definition path_parts :: "string \<Rightarrow> string list" where
  "path_parts p = filter (\<lambda>x. x \<noteq> [] \<and> x \<noteq> ''.'') (split_by (\<lambda>c. c = CHR ''/'') p)"

definition path_name :: "string \<Rightarrow> string" where
  "path_name p = (if path_parts p = [] then [] else List.last (path_parts p))"

text \<open>\<open>stem\<close> and \<open>suffix\<close> split the name at its last dot, unless that is its first or last character.\<close>

definition stem_suffix :: "string \<Rightarrow> string \<times> string" where
  "stem_suffix name =
     (let ext = takeWhile (\<lambda>c. c \<noteq> CHR ''.'') (rev name); stem = take (length name - length ext - 1) name in
      if length ext < length name \<and> ext \<noteq> [] \<and> stem \<noteq> [] then (stem, CHR ''.'' # rev ext) else (name, []))"

definition test_name :: "string \<Rightarrow> bool" where
  "test_name name \<longleftrightarrow> starts_with name ''test_'' \<or> ends_with name ''_test.py'' \<or>
     (case rev (dotted name) of ext # kind # _ # _ \<Rightarrow> ext \<noteq> [] \<and> kind \<in> {''test'', ''spec''} | _ \<Rightarrow> False)"

definition mentions :: "string list \<Rightarrow> string \<Rightarrow> bool" where
  "mentions ws title \<longleftrightarrow> list_ex (\<lambda>w. lower w \<in> set ws) (words title)"

definition calculate_artifact_role_boost :: "string \<Rightarrow> string \<Rightarrow> string \<Rightarrow> rat" where
  "calculate_artifact_role_boost query relative_path content_mode =
     (if content_mode \<noteq> ''code'' then 1
      else let title = first_line query; path = lower (forward_slashes relative_path); parts = set (path_parts path);
               name = path_name path;
               is_test = (''test'' \<in> parts \<or> ''tests'' \<in> parts \<or> test_name name);
               is_doc = (''doc'' \<in> parts \<or> ''docs'' \<in> parts \<or> ''documentation'' \<in> parts \<or> snd (stem_suffix name) \<in> {''.md'', ''.rst''})
           in if is_test \<and> \<not> mentions [''test'', ''tests'', ''testing'', ''spec'', ''specs''] title then 82 / 100
              else if is_doc \<and> \<not> mentions [''doc'', ''docs'', ''documentation'', ''readme'', ''guide'', ''tutorial''] title then 82 / 100
              else 1)"

fun contains_from :: "bool \<Rightarrow> string \<Rightarrow> string \<Rightarrow> bool" where
  "contains_from prev [] token \<longleftrightarrow> \<not> prev \<and> token = []"
| "contains_from prev (c # v) token \<longleftrightarrow>
     \<not> prev \<and> starts_with (c # v) token \<and> (case drop (length token) (c # v) of [] \<Rightarrow> True | d # _ \<Rightarrow> \<not> ident_char d) \<or>
     contains_from (ident_char c) v token"

definition contains_token :: "string \<Rightarrow> string \<Rightarrow> bool" where
  "contains_token value token = contains_from False (lower value) (lower token)"

definition path_hint_boost :: "string \<Rightarrow> string \<Rightarrow> rat \<Rightarrow> rat" where
  "path_hint_boost path hint boost =
     (let h = lower (forward_slashes hint) in
      if path = h \<or> ends_with path (''/'' @ h) then max boost 3
      else if path_name path = path_name h then max boost (16 / 10) else boost)"

definition owner_boost :: "string \<Rightarrow> string \<Rightarrow> string \<Rightarrow> string \<Rightarrow> string \<times> string \<Rightarrow> rat \<Rightarrow> rat" where
  "owner_boost name parent stem content om boost =
     (case om of (owner, member) \<Rightarrow>
        let owner_match = (owner \<in> {name, parent, stem}); member_match = (find_sub name member \<noteq> None \<or> find_sub content member \<noteq> None) in
        if owner_match \<and> member_match then max boost (18 / 10) else if member_match then max boost (112 / 100) else boost)"

definition identifier_found :: "string \<Rightarrow> string \<Rightarrow> string \<Rightarrow> string \<Rightarrow> string \<Rightarrow> bool" where
  "identifier_found name parent path content ident \<longleftrightarrow> \<not> is_owner_member ident \<and>
     (contains_token name ident \<or> contains_token parent ident \<or> contains_token path ident \<or> contains_token content ident)"

definition identifier_boost :: "string \<Rightarrow> string \<Rightarrow> string \<Rightarrow> string \<Rightarrow> string \<Rightarrow> string \<Rightarrow> nat \<times> rat \<Rightarrow> nat \<times> rat" where
  "identifier_boost name parent path stem content ident mb =
     (case mb of (matched, boost) \<Rightarrow>
        if identifier_found name parent path content ident
        then (matched + 1, if lower ident \<in> {name, parent, stem} then max boost (14 / 10) else boost)
        else mb)"

definition calculate_signal_boost :: "query_signals \<Rightarrow> string \<Rightarrow> string \<Rightarrow> string \<Rightarrow> string \<Rightarrow> rat" where
  "calculate_signal_boost s relative_path raw_name raw_parent full_content =
     (if \<not> explicit s then 1
      else let path = lower (forward_slashes relative_path); name = lower raw_name; parent = lower raw_parent; content = lower full_content;
               b1 = fold (path_hint_boost path) (path_hints s) 1;
               stem = fst (stem_suffix (path_name path));
               b2 = fold (owner_boost name parent stem content) (owner_members s) b1;
               (matched, b3) = fold (identifier_boost name parent path stem content) (identifiers s) (0, b2);
               b4 = (if matched \<noteq> 0 then max b3 (1 + of_nat (min matched 1) * 2) else b3)
           in min b4 3)"

subsection \<open>Synonyms\<close>

text \<open>\<open>synonyms\<close> is the active profile with its overlay, in insertion order.\<close>

definition query_stem :: "string \<Rightarrow> string" where
  "query_stem token = (case filter (\<lambda>x. ends_with token x \<and> length x + 2 < length token) [''tion'', ''ing'', ''ed'', ''s''] of
     [] \<Rightarrow> token | x # _ \<Rightarrow> take (length token - length x) token)"

definition add_synonym :: "string \<Rightarrow> string list \<Rightarrow> string list" where
  "add_synonym syn expanded = (if lower syn \<in> lower ` set expanded then expanded else expanded @ [syn])"

definition expand_token :: "(string \<times> string list) list \<Rightarrow> string \<Rightarrow> string list \<Rightarrow> string list" where
  "expand_token synonyms token expanded =
     (case filter (\<lambda>(key, syns). token = key \<or> query_stem token = key \<or> token \<in> set syns) synonyms of
        [] \<Rightarrow> expanded | (_, syns) # _ \<Rightarrow> fold add_synonym syns expanded)"

definition expand_code_query :: "(string \<times> string list) list \<Rightarrow> string \<Rightarrow> string" where
  "expand_code_query synonyms query =
     (let tokens = py_split (lower query); expanded = fold (expand_token synonyms) tokens tokens in
      if expanded = tokens then query else join '' '' expanded)"

end
