(* ===== verification/QuerySignals_Bounds.thy ===== *)
theory QuerySignals_Bounds
  imports QuerySignals
begin

text \<open>
  What the signals of a query can do: the boost of a candidate takes five values, and the terms handed to
  the keyword search are few, distinct and not empty.
\<close>

lemma fold_closed: "(\<And>x b. b \<in> A \<Longrightarrow> f x b \<in> A) \<Longrightarrow> b \<in> A \<Longrightarrow> fold f xs b \<in> A"
  by (induction xs arbitrary: b) auto

subsection \<open>Boosts\<close>

definition boost_levels :: "rat set" where
  "boost_levels = {1, 112 / 100, 16 / 10, 18 / 10, 3}"

lemma hint_levels: "b \<in> boost_levels \<Longrightarrow> path_hint_boost path h b \<in> boost_levels"
  by (auto simp: path_hint_boost_def boost_levels_def Let_def max_def)

lemma owner_levels: "b \<in> boost_levels \<Longrightarrow> owner_boost n p st c om b \<in> boost_levels"
  by (cases om) (auto simp: owner_boost_def boost_levels_def Let_def max_def)

lemma identifiers_counted:
  "b \<le> 3 \<Longrightarrow> fst (fold (identifier_boost n p path st c) ids (m, b)) = m + length (filter (identifier_found n p path c) ids) \<and>
     snd (fold (identifier_boost n p path st c) ids (m, b)) \<le> 3"
  by (induction ids arbitrary: m b) (auto simp: identifier_boost_def)

lemma identifiers_absent:
  "\<not> list_ex (identifier_found n p path c) ids \<Longrightarrow> fold (identifier_boost n p path st c) ids (m, b) = (m, b)"
  by (induction ids) (auto simp: identifier_boost_def)


subsection \<open>Terms\<close>

definition terms_ok :: "string list \<Rightarrow> bool" where
  "terms_ok ts \<longleftrightarrow> distinct (map lower ts) \<and> [] \<notin> set ts"

lemma dedupe_append_ok: "terms_ok ts \<Longrightarrow> terms_ok (dedupe_append v ts)"
  by (auto simp: terms_ok_def dedupe_append_def Let_def)

lemma fold_dedupe_ok: "terms_ok ts \<Longrightarrow> terms_ok (fold dedupe_append vs ts)"
  by (induction vs arbitrary: ts) (auto simp: dedupe_append_ok)

lemma add_terms_ok: "terms_ok ts \<Longrightarrow> terms_ok (add_terms limit tokens ts)"
  by (induction tokens arbitrary: ts) (auto simp: Let_def dedupe_append_ok fold_dedupe_ok)

lemma add_identifier_ok: "terms_ok (lexical_terms s) \<Longrightarrow> terms_ok (lexical_terms (add_identifier v s))"
  by (auto simp: add_identifier_def Let_def dedupe_append_ok split: list.splits bool.splits)

lemma add_path_ok: "terms_ok (lexical_terms s) \<Longrightarrow> terms_ok (lexical_terms (add_path v s))"
  by (simp add: add_path_def Let_def dedupe_append_ok)

lemma fold_signals_ok:
  "(\<And>v s. terms_ok (lexical_terms s) \<Longrightarrow> terms_ok (lexical_terms (f v s))) \<Longrightarrow> terms_ok (lexical_terms s) \<Longrightarrow>
     terms_ok (lexical_terms (fold f vs s))"
  by (induction vs arbitrary: s) auto

lemma lexical_terms_ok:
  "length (lexical_terms (extract_query_signals limit query)) \<le> limit \<and> terms_ok (lexical_terms (extract_query_signals limit query))"
proof -
  have t: "terms_ok (take n ts)" if "terms_ok ts" for n ts
    using that by (auto simp: terms_ok_def take_map [symmetric] dest: in_set_takeD intro: distinct_take)
  have "terms_ok (lexical_terms (no_signals query))" by (simp add: no_signals_def terms_ok_def)
  then have "terms_ok (lexical_terms (extract_query_signals limit query))"
    by (simp add: extract_query_signals_def Let_def t add_terms_ok fold_signals_ok add_identifier_ok add_path_ok)
  then show ?thesis by (simp add: extract_query_signals_def Let_def)
qed

end
