(* ===== verification/Rerank.thy ===== *)
theory Rerank
  imports QuerySignals "HOL-Library.Product_Lexorder"
begin

text \<open>
  The rerankers: the judge's prompt and its reply (\<open>search/llm_judge.py\<close>), the pointwise engines
  (\<open>search/sonnet_reranker.py\<close>, \<open>search/openai_reranker.py\<close>), the listwise engine
  (\<open>search/listwise_sonnet_reranker.py\<close>) and the local cross-encoder (\<open>search/reranker.py\<close>).

  What the model answers is a parameter, with what can go wrong on the way; \<open>json.loads\<close> is one too, its
  numbers are integers. Environment variables are read once. Latencies and logging are left out.
\<close>

record stage_meta =
  sm_applied :: bool
  sm_reason :: string

text \<open>A candidate as an engine gets it, with the search result it stands for.\<close>

record 'c judged =
  jc_path :: string
  jc_content :: string
  jc_orig :: 'c

subsection \<open>Environment variables\<close>

definition is_digit :: "char \<Rightarrow> bool" where
  "is_digit c \<longleftrightarrow> 48 \<le> code_point c \<and> code_point c \<le> 57"

text \<open>\<open>int(s)\<close>: digits in groups joined by single underscores, a sign, white space around.\<close>

definition py_nat :: "string \<Rightarrow> int option" where
  "py_nat s = (let groups = split_by (\<lambda>c. c = CHR ''_'') s in
     if list_all (\<lambda>g. g \<noteq> [] \<and> list_all is_digit g) groups
     then Some (fold (\<lambda>c n. 10 * n + (int (code_point c) - 48)) (concat groups) 0) else None)"

definition py_int :: "string \<Rightarrow> int option" where
  "py_int raw = (case strip_by py_space raw of
     [] \<Rightarrow> None
   | c # s \<Rightarrow> if c = CHR ''-'' then map_option uminus (py_nat s) else if c = CHR ''+'' then py_nat s else py_nat (c # s))"

record judge_config =
  jg_loads :: "string \<Rightarrow> json option"
  jg_threshold :: "string option"
  jg_path_overrides :: "string option"
  jg_clause_overrides :: "string option"
  jg_pool_size :: "string option"

definition base_threshold :: "judge_config \<Rightarrow> int" where
  "base_threshold cfg = (case jg_threshold cfg of None \<Rightarrow> 6 | Some raw \<Rightarrow> (case py_int raw of None \<Rightarrow> 6 | Some n \<Rightarrow> n))"

definition resolve_pool_size :: "judge_config \<Rightarrow> nat" where
  "resolve_pool_size cfg = (case jg_pool_size cfg of
     None \<Rightarrow> 0 | Some raw \<Rightarrow> (case py_int raw of None \<Rightarrow> 0 | Some n \<Rightarrow> if 0 < n then nat n else 0))"

definition parse_object :: "(string \<Rightarrow> json option) \<Rightarrow> string option \<Rightarrow> (string \<times> json) list" where
  "parse_object loads raw = (case raw of
     None \<Rightarrow> [] | Some s \<Rightarrow> if s = [] then [] else (case loads s of Some (JObj ob) \<Rightarrow> ob | _ \<Rightarrow> []))"

definition parse_path_overrides :: "judge_config \<Rightarrow> (string, int) dict" where
  "parse_path_overrides cfg =
     fold (\<lambda>(k, v) out. case v of JInt n \<Rightarrow> dict_put (forward_slashes k) n out
         | JBool b \<Rightarrow> dict_put (forward_slashes k) (of_bool b) out | _ \<Rightarrow> out)
       (parse_object (jg_loads cfg) (jg_path_overrides cfg)) []"

definition parse_clause_overrides :: "judge_config \<Rightarrow> (string, string) dict" where
  "parse_clause_overrides cfg =
     fold (\<lambda>(k, v) out. case v of JStr s \<Rightarrow> dict_put (forward_slashes k) s out | _ \<Rightarrow> out)
       (parse_object (jg_loads cfg) (jg_clause_overrides cfg)) []"

definition effective_threshold :: "'c judged list \<Rightarrow> int \<Rightarrow> (string, int) dict \<Rightarrow> int" where
  "effective_threshold cs base overrides =
     fold (\<lambda>c eff. if jc_path c = [] then eff
        else fold (\<lambda>(pre, v) eff. if starts_with (forward_slashes (jc_path c)) pre \<and> base < v \<and> eff < v then v else eff) overrides eff)
       cs base"

definition matching_clauses :: "string \<Rightarrow> (string, string) dict \<Rightarrow> string list" where
  "matching_clauses path overrides =
     (if path = [] then [] else map snd (sort_key fst (filter (\<lambda>(pre, _). starts_with (forward_slashes path) pre) overrides)))"

subsection \<open>The judge\<close>

text \<open>The fields the prompt is rendered from: path, content cut at 4000 characters, additional clauses.\<close>

definition judge_prompt :: "string \<Rightarrow> string \<Rightarrow> string \<Rightarrow> string \<times> string \<times> string" where
  "judge_prompt path content extra =
     (if path = [] then ''(unknown)'' else path,
      let cut = (if 4000 < length content then take 4000 content else content) in if cut = [] then ''(empty content)'' else cut, extra)"

definition prompt_for :: "(string, string) dict \<Rightarrow> 'c judged \<Rightarrow> string \<times> string \<times> string" where
  "prompt_for clauses c =
     (let matched = matching_clauses (jc_path c) clauses in
      judge_prompt (jc_path c) (jc_content c) (if matched = [] then [] else [CHR 0x0A] @ join [CHR 0x0A] matched))"

definition strip_code_fences :: "string \<Rightarrow> string" where
  "strip_code_fences raw =
     (let text = strip_by py_space raw in
      if starts_with text ''```''
      then join [CHR 0x0A] (filter (\<lambda>line. \<not> starts_with line ''```'') (split_by (\<lambda>c. c = CHR 0x0A) text)) else text)"

definition score_value :: "json \<Rightarrow> int option" where
  "score_value v = (case v of JInt n \<Rightarrow> Some n | JBool b \<Rightarrow> Some (of_bool b) | JStr s \<Rightarrow> py_int s | _ \<Rightarrow> None)"

definition parse_score :: "(string \<Rightarrow> json option) \<Rightarrow> string \<Rightarrow> int option" where
  "parse_score loads text = (case loads (strip_code_fences text) of
     Some (JObj ob) \<Rightarrow> map_option (\<lambda>n. max 0 (min 10 n)) (score_value (case dict_get ob ''score'' of None \<Rightarrow> JInt 0 | Some v \<Rightarrow> v))
   | _ \<Rightarrow> None)"

datatype call_error = RateLimited | TimedOut | HttpError | Unparseable | EmptyReply

datatype verdict = Score int | Failed call_error

text \<open>
  An exception of the client library with its causes, as class names and messages, or the text of the
  first text block. The other engine sees a timeout, a status, or another exception.
\<close>

datatype sonnet_reply = Raised "(string \<times> string) list" | Text string

definition has_sub :: "string \<Rightarrow> string \<Rightarrow> bool" where
  "has_sub s p \<longleftrightarrow> find_sub s p \<noteq> None"

fun classify_call_error :: "(string \<times> string) list \<Rightarrow> call_error" where
  "classify_call_error [] = HttpError"
| "classify_call_error ((cls, msg) # causes) =
     (let c = lower cls; m = lower msg in
      if has_sub c ''ratelimit'' \<or> has_sub c ''rate_limit'' \<or> (has_sub m ''rate'' \<and> has_sub m ''limit'') \<or> has_sub m ''429'' then RateLimited
      else if has_sub c ''timeout'' \<or> has_sub m ''timeout'' then TimedOut
      else classify_call_error causes)"

definition score_sonnet :: "(string \<Rightarrow> json option) \<Rightarrow> sonnet_reply \<Rightarrow> verdict" where
  "score_sonnet loads r = (case r of
     Raised ex \<Rightarrow> Failed (classify_call_error ex)
   | Text raw \<Rightarrow> (let t = strip_by py_space raw in
       if t = [] then Failed EmptyReply else (case parse_score loads t of None \<Rightarrow> Failed Unparseable | Some n \<Rightarrow> Score n)))"

datatype openai_reply = CallTimeout | Status nat | OtherError | Answer string

definition score_openai :: "(string \<Rightarrow> json option) \<Rightarrow> openai_reply \<Rightarrow> verdict" where
  "score_openai loads r = (case r of
     CallTimeout \<Rightarrow> Failed TimedOut
   | Status n \<Rightarrow> Failed (if n = 429 then RateLimited else HttpError)
   | OtherError \<Rightarrow> Failed HttpError
   | Answer t \<Rightarrow> (case parse_score loads t of None \<Rightarrow> Failed Unparseable | Some n \<Rightarrow> Score n))"

subsection \<open>Pointwise reranking\<close>

definition keep_order :: "int \<Rightarrow> 'c list \<Rightarrow> string \<Rightarrow> 'c list \<times> stage_meta" where
  "keep_order k cs why = (py_slice cs 0 k, \<lparr>sm_applied = False, sm_reason = why\<rparr>)"

definition aggregate_failure_reason :: "call_error list \<Rightarrow> string" where
  "aggregate_failure_reason fs =
     (let most = Max (insert 0 (count_list fs ` set fs)); often = (\<lambda>t. 0 < count_list fs t \<and> most \<le> count_list fs t + 1) in
      if often RateLimited then ''rate_limit'' else if often TimedOut then ''timeout'' else ''too_many_failures'')"

definition failures_of :: "verdict list \<Rightarrow> call_error list" where
  "failures_of vs = concat (map (\<lambda>v. case v of Failed e \<Rightarrow> [e] | Score _ \<Rightarrow> []) vs)"

definition scores_of :: "verdict list \<Rightarrow> int list" where
  "scores_of vs = concat (map (\<lambda>v. case v of Score n \<Rightarrow> [n] | Failed _ \<Rightarrow> []) vs)"

definition verdict_key :: "nat \<times> verdict \<times> 'c \<Rightarrow> bool \<times> int \<times> nat" where
  "verdict_key x = (case x of (i, Score n, _) \<Rightarrow> (False, - n, i) | (i, Failed _, _) \<Rightarrow> (True, 1, i))"

definition rank_pool :: "verdict list \<Rightarrow> 'c list \<Rightarrow> 'c list" where
  "rank_pool vs pool = map (snd \<circ> snd) (sort_key verdict_key (zip [0..<length pool] (zip vs pool)))"

definition split_pool :: "nat \<Rightarrow> 'c list \<Rightarrow> 'c list \<times> 'c list" where
  "split_pool n cs = (if 0 < n \<and> n < length cs then (take n cs, drop n cs) else (cs, []))"

definition weigh_verdicts :: "judge_config \<Rightarrow> int \<Rightarrow> 'c judged list \<Rightarrow> verdict list \<Rightarrow> 'c judged list \<times> stage_meta" where
  "weigh_verdicts cfg k cs vs =
     (case split_pool (resolve_pool_size cfg) cs of (pool, others) \<Rightarrow>
        if vs \<noteq> [] \<and> 3 * length vs < 10 * length (failures_of vs) then keep_order k cs (aggregate_failure_reason (failures_of vs))
        else if scores_of vs \<noteq> [] \<and> Max (set (scores_of vs)) < effective_threshold cs (base_threshold cfg) (parse_path_overrides cfg)
        then keep_order k cs ''hybrid_prior_fallback''
        else (py_slice (rank_pool vs pool @ others) 0 k, \<lparr>sm_applied = True, sm_reason = ''ok''\<rparr>))"

text \<open>The run of all calls: their replies in the order of the prompts, or what ended it.\<close>

datatype 'r calls = Replies "'r list" | CohortTimeout | AsyncContext | Crash

record sonnet_env =
  so_key :: bool
  so_package :: bool
  so_ask :: "string \<Rightarrow> (string \<times> string \<times> string) list \<Rightarrow> sonnet_reply calls"

definition rerank_with_sonnet :: "judge_config \<Rightarrow> sonnet_env \<Rightarrow> string \<Rightarrow> 'c judged list \<Rightarrow> int \<Rightarrow> 'c judged list \<times> stage_meta" where
  "rerank_with_sonnet cfg env query cs k =
     (if cs = [] then ([], \<lparr>sm_applied = False, sm_reason = ''empty_input''\<rparr>)
      else if \<not> so_key env then keep_order k cs ''api_key_missing''
      else let pool = fst (split_pool (resolve_pool_size cfg) cs);
               asked = so_ask env query (map (prompt_for (parse_clause_overrides cfg)) pool)
           in if asked = AsyncContext then keep_order k cs ''async_context''
              else if \<not> so_package env then keep_order k cs ''package_not_installed''
              else case asked of
                CohortTimeout \<Rightarrow> keep_order k cs ''timeout''
              | Replies rs \<Rightarrow> weigh_verdicts cfg k cs (map (score_sonnet (jg_loads cfg)) rs)
              | _ \<Rightarrow> keep_order k cs ''unexpected_error'')"

record openai_env =
  oa_model :: string
  oa_needs_key :: bool
  oa_key :: string
  oa_auth_ok :: bool
  oa_ask :: "string \<Rightarrow> (string \<times> string \<times> string) list \<Rightarrow> openai_reply calls"

definition rerank_with_openai :: "judge_config \<Rightarrow> openai_env \<Rightarrow> string \<Rightarrow> 'c judged list \<Rightarrow> int \<Rightarrow> 'c judged list \<times> stage_meta" where
  "rerank_with_openai cfg env query cs k =
     (if cs = [] then ([], \<lparr>sm_applied = False, sm_reason = ''empty_input''\<rparr>)
      else if oa_model env = [] then keep_order k cs ''model_not_configured''
      else if oa_needs_key env \<and> oa_key env = [] then keep_order k cs ''api_key_missing''
      else if \<not> oa_auth_ok env then keep_order k cs ''unexpected_error''
      else let pool = fst (split_pool (resolve_pool_size cfg) cs) in
        case oa_ask env query (map (prompt_for (parse_clause_overrides cfg)) pool) of
          CohortTimeout \<Rightarrow> keep_order k cs ''timeout''
        | Replies rs \<Rightarrow> weigh_verdicts cfg k cs (map (score_openai (jg_loads cfg)) rs)
        | _ \<Rightarrow> keep_order k cs ''unexpected_error'')"

subsection \<open>Listwise reranking\<close>

fun decimal :: "nat \<Rightarrow> string" where
  "decimal n = (if n < 10 then [char_of (48 + n)] else decimal (n div 10) @ [char_of (48 + n mod 10)])"

declare decimal.simps [simp del]

definition candidate_id :: "nat \<Rightarrow> string" where
  "candidate_id i = CHR ''C'' # (if i + 1 < 10 then ''0'' else []) @ decimal (i + 1)"

text \<open>The first balanced block in braces, with string literals and escapes skipped.\<close>

fun close_block :: "nat \<Rightarrow> bool \<Rightarrow> bool \<Rightarrow> string \<Rightarrow> string option" where
  "close_block depth quoted escaped [] = None"
| "close_block depth quoted escaped (c # s) =
     (if escaped then map_option (Cons c) (close_block depth quoted False s)
      else if c = CHR 0x5C then map_option (Cons c) (close_block depth quoted True s)
      else if c = CHR ''\"'' then map_option (Cons c) (close_block depth (\<not> quoted) False s)
      else if quoted then map_option (Cons c) (close_block depth quoted False s)
      else if c = CHR ''{'' then map_option (Cons c) (close_block (depth + 1) quoted False s)
      else if c = CHR ''}'' then (if depth = 1 then Some [c] else map_option (Cons c) (close_block (depth - 1) quoted False s))
      else map_option (Cons c) (close_block depth quoted False s))"

definition extract_json_block :: "string \<Rightarrow> string option" where
  "extract_json_block text = close_block 0 False False (dropWhile (\<lambda>c. c \<noteq> CHR ''{'') text)"

definition unfence :: "string \<Rightarrow> string" where
  "unfence raw =
     (let text = strip_by py_space raw in
      if starts_with text ''```''
      then let t1 = (if CHR 0x0A \<in> set text then tl (dropWhile (\<lambda>c. c \<noteq> CHR 0x0A) text) else text);
               t2 = (if ends_with t1 ''```'' then take (length t1 - 3) t1 else t1)
           in strip_by py_space t2
      else text)"

definition read_reply :: "(string \<Rightarrow> json option) \<Rightarrow> string \<Rightarrow> json option" where
  "read_reply loads raw =
     (let text = unfence raw in
      case loads text of Some v \<Rightarrow> Some v
      | None \<Rightarrow> (case extract_json_block text of None \<Rightarrow> None | Some block \<Rightarrow> loads block))"

fun as_strings :: "json list \<Rightarrow> string list option" where
  "as_strings [] = Some []"
| "as_strings (JStr s # vs) = map_option (Cons s) (as_strings vs)"
| "as_strings (_ # vs) = None"

fun follow_ids :: "(string \<times> nat) list \<Rightarrow> string set \<Rightarrow> string list \<Rightarrow> nat list option" where
  "follow_ids ids seen [] = (if \<forall>x \<in> set ids. fst x \<in> seen then Some [] else None)"
| "follow_ids ids seen (cid # rest) =
     (if cid \<in> seen then None
      else case dict_get ids cid of None \<Rightarrow> None | Some i \<Rightarrow> map_option (Cons i) (follow_ids ids (insert cid seen) rest))"

definition validate_response :: "(string \<Rightarrow> json option) \<Rightarrow> (string \<times> nat) list \<Rightarrow> string \<Rightarrow> string + nat list" where
  "validate_response loads ids raw = (case read_reply loads raw of
     Some (JObj ob) \<Rightarrow>
       (case dict_get ob ''ranked_ids'' of
          Some (JArr vs) \<Rightarrow>
            (case as_strings vs of
               None \<Rightarrow> Inl ''parse_failed''
             | Some names \<Rightarrow> (case follow_ids ids {} names of None \<Rightarrow> Inl ''id_mismatch'' | Some order \<Rightarrow> Inr order))
        | _ \<Rightarrow> Inl ''parse_failed'')
   | _ \<Rightarrow> Inl ''parse_failed'')"

text \<open>
  \<open>random.Random(0).shuffle\<close>: from the last position down, each is exchanged with one not above it; \<open>draw i\<close>
  is the number the generator gives for position \<open>i\<close>, cut to the range it is drawn from.
\<close>

definition exchange :: "nat \<Rightarrow> nat \<Rightarrow> nat list \<Rightarrow> nat list" where
  "exchange i j xs = xs[j := xs ! i, i := xs ! j]"

definition shuffled :: "(nat \<Rightarrow> nat) \<Rightarrow> nat \<Rightarrow> nat list" where
  "shuffled draw n = fold (\<lambda>i. exchange i (draw i mod (i + 1))) (rev [1..<n]) [0..<n]"

text \<open>\<open>li_ask\<close> gets the query and the candidates in the order of presentation.\<close>

datatype listwise_reply = RaisedWith string | BadShape | TextParts string

record 'c listwise_env =
  li_loads :: "string \<Rightarrow> json option"
  li_key :: bool
  li_package :: bool
  li_draw :: "nat \<Rightarrow> nat"
  li_ask :: "string \<Rightarrow> (string \<times> nat \<times> 'c judged) list \<Rightarrow> listwise_reply"

definition listwise_rerank_with_sonnet :: "'c listwise_env \<Rightarrow> string \<Rightarrow> 'c judged list \<Rightarrow> int \<Rightarrow> 'c judged list \<times> stage_meta" where
  "listwise_rerank_with_sonnet env query cs k =
     (if cs = [] then ([], \<lparr>sm_applied = False, sm_reason = ''empty_input''\<rparr>)
      else if \<not> li_key env then keep_order k cs ''api_key_missing''
      else if \<not> li_package env then keep_order k cs ''package_not_installed''
      else let order = shuffled (li_draw env) (length cs); ids = zip (map candidate_id [0..<length order]) order in
        case li_ask env query (map (\<lambda>(cid, i). (cid, i + 1, cs ! i)) ids) of
          RaisedWith msg \<Rightarrow>
            (let m = lower msg in
             if has_sub m ''rate'' \<and> has_sub m ''limit'' then keep_order k cs ''rate_limit''
             else if has_sub m ''timeout'' \<or> has_sub m ''timed out'' then keep_order k cs ''timeout''
             else keep_order k cs ''unexpected_error'')
        | BadShape \<Rightarrow> keep_order k cs ''unexpected_error''
        | TextParts raw \<Rightarrow>
            if raw = [] then keep_order k cs ''parse_failed''
            else (case validate_response (li_loads env) ids raw of
                Inl why \<Rightarrow> keep_order k cs why
              | Inr positions \<Rightarrow> (py_slice (map (\<lambda>i. cs ! i) positions) 0 k, \<lparr>sm_applied = True, sm_reason = ''ok''\<rparr>)))"

subsection \<open>The cross-encoder\<close>

text \<open>\<open>predict\<close> is the model's \<open>predict\<close> on pairs of query and content; \<open>zip\<close> stops at the shorter list.\<close>

definition rerank_results :: "((string \<times> string) list \<Rightarrow> rat list) \<Rightarrow> string \<Rightarrow> 'c judged list \<Rightarrow> int \<Rightarrow> (rat \<times> 'c judged) list" where
  "rerank_results predict query cs k =
     (if cs = [] then [] else py_slice (sorted_desc fst (zip (predict (map (\<lambda>c. (query, jc_content c)) cs)) cs)) 0 k)"

end
