(* ===== verification/HybridSearch.thy ===== *)
theory HybridSearch
  imports Rerank IndexSearch
begin

text \<open>
  Answering a query: \<open>search/searcher.py\<close> (modes, query cache, ranking), \<open>search/retrieval.py\<close> (candidates),
  \<open>search/fusion.py\<close>, \<open>search/pipeline.py\<close> and the modes of \<open>search/reranker_registry.py\<close>.

  Scores are rationals in place of floats. The embedder, the query rewriter, the page-rank scorer and the
  models behind the rerankers are fields of the environment. The state is the index's working set, the cache
  of query embeddings and the two records of what the optional stages did.
\<close>

subsection \<open>Rank fusion\<close>

definition add_score :: "string \<Rightarrow> rat \<Rightarrow> (string, rat) dict \<Rightarrow> (string, rat) dict" where
  "add_score cid x scores = dict_put cid (dict_get_or scores cid 0 + x) scores"

fun add_ranked :: "rat \<Rightarrow> nat \<Rightarrow> nat \<Rightarrow> string list \<Rightarrow> (string, rat) dict \<Rightarrow> (string, rat) dict" where
  "add_ranked w k rank [] scores = scores"
| "add_ranked w k rank (cid # ids) scores = add_ranked w k (rank + 1) ids (add_score cid (w * (1 / of_nat (k + rank + 1))) scores)"

definition reciprocal_rank_fusion ::
    "(string \<times> rat) list \<Rightarrow> (string \<times> rat) list \<Rightarrow> nat \<Rightarrow> rat \<Rightarrow> rat \<Rightarrow> (string \<times> rat) list" where
  "reciprocal_rank_fusion vector_results bm25_results k vector_weight bm25_weight =
     sorted_desc snd (add_ranked bm25_weight k 0 (map fst bm25_results) (add_ranked vector_weight k 0 (map fst vector_results) []))"

definition chunk_type_boosts :: "string \<Rightarrow> (string, rat) dict" where
  "chunk_type_boosts mode =
     (if mode = ''code'' then
        [(''function'', 13/10), (''method'', 13/10), (''class'', 13/10), (''decorated_definition'', 13/10), (''let'', 13/10),
         (''binding'', 13/10), (''option'', 13/10), (''service_config'', 13/10), (''imports'', 11/10), (''section'', 7/10),
         (''document'', 7/10), (''module'', 9/10)]
      else if mode = ''docs'' then
        [(''function'', 8/10), (''method'', 8/10), (''class'', 8/10), (''decorated_definition'', 8/10), (''section'', 13/10),
         (''document'', 13/10), (''module'', 9/10)]
      else [])"

subsection \<open>Configuration, environment and state\<close>

record search_config =
  sc_fusion_k :: nat
  sc_vector_weight :: rat
  sc_bm25_weight :: rat
  sc_content_mode :: string
  sc_query_expansion :: bool
  sc_bm25_rewrite :: bool
  sc_reranker_mode :: string
  sc_skip_threshold :: "rat option"
  sc_default_mode :: string

definition or_half :: "rat \<Rightarrow> rat" where
  "or_half w = (if w = 0 then 1 / 2 else w)"

definition resolve_hybrid_weights :: "search_config \<Rightarrow> rat \<times> rat" where
  "resolve_hybrid_weights cfg =
     (if 0 < sc_vector_weight cfg \<or> 0 < sc_bm25_weight cfg then (or_half (sc_vector_weight cfg), or_half (sc_bm25_weight cfg))
      else if sc_content_mode cfg = ''code'' then (65/100, 35/100)
      else if sc_content_mode cfg = ''docs'' then (7/10, 3/10)
      else (1/2, 1/2))"

record context_info =
  ci_similar :: "(string \<times> rat \<times> json \<times> json) list"
  ci_total_chunks_in_file :: nat
  ci_folder_path :: json

record search_result =
  sr_chunk_id :: string
  sr_similarity_score :: rat
  sr_content_preview :: json
  sr_file_path :: json
  sr_relative_path :: json
  sr_folder_structure :: json
  sr_chunk_type :: json
  sr_name :: json
  sr_parent_name :: json
  sr_start_line :: json
  sr_end_line :: json
  sr_docstring :: json
  sr_tags :: json
  sr_context_info :: "context_info option"

text \<open>\<open>sv_override\<close>: the entries of the boost override, \<open>None\<close> for one that is not a number, which ends the loop.\<close>

record search_env =
  sv_config :: search_config
  sv_lib :: "rat faiss_lib"
  sv_embed :: "string \<Rightarrow> rat list option"
  sv_rewrite :: "string \<Rightarrow> string"
  sv_synonyms :: "(string \<times> string list) list"
  sv_override :: "(string \<times> rat option) list"
  sv_ppr_enabled :: bool
  sv_ppr_alpha :: rat
  sv_ppr_score :: "(string \<times> rat) list \<Rightarrow> string option \<Rightarrow> (string, rat) dict option"
  sv_judge :: judge_config
  sv_sonnet :: sonnet_env
  sv_openai :: openai_env
  sv_listwise :: "search_result listwise_env"
  sv_predict :: "(string \<times> string) list \<Rightarrow> rat list"

record searcher =
  se_store :: "rat store"
  se_cache :: "(string, rat list) dict"
  se_reranker_meta :: stage_meta
  se_ppr_meta :: stage_meta

datatype search_error = EmbeddingFailed | IndexFailed index_error

type_synonym 'r search_run = "searcher \<Rightarrow> (search_error + 'r) \<times> searcher"

definition give :: "'r \<Rightarrow> 'r search_run" where
  "give x st = (Inr x, st)"

definition and_then :: "'r search_run \<Rightarrow> ('r \<Rightarrow> 's search_run) \<Rightarrow> 's search_run" where
  "and_then m f st = (case m st of (Inl e, st1) \<Rightarrow> (Inl e, st1) | (Inr x, st1) \<Rightarrow> f x st1)"

fun map_run :: "('a \<Rightarrow> 'r search_run) \<Rightarrow> 'a list \<Rightarrow> 'r list search_run" where
  "map_run f [] = give []"
| "map_run f (x # xs) = and_then (f x) (\<lambda>y. and_then (map_run f xs) (\<lambda>ys. give (y # ys)))"

definition on_index :: "(rat store \<Rightarrow> (index_error + 'r) \<times> rat store) \<Rightarrow> 'r search_run" where
  "on_index op st = (case op (se_store st) of
     (Inl e, s) \<Rightarrow> (Inl (IndexFailed e), st\<lparr>se_store := s\<rparr>) | (Inr x, s) \<Rightarrow> (Inr x, st\<lparr>se_store := s\<rparr>))"

subsection \<open>The cache of query embeddings\<close>

definition get_query_embedding :: "search_env \<Rightarrow> string \<Rightarrow> rat list search_run" where
  "get_query_embedding env query st =
     (let key = lower (strip_by py_space query); cache = se_cache st in
      case dict_get cache key of
        Some v \<Rightarrow> (Inr v, st\<lparr>se_cache := dict_del key cache @ [(key, v)]\<rparr>)
      | None \<Rightarrow> (case sv_embed env query of
          None \<Rightarrow> (Inl EmbeddingFailed, st)
        | Some v \<Rightarrow> let c1 = dict_put key v cache in (Inr v, st\<lparr>se_cache := if 256 < length c1 then tl c1 else c1\<rparr>)))"

definition clear_cache :: "searcher \<Rightarrow> searcher" where
  "clear_cache st = st\<lparr>se_cache := []\<rparr>"

definition optimize_query :: "string \<Rightarrow> string" where
  "optimize_query query = strip_by py_space query"

subsection \<open>Results\<close>

definition meta_or :: "metadata \<Rightarrow> string \<Rightarrow> json \<Rightarrow> json" where
  "meta_or m k v = (case dict_get m k of None \<Rightarrow> v | Some w \<Rightarrow> w)"

definition json_string :: "json \<Rightarrow> string" where
  "json_string v = (case v of JStr s \<Rightarrow> s | _ \<Rightarrow> [])"

definition folder_path :: "json \<Rightarrow> json" where
  "folder_path v = (if json_truthy v then JStr (join ''/'' (map json_string (json_items (Some v)))) else JNull)"

definition context_of :: "search_env \<Rightarrow> string \<Rightarrow> metadata \<Rightarrow> context_info search_run" where
  "context_of env cid m =
     and_then (on_index (get_similar_chunks (sv_lib env) cid 3)) (\<lambda>similar st.
       (Inr \<lparr>ci_similar = map (\<lambda>(c, x, md). (c, x, meta_or md ''name'' JNull, meta_or md ''chunk_type'' JNull)) (take 2 similar),
             ci_total_chunks_in_file = count_chunks_in_file (meta_text m ''relative_path'') (se_store st),
             ci_folder_path = folder_path (meta_or m ''folder_structure'' (JArr []))\<rparr>, st))"

definition result_of :: "string \<Rightarrow> rat \<Rightarrow> metadata \<Rightarrow> context_info option \<Rightarrow> search_result" where
  "result_of cid score m ctx =
     \<lparr>sr_chunk_id = cid, sr_similarity_score = score, sr_content_preview = meta_or m ''content_preview'' (JStr []),
      sr_file_path = meta_or m ''file_path'' (JStr []), sr_relative_path = meta_or m ''relative_path'' (JStr []),
      sr_folder_structure = meta_or m ''folder_structure'' (JArr []), sr_chunk_type = meta_or m ''chunk_type'' (JStr ''unknown''),
      sr_name = meta_or m ''name'' JNull, sr_parent_name = meta_or m ''parent_name'' JNull,
      sr_start_line = meta_or m ''start_line'' (JInt 0), sr_end_line = meta_or m ''end_line'' (JInt 0),
      sr_docstring = meta_or m ''docstring'' JNull, sr_tags = meta_or m ''tags'' (JArr []), sr_context_info = ctx\<rparr>"

definition create_search_result :: "search_env \<Rightarrow> int \<Rightarrow> string \<times> rat \<times> metadata \<Rightarrow> search_result search_run" where
  "create_search_result env depth hit = (case hit of (cid, score, m) \<Rightarrow>
     if 0 < depth then and_then (context_of env cid m) (\<lambda>ctx. give (result_of cid score m (Some ctx)))
     else give (result_of cid score m None))"

subsection \<open>Words of names and queries\<close>

fun split_camel :: "string \<Rightarrow> string" where
  "split_camel (a # b # s) = (if is_lower a \<and> is_upper b then a # CHR '' '' # split_camel (b # s) else a # split_camel (b # s))"
| "split_camel s = s"

definition normalize_to_tokens :: "string \<Rightarrow> string list" where
  "normalize_to_tokens text =
     words (lower (map (\<lambda>c. if c = CHR ''_'' \<or> c = CHR ''-'' then CHR '' '' else c) (split_camel text)))"

definition overlap_of :: "string list \<Rightarrow> string list \<Rightarrow> nat" where
  "overlap_of xs ys = length (filter (\<lambda>x. x \<in> set ys) (remdups xs))"

definition calculate_name_boost :: "string \<Rightarrow> string \<Rightarrow> string list \<Rightarrow> rat" where
  "calculate_name_boost nm query tokens =
     (if nm = [] then 1
      else let name_tokens = normalize_to_tokens nm in
        if lower query = lower nm then 14/10
        else if tokens = [] \<or> name_tokens = [] then 1
        else let overlap = overlap_of tokens name_tokens; ratio = of_nat overlap / of_nat (length (remdups tokens)) :: rat in
          if overlap = 0 then 1 else if 8/10 \<le> ratio then 13/10 else if 1/2 \<le> ratio then 12/10
          else if 3/10 \<le> ratio then 11/10 else (105/100 :: rat))"

definition calculate_path_boost :: "string \<Rightarrow> string list \<Rightarrow> rat" where
  "calculate_path_boost path tokens =
     (if path = [] \<or> tokens = [] then 1
      else let parts = map (\<lambda>c. if c = CHR ''/'' \<or> c = CHR 0x5C then CHR '' '' else c) (lower path);
               overlap = overlap_of tokens (normalize_to_tokens parts)
           in if 0 < overlap then 1 + of_nat overlap * (5/100) else 1)"

subsection \<open>Hybrid retrieval\<close>

definition full_text :: "metadata \<Rightarrow> string \<Rightarrow> string" where
  "full_text m last_resort =
     (if meta_text m ''full_content'' \<noteq> [] then meta_text m ''full_content''
      else if meta_text m ''content'' \<noteq> [] then meta_text m ''content'' else last_resort)"

definition rerank_raw_with_query_signals :: "(string \<times> rat \<times> metadata) list \<Rightarrow> query_signals \<Rightarrow> (string \<times> rat \<times> metadata) list" where
  "rerank_raw_with_query_signals raw signals =
     (if \<not> explicit signals then raw
      else sort_key (\<lambda>(cid, score, m).
        (- \<bar>score\<bar> * calculate_signal_boost signals (meta_text m ''relative_path'') (meta_text m ''name'') (meta_text m ''parent_name'')
           (full_text m (meta_text m ''content_preview'')), cid)) raw)"

definition candidate_k :: "int \<Rightarrow> query_signals \<Rightarrow> int" where
  "candidate_k k signals = min 200 (max 50 (if explicit signals then k * 4 else 50))"

definition hybrid_weights :: "search_config \<Rightarrow> query_signals \<Rightarrow> rat \<times> rat" where
  "hybrid_weights cfg signals =
     (if explicit signals \<and> sc_vector_weight cfg = 0 \<and> sc_bm25_weight cfg = 0 \<and> sc_content_mode cfg = ''code''
      then (35/100, 65/100) else resolve_hybrid_weights cfg)"

definition bm25_query :: "search_env \<Rightarrow> string \<Rightarrow> string" where
  "bm25_query env query =
     (let q1 = (if sc_bm25_rewrite (sv_config env) then sv_rewrite env query else build_lexical_query query)
      in if sc_query_expansion (sv_config env) then expand_code_query (sv_synonyms env) q1 else q1)"

definition metadata_lookup :: "(string \<times> rat \<times> metadata) list \<Rightarrow> (string \<times> rat \<times> metadata) list \<Rightarrow> (string, metadata) dict" where
  "metadata_lookup vector_raw bm25_raw =
     fold (\<lambda>(cid, _, m) d. if dict_get d cid = None then dict_put cid m d else d) bm25_raw
       (fold (\<lambda>(cid, _, m) d. dict_put cid m d) vector_raw [])"

fun override_boosts :: "(string \<times> rat option) list \<Rightarrow> (string, rat) dict \<Rightarrow> (string, rat) dict" where
  "override_boosts [] boosts = boosts"
| "override_boosts ((key, v) # rest) boosts = (case v of None \<Rightarrow> boosts | Some x \<Rightarrow> override_boosts rest (dict_put key x boosts))"

definition amplify :: "rat \<Rightarrow> rat \<Rightarrow> rat" where
  "amplify factor boost = (if 1 < boost then 1 + (boost - 1) * factor else boost)"

definition boosted :: "search_env \<Rightarrow> string \<Rightarrow> query_signals \<Rightarrow> (string, metadata) dict \<Rightarrow> search_result \<Rightarrow> search_result" where
  "boosted env query signals lookup r =
     (let mode = sc_content_mode (sv_config env); boosts = override_boosts (sv_override env) (chunk_type_boosts mode);
          tokens = normalize_to_tokens (lower query); path = json_string (sr_relative_path r); nm = json_string (sr_name r);
          m = (case dict_get lookup (sr_chunk_id r) of None \<Rightarrow> [] | Some m \<Rightarrow> m)
      in r\<lparr>sr_similarity_score := sr_similarity_score r * dict_get_or boosts (json_string (sr_chunk_type r)) 1
             * amplify 2 (calculate_name_boost nm query tokens) * amplify 3 (calculate_path_boost path tokens)
             * calculate_signal_boost signals path nm (json_string (sr_parent_name r)) (full_text m (json_string (sr_content_preview r)))
             * calculate_artifact_role_boost query path mode\<rparr>)"

definition file_key :: "search_result \<Rightarrow> json" where
  "file_key r = (if json_truthy (sr_relative_path r) then sr_relative_path r else sr_file_path r)"

definition dedupe_candidates_by_file :: "search_result list \<Rightarrow> search_result list" where
  "dedupe_candidates_by_file cs = dedup_from {} file_key cs"

definition rank_candidates :: "search_env \<Rightarrow> string \<Rightarrow> query_signals \<Rightarrow> (string, metadata) dict \<Rightarrow> search_result list \<Rightarrow> search_result list" where
  "rank_candidates env query signals lookup cs =
     dedupe_candidates_by_file (sorted_desc sr_similarity_score (map (boosted env query signals lookup) cs))"

definition fused_hits :: "search_env \<Rightarrow> query_signals \<Rightarrow> int \<Rightarrow> (string \<times> rat \<times> metadata) list \<Rightarrow> (string \<times> rat \<times> metadata) list \<Rightarrow>
    (string, metadata) dict \<Rightarrow> (string \<times> rat \<times> metadata) list" where
  "fused_hits env signals k vector_raw bm25_raw lookup =
     (let pairs = map (\<lambda>(cid, x, _). (cid, x)); (vw, bw) = hybrid_weights (sv_config env) signals;
          fused = reciprocal_rank_fusion (pairs vector_raw) (pairs bm25_raw) (sc_fusion_k (sv_config env)) vw bw;
          over_fetch = min (k * 3) (int (length fused))
      in concat (map (\<lambda>(cid, x). case dict_get lookup cid of None \<Rightarrow> [] | Some m \<Rightarrow> if m = [] then [] else [(cid, x, m)])
           (py_slice fused 0 over_fetch)))"

definition retrieve_hybrid_candidates ::
    "search_env \<Rightarrow> string \<Rightarrow> int \<Rightarrow> int \<Rightarrow> (string, json) dict \<Rightarrow> (search_result list \<times> (string, metadata) dict) search_run" where
  "retrieve_hybrid_candidates env query k depth filters =
     (let signals = extract_query_signals 12 query; ck = candidate_k k signals in
      and_then (get_query_embedding env (optimize_query query)) (\<lambda>embedding.
      and_then (on_index (\<lambda>s. search (sv_lib env) embedding ck filters s)) (\<lambda>vector_hits st.
        let vector_raw = rerank_raw_with_query_signals vector_hits signals;
            bm25_raw = rerank_raw_with_query_signals (search_bm25 (sv_lib env) (bm25_query env query) ck 5 filters (se_store st)) signals;
            lookup = metadata_lookup vector_raw bm25_raw
        in and_then (map_run (create_search_result env depth) (fused_hits env signals k vector_raw bm25_raw lookup)) (\<lambda>cs.
             give (rank_candidates env query signals lookup cs, lookup)) st)))"

end
