(* ===== verification/SearchModes.thy ===== *)
theory SearchModes
  imports HybridSearch
begin

text \<open>
  The ranking stages after retrieval (\<open>search/pipeline.py\<close>, \<open>search/reranker_registry.py\<close>) and the search modes
  of \<open>search/searcher.py\<close>.
\<close>

subsection \<open>Page rank\<close>

definition stage :: "bool \<Rightarrow> string \<Rightarrow> stage_meta" where
  "stage applied why = \<lparr>sm_applied = applied, sm_reason = why\<rparr>"

definition blend_ppr :: "rat \<Rightarrow> (string, rat) dict \<Rightarrow> search_result list \<Rightarrow> search_result list" where
  "blend_ppr alpha scores cs =
     (if alpha = 0 then cs
      else map (\<lambda>r. r\<lparr>sr_similarity_score := sr_similarity_score r * (1 + alpha * dict_get_or scores (json_string (sr_relative_path r)) 0)\<rparr>) cs)"

definition path_hint :: "search_result list \<Rightarrow> string option" where
  "path_hint cs = (case filter (\<lambda>p. p \<noteq> []) (map (\<lambda>r. json_string (sr_file_path r)) cs) of [] \<Rightarrow> None | p # _ \<Rightarrow> Some p)"

definition apply_ppr :: "search_env \<Rightarrow> search_result list \<Rightarrow> search_result list \<times> stage_meta" where
  "apply_ppr env cs =
     (if \<not> sv_ppr_enabled env then (cs, stage False ''disabled_by_env'')
      else if sv_ppr_alpha env = 0 then (cs, stage False ''alpha_zero'')
      else if cs = [] then (cs, stage False ''no_candidates'')
      else case sv_ppr_score env (map (\<lambda>r. (json_string (sr_relative_path r), sr_similarity_score r)) cs) (path_hint cs) of
          None \<Rightarrow> (cs, stage False ''error'')
        | Some scores \<Rightarrow>
            if scores = [] then (cs, stage False ''no_graph_db'')
            else (sorted_desc sr_similarity_score (blend_ppr (sv_ppr_alpha env) scores cs), stage True ''ok''))"

subsection \<open>The reranker modes\<close>

definition full_content :: "(string, metadata) dict \<Rightarrow> search_result \<Rightarrow> string" where
  "full_content lookup r =
     full_text (case dict_get lookup (sr_chunk_id r) of None \<Rightarrow> [] | Some m \<Rightarrow> m) (json_string (sr_content_preview r))"

definition judged_of :: "(string, metadata) dict \<Rightarrow> search_result \<Rightarrow> search_result judged" where
  "judged_of lookup r = \<lparr>jc_path = json_string (sr_relative_path r), jc_content = full_content lookup r, jc_orig = r\<rparr>"

definition llm_rerank_pool :: nat where
  "llm_rerank_pool = 15"

definition skip_if_confident :: "search_config \<Rightarrow> search_result list \<Rightarrow> bool" where
  "skip_if_confident cfg cs = (case sc_skip_threshold cfg of None \<Rightarrow> False | Some t \<Rightarrow> t \<le> sr_similarity_score (hd cs))"

text \<open>An engine gets the judged candidates and the number of results wanted.\<close>

definition rerank_by_engine ::
    "(search_result judged list \<Rightarrow> int \<Rightarrow> search_result judged list \<times> stage_meta) \<Rightarrow> bool \<Rightarrow> search_config \<Rightarrow>
     (string, metadata) dict \<Rightarrow> int \<Rightarrow> search_result list \<Rightarrow> search_result list \<times> stage_meta" where
  "rerank_by_engine engine may_skip cfg lookup k cs =
     (if int (length cs) \<le> k then (py_slice cs 0 k, stage False ''not_invoked_insufficient_candidates'')
      else if may_skip \<and> skip_if_confident cfg cs then (py_slice cs 0 k, stage False ''skipped_high_confidence'')
      else let n = min llm_rerank_pool (length cs) in
        case engine (map (judged_of lookup) (take n cs)) k of
          (reranked, meta) \<Rightarrow> (py_slice (map jc_orig reranked @ drop n cs) 0 k, meta))"

definition rerank_cross_encoder :: "search_env \<Rightarrow> string \<Rightarrow> int \<Rightarrow> search_result list \<Rightarrow> search_result list \<times> stage_meta" where
  "rerank_cross_encoder env query k cs =
     (let preview = (\<lambda>r. \<lparr>jc_path = [], jc_content = json_string (sr_content_preview r), jc_orig = r\<rparr>);
          reranked = rerank_results (sv_predict env) query (map preview cs) k
      in (py_slice (map (\<lambda>(x, c). (jc_orig c)\<lparr>sr_similarity_score := x\<rparr>) reranked) 0 k, stage False ''not_invoked_cross_encoder_mode''))"

definition rerank_off :: "int \<Rightarrow> search_result list \<Rightarrow> search_result list \<times> stage_meta" where
  "rerank_off k cs = (py_slice (sorted_desc sr_similarity_score cs) 0 k, stage False ''disabled_by_env'')"

definition get_reranker ::
    "search_env \<Rightarrow> string \<Rightarrow> string \<Rightarrow> (string, metadata) dict \<Rightarrow> int \<Rightarrow> search_result list \<Rightarrow> search_result list \<times> stage_meta" where
  "get_reranker env mode query lookup =
     (let m = lower mode; cfg = sv_config env in
      if m = ''sonnet'' then rerank_by_engine (rerank_with_sonnet (sv_judge env) (sv_sonnet env) query) True cfg lookup
      else if m = ''openai'' then rerank_by_engine (rerank_with_openai (sv_judge env) (sv_openai env) query) True cfg lookup
      else if m = ''listwise'' then rerank_by_engine (listwise_rerank_with_sonnet (sv_listwise env) query) False cfg lookup
      else if m = ''cross-encoder'' then rerank_cross_encoder env query
      else rerank_off)"

definition run_hybrid_pipeline :: "search_env \<Rightarrow> string \<Rightarrow> int \<Rightarrow> search_result list \<Rightarrow> (string, metadata) dict \<Rightarrow> search_result list search_run" where
  "run_hybrid_pipeline env query k cs lookup st =
     (case apply_ppr env cs of (cs1, ppr) \<Rightarrow>
        if cs1 = [] then (Inr [], st\<lparr>se_ppr_meta := ppr, se_reranker_meta := stage False ''not_invoked_no_candidates''\<rparr>)
        else (case get_reranker env (sc_reranker_mode (sv_config env)) query lookup k cs1 of
          (out, meta) \<Rightarrow> (Inr out, st\<lparr>se_ppr_meta := ppr, se_reranker_meta := meta\<rparr>)))"

subsection \<open>Ranking a semantic search\<close>

datatype pattern = Word string | Part string | Apart string string

definition line_has :: "string \<Rightarrow> string \<Rightarrow> string \<Rightarrow> bool" where
  "line_has a b line = (case find_sub line a of None \<Rightarrow> False | Some i \<Rightarrow> has_sub (drop (i + length a) line) b)"

definition pattern_found :: "string \<Rightarrow> pattern \<Rightarrow> bool" where
  "pattern_found text p = (case p of
     Word w \<Rightarrow> w \<in> set (words text)
   | Part s \<Rightarrow> has_sub text s
   | Apart a b \<Rightarrow> list_ex (line_has a b) (split_by (\<lambda>c. c = CHR 0x0A) text))"

definition query_patterns :: "(string \<times> pattern list) list" where
  "query_patterns =
     [(''function_search'', [Word ''function'', Word ''def'', Word ''method'', Word ''class'', Apart ''how'' ''work'', Part ''implement'', Part ''algorithm'']),
      (''error_handling'', [Word ''error'', Word ''exception'', Word ''try'', Word ''catch'', Apart ''handle'' ''error'', Apart ''exception'' ''handling'']),
      (''database'', [Word ''database'', Word ''db'', Word ''query'', Word ''sql'', Word ''model'', Word ''table'', Part ''connection'']),
      (''api'', [Word ''api'', Word ''endpoint'', Word ''route'', Word ''request'', Word ''response'', Word ''http'', Apart ''rest'' ''api'']),
      (''authentication'', [Word ''auth'', Word ''login'', Word ''token'', Word ''password'', Word ''session'', Part ''authenticate'', Part ''permission'']),
      (''testing'', [Word ''test'', Word ''mock'', Word ''assert'', Word ''fixture'', Apart ''unit'' ''test'', Apart ''integration'' ''test''])]"

definition detect_query_intent :: "string \<Rightarrow> string list" where
  "detect_query_intent query = map fst (filter (\<lambda>(_, ps). list_ex (pattern_found (lower query)) ps) query_patterns)"

text \<open>An upper-case letter, lower-case letters, an upper-case letter.\<close>

fun camel_name :: "string \<Rightarrow> bool" where
  "camel_name [] \<longleftrightarrow> False"
| "camel_name (c # s) \<longleftrightarrow>
     is_upper c \<and> takeWhile is_lower s \<noteq> [] \<and> (case dropWhile is_lower s of [] \<Rightarrow> False | d # _ \<Rightarrow> is_upper d) \<or> camel_name s"

definition action_words :: "string list" where
  "action_words = [''find'', ''search'', ''get'', ''show'', ''list'', ''how'', ''what'', ''where'', ''when'', ''create'', ''build'', ''make'',
     ''handle'', ''process'', ''manage'', ''implement'']"

definition is_entity_like_query :: "string \<Rightarrow> string list \<Rightarrow> bool" where
  "is_entity_like_query query tokens =
     (if 3 < length tokens then False
      else if list_ex (\<lambda>t. t \<in> set action_words) tokens then False
      else if camel_name query then True else length tokens \<le> 2)"

definition type_boosts :: "bool \<Rightarrow> bool \<Rightarrow> (string, rat) dict" where
  "type_boosts has_class entity =
     (if has_class then [(''class'', 13/10), (''function'', 105/100), (''method'', 105/100), (''module'', 9/10)]
      else if entity then [(''class'', 115/100), (''function'', 11/10), (''method'', 11/10), (''module'', 92/100)]
      else [(''function'', 11/10), (''method'', 11/10), (''class'', 105/100), (''module'', 95/100)])"

definition calculate_rank_score :: "string \<Rightarrow> string list \<Rightarrow> search_result \<Rightarrow> rat" where
  "calculate_rank_score query intents r =
     (let tokens = normalize_to_tokens (lower query); entity = is_entity_like_query query tokens;
          kind = json_string (sr_chunk_type r); tags = remdups (map json_string (json_items (Some (sr_tags r))));
          s1 = sr_similarity_score r * dict_get_or (type_boosts (has_sub (lower query) ''class'') entity) kind 1
                 * calculate_name_boost (json_string (sr_name r)) query tokens * calculate_path_boost (json_string (sr_relative_path r)) tokens;
          s2 = (if intents \<noteq> [] \<and> tags \<noteq> [] then s1 * (1 + of_nat (overlap_of intents tags) * (1/10)) else s1);
          s3 = (if json_truthy (sr_docstring r) then (if entity \<and> kind = ''module'' then s2 * (102/100) else s2 * (105/100)) else s2)
      in if 1000 < length (json_string (sr_content_preview r)) then s3 * (98/100) else s3)"

definition rank_results :: "search_result list \<Rightarrow> string \<Rightarrow> string list \<Rightarrow> search_result list" where
  "rank_results rs query intents = sorted_desc (calculate_rank_score query intents) rs"

subsection \<open>The search modes\<close>

definition semantic_search :: "search_env \<Rightarrow> string \<Rightarrow> int \<Rightarrow> int \<Rightarrow> (string, json) dict \<Rightarrow> search_result list search_run" where
  "semantic_search env query k depth filters =
     and_then (get_query_embedding env (optimize_query query)) (\<lambda>embedding.
     and_then (on_index (\<lambda>s. search (sv_lib env) embedding (min (k * 10) 200) filters s)) (\<lambda>hits.
     and_then (map_run (create_search_result env depth) hits) (\<lambda>rs.
       give (py_slice (rank_results rs query (detect_query_intent query)) 0 k))))"

definition keyword_search :: "search_env \<Rightarrow> string \<Rightarrow> int \<Rightarrow> (string, json) dict \<Rightarrow> search_result list search_run" where
  "keyword_search env query k filters st =
     and_then (map_run (create_search_result env 0) (map (\<lambda>(cid, rank, m). (cid, \<bar>rank\<bar>, m)) (search_bm25 (sv_lib env) query k 5 filters (se_store st))))
       (\<lambda>rs. give (py_slice rs 0 k)) st"

definition hybrid_search :: "search_env \<Rightarrow> string \<Rightarrow> int \<Rightarrow> int \<Rightarrow> (string, json) dict \<Rightarrow> search_result list search_run" where
  "hybrid_search env query k depth filters =
     and_then (retrieve_hybrid_candidates env query k depth filters) (\<lambda>(cs, lookup). run_hybrid_pipeline env query k cs lookup)"

definition search_code :: "search_env \<Rightarrow> string \<Rightarrow> int \<Rightarrow> string \<Rightarrow> int \<Rightarrow> (string, json) dict \<Rightarrow> search_result list search_run" where
  "search_code env query k requested_mode depth filters st =
     (let mode = (if requested_mode \<noteq> [] then requested_mode else sc_default_mode (sv_config env));
          reset = (\<lambda>why. st\<lparr>se_reranker_meta := stage False why, se_ppr_meta := stage False why\<rparr>)
      in if mode = ''keyword'' then keyword_search env query k filters (reset ''not_invoked_keyword_mode'')
         else if mode = ''semantic'' then semantic_search env query k depth filters (reset ''not_invoked_semantic_mode'')
         else hybrid_search env query k depth filters (reset ''not_invoked''))"

definition search_by_file_pattern :: "search_env \<Rightarrow> string \<Rightarrow> json \<Rightarrow> int \<Rightarrow> search_result list search_run" where
  "search_by_file_pattern env query patterns k = search_code env query k [] 1 [(''file_pattern'', patterns)]"

definition search_by_chunk_type :: "search_env \<Rightarrow> string \<Rightarrow> string \<Rightarrow> int \<Rightarrow> search_result list search_run" where
  "search_by_chunk_type env query kind k = search_code env query k [] 1 [(''chunk_type'', JStr kind)]"

definition find_similar_to_chunk :: "search_env \<Rightarrow> string \<Rightarrow> nat \<Rightarrow> search_result list search_run" where
  "find_similar_to_chunk env cid k =
     and_then (on_index (get_similar_chunks (sv_lib env) cid k)) (\<lambda>hits. map_run (create_search_result env 1) hits)"

text \<open>Suggestions from the keys of the stored statistics.\<close>

definition get_search_suggestions :: "(string, json) dict \<Rightarrow> string \<Rightarrow> string list" where
  "get_search_suggestions stats typed =
     (let keys = (\<lambda>name. case dict_get stats name of Some (JObj ob) \<Rightarrow> map fst ob | _ \<Rightarrow> []);
          mentioned = filter (\<lambda>t. has_sub (lower t) (lower typed))
      in take 5 (map (\<lambda>t. ''Find '' @ t @ '' related code'') (mentioned (keys ''top_tags'')) @
                 map (\<lambda>t. ''Show all '' @ t @ ''s'') (mentioned (keys ''chunk_types''))))"

end
