(* ===== verification/Rerank_Order.thy ===== *)
theory Rerank_Order
  imports Rerank
begin

text \<open>
  The contract of a reranker engine: it returns some of the candidates it was given, none twice, at most as many
  as asked for, and keeps their order when it reports that it was not applied. The registry relies on it
  (\<open>engine\<close>); the two pointwise engines and the listwise one keep it whatever the model answers.
\<close>

subsection \<open>Prefixes\<close>

lemma py_slice_0: "py_slice xs 0 k = take (py_clip k (length xs)) xs"
  by (simp add: py_slice_def py_clip_def)

lemma py_slice_0_nonneg: "0 \<le> k \<Longrightarrow> py_slice xs 0 k = take (nat k) xs"
  by (simp add: py_slice_0 py_clip_def min_def)

lemma py_slice_0_length: "length (py_slice xs 0 k) \<le> (if 0 \<le> k then nat k else length xs)"
  by (auto simp: py_slice_0 py_clip_def min_def intro: nat_mono)

lemma mset_take: "mset (take n xs) \<subseteq># mset xs"
  by (metis append_take_drop_id mset_append mset_subset_eq_add_left)

lemma mset_py_slice: "mset xs \<subseteq># M \<Longrightarrow> mset (py_slice xs 0 k) \<subseteq># M"
  unfolding py_slice_0 by (metis mset_take subset_mset.order_trans)

lemmas mset_py_slice_self = mset_py_slice [OF subset_mset.order_refl]

subsection \<open>The interface\<close>

locale engine =
  fixes ask :: "'c judged list \<Rightarrow> int \<Rightarrow> 'c judged list \<times> stage_meta"
  assumes chosen: "mset (fst (ask cs k)) \<subseteq># mset cs"
    and kept: "\<not> sm_applied (snd (ask cs k)) \<Longrightarrow> fst (ask cs k) = py_slice cs 0 k"
begin

lemma answered_subset: "set (fst (ask cs k)) \<subseteq> set cs"
  using set_mset_mono [OF chosen [of cs k]] by simp

lemma answered_origins: "mset (map jc_orig (fst (ask (map j xs) k))) \<subseteq># mset (map (jc_orig \<circ> j) xs)"
  using image_mset_subseteq_mono [OF chosen [of "map j xs" k], of jc_orig] by (simp add: multiset.map_comp)

end

lemma keep_order_contract:
  "mset (fst (keep_order k cs why)) \<subseteq># mset cs" "fst (keep_order k cs why) = py_slice cs 0 k" "\<not> sm_applied (snd (keep_order k cs why))"
  by (simp_all add: keep_order_def mset_py_slice)

lemma no_candidates: "py_slice [] 0 k = []"
  by (simp add: py_slice_0)

subsection \<open>The pointwise engines\<close>

lemma mset_zip_snd: "mset (map snd (zip xs ys)) \<subseteq># mset ys"
  by (simp add: map_snd_zip_take mset_take)

lemma rank_pool_mset: "mset (rank_pool vs pool) \<subseteq># mset pool"
proof -
  have "mset (rank_pool vs pool) = mset (map snd (map snd (zip [0..<length pool] (zip vs pool))))"
    unfolding rank_pool_def by (simp add: multiset.map_comp comp_def)
  also have "\<dots> \<subseteq># mset (map snd (zip vs pool))"
    using image_mset_subseteq_mono [OF mset_zip_snd, of snd "[0..<length pool]" "zip vs pool"] by (simp add: multiset.map_comp)
  also have "\<dots> \<subseteq># mset pool" by (rule mset_zip_snd)
  finally show ?thesis .
qed

lemma split_pool_append: "split_pool n cs = (pool, others) \<Longrightarrow> pool @ others = cs"
  by (auto simp: split_pool_def split: if_splits)

lemma weigh_verdicts_contract:
  "mset (fst (weigh_verdicts cfg k cs vs)) \<subseteq># mset cs \<and>
   (sm_applied (snd (weigh_verdicts cfg k cs vs)) \<or> fst (weigh_verdicts cfg k cs vs) = py_slice cs 0 k)"
proof -
  obtain pool others where p: "split_pool (resolve_pool_size cfg) cs = (pool, others)" by fastforce
  have "mset (rank_pool vs pool @ others) \<subseteq># mset cs"
    unfolding split_pool_append [OF p, symmetric] by (simp add: rank_pool_mset)
  then show ?thesis
    unfolding weigh_verdicts_def p prod.case by (auto simp: keep_order_contract mset_py_slice)
qed

lemma sonnet_contract:
  "mset (fst (rerank_with_sonnet cfg env q cs k)) \<subseteq># mset cs \<and>
   (sm_applied (snd (rerank_with_sonnet cfg env q cs k)) \<or> fst (rerank_with_sonnet cfg env q cs k) = py_slice cs 0 k)"
  unfolding rerank_with_sonnet_def
  by (auto simp: Let_def keep_order_contract weigh_verdicts_contract no_candidates mset_py_slice_self split: calls.splits)

lemma openai_contract:
  "mset (fst (rerank_with_openai cfg env q cs k)) \<subseteq># mset cs \<and>
   (sm_applied (snd (rerank_with_openai cfg env q cs k)) \<or> fst (rerank_with_openai cfg env q cs k) = py_slice cs 0 k)"
  unfolding rerank_with_openai_def
  by (auto simp: Let_def keep_order_contract weigh_verdicts_contract no_candidates mset_py_slice_self split: calls.splits)

interpretation sonnet: engine "rerank_with_sonnet cfg env q" for cfg env q
  by unfold_locales (use sonnet_contract in blast)+

interpretation openai: engine "rerank_with_openai cfg env q" for cfg env q
  by unfold_locales (use openai_contract in blast)+

subsection \<open>The listwise engine\<close>

lemma exchange_mset: "i < length xs \<Longrightarrow> j < length xs \<Longrightarrow> mset (exchange i j xs) = mset xs"
  by (simp add: exchange_def mset_swap)

lemma shuffled_mset: "mset (shuffled draw n) = mset [0..<n]"
proof -
  have "mset (fold (\<lambda>i. exchange i (draw i mod (i + 1))) is xs) = mset xs" if "\<forall>i \<in> set is. i < length xs" for "is" xs
    using that
  proof (induction "is" arbitrary: xs)
    case (Cons i "is")
    have "draw i mod (i + 1) \<le> i" using mod_less_divisor [of "i + 1" "draw i"] by simp
    then have "draw i mod (i + 1) < length xs" using Cons.prems by (meson le_less_trans list.set_intros(1))
    then have m: "mset (exchange i (draw i mod (i + 1)) xs) = mset xs" using Cons.prems by (simp add: exchange_mset)
    have "\<forall>j \<in> set is. j < length (exchange i (draw i mod (i + 1)) xs)" using Cons.prems by (simp add: exchange_def)
    then show ?case using Cons.IH m by simp
  qed simp
  then show ?thesis by (simp add: shuffled_def)
qed

lemma follow_ids_sound:
  "follow_ids ids seen names = Some order \<Longrightarrow> distinct names \<and> set names \<inter> seen = {} \<and> map Some order = map (dict_get ids) names \<and>
     fst ` set ids \<subseteq> seen \<union> set names"
proof (induction names arbitrary: seen order)
  case (Cons c names)
  then obtain i rest where r: "c \<notin> seen" "dict_get ids c = Some i" "follow_ids ids (insert c seen) names = Some rest" "order = i # rest"
    by (auto split: if_splits option.splits)
  show ?case using Cons.IH [OF r(3)] r by auto
qed (auto split: if_splits)

lemma followed_positions:
  assumes "follow_ids ids {} names = Some order" "distinct (map snd ids)" "distinct (map fst ids)"
  shows "mset order = mset (map snd ids)"
proof -
  note f = follow_ids_sound [OF assms(1)]
  have e: "order = map (the \<circ> dict_get ids) names"
    using f by (metis (no_types, lifting) comp_apply list.map_comp map_eq_conv option.sel list.map_id0 id_apply comp_def map_idI)
  have n: "set names = fst ` set ids"
  proof
    have "dict_get ids c \<noteq> None" if "c \<in> set names" for c
    proof -
      have "dict_get ids c \<in> set (map Some order)" using f that by (metis image_eqI list.set_map)
      then show ?thesis by auto
    qed
    then show "set names \<subseteq> fst ` set ids" by (metis map_of_eq_None_iff subsetI)
  qed (use f in auto)
  have "mset names = mset (map fst ids)"
    using f n assms(3) by (metis list.set_map set_eq_iff_mset_eq_distinct)
  then have "mset order = image_mset (the \<circ> dict_get ids) (mset (map fst ids))" by (simp add: e)
  also have "\<dots> = mset (map (the \<circ> dict_get ids \<circ> fst) ids)" by (simp add: multiset.map_comp comp_def flip: mset_map)
  also have "map (the \<circ> dict_get ids \<circ> fst) ids = map snd ids"
    using assms(3) by (auto intro!: map_cong)
  finally show ?thesis .
qed

lemma validated_positions:
  assumes "validate_response loads ids raw = Inr order" "distinct (map snd ids)" "distinct (map fst ids)"
  shows "mset order = mset (map snd ids)"
  using assms(1) followed_positions [OF _ assms(2,3)]
  by (auto simp: validate_response_def split: option.splits json.splits)

fun undecimal :: "string \<Rightarrow> nat" where
  "undecimal s = fold (\<lambda>c n. 10 * n + (code_point c - 48)) s 0"

lemma undecimal_decimal: "undecimal (decimal n) = n"
proof (induction n rule: decimal.induct)
  case (1 n)
  have c: "code_point (char_of (48 + m)) = 48 + m" if "m < 10" for m using that by (simp add: code_point_def)
  show ?case
  proof (cases "n < 10")
    case True
    then show ?thesis by (subst decimal.simps) (simp add: c)
  next
    case False
    then show ?thesis using 1 by (subst decimal.simps) (simp add: c)
  qed
qed

lemma candidate_id_inj: "candidate_id i = candidate_id j \<Longrightarrow> i = j"
proof -
  have u: "undecimal (tl (candidate_id i)) = i + 1" for i
  proof -
    have "fold (\<lambda>c n. 10 * n + (code_point c - 48)) (''0'' @ s) 0 = fold (\<lambda>c n. 10 * n + (code_point c - 48)) s 0" for s
      by (simp add: code_point_def)
    then show ?thesis using undecimal_decimal [of "i + 1"] by (simp add: candidate_id_def)
  qed
  show "candidate_id i = candidate_id j \<Longrightarrow> i = j" using u [of i] u [of j] by simp
qed

lemma reordered_mset:
  assumes "mset positions = mset [0..<length cs]"
  shows "mset (map (\<lambda>i. cs ! i) positions) = mset cs"
proof -
  have "mset (map (\<lambda>i. cs ! i) positions) = image_mset (\<lambda>i. cs ! i) (mset [0..<length cs])" using assms by simp
  also have "\<dots> = mset cs" by (metis map_nth mset_map)
  finally show ?thesis .
qed

lemma listwise_contract:
  "mset (fst (listwise_rerank_with_sonnet env q cs k)) \<subseteq># mset cs \<and>
   (sm_applied (snd (listwise_rerank_with_sonnet env q cs k)) \<or> fst (listwise_rerank_with_sonnet env q cs k) = py_slice cs 0 k)"
proof -
  define order where "order = shuffled (li_draw env) (length cs)"
  define ids where "ids = zip (map candidate_id [0..<length order]) order"
  have o: "mset order = mset [0..<length cs]" by (simp add: order_def shuffled_mset)
  then have d: "distinct (map snd ids)" "map snd ids = order"
    using mset_eq_imp_distinct_iff [OF o] by (simp_all add: ids_def)
  have i: "distinct (map fst ids)"
    by (auto simp: ids_def distinct_map inj_on_def intro: candidate_id_inj)
  have v: "mset (py_slice (map (\<lambda>j. cs ! j) positions) 0 k) \<subseteq># mset cs"
    if "validate_response (li_loads env) ids raw = Inr positions" for raw positions
  proof (rule mset_py_slice)
    have "mset positions = mset [0..<length cs]" by (simp only: validated_positions [OF that d(1) i] d(2) o)
    from reordered_mset [OF this] show "mset (map (\<lambda>j. cs ! j) positions) \<subseteq># mset cs" by simp
  qed
  show ?thesis
    unfolding listwise_rerank_with_sonnet_def Let_def order_def [symmetric] ids_def [symmetric]
    by (auto simp: keep_order_contract no_candidates mset_py_slice_self v split: listwise_reply.splits sum.splits)
qed

interpretation listwise: engine "listwise_rerank_with_sonnet env q" for env q
  by unfold_locales (use listwise_contract in blast)+

end
