(* ===== verification/Search_Rerank.thy ===== *)
theory Search_Rerank
  imports SearchModes Rerank_Order
begin

text \<open>
  The stages after retrieval choose and reorder: page rank and every reranker mode return candidates
  they were given, changed in nothing but the score.
\<close>

definition unscored :: "search_result \<Rightarrow> search_result" where
  "unscored r = r\<lparr>sr_similarity_score := 0\<rparr>"

lemma unscored_score [simp]: "unscored (r\<lparr>sr_similarity_score := x\<rparr>) = unscored r"
  by (simp add: unscored_def)

lemma unscored_fields [simp]: "file_key (unscored r) = file_key r" "sr_chunk_id (unscored r) = sr_chunk_id r"
  by (simp_all add: unscored_def file_key_def)

text \<open>What follows from a choice up to scores.\<close>

lemma chosen_map:
  assumes "mset (map unscored out) \<subseteq># mset (map unscored cs)" "\<And>r. f (unscored r) = f r"
  shows "mset (map f out) \<subseteq># mset (map f cs)"
proof -
  have "map f xs = map f (map unscored xs)" for xs by (simp add: assms(2))
  then show ?thesis using image_mset_subseteq_mono [OF assms(1), of f] by (metis mset_map)
qed

lemma chosen_distinct:
  assumes "mset (map unscored out) \<subseteq># mset (map unscored cs)" "\<And>r. f (unscored r) = f r" "distinct (map f cs)"
  shows "distinct (map f out)"
proof -
  obtain M where "mset (map f cs) = mset (map f out) + M"
    using chosen_map [of out cs f, OF assms(1) assms(2)] by (metis mset_subset_eq_exists_conv)
  moreover obtain zs where "mset zs = M" using ex_mset by blast
  ultimately have "mset (map f cs) = mset (map f out @ zs)" by simp
  from mset_eq_imp_distinct_iff [OF this] assms(3) show ?thesis by simp
qed

lemma chosen_list_all:
  assumes "mset (map unscored out) \<subseteq># mset (map unscored cs)" "\<And>r. P (unscored r) = P r" "list_all P cs"
  shows "list_all P out"
proof -
  have "set (map P out) \<subseteq> set (map P cs)"
    using set_mset_mono [OF chosen_map [of out cs P, OF assms(1) assms(2)]] by simp
  then show ?thesis using assms(3) by (auto simp: list_all_iff)
qed

lemma chosen_same: "mset out \<subseteq># mset cs \<Longrightarrow> mset (map unscored out) \<subseteq># mset (map unscored cs)"
  by (simp add: image_mset_subseteq_mono)

subsection \<open>Page rank\<close>

lemma apply_ppr_choice: "mset (map unscored (fst (apply_ppr env cs))) = mset (map unscored cs)"
proof -
  have "map unscored (blend_ppr a sc cs) = map unscored cs" for a sc by (simp add: blend_ppr_def)
  then have "mset (map unscored (sorted_desc f (blend_ppr a sc cs))) = mset (map unscored cs)" for f :: "search_result \<Rightarrow> rat" and a sc
    by (metis sorted_desc_map_set)
  then show ?thesis by (auto simp: apply_ppr_def simp del: mset_map split: option.split)
qed

subsection \<open>The registry over an engine\<close>

locale search_engine = engine ask
  for ask :: "search_result judged list \<Rightarrow> int \<Rightarrow> search_result judged list \<times> stage_meta"
begin

lemma reranked_choice: "mset (fst (rerank_by_engine ask s cfg lookup k cs)) \<subseteq># mset cs"
proof -
  define n where "n = min llm_rerank_pool (length cs)"
  have "mset (map jc_orig (fst (ask (map (judged_of lookup) (take n cs)) k))) \<subseteq># mset (take n cs)"
    using answered_origins [of "judged_of lookup" "take n cs" k] by (simp add: judged_of_def comp_def)
  then have "mset (map jc_orig (fst (ask (map (judged_of lookup) (take n cs)) k)) @ drop n cs) \<subseteq># mset cs"
    by (metis append_take_drop_id mset_append subset_mset.add_right_mono)
  then show ?thesis
    unfolding rerank_by_engine_def Let_def n_def [symmetric]
    by (auto simp: mset_py_slice_self mset_py_slice split: prod.split)
qed

lemma reranked_kept:
  assumes "0 \<le> k" "\<not> sm_applied (snd (rerank_by_engine ask s cfg lookup k cs))"
  shows "fst (rerank_by_engine ask s cfg lookup k cs) = py_slice cs 0 k"
proof -
  define n where "n = min llm_rerank_pool (length cs)"
  obtain out meta where a: "ask (map (judged_of lookup) (take n cs)) k = (out, meta)" by fastforce
  have "py_slice (map jc_orig out @ drop n cs) 0 k = py_slice cs 0 k" if "\<not> sm_applied meta"
  proof -
    have "out = take (nat k) (map (judged_of lookup) (take n cs))"
      using kept [of "map (judged_of lookup) (take n cs)" k] that assms(1) by (simp add: a py_slice_0_nonneg)
    then have "map jc_orig out = take (nat k) (take n cs)" by (simp add: take_map judged_of_def comp_def)
    moreover have "take (nat k) (take (nat k) (take n cs) @ drop n cs) = take (nat k) cs"
    proof (cases "nat k \<le> n")
      case True
      then have "take (nat k) (take n cs) = take (nat k) cs" "length (take (nat k) cs) = nat k" by (simp_all add: n_def)
      then show ?thesis by simp
    next
      case False
      then have "take (nat k) (take n cs) = take n cs" by simp
      then show ?thesis by simp
    qed
    ultimately show ?thesis using assms(1) by (simp add: py_slice_0_nonneg)
  qed
  then show ?thesis
    using assms(2) unfolding rerank_by_engine_def Let_def n_def [symmetric] a by (auto split: if_splits)
qed

end

interpretation sonnet_mode: search_engine "rerank_with_sonnet cfg env q" for cfg env q
  by unfold_locales

interpretation openai_mode: search_engine "rerank_with_openai cfg env q" for cfg env q
  by unfold_locales

interpretation listwise_mode: search_engine "listwise_rerank_with_sonnet env q" for env q
  by unfold_locales

subsection \<open>All modes\<close>

lemma rerank_off_choice: "mset (fst (rerank_off k cs)) \<subseteq># mset cs"
  by (simp add: rerank_off_def mset_py_slice)

lemma cross_encoder_choice: "mset (map unscored (fst (rerank_cross_encoder env q k cs))) \<subseteq># mset (map unscored cs)"
proof -
  define pre where "pre = (\<lambda>r :: search_result. \<lparr>jc_path = [], jc_content = json_string (sr_content_preview r), jc_orig = r\<rparr>)"
  define origin :: "rat \<times> search_result judged \<Rightarrow> search_result" where "origin = unscored \<circ> jc_orig \<circ> snd"
  have m: "map f (py_slice xs 0 j) = py_slice (map f xs) 0 j" for f :: "'x \<Rightarrow> 'y" and xs j
    by (simp add: py_slice_0 take_map)
  have z: "mset (map origin (zip ps (map pre cs))) \<subseteq># mset (map unscored cs)" for ps
    using image_mset_subseteq_mono [OF mset_zip_snd [of ps "map pre cs"], of "unscored \<circ> jc_orig"]
    by (simp add: origin_def multiset.map_comp comp_def pre_def)
  have "mset (map origin (rerank_results p q (map pre cs) k)) \<subseteq># mset (map unscored cs)" for p
    using z by (simp add: rerank_results_def m sorted_desc_map_set mset_py_slice del: mset_map)
  then have "mset (py_slice (map origin (rerank_results p q (map pre cs) k)) 0 k) \<subseteq># mset (map unscored cs)" for p
    by (rule mset_py_slice)
  then show ?thesis
    by (simp add: rerank_cross_encoder_def Let_def m origin_def comp_def case_prod_beta pre_def [symmetric] del: mset_map)
qed

lemma get_reranker_choice: "mset (map unscored (fst (get_reranker env mode q lookup k cs))) \<subseteq># mset (map unscored cs)"
  unfolding get_reranker_def Let_def
  by (simp add: chosen_same sonnet_mode.reranked_choice openai_mode.reranked_choice listwise_mode.reranked_choice
      cross_encoder_choice rerank_off_choice del: mset_map)

lemma get_reranker_slices: "\<exists>xs. fst (get_reranker env mode q lookup k cs) = py_slice xs 0 k"
  unfolding get_reranker_def Let_def rerank_by_engine_def rerank_cross_encoder_def rerank_off_def
  by (auto split: prod.split)

lemma rerankers_bound: "0 \<le> k \<Longrightarrow> length (fst (get_reranker env mode q lookup k cs)) \<le> nat k"
proof -
  obtain xs where "fst (get_reranker env mode q lookup k cs) = py_slice xs 0 k" using get_reranker_slices by blast
  then show "0 \<le> k \<Longrightarrow> ?thesis" using py_slice_0_length [of xs k] by simp
qed

text \<open>
  C17. Whatever a reranker's model answers, in every mode, the results are candidates it was given, none more often
  than there and with nothing but their scores changed, and at most as many as asked for.
\<close>

theorem rerankers_only_choose:
  "let out = fst (get_reranker env mode q lookup k cs) in
   mset (map unscored out) \<subseteq># mset (map unscored cs) \<and> length out \<le> (if 0 \<le> k then nat k else length cs)"
  using get_reranker_choice [of env mode q lookup k cs] rerankers_bound [of k env mode q lookup cs]
    size_mset_mono [OF get_reranker_choice [of env mode q lookup k cs]] by simp

text \<open>
  C18. In the three modes that ask a language model, a stage that reports it was not applied leaves the first \<open>k\<close>
  candidates as they were: no key, no package, a timeout, too many failed calls, a malformed or incomplete answer, low
  scores.
\<close>

theorem failed_reranker_keeps_order:
  assumes "lower mode \<in> {''sonnet'', ''openai'', ''listwise''}" "0 \<le> k"
    "\<not> sm_applied (snd (get_reranker env mode q lookup k cs))"
  shows "fst (get_reranker env mode q lookup k cs) = py_slice cs 0 k"
  using assms unfolding get_reranker_def Let_def
  by (auto intro: sonnet_mode.reranked_kept openai_mode.reranked_kept listwise_mode.reranked_kept)

subsection \<open>A small environment\<close>

text \<open>Every call to a language model meets the rate limit; the embedder counts characters.\<close>

definition demo_sonnet :: sonnet_env where
  "demo_sonnet = \<lparr>so_key = True, so_package = True,
     so_ask = (\<lambda>q ps. Replies (map (\<lambda>_. Raised [(''RateLimitError'', [])]) ps))\<rparr>"

definition demo_env :: search_env where
  "demo_env = \<lparr>
     sv_config = \<lparr>sc_fusion_k = 60, sc_vector_weight = 0, sc_bm25_weight = 0, sc_content_mode = ''code'', sc_query_expansion = False,
       sc_bm25_rewrite = False, sc_reranker_mode = ''sonnet'', sc_skip_threshold = None, sc_default_mode = ''hybrid''\<rparr>,
     sv_lib = \<lparr>normalize_L2 = (\<lambda>v. v), index_search = (\<lambda>ix q n. take n (map (\<lambda>i. (1, int i)) [0..<ntotal ix])),
       index_reconstruct = (\<lambda>ix i. fx_rows ix ! i), fts_bm25 = (\<lambda>rows w q n. Some (map (\<lambda>r. (fr_chunk_id r, - 1)) rows)),
       quantization = ''int8'', can_quarantine = True\<rparr>,
     sv_embed = (\<lambda>q. Some [of_nat (length (strip_by py_space q))]), sv_rewrite = (\<lambda>q. q), sv_synonyms = [], sv_override = [],
     sv_ppr_enabled = False, sv_ppr_alpha = 0, sv_ppr_score = (\<lambda>cs hint. None),
     sv_judge = \<lparr>jg_loads = (\<lambda>s. None), jg_threshold = None, jg_path_overrides = None, jg_clause_overrides = None, jg_pool_size = None\<rparr>,
     sv_sonnet = demo_sonnet,
     sv_openai = \<lparr>oa_model = [], oa_needs_key = True, oa_key = [], oa_auth_ok = True, oa_ask = (\<lambda>q ps. Crash)\<rparr>,
     sv_listwise = \<lparr>li_loads = (\<lambda>s. None), li_key = False, li_package = False, li_draw = (\<lambda>i. 0), li_ask = (\<lambda>q cs. BadShape)\<rparr>,
     sv_predict = (\<lambda>ps. map (\<lambda>_. 0) ps)\<rparr>"

definition empty_store :: "rat store" where
  "empty_store = \<lparr>st_index = None, st_chunk_ids = [], st_metadata = \<lparr>kv_path = \<lparr>kv_tables = [kv_table], kv_rows = []\<rparr>, kv_pending = []\<rparr>,
     st_fts = None, st_marker = False, disk_index = NoFile, disk_chunk_ids = NoFile, disk_fts = NoFile\<rparr>"

definition demo_hit :: "string \<Rightarrow> rat \<Rightarrow> search_result" where
  "demo_hit cid score = result_of cid score [(''relative_path'', JStr (cid @ ''.py''))] None"

theorem failed_reranker_witness:
  "fst (get_reranker demo_env ''Sonnet'' ''save'' [] 2 [demo_hit ''a'' 1, demo_hit ''b'' 3, demo_hit ''c'' 2]) =
   [demo_hit ''a'' 1, demo_hit ''b'' 3]"
proof -
  let ?cs = "[demo_hit ''a'' 1, demo_hit ''b'' 3, demo_hit ''c'' 2]"
  have "lower ''Sonnet'' \<in> {''sonnet'', ''openai'', ''listwise''}" by code_simp
  moreover have "\<not> sm_applied (snd (get_reranker demo_env ''Sonnet'' ''save'' [] 2 ?cs))" by code_simp
  ultimately have "fst (get_reranker demo_env ''Sonnet'' ''save'' [] 2 ?cs) = py_slice ?cs 0 2"
    by (intro failed_reranker_keeps_order) simp_all
  then show ?thesis by (simp add: py_slice_0_nonneg numeral_2_eq_2)
qed

end
