(* ===== verification/Fusion_Ranks.thy ===== *)
theory Fusion_Ranks
  imports HybridSearch
begin

text \<open>What reciprocal rank fusion computes: the score of every chunk, and agreement of the two rankings.\<close>

text \<open>The share of a ranking in a chunk's score, and \<open>ahead\<close>: the ranking puts \<open>c\<close> before \<open>d\<close>, or omits \<open>d\<close>.\<close>

definition place :: "string list \<Rightarrow> string \<Rightarrow> nat" where
  "place ids c = length (takeWhile (\<lambda>x. x \<noteq> c) ids)"

definition share :: "rat \<Rightarrow> nat \<Rightarrow> string list \<Rightarrow> string \<Rightarrow> rat" where
  "share w k ids c = (if c \<in> set ids then w / of_nat (k + place ids c + 1) else 0)"

definition ahead :: "string list \<Rightarrow> string \<Rightarrow> string \<Rightarrow> bool" where
  "ahead ids c d \<longleftrightarrow> c \<in> set ids \<and> (d \<in> set ids \<longrightarrow> place ids c < place ids d)"

lemma add_score_get: "dict_get_or (add_score c x sc) d 0 = dict_get_or sc d 0 + (if d = c then x else 0)"
  by (simp add: add_score_def dict_get_or_def dict_simps)

lemma add_score_keys: "fst ` set (add_score c x sc) = insert c (fst ` set sc)"
  by (simp add: add_score_def dict_put_keys)

lemma add_ranked_keys: "fst ` set (add_ranked w k r ids sc) = fst ` set sc \<union> set ids"
  by (induction ids arbitrary: r sc) (auto simp: add_score_keys)

lemma add_ranked_distinct: "distinct (dict_keys sc) \<Longrightarrow> distinct (dict_keys (add_ranked w k r ids sc))"
  by (induction ids arbitrary: r sc) (simp_all add: add_score_def dict_put_distinct)

lemma place_Cons: "place (x # ids) c = (if x = c then 0 else Suc (place ids c))"
  by (simp add: place_def)

lemma add_ranked_get:
  "distinct ids \<Longrightarrow> dict_get_or (add_ranked w k r ids sc) c 0 = dict_get_or sc c 0 + share w (k + r) ids c"
proof (induction ids arbitrary: r sc)
  case (Cons x ids)
  then show ?case by (auto simp: add_score_get share_def place_Cons ac_simps)
qed (simp add: share_def)

lemma dict_entry: "distinct (dict_keys d) \<Longrightarrow> (c, x) \<in> set d \<Longrightarrow> x = dict_get_or d c 0"
  by (simp add: dict_get_or_def)

lemma fusion_entries:
  assumes "distinct (map fst v)" "distinct (map fst b)"
  shows "distinct (map fst (reciprocal_rank_fusion v b k vw bw))"
    and "fst ` set (reciprocal_rank_fusion v b k vw bw) = fst ` set v \<union> fst ` set b"
    and "(c, x) \<in> set (reciprocal_rank_fusion v b k vw bw) \<Longrightarrow> x = share vw k (map fst v) c + share bw k (map fst b) c"
proof -
  let ?d = "add_ranked bw k 0 (map fst b) (add_ranked vw k 0 (map fst v) [])"
  have "distinct (map fst ?d)" by (simp add: add_ranked_distinct)
  then have d: "distinct (map fst (sorted_desc snd ?d))"
    using mset_eq_imp_distinct_iff [OF sorted_desc_map_set [of fst snd ?d]] by simp
  then show "distinct (map fst (reciprocal_rank_fusion v b k vw bw))" by (simp add: reciprocal_rank_fusion_def)
  show "fst ` set (reciprocal_rank_fusion v b k vw bw) = fst ` set v \<union> fst ` set b"
    by (simp add: reciprocal_rank_fusion_def add_ranked_keys)
  assume "(c, x) \<in> set (reciprocal_rank_fusion v b k vw bw)"
  then have "x = dict_get_or ?d c 0"
    by (intro dict_entry) (simp_all add: reciprocal_rank_fusion_def add_ranked_distinct)
  then show "x = share vw k (map fst v) c + share bw k (map fst b) c"
    by (simp add: add_ranked_get [OF assms(1)] add_ranked_get [OF assms(2)]) (simp add: dict_get_or_def)
qed

lemma share_mono: "ahead ids c d \<Longrightarrow> 0 < w \<Longrightarrow> share w k ids d < share w k ids c"
  by (auto simp: ahead_def share_def intro!: divide_strict_left_mono)

lemma place_less: "distinct (map fst xs) \<Longrightarrow> i < length xs \<Longrightarrow> place (map fst xs) (fst (xs ! i)) = i"
proof (induction xs arbitrary: i)
  case (Cons a xs)
  then show ?case by (cases i) (auto simp: place_Cons)
qed simp

lemma sorted_place:
  assumes "sorted_wrt (\<lambda>x y. snd y \<le> snd x) xs" "distinct (map fst xs)" "(c, x) \<in> set xs" "(d, y) \<in> set xs" "y < (x :: rat)"
  shows "place (map fst xs) c < place (map fst xs) d"
proof -
  obtain i j where i: "i < length xs" "xs ! i = (c, x)" and j: "j < length xs" "xs ! j = (d, y)"
    using assms(3,4) by (metis in_set_conv_nth)
  have "\<not> j \<le> i" using sorted_wrt_nth_less [OF assms(1), of j i] i j assms(5) by (cases "i = j") auto
  then show ?thesis using place_less [OF assms(2) i(1)] place_less [OF assms(2) j(1)] i j by simp
qed

text \<open>
  C19. Fusing two rankings without repetitions gives every chunk of either exactly once, best first, with the
  weighted sum of reciprocal ranks as score, a missing rank counting nothing; and when the weights are positive, a
  chunk that both rankings put ahead of another is ahead of it in the fused ranking.
\<close>

theorem fusion_ranks_by_reciprocal_sums:
  assumes "distinct (map fst v)" "distinct (map fst b)" "0 < vw" "0 < bw"
  shows "let fused = reciprocal_rank_fusion v b k vw bw in
    distinct (map fst fused) \<and> fst ` set fused = fst ` set v \<union> fst ` set b \<and> sorted_wrt (\<lambda>x y. snd y \<le> snd x) fused \<and>
    list_all (\<lambda>(c, x). x = share vw k (map fst v) c + share bw k (map fst b) c) fused \<and>
    list_all (\<lambda>(c, _). list_all (\<lambda>(d, _). ahead (map fst v) c d \<and> ahead (map fst b) c d \<longrightarrow>
      place (map fst fused) c < place (map fst fused) d) fused) fused"
proof -
  define fused where "fused = reciprocal_rank_fusion v b k vw bw"
  note f = fusion_entries [OF assms(1,2), where k = k and vw = vw and bw = bw, folded fused_def]
  have s: "sorted_wrt (\<lambda>x y. snd y \<le> snd x) fused" unfolding fused_def reciprocal_rank_fusion_def by (rule sorted_desc_sorted)
  have "place (map fst fused) c < place (map fst fused) d"
    if m: "(c, x) \<in> set fused" "(d, y) \<in> set fused" and a: "ahead (map fst v) c d" "ahead (map fst b) c d" for c x d y
  proof (rule sorted_place [OF s f(1) m])
    show "y < x" using f(3) [OF m(1)] f(3) [OF m(2)] add_strict_mono [OF share_mono [OF a(1) assms(3)] share_mono [OF a(2) assms(4)]] by simp
  qed
  then show ?thesis using f s unfolding Let_def fused_def [symmetric] by (auto simp: list_all_iff)
qed

theorem fusion_witness:
  "let fused = reciprocal_rank_fusion [(''a'', 9), (''b'', 4), (''c'', 1)] [(''c'', 7), (''b'', 2)] 1 (1/2) (1/2) in
   fst ` set fused = {''a'', ''b'', ''c''} \<and> distinct (map fst fused)"
  using fusion_ranks_by_reciprocal_sums [of "[(''a'', 9), (''b'', 4), (''c'', 1)]" "[(''c'', 7), (''b'', 2)]" "1/2" "1/2" 1]
  by (auto simp: Let_def)

end
