(* ===== verification/Search_Sound.thy ===== *)
theory Search_Sound
  imports Search_Rerank Fusion_Ranks IndexStore_Query
begin

text \<open>
  A search in any mode over a consistent store returns live chunks with their own metadata; what the
  retrieval, the fusion and the ranking stages keep on the way.
\<close>

definition genuine :: "'a store \<Rightarrow> (string, json) dict \<Rightarrow> search_result \<Rightarrow> bool" where
  "genuine s fs r \<longleftrightarrow> (case map_option snd (live s (sr_chunk_id r)) of
     None \<Rightarrow> False
   | Some m \<Rightarrow> matches_filters m fs \<and> r = result_of (sr_chunk_id r) (sr_similarity_score r) m (sr_context_info r))"

lemma genuine_unscored [simp]: "genuine s fs (unscored r) = genuine s fs r"
  by (cases r) (auto simp: genuine_def unscored_def result_of_def split: option.splits)

definition hits_ok :: "'a store \<Rightarrow> (string, json) dict \<Rightarrow> (string \<times> 'b \<times> metadata) list \<Rightarrow> bool" where
  "hits_ok s fs hits \<longleftrightarrow> distinct (map fst hits) \<and>
     list_all (\<lambda>(cid, x, m). map_option snd (live s cid) = Some m \<and> matches_filters m fs) hits"

definition results_ok :: "'a store \<Rightarrow> (string, json) dict \<Rightarrow> search_result list \<Rightarrow> bool" where
  "results_ok s fs rs \<longleftrightarrow> distinct (map sr_chunk_id rs) \<and> list_all (genuine s fs) rs"

lemma chosen_results_ok:
  "mset (map unscored out) \<subseteq># mset (map unscored rs) \<Longrightarrow> results_ok s fs rs \<Longrightarrow> results_ok s fs out"
  unfolding results_ok_def
  by (simp add: chosen_distinct [where f = sr_chunk_id and cs = rs] chosen_list_all [where P = "genuine s fs" and cs = rs] del: mset_map)

lemma hits_ok_perm: "mset hits' = mset hits \<Longrightarrow> hits_ok s fs hits \<Longrightarrow> hits_ok s fs hits'"
  using mset_eq_setD [of hits' hits] mset_eq_imp_distinct_iff [of "map fst hits'" "map fst hits"]
  by (simp add: hits_ok_def list_all_iff)

subsection \<open>Runs\<close>

lemma and_then_Inr [simp]: "m st = (Inr x, st1) \<Longrightarrow> and_then m f st = f x st1"
  by (simp add: and_then_def)

lemma and_then_Inl [simp]: "m st = (Inl e, st1) \<Longrightarrow> and_then m f st = (Inl e, st1)"
  by (simp add: and_then_def)

lemma map_run_total:
  "(\<And>x. x \<in> set xs \<Longrightarrow> \<exists>y. f x st = (Inr y, st) \<and> P x y) \<Longrightarrow> \<exists>ys. map_run f xs st = (Inr ys, st) \<and> list_all2 P xs ys"
proof (induction xs)
  case (Cons x xs)
  obtain y where y: "f x st = (Inr y, st)" "P x y" using Cons.prems by (meson list.set_intros(1))
  obtain ys where "map_run f xs st = (Inr ys, st)" "list_all2 P xs ys" using Cons by (meson list.set_intros(2))
  then show ?case using y by (simp add: give_def)
qed (simp add: give_def)

subsection \<open>Results of hits\<close>

definition made_of :: "string \<times> rat \<times> metadata \<Rightarrow> search_result \<Rightarrow> bool" where
  "made_of hit r \<longleftrightarrow> (case hit of (cid, x, m) \<Rightarrow> r = result_of cid x m (sr_context_info r))"

lemma made_of_fields: "made_of (cid, x, m) r \<Longrightarrow> sr_chunk_id r = cid \<and> sr_similarity_score r = x"
  by (cases r) (simp add: made_of_def result_of_def)

lemma create_result_ok:
  assumes "store_ok (se_store st)"
  shows "\<exists>r. create_search_result env depth hit st = (Inr r, st) \<and> made_of hit r"
proof -
  obtain cid x m where h: "hit = (cid, x, m)" by (cases hit)
  obtain rs where "get_similar_chunks (sv_lib env) cid 3 (se_store st) = (Inr rs, se_store st)"
    using similar_chunks_exclude_self [OF assms] by blast
  then have "on_index (get_similar_chunks (sv_lib env) cid 3) st = (Inr rs, st)" by (simp add: on_index_def)
  then show ?thesis
    by (simp add: create_search_result_def h context_of_def give_def made_of_def result_of_def)
qed

lemma made_results_ok:
  assumes "hits_ok s fs hits" "list_all2 made_of hits rs"
  shows "results_ok s fs rs"
proof -
  have "map sr_chunk_id rs = map fst hits"
    using assms(2)
  proof (induction rule: list_all2_induct)
    case (Cons h hs r rs)
    then show ?case using made_of_fields [of "fst h" "fst (snd h)" "snd (snd h)" r] by simp
  qed simp
  moreover have "genuine s fs r" if "r \<in> set rs" for r
  proof -
    obtain i where "i < length rs" "r = rs ! i" using \<open>r \<in> set rs\<close> by (metis in_set_conv_nth)
    then have "hits ! i \<in> set hits" "made_of (hits ! i) r" using assms(2) by (auto simp: list_all2_conv_all_nth)
    then have "\<exists>cid x m. (cid, x, m) \<in> set hits \<and> made_of (cid, x, m) r" by (metis surj_pair)
    then obtain cid x m where h: "(cid, x, m) \<in> set hits" "made_of (cid, x, m) r" by blast
    then have "r = result_of (sr_chunk_id r) (sr_similarity_score r) m (sr_context_info r)"
      using made_of_fields [OF h(2)] by (simp add: made_of_def)
    then show ?thesis
      using assms(1) h(1) made_of_fields [OF h(2)] by (auto simp: genuine_def hits_ok_def list_all_iff)
  qed
  ultimately show ?thesis using assms(1) by (simp add: results_ok_def hits_ok_def list_all_iff)
qed

lemma results_of_hits:
  assumes "store_ok (se_store st)" "hits_ok (se_store st) fs hits"
  shows "\<exists>rs. map_run (create_search_result env depth) hits st = (Inr rs, st) \<and> results_ok (se_store st) fs rs \<and> length rs = length hits"
proof -
  obtain rs where "map_run (create_search_result env depth) hits st = (Inr rs, st)" "list_all2 made_of hits rs"
    using map_run_total [of hits "create_search_result env depth" st made_of] create_result_ok [OF assms(1)] by blast
  then show ?thesis using made_results_ok [OF assms(2)] list_all2_lengthD by fastforce
qed

subsection \<open>Embedding and vector search\<close>

lemma embedding_cases:
  obtains (failed) "get_query_embedding env q st = (Inl EmbeddingFailed, st)" "sv_embed env q = None"
  | (found) v st1 where "get_query_embedding env q st = (Inr v, st1)" "se_store st1 = se_store st"
  by (cases "dict_get (se_cache st) (lower (strip_by py_space q))"; cases "sv_embed env q")
     (auto simp: get_query_embedding_def Let_def)

lemma vector_search_ok:
  assumes "store_ok (se_store st)"
  shows "case on_index (\<lambda>s. search lib v k fs s) st of
     (Inl e, st1) \<Rightarrow> k \<le> 0 \<and> e = IndexFailed (BadK k) \<and> st1 = st
   | (Inr hits, st1) \<Rightarrow> 0 < k \<and> st1 = st \<and> hits_ok (se_store st) fs hits"
  using search_sound [OF assms, where lib = lib and q = v and k = k and fs = fs] by (auto simp: on_index_def hits_ok_def split: prod.splits sum.splits)

lemma bm25_hits_ok: "store_ok s \<Longrightarrow> hits_ok s fs (search_bm25 lib q k w fs s)"
  using bm25_sound [of s lib q k w fs] by (simp add: hits_ok_def)

subsection \<open>Fusion\<close>

lemma signals_order: "mset (rerank_raw_with_query_signals raw signals) = mset raw"
  by (simp add: rerank_raw_with_query_signals_def)

lemma fold_entries:
  assumes "\<And>h d. set (f h d) \<subseteq> insert (fst h, snd (snd h)) (set d)" "e \<in> set (fold f hs d)"
  shows "e \<in> set d \<or> (\<exists>h \<in> set hs. e = (fst h, snd (snd h)))"
  using assms(2)
proof (induction hs arbitrary: d)
  case (Cons h hs)
  then have "e \<in> set (f h d) \<or> (\<exists>h \<in> set hs. e = (fst h, snd (snd h)))" by simp
  then show ?case using assms(1) [of h d] by auto
qed simp

lemma lookup_entries:
  assumes "(cid, m) \<in> set (metadata_lookup v b)"
  shows "\<exists>x. (cid, x, m) \<in> set v \<union> set b"
  using assms unfolding metadata_lookup_def by (auto dest!: fold_entries [rotated] dict_put_mem split: if_splits)

lemma fused_hits_ok:
  assumes "hits_ok s fs v" "hits_ok s fs b"
  shows "hits_ok s fs (fused_hits env signals k v b (metadata_lookup v b))"
proof -
  define lookup where "lookup = metadata_lookup v b"
  define pick where "pick = (\<lambda>(cid, x :: rat). case dict_get lookup cid of None \<Rightarrow> [] | Some m \<Rightarrow> if m = [] then [] else [(cid, x, m)])"
  obtain vw bw where w: "hybrid_weights (sv_config env) signals = (vw, bw)" by fastforce
  let ?pairs = "map (\<lambda>(cid, x, _). (cid, x)) :: (string \<times> rat \<times> metadata) list \<Rightarrow> (string \<times> rat) list"
  define fused where "fused = reciprocal_rank_fusion (?pairs v) (?pairs b) (sc_fusion_k (sv_config env)) vw bw"
  obtain n where n: "fused_hits env signals k v b lookup = concat (map pick (take n fused))"
    by (simp add: fused_hits_def Let_def w pick_def fused_def py_slice_0)
  have f: "map fst (?pairs xs) = map fst xs" for xs :: "(string \<times> rat \<times> metadata) list" by (induction xs) auto
  have "distinct (map fst (?pairs v))" "distinct (map fst (?pairs b))" using assms unfolding f by (simp_all add: hits_ok_def)
  then have d: "distinct (map fst (take n fused))"
    unfolding fused_def take_map [symmetric] by (intro distinct_take fusion_entries(1))
  have p: "subseq (map fst (concat (map pick xs))) (map fst xs)" for xs
    by (induction xs) (auto simp: pick_def split: option.split)
  have "map_option snd (live s cid) = Some m \<and> matches_filters m fs" if "(cid, x, m) \<in> set (concat (map pick xs))" for cid x m xs
  proof -
    have "dict_get lookup cid = Some m" using that by (auto simp: pick_def split: option.splits if_splits)
    then obtain y where "(cid, y, m) \<in> set v \<union> set b" using lookup_entries map_of_SomeD unfolding lookup_def by metis
    then show ?thesis using assms by (auto simp: hits_ok_def list_all_iff)
  qed
  then show ?thesis unfolding lookup_def [symmetric] n hits_ok_def list_all_iff
    using subseq_distinct [OF p d] by blast
qed

subsection \<open>Ranking\<close>

lemma subseq_mset: "subseq xs ys \<Longrightarrow> mset xs \<subseteq># mset ys"
  by (induction rule: list_emb.induct) (auto intro: subset_mset.order_trans)

lemma boosted_unscored: "unscored (boosted env q signals lookup r) = unscored r"
  by (simp add: boosted_def Let_def)

lemma rank_candidates_choice: "mset (map unscored (rank_candidates env q signals lookup cs)) \<subseteq># mset (map unscored cs)"
proof -
  have s: "mset (map f xs) \<subseteq># mset (map f ys)" if "subseq xs ys" for f :: "search_result \<Rightarrow> search_result" and xs ys
    using that by (metis subseq_map subseq_mset)
  show ?thesis
    unfolding rank_candidates_def dedupe_candidates_by_file_def
    by (rule subset_mset.order_trans [OF s [OF dedup_from_subseq]]) (simp add: sorted_desc_map_set boosted_unscored comp_def multiset.map_comp)
qed

lemma rank_candidates_files: "distinct (map file_key (rank_candidates env q signals lookup cs))"
  by (simp add: rank_candidates_def dedupe_candidates_by_file_def dedup_from_distinct)

subsection \<open>The modes\<close>

lemma keyword_ok:
  assumes "store_ok (se_store st)"
  shows "\<exists>rs. keyword_search env q k fs st = (Inr rs, st) \<and> results_ok (se_store st) fs rs \<and> length rs \<le> nat k"
proof -
  define hits where "hits = search_bm25 (sv_lib env) q k 5 fs (se_store st)"
  define ranked where "ranked = map (\<lambda>(cid, rank, m). (cid, \<bar>rank\<bar>, m)) hits"
  have l: "length hits \<le> max 1 (nat k)" using bm25_sound [OF assms] unfolding hits_def by blast
  have f: "map fst ranked = map fst hits" unfolding ranked_def by (induction hits) auto
  have "hits_ok (se_store st) fs ranked"
    using bm25_hits_ok [OF assms, of fs "sv_lib env" q k 5] unfolding hits_def [symmetric] hits_ok_def f
    by (auto simp: ranked_def list_all_iff)
  then obtain rs where rs: "map_run (create_search_result env 0) ranked st = (Inr rs, st)" "results_ok (se_store st) fs rs" "length rs = length ranked"
    using results_of_hits [OF assms] by blast
  have "keyword_search env q k fs st = (Inr (py_slice rs 0 k), st)"
    using rs(1) by (simp add: keyword_search_def hits_def [symmetric] ranked_def [symmetric] give_def)
  moreover have "results_ok (se_store st) fs (py_slice rs 0 k)"
    by (rule chosen_results_ok [OF chosen_same [OF mset_py_slice_self] rs(2)])
  moreover have "length (py_slice rs 0 k) \<le> nat k"
    using rs(3) l by (auto simp: ranked_def py_slice_0 py_clip_def min_def)
  ultimately show ?thesis by blast
qed

definition failed_search :: "search_env \<Rightarrow> string \<Rightarrow> int \<Rightarrow> search_error \<Rightarrow> bool" where
  "failed_search env q k e \<longleftrightarrow> e = EmbeddingFailed \<and> sv_embed env (optimize_query q) = None \<or>
     k \<le> 0 \<and> e = IndexFailed (BadK (min (k * 10) 200))"

definition search_ok :: "search_env \<Rightarrow> string \<Rightarrow> int \<Rightarrow> (string, json) dict \<Rightarrow> bool \<Rightarrow> searcher \<Rightarrow>
    (search_error + search_result list) \<times> searcher \<Rightarrow> bool" where
  "search_ok env q k fs per_file st out \<longleftrightarrow> (case out of
     (Inl e, st1) \<Rightarrow> failed_search env q k e \<and> se_store st1 = se_store st
   | (Inr rs, st1) \<Rightarrow> results_ok (se_store st) fs rs \<and> (0 \<le> k \<longrightarrow> length rs \<le> nat k) \<and> (per_file \<longrightarrow> distinct (map file_key rs)) \<and>
       se_store st1 = se_store st)"

lemma semantic_ok:
  assumes "store_ok (se_store st)"
  shows "search_ok env q k fs False st (semantic_search env q k depth fs st)"
proof (cases rule: embedding_cases [of env "optimize_query q" st])
  case failed
  then show ?thesis by (simp add: semantic_search_def search_ok_def failed_search_def)
next
  case (found v st1)
  have ok: "store_ok (se_store st1)" using found assms by simp
  let ?k = "min (k * 10) 200"
  show ?thesis
  proof (cases "on_index (\<lambda>s. search (sv_lib env) v ?k fs s) st1")
    case (Pair out st2)
    note v = vector_search_ok [OF ok, where lib = "sv_lib env" and v = v and k = ?k and fs = fs, unfolded Pair]
    show ?thesis
    proof (cases out)
      case (Inl e)
      then show ?thesis using v found Pair by (simp add: semantic_search_def search_ok_def failed_search_def min_le_iff_disj)
    next
      case (Inr hits)
      then have h: "st2 = st1" "hits_ok (se_store st1) fs hits" using v by auto
      then obtain rs where rs: "map_run (create_search_result env depth) hits st1 = (Inr rs, st1)" "results_ok (se_store st1) fs rs"
        using results_of_hits [OF ok] by blast
      let ?out = "py_slice (rank_results rs q (detect_query_intent q)) 0 k"
      have "semantic_search env q k depth fs st = (Inr ?out, st1)"
        using found Pair Inr h rs by (simp add: semantic_search_def give_def)
      moreover have "results_ok (se_store st1) fs ?out"
        by (rule chosen_results_ok [OF chosen_same rs(2)]) (simp add: rank_results_def mset_py_slice)
      moreover have "0 \<le> k \<Longrightarrow> length ?out \<le> nat k" using py_slice_0_length [of "rank_results rs q (detect_query_intent q)" k] by simp
      ultimately show ?thesis using found by (simp add: search_ok_def)
    qed
  qed
qed

lemma pipeline_ok:
  assumes "results_ok s fs cs" "distinct (map file_key cs)"
  shows "\<exists>rs st1. run_hybrid_pipeline env q k cs lookup st = (Inr rs, st1) \<and> se_store st1 = se_store st \<and> results_ok s fs rs \<and>
    distinct (map file_key rs) \<and> (0 \<le> k \<longrightarrow> length rs \<le> nat k)"
proof -
  obtain cs1 ppr where p: "apply_ppr env cs = (cs1, ppr)" by fastforce
  obtain rs meta where r: "get_reranker env (sc_reranker_mode (sv_config env)) q lookup k cs1 = (rs, meta)" by fastforce
  have "mset (map unscored rs) \<subseteq># mset (map unscored cs1)"
    using get_reranker_choice [of env "sc_reranker_mode (sv_config env)" q lookup k cs1] r by simp
  moreover have "mset (map unscored cs1) = mset (map unscored cs)" using apply_ppr_choice [of env cs] p by simp
  ultimately have c: "mset (map unscored rs) \<subseteq># mset (map unscored cs)" by (simp del: mset_map)
  have l: "0 \<le> k \<Longrightarrow> length rs \<le> nat k"
    using rerankers_bound [of k env "sc_reranker_mode (sv_config env)" q lookup cs1] r by simp
  show ?thesis
    using chosen_results_ok [OF c assms(1)] chosen_distinct [OF c _ assms(2)] l
    by (auto simp: run_hybrid_pipeline_def p r results_ok_def)
qed

lemma hybrid_ok:
  assumes "store_ok (se_store st)"
  shows "search_ok env q k fs True st (hybrid_search env q k depth fs st)"
proof (cases rule: embedding_cases [of env "optimize_query q" st])
  case failed
  then show ?thesis by (simp add: hybrid_search_def retrieve_hybrid_candidates_def Let_def search_ok_def failed_search_def and_then_def)
next
  case (found v st1)
  have ok: "store_ok (se_store st1)" using found assms by simp
  define signals where "signals = extract_query_signals 12 q"
  define ck where "ck = candidate_k k signals"
  have ck: "0 < ck" by (simp add: ck_def candidate_k_def)
  obtain hits where h: "on_index (\<lambda>s. search (sv_lib env) v ck fs s) st1 = (Inr hits, st1)" "hits_ok (se_store st1) fs hits"
    using vector_search_ok [OF ok, where lib = "sv_lib env" and v = v and k = ck and fs = fs] ck by (auto split: prod.splits sum.splits)
  define vr where "vr = rerank_raw_with_query_signals hits signals"
  define br where "br = rerank_raw_with_query_signals (search_bm25 (sv_lib env) (bm25_query env q) ck 5 fs (se_store st1)) signals"
  define lookup where "lookup = metadata_lookup vr br"
  have "hits_ok (se_store st1) fs (fused_hits env signals k vr br lookup)"
    unfolding lookup_def vr_def br_def
    by (intro fused_hits_ok hits_ok_perm [OF signals_order] h(2) bm25_hits_ok [OF ok])
  then obtain cs where cs: "map_run (create_search_result env depth) (fused_hits env signals k vr br lookup) st1 = (Inr cs, st1)"
      "results_ok (se_store st1) fs cs"
    using results_of_hits [OF ok] by blast
  define ranked where "ranked = rank_candidates env q signals lookup cs"
  have r: "retrieve_hybrid_candidates env q k depth fs st = (Inr (ranked, lookup), st1)"
    using found(1) h(1) cs(1)
    by (simp add: retrieve_hybrid_candidates_def Let_def and_then_def give_def signals_def [symmetric] ck_def [symmetric]
        vr_def [symmetric] br_def [symmetric] lookup_def [symmetric] ranked_def [symmetric])
  have "results_ok (se_store st1) fs ranked" "distinct (map file_key ranked)"
    unfolding ranked_def by (rule chosen_results_ok [OF rank_candidates_choice cs(2)], rule rank_candidates_files)
  from pipeline_ok [OF this, of env q k lookup st1] show ?thesis
    using r found(2) by (auto simp: hybrid_search_def search_ok_def)
qed


subsection \<open>A small project\<close>

definition demo_rows :: "rat embedding_result list" where
  "demo_rows = map (\<lambda>(cid, path, v). \<lparr>er_embedding = [v], er_chunk_id = cid,
     er_metadata = [(''relative_path'', JStr path), (''name'', JStr cid), (''chunk_type'', JStr ''function'')]\<rparr>)
     [(''save'', ''a.py'', 3), (''load'', ''a.py'', 4), (''main'', ''b.py'', 5)]"

definition demo_searcher :: searcher where
  "demo_searcher = \<lparr>se_store = fold (store_step (sv_lib demo_env)) [Add demo_rows] (begin_rebuild (sv_lib demo_env) empty_store),
     se_cache = [], se_reranker_meta = stage False [], se_ppr_meta = stage False []\<rparr>"

lemma demo_searcher_ok: "store_ok (se_store demo_searcher)"
proof -
  let ?s = "begin_rebuild (sv_lib demo_env) empty_store"
  have "store_ok ?s" by (simp add: empty_store_def rebuild_empty)
  moreover have "has_dim 1 ?s"
    by (simp add: has_dim_def empty_store_def begin_rebuild_def init_fts5_def Let_def discard_unpublished_working_set_def)
  moreover have "\<forall>op \<in> set [Add demo_rows]. op_ok 1 op" by (simp add: demo_rows_def op_ok_def)
  moreover have "lower (quantization (sv_lib demo_env)) \<noteq> ''binary''" by code_simp
  ultimately have "store_ok (fold (store_step (sv_lib demo_env)) [Add demo_rows] ?s)" using run_refines by blast
  then show ?thesis by (simp add: demo_searcher_def)
qed


end
