(* ===== verification/Query_Cache.thy ===== *)
theory Query_Cache
  imports Search_Rerank
begin

text \<open>
  The cache of query embeddings is a least-recently-used cache over normal forms of the queries, with
  256 entries.
\<close>

definition query_key :: "string \<Rightarrow> string" where
  "query_key q = lower (strip_by py_space q)"

definition ask_all :: "search_env \<Rightarrow> string list \<Rightarrow> searcher \<Rightarrow> searcher" where
  "ask_all env qs st = fold (\<lambda>q st. snd (get_query_embedding env q st)) qs st"

text \<open>The last \<open>n\<close> different keys, in the order of their last use.\<close>

definition recent :: "nat \<Rightarrow> 'k list \<Rightarrow> 'k list" where
  "recent n ks = (let ds = remdups ks in drop (length ds - n) ds)"

lemma remdups_snoc: "remdups (ks @ [x]) = filter (\<lambda>k. k \<noteq> x) (remdups ks) @ [x]"
  by (induction ks) auto

lemma drop_suffix: "suffix ys xs \<Longrightarrow> drop (length xs - length ys) xs = ys"
  by (auto simp: suffix_def)

lemma recent_parts: "\<exists>old. remdups ks = old @ recent n ks \<and> (old = [] \<or> length (recent n ks) = n)"
proof -
  let ?ds = "remdups ks"
  have "?ds = take (length ?ds - n) ?ds @ recent n ks" by (simp add: recent_def Let_def)
  moreover have "take (length ?ds - n) ?ds = [] \<or> length (recent n ks) = n" by (auto simp: recent_def Let_def)
  ultimately show ?thesis by blast
qed

lemma recent_distinct: "distinct (recent n ks)"
  by (simp add: recent_def Let_def)

lemma recent_length: "length (recent n ks) \<le> n"
  by (simp add: recent_def Let_def)

text \<open>A key asked again moves to the end; a new one goes there, and the oldest leaves a full cache.\<close>

lemma recent_again:
  assumes "x \<in> set (recent n ks)"
  shows "recent n (ks @ [x]) = filter (\<lambda>k. k \<noteq> x) (recent n ks) @ [x]"
proof -
  obtain old where o: "remdups ks = old @ recent n ks" "old = [] \<or> length (recent n ks) = n" using recent_parts by blast
  have d: "distinct (old @ recent n ks)" using o(1) by (metis distinct_remdups)
  then have "filter (\<lambda>k. k \<noteq> x) old = old" using assms by (auto simp: filter_id_conv)
  then have r: "remdups (ks @ [x]) = old @ filter (\<lambda>k. k \<noteq> x) (recent n ks) @ [x]" by (simp add: remdups_snoc o(1))
  have "filter (\<lambda>k. k \<noteq> x) (recent n ks) = remove1 x (recent n ks)"
    using distinct_remove1_removeAll [OF recent_distinct [of n ks], of x] by (simp add: removeAll_filter_not_eq eq_commute)
  then have l: "length (filter (\<lambda>k. k \<noteq> x) (recent n ks) @ [x]) = length (recent n ks)"
    using assms length_pos_if_in_set [OF assms] by (simp add: length_remove1)
  show ?thesis using o(2) l recent_length [of n ks] by (auto simp: recent_def [of n "ks @ [x]"] Let_def r)
qed

lemma recent_new:
  assumes "x \<notin> set (recent n ks)" "0 < n"
  shows "recent n (ks @ [x]) = (let xs = recent n ks @ [x] in if n < length xs then tl xs else xs)"
proof -
  obtain old where o: "remdups ks = old @ recent n ks" "old = [] \<or> length (recent n ks) = n" using recent_parts by blast
  have "filter (\<lambda>k. k \<noteq> x) (recent n ks) = recent n ks" using assms by (auto simp: filter_id_conv)
  then have r: "remdups (ks @ [x]) = filter (\<lambda>k. k \<noteq> x) old @ recent n ks @ [x]" by (simp add: remdups_snoc o(1))
  show ?thesis
  proof (cases "length (recent n ks) = n")
    case True
    then show ?thesis using assms(2) by (cases "recent n ks") (auto simp: recent_def [of n "ks @ [x]"] Let_def r)
  next
    case False
    then show ?thesis using o(2) recent_length [of n ks] by (auto simp: recent_def [of n "ks @ [x]"] Let_def r)
  qed
qed

subsection \<open>The cache\<close>

definition remembers :: "search_env \<Rightarrow> string list \<Rightarrow> searcher \<Rightarrow> bool" where
  "remembers env qs st \<longleftrightarrow> dict_keys (se_cache st) = recent 256 (map query_key qs) \<and>
     (\<forall>(key, v) \<in> set (se_cache st). \<exists>p \<in> set qs. query_key p = key \<and> sv_embed env p = Some v)"

lemma remembers_start: "remembers env [] (clear_cache st)"
  by (simp add: remembers_def clear_cache_def recent_def)

lemma dict_get_keys: "dict_get d k = None \<longleftrightarrow> k \<notin> set (dict_keys d)"
  by (simp add: map_of_eq_None_iff)

lemma remembers_step:
  assumes "sv_embed env q \<noteq> None" "remembers env qs st"
  shows "\<exists>v st1. get_query_embedding env q st = (Inr v, st1) \<and> remembers env (qs @ [q]) st1 \<and>
    (\<exists>p \<in> set (qs @ [q]). query_key p = query_key q \<and> sv_embed env p = Some v)"
proof -
  let ?x = "query_key q" and ?c = "se_cache st"
  note r = assms(2) [unfolded remembers_def]
  have d: "distinct (dict_keys ?c)" using r recent_distinct by metis
  show ?thesis
  proof (cases "dict_get ?c ?x")
    case (Some v)
    then have x: "?x \<in> set (recent 256 (map query_key qs))" using r dict_get_keys [of ?c ?x] by auto
    obtain p where p: "p \<in> set qs" "query_key p = ?x" "sv_embed env p = Some v" using r map_of_SomeD [OF Some] by blast
    have "dict_keys (dict_del ?x ?c @ [(?x, v)]) = recent 256 (map query_key qs @ [?x])"
      using r recent_again [OF x] by (simp add: AList.delete_keys removeAll_filter_not_eq eq_commute)
    moreover have "set (dict_del ?x ?c) \<subseteq> set ?c" by (simp add: AList.delete_eq)
    ultimately have "remembers env (qs @ [q]) (st\<lparr>se_cache := dict_del ?x ?c @ [(?x, v)]\<rparr>)"
      using r p by (auto simp: remembers_def)
    then show ?thesis using Some p by (auto simp: get_query_embedding_def Let_def query_key_def)
  next
    case None
    obtain v where v: "sv_embed env q = Some v" using assms(1) by blast
    have x: "?x \<notin> set (recent 256 (map query_key qs))" using r None dict_get_keys [of ?c ?x] by auto
    define c1 where "c1 = ?c @ [(?x, v)]"
    have p: "dict_put ?x v ?c = c1" using r x by (simp add: dict_put_fresh c1_def)
    have "dict_keys (if 256 < length c1 then tl c1 else c1) = recent 256 (map query_key qs @ [?x])"
      using recent_new [OF x] r length_map [of fst ?c] by (auto simp: c1_def Let_def map_tl)
    moreover have "set (if 256 < length c1 then tl c1 else c1) \<subseteq> set c1" by (auto intro: list.set_sel(2))
    ultimately have "remembers env (qs @ [q]) (st\<lparr>se_cache := if 256 < length c1 then tl c1 else c1\<rparr>)"
      using r v by (auto simp: remembers_def c1_def split: if_splits)
    then show ?thesis using None v p by (auto simp: get_query_embedding_def Let_def query_key_def)
  qed
qed

lemma remembers_all:
  assumes "\<And>q. sv_embed env q \<noteq> None"
  shows "remembers env qs st \<Longrightarrow> remembers env (qs @ later) (ask_all env later st)"
proof (induction later arbitrary: qs st)
  case (Cons q later)
  then show ?case
    using remembers_step [of env q qs st, OF assms Cons.prems] Cons.IH [of "qs @ [q]"] by (auto simp: ask_all_def)
qed (simp add: ask_all_def)

text \<open>
  C20. When the embedder does not fail, then after any sequence of queries the cache holds the last 256 different normal
  forms of queries (stripped, in lower case), oldest use first, and a query is answered with the embedding of a query with
  its normal form that was asked: the least-recently-used cache changes no answer up to normal forms.
\<close>

theorem query_cache_is_lru:
  assumes "\<And>q. sv_embed env q \<noteq> None"
  shows "let st1 = ask_all env qs (clear_cache st) in
    dict_keys (se_cache st1) = recent 256 (map query_key qs) \<and>
    (\<exists>p \<in> set (qs @ [q]). query_key p = query_key q \<and> map_option Inr (sv_embed env p) = Some (fst (get_query_embedding env q st1)))"
proof -
  have r: "remembers env qs (ask_all env qs (clear_cache st))"
    using remembers_all [of env "[]", OF assms remembers_start] by simp
  show ?thesis using r remembers_step [OF assms r, of q] by (auto simp: remembers_def Let_def)
qed

definition demo_asked :: "string list \<Rightarrow> searcher" where
  "demo_asked qs = ask_all demo_env qs (clear_cache
     \<lparr>se_store = empty_store, se_cache = [(''save'', [])], se_reranker_meta = stage False [], se_ppr_meta = stage False []\<rparr>)"

theorem query_cache_witness:
  "dict_keys (se_cache (demo_asked [''save'', ''load'', ''SAVE''])) = recent 256 [''save'', ''load'', ''save'']"
proof -
  have e: "sv_embed demo_env q \<noteq> None" for q by (simp add: demo_env_def)
  have "map query_key [''save'', ''load'', ''SAVE''] = [''save'', ''load'', ''save'']" by code_simp
  then show ?thesis
    using query_cache_is_lru [of demo_env "[''save'', ''load'', ''SAVE'']", OF e] by (simp only: demo_asked_def Let_def)
qed

text \<open>An embedder that tells upper case from lower case is not asked again: the first spelling decides.\<close>

lemma first_spelling_decides:
  assumes "query_key p = query_key q" "sv_embed env p = Some v"
  shows "fst (get_query_embedding env q (ask_all env [p] (clear_cache st))) = Inr v"
  using assms by (simp add: ask_all_def get_query_embedding_def clear_cache_def Let_def query_key_def)

end
