(* ===== verification/SyntaxTree.thy ===== *)
theory SyntaxTree
  imports ChunkMerge
begin

text \<open>
  Chunking along syntax trees: the traversal of \<open>chunking/base_chunker.py\<close> and the grammars' node types
  and metadata in \<open>chunking/languages\<close>, for the chunkers that inherit the traversal.

  A tree is what tree-sitter returns: a node has its type, a byte range, the rows of its two ends and its
  children. The parsers are parameters. Source text is a list of code points below 256, encoded to UTF-8
  before it is parsed; node boundaries lie between characters, so decoding a node's bytes does not fail.
\<close>

subsection \<open>Text\<close>

definition utf8_char :: "char \<Rightarrow> bytes" where
  "utf8_char c = (let n = (of_char c :: nat) in if n < 128 then [c] else [char_of (192 + n div 64), char_of (128 + n mod 64)])"

definition utf8_encode :: "string \<Rightarrow> bytes" where
  "utf8_encode s = concat (map utf8_char s)"

fun utf8_decode :: "bytes \<Rightarrow> string" where
  "utf8_decode (b # c # bs) = (if (of_char b :: nat) < 192 then b # utf8_decode (c # bs)
     else char_of (((of_char b :: nat) - 192) * 64 + (of_char c - 128)) # utf8_decode bs)"
| "utf8_decode bs = bs"

lemma utf8_round_trip: "utf8_decode (utf8_encode s) = s"
proof (induction s)
  case (Cons c s)
  have n: "(of_char c :: nat) < 256" by (rule nat_of_char_less_256)
  have l: "utf8_decode (d # bs) = d # utf8_decode bs" if "(of_char d :: nat) < 192" for d bs
    using that by (cases bs) simp_all
  let ?n = "of_char c :: nat"
  show ?case
  proof (cases "?n < 128")
    case True
    then show ?thesis using Cons l [of c] by (simp add: utf8_encode_def utf8_char_def Let_def)
  next
    case False
    have "?n div 64 < 4" using n by (intro less_mult_imp_div_less) simp
    moreover have "?n mod 64 < 64" by simp
    ultimately have "of_char (char_of (192 + ?n div 64) :: char) = 192 + ?n div 64"
      "of_char (char_of (128 + ?n mod 64) :: char) = 128 + ?n mod 64" by simp_all
    then show ?thesis using Cons False by (simp add: utf8_encode_def utf8_char_def Let_def mult.commute)
  qed
qed (simp add: utf8_encode_def)

text \<open>\<open>strip\<close>, \<open>replace\<close> and \<open>splitlines\<close>.\<close>

definition py_strip :: "string \<Rightarrow> string" where
  "py_strip s = strip_by is_space s"

function replace_all :: "string \<Rightarrow> string \<Rightarrow> string \<Rightarrow> string" where
  "replace_all old new [] = []"
| "replace_all old new (c # s) =
     (if old \<noteq> [] \<and> starts_with (c # s) old then new @ replace_all old new (drop (length old) (c # s))
      else c # replace_all old new s)"
  by pat_completeness auto
termination by (relation "measure (\<lambda>(_, _, s). length s)") (auto simp: neq_Nil_conv)

definition line_end :: "char \<Rightarrow> bool" where
  "line_end c \<longleftrightarrow> (let n = (of_char c :: nat) in 10 \<le> n \<and> n \<le> 13 \<or> 28 \<le> n \<and> n \<le> 30 \<or> n = 133)"

function py_splitlines :: "string \<Rightarrow> string list" where
  "py_splitlines s =
     (if s = [] then []
      else takeWhile (\<lambda>c. \<not> line_end c) s #
        (case dropWhile (\<lambda>c. \<not> line_end c) s of
           [] \<Rightarrow> []
         | c # t \<Rightarrow> py_splitlines (if c = CHR 0x0D \<and> starts_with t [newline] then tl t else t)))"
  by pat_completeness auto
termination
proof (relation "measure length")
  fix s :: string and c t
  assume a: "dropWhile (\<lambda>c. \<not> line_end c) s = c # t"
  then have "length (c # t) \<le> length s" by (metis length_dropWhile_le)
  then show "(if c = CHR 0x0D \<and> starts_with t [newline] then tl t else t, s) \<in> measure length" by auto
qed auto

declare py_splitlines.simps [simp del]

subsection \<open>Trees and chunks\<close>

datatype syntax_node =
  SNode (sn_type: string) (sn_start: nat) (sn_end: nat) (sn_row: nat) (sn_end_row: nat) (sn_children: "syntax_node list")

type_synonym chunk_meta = "(string, json) dict"

record tree_chunk =
  tc_content :: string
  tc_start_line :: int
  tc_end_line :: int
  tc_node_type :: string
  tc_language :: string
  tc_metadata :: chunk_meta

text \<open>A chunker that inherits the traversal: its language, the node types it splits, its metadata.\<close>

record language =
  lg_name :: string
  lg_types :: "string list"
  lg_metadata :: "bytes \<Rightarrow> syntax_node \<Rightarrow> chunk_meta"

definition node_text :: "bytes \<Rightarrow> syntax_node \<Rightarrow> string" where
  "node_text source n = utf8_decode (take (sn_end n - sn_start n) (drop (sn_start n) source))"

definition class_types :: "string list" where
  "class_types = [''class_definition'', ''class_declaration'']"

text \<open>\<open>d.update(e)\<close>.\<close>

definition dict_update :: "('k, 'v) dict \<Rightarrow> ('k, 'v) dict \<Rightarrow> ('k, 'v) dict" where
  "dict_update d e = fold (\<lambda>(k, v). dict_put k v) e d"

definition name_of :: "chunk_meta \<Rightarrow> json" where
  "name_of m = (case dict_get m ''name'' of None \<Rightarrow> JNull | Some v \<Rightarrow> v)"

definition chunk_of :: "language \<Rightarrow> bytes \<Rightarrow> chunk_meta \<Rightarrow> syntax_node \<Rightarrow> tree_chunk" where
  "chunk_of lg source parent n =
     \<lparr>tc_content = node_text source n, tc_start_line = int (sn_row n) + 1, tc_end_line = int (sn_end_row n) + 1,
      tc_node_type = sn_type n, tc_language = lg_name lg, tc_metadata = dict_update (lg_metadata lg source n) parent\<rparr>"

definition class_info :: "chunk_meta \<Rightarrow> chunk_meta" where
  "class_info m = [(''parent_name'', name_of m), (''parent_type'', JStr ''class'')]"

fun traverse :: "language \<Rightarrow> bytes \<Rightarrow> chunk_meta \<Rightarrow> syntax_node \<Rightarrow> tree_chunk list" where
  "traverse lg source parent (SNode ty a b r e kids) =
     (let c = chunk_of lg source parent (SNode ty a b r e kids) in
      if ty \<in> set (lg_types lg)
      then c # (if ty \<in> set class_types then concat (map (traverse lg source (class_info (tc_metadata c))) kids) else [])
      else concat (map (traverse lg source parent) kids))"

definition module_chunk :: "string \<Rightarrow> chunk_meta \<Rightarrow> int \<Rightarrow> string \<Rightarrow> tree_chunk" where
  "module_chunk lang md end_line source_code =
     \<lparr>tc_content = source_code, tc_start_line = 1, tc_end_line = end_line, tc_node_type = ''module'', tc_language = lang, tc_metadata = md\<rparr>"

definition or_module :: "string \<Rightarrow> chunk_meta \<Rightarrow> int \<Rightarrow> string \<Rightarrow> tree_chunk list \<Rightarrow> tree_chunk list" where
  "or_module lang md end_line source_code chunks =
     (if chunks = [] \<and> has_text source_code then [module_chunk lang md end_line source_code] else chunks)"

definition chunk_code :: "(bytes \<Rightarrow> syntax_node) \<Rightarrow> language \<Rightarrow> string \<Rightarrow> tree_chunk list" where
  "chunk_code parse lg source_code =
     (let source = utf8_encode source_code in
      or_module (lg_name lg) [(''type'', JStr ''module'')] (int (length (py_splitlines source_code))) source_code
        (traverse lg source [] (parse source)))"

subsection \<open>Metadata\<close>

definition find_child :: "string list \<Rightarrow> syntax_node \<Rightarrow> syntax_node option" where
  "find_child types n = List.find (\<lambda>c. sn_type c \<in> set types) (sn_children n)"

definition children_of :: "string list \<Rightarrow> syntax_node \<Rightarrow> syntax_node list" where
  "children_of types n = filter (\<lambda>c. sn_type c \<in> set types) (sn_children n)"

text \<open>The first child of one of the types gives the value of a key.\<close>

definition put_child :: "string \<Rightarrow> string list \<Rightarrow> bytes \<Rightarrow> syntax_node \<Rightarrow> chunk_meta \<Rightarrow> chunk_meta" where
  "put_child key types source n m =
     (case find_child types n of None \<Rightarrow> m | Some c \<Rightarrow> dict_put key (JStr (node_text source c)) m)"

definition put_if :: "bool \<Rightarrow> string \<Rightarrow> json \<Rightarrow> chunk_meta \<Rightarrow> chunk_meta" where
  "put_if b key v m = (if b then dict_put key v m else m)"

definition first_text :: "bytes \<Rightarrow> syntax_node \<Rightarrow> string option" where
  "first_text source n = (case sn_children n of [] \<Rightarrow> None | c # _ \<Rightarrow> Some (node_text source c))"

definition node_type_meta :: "syntax_node \<Rightarrow> chunk_meta" where
  "node_type_meta n = [(''node_type'', JStr (sn_type n))]"

subsubsection \<open>Python\<close>

fun find_body :: "syntax_node list \<Rightarrow> syntax_node option \<Rightarrow> syntax_node option" where
  "find_body [] body = body"
| "find_body (c # cs) body =
     (if sn_type c = ''block'' then Some c
      else if sn_type c \<in> {''function_definition'', ''class_definition''}
      then find_body cs (case find_child [''block''] c of None \<Rightarrow> body | Some b \<Rightarrow> Some b)
      else find_body cs body)"

definition unquote :: "string \<Rightarrow> string" where
  "unquote s =
     (if starts_with s ''\"\"\"'' \<or> starts_with s (replicate 3 (CHR 0x27)) then py_slice s 3 (- 3)
      else if starts_with s ''\"'' \<or> starts_with s [CHR 0x27] then py_slice s 1 (- 1) else s)"

definition extract_docstring :: "bytes \<Rightarrow> syntax_node \<Rightarrow> string option" where
  "extract_docstring source n = (case find_body (sn_children n) None of
     None \<Rightarrow> None
   | Some body \<Rightarrow> (case sn_children body of
       [] \<Rightarrow> None
     | s # _ \<Rightarrow> if sn_type s = ''expression_statement''
         then map_option (\<lambda>t. py_strip (unquote (node_text source t))) (find_child [''string''] s) else None))"

definition python_metadata :: "bytes \<Rightarrow> syntax_node \<Rightarrow> chunk_meta" where
  "python_metadata source n =
     (let m1 = put_child ''name'' [''identifier''] source n (node_type_meta n);
          m2 = (if sn_type n = ''decorated_definition''
                then fold (put_child ''name'' [''identifier''] source) (children_of [''function_definition'', ''class_definition''] n)
                       (dict_put ''decorators'' (JArr (map (\<lambda>c. JStr (node_text source c)) (children_of [''decorator''] n))) m1)
                else m1);
          m3 = (case extract_docstring source n of None \<Rightarrow> m2 | Some d \<Rightarrow> put_if (d \<noteq> []) ''docstring'' (JStr d) m2)
      in if sn_type n = ''function_definition'' \<or> sn_type n = ''decorated_definition'' \<and> find_child [''function_definition''] n \<noteq> None
         then (case find_child [''parameters''] n of None \<Rightarrow> m3
             | Some ps \<Rightarrow> dict_put ''param_count''
                 (JInt (int (length (children_of [''identifier'', ''typed_parameter'', ''default_parameter''] ps)))) m3)
         else m3)"

definition python :: language where
  "python = \<lparr>lg_name = ''python'', lg_types = [''function_definition'', ''class_definition'', ''decorated_definition''],
     lg_metadata = python_metadata\<rparr>"

end
