(* ===== verification/Grammars.thy ===== *)
theory Grammars
  imports SyntaxTree
begin

text \<open>
  The node types and the metadata of the other languages that inherit the traversal (\<open>chunking/languages\<close>).
\<close>

subsection \<open>JavaScript, JSX and TypeScript\<close>

definition js_types :: "string list" where
  "js_types = [''function_declaration'', ''function'', ''arrow_function'', ''class_declaration'', ''method_definition'',
     ''generator_function'', ''generator_function_declaration'']"

definition javascript_metadata :: "bytes \<Rightarrow> syntax_node \<Rightarrow> chunk_meta" where
  "javascript_metadata source n =
     put_if (find_sub (sn_type n) ''generator'' \<noteq> None) ''is_generator'' (JBool True)
       (put_if (first_text source n = Some ''async'') ''is_async'' (JBool True)
         (put_child ''name'' [''identifier''] source n (node_type_meta n)))"

definition javascript :: language where
  "javascript = \<lparr>lg_name = ''javascript'', lg_types = js_types, lg_metadata = javascript_metadata\<rparr>"

definition jsx_metadata :: "bytes \<Rightarrow> syntax_node \<Rightarrow> chunk_meta" where
  "jsx_metadata source n =
     (let body = node_text source n in
      put_if (sn_type n \<in> {''function_declaration'', ''arrow_function'', ''function''} \<and> CHR ''<'' \<in> set body \<and>
              (find_sub (lower body) ''jsx'' \<noteq> None \<or> find_sub body ''return'' \<noteq> None))
        ''is_component'' (JBool True) (javascript_metadata source n))"

definition jsx :: language where
  "jsx = \<lparr>lg_name = ''javascript'', lg_types = js_types @ [''jsx_element'', ''jsx_self_closing_element''], lg_metadata = jsx_metadata\<rparr>"

text \<open>\<open>isupper\<close> of a character and \<open>isidentifier\<close>, on Latin-1.\<close>

definition upper_letter :: "char \<Rightarrow> bool" where
  "upper_letter c \<longleftrightarrow> (let n = (of_char c :: nat) in 65 \<le> n \<and> n \<le> 90 \<or> 192 \<le> n \<and> n \<le> 222 \<and> n \<noteq> 215)"

definition id_start :: "char \<Rightarrow> bool" where
  "id_start c \<longleftrightarrow> (let n = (of_char c :: nat) in
     65 \<le> n \<and> n \<le> 90 \<or> 97 \<le> n \<and> n \<le> 122 \<or> n = 95 \<or> n \<in> {170, 181, 186} \<or> 192 \<le> n \<and> n \<noteq> 215 \<and> n \<noteq> 247)"

definition id_part :: "char \<Rightarrow> bool" where
  "id_part c \<longleftrightarrow> id_start c \<or> (let n = (of_char c :: nat) in 48 \<le> n \<and> n \<le> 57 \<or> n = 183)"

definition is_component_name :: "string \<Rightarrow> bool" where
  "is_component_name nm \<longleftrightarrow> (case nm of [] \<Rightarrow> False | c # s \<Rightarrow> upper_letter c \<and> id_start c \<and> list_all id_part s)"

definition is_hook_name :: "string \<Rightarrow> bool" where
  "is_hook_name nm \<longleftrightarrow> 4 \<le> length nm \<and> starts_with nm ''use'' \<and> upper_letter (nm ! 3)"

definition declarator_name :: "bytes \<Rightarrow> syntax_node \<Rightarrow> string \<times> bool" where
  "declarator_name source d =
     fold (\<lambda>sub (nm, func).
         if sn_type sub \<in> {''identifier'', ''type_identifier''} \<and> nm = [] then (node_text source sub, func)
         else if sn_type sub \<in> {''arrow_function'', ''function'', ''function_declaration''} then (nm, True)
         else if sn_type sub \<in> {''parenthesized_expression'', ''as_expression'', ''satisfies_expression''}
         then (nm, func \<or> find_child [''arrow_function'', ''function''] sub \<noteq> None)
         else (nm, func))
       (sn_children d) ([], False)"

definition extract_declaration_name :: "bytes \<Rightarrow> syntax_node \<Rightarrow> string \<times> bool" where
  "extract_declaration_name source n =
     (case List.find (\<lambda>x. fst x \<noteq> []) (map (declarator_name source) (children_of [''variable_declarator''] n)) of
        None \<Rightarrow> ([], False) | Some x \<Rightarrow> x)"

definition typescript_metadata :: "bytes \<Rightarrow> syntax_node \<Rightarrow> chunk_meta" where
  "typescript_metadata source n =
     (let (binding, func) = (if sn_type n \<in> {''lexical_declaration'', ''variable_declaration''}
                             then extract_declaration_name source n else ([], False));
          m0 = put_if (binding \<noteq> []) ''name'' (JStr binding) (node_type_meta n);
          m1 = (if binding \<noteq> [] then m0 else put_child ''name'' [''identifier'', ''type_identifier''] source n m0);
          m2 = put_if (first_text source n = Some ''async'') ''is_async'' (JBool True) m1;
          m3 = put_if (first_text source n = Some ''export'') ''is_export'' (JBool True) m2;
          m4 = put_if (find_child [''type_parameters''] n \<noteq> None) ''has_generics'' (JBool True) m3
      in case dict_get m1 ''name'' of
           Some (JStr nm) \<Rightarrow>
             put_if (is_hook_name nm) ''is_hook'' (JBool True)
               (put_if (nm \<noteq> [] \<and> binding \<noteq> [] \<and> func \<and> is_component_name nm) ''is_component'' (JBool True) m4)
         | _ \<Rightarrow> m4)"

definition typescript :: "bool \<Rightarrow> language" where
  "typescript use_tsx = \<lparr>lg_name = (if use_tsx then ''tsx'' else ''typescript''),
     lg_types = js_types @ [''interface_declaration'', ''type_alias_declaration'', ''enum_declaration'', ''lexical_declaration'',
       ''variable_declaration''],
     lg_metadata = typescript_metadata\<rparr>"

subsection \<open>Svelte\<close>

definition svelte_metadata :: "bytes \<Rightarrow> syntax_node \<Rightarrow> chunk_meta" where
  "svelte_metadata source n =
     put_child ''name'' [''identifier''] source n
       (case find_child [''start_tag''] n of
          None \<Rightarrow> node_type_meta n
        | Some tag \<Rightarrow>
            if sn_type n = ''script_element''
            then dict_put ''script_type'' (JStr (if find_sub (node_text source tag) ''context=\"module\"'' \<noteq> None then ''module'' else ''instance''))
                   (node_type_meta n)
            else if sn_type n = ''style_element''
            then dict_put ''style_scope'' (JStr (if find_sub (node_text source tag) ''global'' \<noteq> None then ''global'' else ''component''))
                   (node_type_meta n)
            else node_type_meta n)"

definition svelte :: language where
  "svelte = \<lparr>lg_name = ''svelte'', lg_types = [''script_element'', ''style_element'', ''function_declaration'', ''function'',
     ''arrow_function'', ''class_declaration'', ''method_definition''], lg_metadata = svelte_metadata\<rparr>"

subsection \<open>Go, Rust and Java\<close>

definition receiver_type :: "syntax_node \<Rightarrow> syntax_node option" where
  "receiver_type n = (case find_child [''parameter_list''] n of
     None \<Rightarrow> None
   | Some ps \<Rightarrow> (case find_child [''parameter_declaration''] ps of
       None \<Rightarrow> None | Some p \<Rightarrow> find_child [''identifier'', ''pointer_type'', ''type_identifier''] p))"

definition go_metadata :: "bytes \<Rightarrow> syntax_node \<Rightarrow> chunk_meta" where
  "go_metadata source n =
     (let m = put_child ''name'' [''identifier''] source n (node_type_meta n) in
      case (if sn_type n = ''method_declaration'' then receiver_type n else None) of
        None \<Rightarrow> m | Some t \<Rightarrow> dict_put ''receiver_type'' (JStr (node_text source t)) m)"

definition go :: language where
  "go = \<lparr>lg_name = ''go'', lg_types = [''function_declaration'', ''method_declaration'', ''type_declaration'', ''interface_declaration'',
     ''struct_declaration''], lg_metadata = go_metadata\<rparr>"

definition rust_metadata :: "bytes \<Rightarrow> syntax_node \<Rightarrow> chunk_meta" where
  "rust_metadata source n =
     (let m1 = put_child ''name'' [''identifier'', ''type_identifier''] source n (node_type_meta n);
          is_async = (sn_type n = ''function_item'' \<and> list_ex (\<lambda>c. sn_type c = ''async'' \<or> node_text source c = ''async'') (sn_children n));
          m2 = put_if is_async ''is_async'' (JBool True) m1
      in if sn_type n = ''impl_item'' then put_child ''impl_type'' [''type_identifier'', ''generic_type''] source n m2 else m2)"

definition rust :: language where
  "rust = \<lparr>lg_name = ''rust'', lg_types = [''function_item'', ''impl_item'', ''struct_item'', ''enum_item'', ''trait_item'', ''mod_item'',
     ''macro_definition''], lg_metadata = rust_metadata\<rparr>"

definition java_metadata :: "bytes \<Rightarrow> syntax_node \<Rightarrow> chunk_meta" where
  "java_metadata source n =
     (let modifiers = concat (map (children_of [''public'', ''private'', ''protected'', ''static'', ''final'', ''abstract'', ''synchronized''])
            (children_of [''modifiers''] n))
      in put_if (find_child [''type_parameters''] n \<noteq> None) ''has_generics'' (JBool True)
           (put_if (modifiers \<noteq> []) ''modifiers'' (JArr (map (\<lambda>c. JStr (node_text source c)) modifiers))
             (put_child ''name'' [''identifier''] source n (node_type_meta n))))"

definition java :: language where
  "java = \<lparr>lg_name = ''java'', lg_types = [''method_declaration'', ''constructor_declaration'', ''class_declaration'',
     ''interface_declaration'', ''enum_declaration'', ''annotation_type_declaration''], lg_metadata = java_metadata\<rparr>"

subsection \<open>C, C++ and C#\<close>

definition put_declared :: "string list \<Rightarrow> bytes \<Rightarrow> syntax_node \<Rightarrow> chunk_meta \<Rightarrow> chunk_meta" where
  "put_declared types source n m =
     (case find_child [''function_declarator''] n of None \<Rightarrow> m | Some d \<Rightarrow> put_child ''name'' types source d m)"

definition c_metadata :: "bytes \<Rightarrow> syntax_node \<Rightarrow> chunk_meta" where
  "c_metadata source n =
     (let m = node_type_meta n; ty = sn_type n in
      if ty = ''function_definition'' then put_declared [''identifier''] source n m
      else if ty \<in> {''struct_specifier'', ''union_specifier'', ''enum_specifier''}
      then put_child ''name'' [''type_identifier'', ''identifier''] source n m
      else if ty = ''type_definition''
      then (case rev (children_of [''identifier''] n) of [] \<Rightarrow> m | c # _ \<Rightarrow> dict_put ''name'' (JStr (node_text source c)) m)
      else m)"

definition c_lang :: language where
  "c_lang = \<lparr>lg_name = ''c'', lg_types = [''function_definition'', ''struct_specifier'', ''union_specifier'', ''enum_specifier'',
     ''type_definition''], lg_metadata = c_metadata\<rparr>"

text \<open>The entity of a template is a function or a class, whose own metadata asks for no further template.\<close>

definition cpp_entity :: "bytes \<Rightarrow> syntax_node \<Rightarrow> chunk_meta" where
  "cpp_entity source n =
     (let m = node_type_meta n; ty = sn_type n in
      if ty = ''function_definition'' then put_declared [''identifier'', ''qualified_identifier''] source n m
      else if ty \<in> {''class_specifier'', ''struct_specifier'', ''namespace_definition''}
      then put_child ''name'' [''type_identifier'', ''identifier''] source n m
      else m)"

definition cpp_metadata :: "bytes \<Rightarrow> syntax_node \<Rightarrow> chunk_meta" where
  "cpp_metadata source n =
     (if sn_type n = ''template_declaration''
      then let m = dict_put ''is_template'' (JBool True) (cpp_entity source n) in
        case find_child [''function_definition'', ''class_specifier''] n of
          None \<Rightarrow> m
        | Some c \<Rightarrow> (case dict_get (cpp_entity source c) ''name'' of None \<Rightarrow> m | Some v \<Rightarrow> dict_put ''name'' v m)
      else cpp_entity source n)"

definition cpp :: language where
  "cpp = \<lparr>lg_name = ''cpp'', lg_types = [''function_definition'', ''class_specifier'', ''struct_specifier'', ''union_specifier'',
     ''enum_specifier'', ''namespace_definition'', ''template_declaration'', ''concept_definition''], lg_metadata = cpp_metadata\<rparr>"

definition csharp_metadata :: "bytes \<Rightarrow> syntax_node \<Rightarrow> chunk_meta" where
  "csharp_metadata source n =
     (let modifiers = filter (\<lambda>t. t \<in> {''public'', ''private'', ''protected'', ''internal'', ''static'', ''virtual'', ''abstract'', ''override'',
            ''async''}) (map (node_text source) (children_of [''modifier''] n))
      in put_if (find_child [''type_parameter_list''] n \<noteq> None) ''has_generics'' (JBool True)
           (put_if (''async'' \<in> set modifiers) ''is_async'' (JBool True)
             (put_if (modifiers \<noteq> []) ''modifiers'' (JArr (map JStr modifiers))
               (put_child ''name'' [''identifier''] source n (node_type_meta n)))))"

definition csharp :: language where
  "csharp = \<lparr>lg_name = ''csharp'', lg_types = [''method_declaration'', ''constructor_declaration'', ''destructor_declaration'',
     ''class_declaration'', ''struct_declaration'', ''interface_declaration'', ''enum_declaration'', ''namespace_declaration'',
     ''property_declaration'', ''event_declaration''], lg_metadata = csharp_metadata\<rparr>"

end
