(* ===== verification/LineChunkers.thy ===== *)
theory LineChunkers
  imports SyntaxTree
begin

text \<open>
  The chunkers that work on lines: \<open>toml_chunker.py\<close>, \<open>yaml_chunker.py\<close>, \<open>hcl_chunker.py\<close>, and
  \<open>markdown_chunker.py\<close>, which asks the syntax tree for the headings only. Lines count from 1.
\<close>

subsection \<open>Overlap\<close>

text \<open>The end of a chunk's content, put in front of the next.\<close>

definition overlap_of :: "nat \<Rightarrow> string \<Rightarrow> string" where
  "overlap_of n content = (if 0 < n then drop (length content - n) content @ [newline] else [])"

definition section_chunk :: "string \<Rightarrow> string \<Rightarrow> int \<Rightarrow> int \<Rightarrow> string \<Rightarrow> tree_chunk" where
  "section_chunk lang nm first last_line content =
     \<lparr>tc_content = content, tc_start_line = first, tc_end_line = last_line, tc_node_type = ''section'', tc_language = lang,
      tc_metadata = [(''name'', JStr nm), (''node_type'', JStr ''section'')]\<rparr>"

text \<open>The open section (its name once it has one, its first line, its lines), the overlap, and what was emitted.\<close>

record scan_state =
  ss_name :: "string option"
  ss_start :: int
  ss_lines :: "string list"
  ss_overlap :: string
  ss_chunks :: "tree_chunk list"

definition start_scan :: scan_state where
  "start_scan = \<lparr>ss_name = None, ss_start = 1, ss_lines = [], ss_overlap = [], ss_chunks = []\<rparr>"

definition emit_section :: "string \<Rightarrow> nat \<Rightarrow> nat \<Rightarrow> int \<Rightarrow> scan_state \<Rightarrow> scan_state" where
  "emit_section lang overlap min_lines last_line st =
     (case ss_name st of
        None \<Rightarrow> st
      | Some nm \<Rightarrow>
          let content = join_lines (ss_lines st) in
          if ss_lines st \<noteq> [] \<and> has_text content \<and> min_lines \<le> length (ss_lines st)
          then st\<lparr>ss_chunks := ss_chunks st @ [section_chunk lang nm (ss_start st) last_line (ss_overlap st @ content)],
                  ss_overlap := overlap_of overlap content\<rparr>
          else st)"

definition open_section :: "string \<Rightarrow> int \<Rightarrow> string \<Rightarrow> scan_state \<Rightarrow> scan_state" where
  "open_section nm i ln st = st\<lparr>ss_name := Some nm, ss_start := i, ss_lines := [ln]\<rparr>"

definition add_line :: "string \<Rightarrow> scan_state \<Rightarrow> scan_state" where
  "add_line ln st = st\<lparr>ss_lines := ss_lines st @ [ln]\<rparr>"

subsection \<open>TOML\<close>

text \<open>\<open>^\s*\[([^\]]+)\]\s*$\<close>.\<close>

definition toml_header :: "string \<Rightarrow> string option" where
  "toml_header ln =
     (let s = dropWhile is_space ln; nm = takeWhile (\<lambda>c. c \<noteq> CHR '']'') (tl s); rest = dropWhile (\<lambda>c. c \<noteq> CHR '']'') (tl s) in
      if starts_with s ''['' \<and> nm \<noteq> [] \<and> rest \<noteq> [] \<and> list_all is_space (tl rest) then Some nm else None)"

definition toml_line :: "nat \<Rightarrow> int \<Rightarrow> string \<Rightarrow> scan_state \<Rightarrow> scan_state" where
  "toml_line overlap i ln st =
     (case toml_header ln of
        Some nm \<Rightarrow> open_section (py_strip nm) i ln (emit_section ''toml'' overlap 0 (i - 1) st)
      | None \<Rightarrow> add_line ln (if ss_name st = None \<and> has_text ln then st\<lparr>ss_name := Some ''_preamble'', ss_start := i\<rparr> else st))"

fun scan_lines :: "(int \<Rightarrow> string \<Rightarrow> scan_state \<Rightarrow> scan_state) \<Rightarrow> int \<Rightarrow> string list \<Rightarrow> scan_state \<Rightarrow> scan_state" where
  "scan_lines f i [] st = st"
| "scan_lines f i (ln # ls) st = scan_lines f (i + 1) ls (f i ln st)"

definition chunk_toml :: "nat \<Rightarrow> string \<Rightarrow> tree_chunk list" where
  "chunk_toml overlap source_code =
     (let ls = split_lines source_code; n = int (length ls);
          st = emit_section ''toml'' overlap 0 n (scan_lines (toml_line overlap) 1 ls start_scan)
      in or_module ''toml'' [(''type'', JStr ''module'')] n source_code (ss_chunks st))"

subsection \<open>YAML\<close>

definition key_start :: "char \<Rightarrow> bool" where
  "key_start c \<longleftrightarrow> (let n = (of_char c :: nat) in 65 \<le> n \<and> n \<le> 90 \<or> 97 \<le> n \<and> n \<le> 122 \<or> n = 95)"

definition key_char :: "char \<Rightarrow> bool" where
  "key_char c \<longleftrightarrow> key_start c \<or> (let n = (of_char c :: nat) in 48 \<le> n \<and> n \<le> 57) \<or> c = CHR ''.'' \<or> c = CHR ''-''"

text \<open>\<open>^([a-zA-Z_][a-zA-Z0-9_.-]*)\s*:\<close>.\<close>

definition yaml_key :: "string \<Rightarrow> string option" where
  "yaml_key ln =
     (let nm = takeWhile key_char ln; rest = dropWhile is_space (dropWhile key_char ln) in
      if nm \<noteq> [] \<and> key_start (hd nm) \<and> starts_with rest '':'' then Some nm else None)"

definition yaml_line :: "nat \<Rightarrow> int \<Rightarrow> string \<Rightarrow> scan_state \<Rightarrow> scan_state" where
  "yaml_line overlap i ln st =
     (if py_strip ln = ''---'' then (if ss_lines st \<noteq> [] then add_line ln st else st)
      else case yaml_key ln of
          Some nm \<Rightarrow> open_section nm i ln (emit_section ''yaml'' overlap 2 (i - 1) st)
        | None \<Rightarrow> add_line ln st)"

definition chunk_yaml :: "nat \<Rightarrow> string \<Rightarrow> tree_chunk list" where
  "chunk_yaml overlap source_code =
     (let ls = split_lines source_code; n = int (length ls);
          st = emit_section ''yaml'' overlap 2 n (scan_lines (yaml_line overlap) 1 ls start_scan)
      in or_module ''yaml'' [(''type'', JStr ''module'')] n source_code (ss_chunks st))"

subsection \<open>HCL\<close>

definition block_words :: "string list" where
  "block_words = [''resource'', ''data'', ''variable'', ''output'', ''locals'', ''module'', ''provider'', ''terraform'']"

definition quoted :: "string \<Rightarrow> (string \<times> string) option" where
  "quoted s =
     (let nm = takeWhile (\<lambda>c. c \<noteq> CHR ''\"'') (tl s); rest = dropWhile (\<lambda>c. c \<noteq> CHR ''\"'') (tl s) in
      if starts_with s ''\"'' \<and> nm \<noteq> [] \<and> rest \<noteq> [] then Some (nm, tl rest) else None)"

definition opens :: "string \<Rightarrow> bool" where
  "opens s \<longleftrightarrow> starts_with (dropWhile is_space s) ''{''"

text \<open>The labels between the block word and the brace: two, one or none.\<close>

definition block_labels :: "string \<Rightarrow> string list option" where
  "block_labels s = (case quoted s of
     None \<Rightarrow> if starts_with s ''{'' then Some [] else None
   | Some (a, r1) \<Rightarrow>
       (case (if r1 \<noteq> [] \<and> is_space (hd r1) then quoted (dropWhile is_space r1) else None) of
          Some (b, r2) \<Rightarrow> if opens r2 then Some [a, b] else if opens r1 then Some [a] else None
        | None \<Rightarrow> if opens r1 then Some [a] else None))"

definition block_start :: "string \<Rightarrow> (string \<times> string list) option" where
  "block_start s =
     (case filter (\<lambda>w. starts_with s w \<and> drop (length w) s \<noteq> [] \<and> is_space (hd (drop (length w) s))) block_words of
        [] \<Rightarrow> None
      | w # _ \<Rightarrow> map_option (\<lambda>labels. (w, labels)) (block_labels (dropWhile is_space (drop (length w) s))))"

definition braces :: "string \<Rightarrow> int" where
  "braces s = int (count_list s (CHR ''{'')) - int (count_list s (CHR ''}''))"

fun take_block :: "int \<Rightarrow> string list \<Rightarrow> string list \<times> string list" where
  "take_block depth [] = ([], [])"
| "take_block depth (ln # ls) =
     (if 0 < depth then case take_block (depth + braces ln) ls of (block, rest) \<Rightarrow> (ln # block, rest) else ([], ln # ls))"

lemma take_block_append: "take_block depth ls = (block, rest) \<Longrightarrow> block @ rest = ls"
  by (induction depth ls arbitrary: block rest rule: take_block.induct) (auto split: if_splits prod.splits)

function hcl_blocks :: "nat \<Rightarrow> int \<Rightarrow> string \<Rightarrow> string list \<Rightarrow> tree_chunk list" where
  "hcl_blocks overlap i prev [] = []"
| "hcl_blocks overlap i prev (ln # ls) =
     (case block_start (py_strip ln) of
        None \<Rightarrow> hcl_blocks overlap (i + 1) prev ls
      | Some (w, labels) \<Rightarrow>
          (case take_block (braces ln) ls of (block, rest) \<Rightarrow>
             let content = join_lines (ln # block); j = i + int (length block);
                 nm = (if labels = [] then w else w @ '' '' @ join '' '' labels)
             in \<lparr>tc_content = prev @ content, tc_start_line = i, tc_end_line = j, tc_node_type = w, tc_language = ''hcl'',
                 tc_metadata = [(''name'', JStr nm), (''node_type'', JStr w)]\<rparr>
                # hcl_blocks overlap (j + 1) (overlap_of overlap content) rest))"
  by pat_completeness auto
termination
proof (relation "measure (\<lambda>(_, _, _, ls). length ls)", simp, simp, clarify)
  fix ln :: string and ls block rest and depth :: int
  assume "(block, rest) = take_block depth ls"
  then have "block @ rest = ls" using take_block_append by metis
  then show "((a, b, c, rest), (d, e, f, ln # ls)) \<in> measure (\<lambda>(_, _, _, ls). length ls)"
    for a b c d e f by auto
qed

definition chunk_hcl :: "nat \<Rightarrow> string \<Rightarrow> tree_chunk list" where
  "chunk_hcl overlap source_code =
     (let ls = split_lines source_code in
      or_module ''hcl'' [(''type'', JStr ''module'')] (int (length ls)) source_code (hcl_blocks overlap 1 [] ls))"

subsection \<open>Markdown\<close>

fun find_headings :: "syntax_node \<Rightarrow> syntax_node list" where
  "find_headings (SNode ty a b r e kids) =
     (if ty = ''atx_heading'' then [SNode ty a b r e kids] else []) @ concat (map find_headings kids)"

definition heading_chunk :: "string list \<Rightarrow> bytes \<Rightarrow> syntax_node \<Rightarrow> int \<Rightarrow> tree_chunk" where
  "heading_chunk ls source h end_line =
     (let start_line = int (sn_row h) + 1; heading = py_strip (node_text source h) in
      \<lparr>tc_content = join_lines (py_slice ls (start_line - 1) end_line), tc_start_line = start_line, tc_end_line = end_line,
       tc_node_type = ''section'', tc_language = ''markdown'',
       tc_metadata = [(''name'', JStr (py_strip (dropWhile (\<lambda>c. c = CHR ''#'') heading))),
         (''heading_level'', JInt (int (length (takeWhile (\<lambda>c. c = CHR ''#'') heading)))), (''type'', JStr ''section'')]\<rparr>)"

fun heading_chunks :: "string list \<Rightarrow> bytes \<Rightarrow> syntax_node list \<Rightarrow> tree_chunk list" where
  "heading_chunks ls source [] = []"
| "heading_chunks ls source [h] = [heading_chunk ls source h (int (length ls))]"
| "heading_chunks ls source (h # k # hs) = heading_chunk ls source h (int (sn_row k)) # heading_chunks ls source (k # hs)"

definition preamble_chunks :: "string list \<Rightarrow> nat \<Rightarrow> tree_chunk list" where
  "preamble_chunks ls row =
     (let content = py_strip (join_lines (take row ls)) in
      if 0 < row \<and> content \<noteq> []
      then [\<lparr>tc_content = content, tc_start_line = 1, tc_end_line = int row, tc_node_type = ''preamble'', tc_language = ''markdown'',
             tc_metadata = [(''name'', JStr ''Preamble''), (''type'', JStr ''preamble'')]\<rparr>]
      else [])"

definition chunk_markdown :: "(bytes \<Rightarrow> syntax_node) \<Rightarrow> string \<Rightarrow> tree_chunk list" where
  "chunk_markdown parse source_code =
     (let source = utf8_encode source_code; ls = py_splitlines source_code in
      case find_headings (parse source) of
        [] \<Rightarrow> if has_text source_code
          then [\<lparr>tc_content = source_code, tc_start_line = 1, tc_end_line = int (length ls), tc_node_type = ''document'',
                 tc_language = ''markdown'', tc_metadata = [(''type'', JStr ''document''), (''name'', JStr ''Document'')]\<rparr>]
          else []
      | h # hs \<Rightarrow> preamble_chunks ls (sn_row h) @ heading_chunks ls source (h # hs))"

end
