(* ===== verification/NixChunkers.thy ===== *)
theory NixChunkers
  imports SyntaxTree
begin

text \<open>
  The Nix chunkers: bindings with their sub-bindings (\<open>nix_chunker.py\<close>) and one chunk per declared option
  (\<open>nix_option_chunker.py\<close>).
\<close>

subsection \<open>NixOS patterns\<close>

definition nixos_option_funcs :: "string list" where
  "nixos_option_funcs = [''mkOption'', ''mkEnableOption'', ''mkPackageOption'', ''mkSinkUndeclaredOptions'']"

definition nixos_merge_funcs :: "string list" where
  "nixos_merge_funcs = [''mkMerge'', ''mkOverride'', ''mkDefault'', ''mkForce'']"

definition category_prefixes :: "(string \<times> string) list" where
  "category_prefixes = [(''services.'', ''service''), (''systemd.services.'', ''service''), (''systemd.'', ''systemd''),
     (''networking.'', ''networking''), (''boot.'', ''boot''), (''users.'', ''user''), (''environment.'', ''environment''),
     (''security.'', ''security''), (''hardware.'', ''hardware''), (''fileSystems.'', ''filesystem''), (''programs.'', ''programs'')]"

definition last_segment :: "string \<Rightarrow> string" where
  "last_segment s = List.last (split_by (\<lambda>c. c = CHR ''.'') s)"

fun apply_head :: "syntax_node \<Rightarrow> syntax_node" where
  "apply_head (SNode ty a b r e kids) =
     (if ty = ''apply_expression'' then (case kids of [] \<Rightarrow> SNode ty a b r e kids | k # _ \<Rightarrow> apply_head k) else SNode ty a b r e kids)"

definition extract_apply_func_name :: "bytes \<Rightarrow> syntax_node \<Rightarrow> string" where
  "extract_apply_func_name source n = (case sn_children n of
     [] \<Rightarrow> []
   | k # _ \<Rightarrow>
       let f = apply_head k in
       if sn_type f = ''variable_expression'' then node_text source f
       else if sn_type f = ''select_expression''
       then last_segment (case rev (children_of [''attrpath'', ''identifier''] f) of [] \<Rightarrow> node_text source f | c # _ \<Rightarrow> node_text source c)
       else [])"

definition nix_category :: "string \<Rightarrow> string option" where
  "nix_category nm =
     (if nm = ''imports'' then Some ''imports''
      else if starts_with nm ''options.'' \<or> nm = ''options'' then Some ''option_declaration''
      else map_option snd (List.find (\<lambda>(pre, _). starts_with nm pre) category_prefixes))"

definition detect_nix_patterns :: "bytes \<Rightarrow> syntax_node \<Rightarrow> string \<Rightarrow> chunk_meta" where
  "detect_nix_patterns source n nm =
     (let func = (case List.find (\<lambda>c. sn_type c \<notin> {''attrpath'', ''='', '';'', ''comment''}) (sn_children n) of
            None \<Rightarrow> []
          | Some v \<Rightarrow> if sn_type v = ''apply_expression'' then extract_apply_func_name source v else []);
          m = (if func \<in> set nixos_option_funcs then [(''nix_pattern'', JStr func), (''is_option_declaration'', JBool True)]
               else if func = ''mkIf'' then [(''nix_pattern'', JStr func), (''is_conditional'', JBool True)]
               else if func \<in> set nixos_merge_funcs then [(''nix_pattern'', JStr func), (''is_merge'', JBool True)]
               else [])
      in case (if nm = [] then None else nix_category nm) of None \<Rightarrow> m | Some c \<Rightarrow> dict_put ''nix_category'' (JStr c) m)"

definition value_types :: "string list" where
  "value_types = [''function_expression'', ''attrset_expression'', ''rec_attrset_expression'', ''list_expression'', ''with_expression'',
     ''if_expression'', ''let_expression'', ''string_expression'', ''integer_expression'', ''path_expression'', ''apply_expression'']"

definition attrpath_of :: "bytes \<Rightarrow> syntax_node \<Rightarrow> string" where
  "attrpath_of source n = (case find_child [''attrpath''] n of None \<Rightarrow> [] | Some c \<Rightarrow> node_text source c)"

definition nix_metadata :: "bytes \<Rightarrow> syntax_node \<Rightarrow> chunk_meta" where
  "nix_metadata source n =
     (if sn_type n = ''binding''
      then let m1 = put_child ''name'' [''attrpath''] source n (node_type_meta n);
               value_node = find_child value_types n;
               m2 = (case value_node of None \<Rightarrow> m1 | Some v \<Rightarrow> dict_put ''value_type'' (JStr (sn_type v)) m1);
               m3 = put_if (map_option sn_type value_node = Some ''function_expression'') ''is_function'' (JBool True) m2
           in dict_update m3 (detect_nix_patterns source n (attrpath_of source n))
      else put_if (sn_type n = ''let_expression'') ''name'' (JStr ''let'') (node_type_meta n))"

subsection \<open>Bindings\<close>

definition min_chunk_lines :: nat where
  "min_chunk_lines = 5"

definition node_lines :: "syntax_node \<Rightarrow> int" where
  "node_lines n = int (sn_end_row n) - int (sn_row n) + 1"

definition chunk_lines :: "tree_chunk list \<Rightarrow> int" where
  "chunk_lines cs = sum_list (map (\<lambda>c. tc_end_line c - tc_start_line c + 1) cs)"

definition nix :: language where
  "nix = \<lparr>lg_name = ''nix'', lg_types = [''binding'', ''let_expression''], lg_metadata = nix_metadata\<rparr>"

fun extract_chunks :: "bytes \<Rightarrow> chunk_meta \<Rightarrow> syntax_node \<Rightarrow> tree_chunk list" where
  "extract_chunks source parent (SNode ty a b r e kids) =
     (let n = SNode ty a b r e kids; c = chunk_of nix source parent n in
      if ty = ''binding'' \<and> int min_chunk_lines \<le> node_lines n
      then let inner = concat (map (extract_chunks source
                 [(''parent_name'', name_of (tc_metadata c)), (''parent_type'', JStr ''binding'')]) kids)
           in if 2 * chunk_lines inner < node_lines n then inner @ [c] else inner
      else concat (map (extract_chunks source parent) kids))"

definition chunk_nix :: "(bytes \<Rightarrow> syntax_node) \<Rightarrow> string \<Rightarrow> tree_chunk list" where
  "chunk_nix parse source_code =
     (let source = utf8_encode source_code in
      or_module ''nix'' [(''type'', JStr ''module'')] (int (length (py_splitlines source_code))) source_code
        (extract_chunks source [] (parse source)))"

subsection \<open>Options\<close>

definition find_attrset_child :: "syntax_node \<Rightarrow> syntax_node option" where
  "find_attrset_child n = find_child [''attrset_expression''] n"

definition attrset_bindings :: "syntax_node \<Rightarrow> syntax_node list" where
  "attrset_bindings n = (case find_attrset_child n of
     None \<Rightarrow> [] | Some s \<Rightarrow> concat (map (children_of [''binding'']) (children_of [''binding_set''] s)))"

definition binding_key_is :: "bytes \<Rightarrow> string \<Rightarrow> syntax_node \<Rightarrow> bool" where
  "binding_key_is source key n =
     (case find_child [''attrpath''] n of None \<Rightarrow> False | Some c \<Rightarrow> py_strip (node_text source c) = key)"

definition binding_rhs_node :: "syntax_node \<Rightarrow> syntax_node option" where
  "binding_rhs_node n =
     List.find (\<lambda>c. sn_type c \<noteq> ''='' \<and> sn_type c \<noteq> '';'') (dropWhile (\<lambda>c. sn_type c \<noteq> ''='') (sn_children n))"

definition unwrap_literal :: "string \<Rightarrow> string" where
  "unwrap_literal t =
     (if starts_with t ''\"'' \<and> ends_with t ''\"'' then replace_all [CHR 0x5C, CHR ''\"''] ''\"'' (py_slice t 1 (- 1))
      else if starts_with t [CHR 0x27, CHR 0x27] \<and> ends_with t [CHR 0x27, CHR 0x27] then py_slice t 2 (- 2)
      else t)"

definition find_string_literal_in_attrset :: "bytes \<Rightarrow> string \<Rightarrow> syntax_node \<Rightarrow> string option" where
  "find_string_literal_in_attrset source key n =
     (case List.find (\<lambda>b. binding_key_is source key b \<and> binding_rhs_node b \<noteq> None) (attrset_bindings n) of
        None \<Rightarrow> None
      | Some b \<Rightarrow> map_option (\<lambda>v. unwrap_literal (py_strip (node_text source v))) (binding_rhs_node b))"

definition find_binding_rhs_in_attrset :: "bytes \<Rightarrow> string \<Rightarrow> syntax_node \<Rightarrow> string" where
  "find_binding_rhs_in_attrset source key n =
     (case List.find (binding_key_is source key) (attrset_bindings n) of
        None \<Rightarrow> []
      | Some b \<Rightarrow> (case binding_rhs_node b of None \<Rightarrow> [] | Some v \<Rightarrow> py_strip (node_text source v)))"

definition extract_description :: "bytes \<Rightarrow> syntax_node \<Rightarrow> string" where
  "extract_description source n = (case find_string_literal_in_attrset source ''description'' n of None \<Rightarrow> [] | Some t \<Rightarrow> py_strip t)"

definition option_category :: "string \<Rightarrow> string option" where
  "option_category canonical =
     map_option snd (List.find (\<lambda>(pre, _). starts_with canonical pre \<or> find_sub (CHR ''.'' # canonical) (CHR ''.'' # pre) \<noteq> None)
       (take 9 category_prefixes))"

definition option_chunk :: "bytes \<Rightarrow> syntax_node \<Rightarrow> string \<Rightarrow> string \<Rightarrow> syntax_node \<Rightarrow> tree_chunk" where
  "option_chunk source n full_path func v =
     (let description = extract_description source v; type_text = find_binding_rhs_in_attrset source ''type'' v;
          default_text = find_binding_rhs_in_attrset source ''default'' v;
          canonical = (if starts_with full_path ''options.'' then drop 8 full_path else full_path);
          header = ''(option '' @ canonical @ '')'' @ (if description = [] then [] else CHR '' '' # description);
          m1 = [(''node_type'', JStr ''binding''), (''name'', JStr canonical), (''option_fqn'', JStr canonical), (''option_func'', JStr func),
            (''is_option_declaration'', JBool True), (''nix_pattern'', JStr func), (''nix_chunker'', JStr ''option''),
            (''value_type'', JStr ''apply_expression'')];
          m2 = put_if (default_text \<noteq> []) ''option_default'' (JStr default_text)
                 (put_if (type_text \<noteq> []) ''option_type'' (JStr type_text)
                   (put_if (description \<noteq> []) ''option_description'' (JStr description) m1))
      in \<lparr>tc_content = header @ [newline, newline] @ node_text source n, tc_start_line = int (sn_row n) + 1,
          tc_end_line = int (sn_end_row n) + 1, tc_node_type = ''binding'', tc_language = ''nix'',
          tc_metadata = (case option_category canonical of None \<Rightarrow> m2 | Some c \<Rightarrow> dict_put ''nix_category'' (JStr c) m2)\<rparr>)"

fun collect_options :: "bytes \<Rightarrow> string list \<Rightarrow> syntax_node \<Rightarrow> tree_chunk list" where
  "collect_options source parent_path (SNode ty a b r e kids) =
     (let n = SNode ty a b r e kids; attrpath = attrpath_of source n; path = (if attrpath = [] then parent_path else parent_path @ [attrpath]) in
      if ty \<noteq> ''binding'' then concat (map (collect_options source parent_path) kids)
      else case find_child [''apply_expression'', ''attrset_expression'', ''rec_attrset_expression'', ''with_expression'', ''let_expression'',
              ''if_expression''] n of
          None \<Rightarrow> concat (map (collect_options source path) kids)
        | Some v \<Rightarrow>
            if sn_type v = ''apply_expression'' \<and> extract_apply_func_name source v \<in> set nixos_option_funcs
            then [option_chunk source n (join ''.'' path) (extract_apply_func_name source v) v]
            else concat (map (collect_options source path) kids))"

definition chunk_nix_options :: "(bytes \<Rightarrow> syntax_node) \<Rightarrow> string \<Rightarrow> tree_chunk list" where
  "chunk_nix_options parse source_code =
     (let source = utf8_encode source_code in
      or_module ''nix'' [(''type'', JStr ''module''), (''nix_chunker'', JStr ''option-fallback'')]
        (int (length (py_splitlines source_code))) source_code (collect_options source [] (parse source)))"

end
