(* ===== verification/Chunkers.thy ===== *)
theory Chunkers
  imports Grammars LineChunkers NixChunkers
begin

text \<open>
  Chunking a file: the choice of a chunker by suffix (\<open>chunking/languages/__init__.py\<close>,
  \<open>chunking/tree_sitter.py\<close>) and \<open>chunking/multi_language_chunker.py\<close>, which turns tree chunks into code
  chunks and merges them.

  A parser and a read are partial: \<open>None\<close> stands for an exception. The file is read once for parsing and once
  for merging. The objects cached per suffix have no state of their own, so the cache is left out.
\<close>

subsection \<open>The chunkers\<close>

datatype chunker = Along language | Markdown | Nix | NixOption | Toml | Yaml | Hcl

definition language_map :: "(string, chunker) dict" where
  "language_map = [(''.py'', Along python), (''.js'', Along javascript), (''.jsx'', Along jsx), (''.ts'', Along (typescript False)),
     (''.tsx'', Along (typescript True)), (''.svelte'', Along svelte), (''.go'', Along go), (''.rs'', Along rust), (''.java'', Along java),
     (''.md'', Markdown), (''.c'', Along c_lang), (''.cpp'', Along cpp), (''.cc'', Along cpp), (''.cxx'', Along cpp), (''.c++'', Along cpp),
     (''.cs'', Along csharp), (''.nix'', Nix), (''.toml'', Toml), (''.yml'', Yaml), (''.yaml'', Yaml), (''.tf'', Hcl)]"

record chunk_env =
  ce_available :: "string list"
  ce_parse :: "string \<Rightarrow> bytes \<Rightarrow> syntax_node option"
  ce_read :: "string \<Rightarrow> string option"
  ce_reread :: "string \<Rightarrow> string option"
  ce_root :: string
  ce_nix_options :: bool

definition grammar_of :: "chunker \<Rightarrow> string option" where
  "grammar_of ch = (case ch of Along lg \<Rightarrow> Some (lg_name lg) | Markdown \<Rightarrow> Some ''markdown'' | Nix \<Rightarrow> Some ''nix'' | NixOption \<Rightarrow> Some ''nix'' | _ \<Rightarrow> None)"

text \<open>Building a chunker fails when its grammar is not installed.\<close>

definition can_build :: "chunk_env \<Rightarrow> chunker \<Rightarrow> bool" where
  "can_build env ch \<longleftrightarrow> (case grammar_of ch of None \<Rightarrow> True | Some g \<Rightarrow> g \<in> set (ce_available env))"

definition run_chunker :: "chunk_env \<Rightarrow> chunker \<Rightarrow> string \<Rightarrow> tree_chunk list option" where
  "run_chunker env ch source_code =
     (let parsed = (\<lambda>g run. map_option (\<lambda>t. run (\<lambda>_. t) source_code) (ce_parse env g (utf8_encode source_code))) in
      case ch of
        Along lg \<Rightarrow> parsed (lg_name lg) (\<lambda>parse. chunk_code parse lg)
      | Markdown \<Rightarrow> parsed ''markdown'' chunk_markdown
      | Nix \<Rightarrow> parsed ''nix'' chunk_nix
      | NixOption \<Rightarrow> parsed ''nix'' chunk_nix_options
      | Toml \<Rightarrow> Some (chunk_toml 100 source_code)
      | Yaml \<Rightarrow> Some (chunk_yaml 100 source_code)
      | Hcl \<Rightarrow> Some (chunk_hcl 100 source_code))"

definition file_suffix :: "string \<Rightarrow> string" where
  "file_suffix file_path = lower (path_suffix (path_name (path_parts file_path)))"

definition get_chunker :: "chunk_env \<Rightarrow> string \<Rightarrow> chunker option" where
  "get_chunker env file_path = (case dict_get language_map (file_suffix file_path) of
     None \<Rightarrow> None | Some ch \<Rightarrow> if can_build env ch then Some ch else None)"

definition tree_chunk_file :: "chunk_env \<Rightarrow> string \<Rightarrow> tree_chunk list" where
  "tree_chunk_file env file_path = (case get_chunker env file_path of
     None \<Rightarrow> []
   | Some ch \<Rightarrow> (case ce_read env file_path of
       None \<Rightarrow> []
     | Some source_code \<Rightarrow> (case run_chunker env ch source_code of None \<Rightarrow> [] | Some cs \<Rightarrow> cs)))"

definition is_supported :: "string \<Rightarrow> bool" where
  "is_supported file_path \<longleftrightarrow> file_suffix file_path \<in> set (dict_keys language_map)"

subsection \<open>Paths\<close>

text \<open>\<open>Path.parts\<close>, \<open>str(path)\<close>, \<open>relative_to\<close> and the name of the parent.\<close>

definition pure_parts :: "string \<Rightarrow> string list" where
  "pure_parts p = (if starts_with p ''/'' then [''/''] else []) @ path_parts p"

definition path_string :: "string list \<Rightarrow> string" where
  "path_string ps = (case ps of
     [] \<Rightarrow> ''.'' | p # rest \<Rightarrow> if p = ''/'' then ''/'' @ join ''/'' rest else join ''/'' ps)"

definition relative_to :: "string \<Rightarrow> string \<Rightarrow> string list option" where
  "relative_to p base =
     (let n = length (pure_parts base) in
      if take n (pure_parts p) = pure_parts base then Some (drop n (pure_parts p)) else None)"

definition parent_folder :: "string \<Rightarrow> string list" where
  "parent_folder p = (let ps = butlast (path_parts p) in if ps = [] then [] else [List.last ps])"

definition folder_parts :: "string \<Rightarrow> string \<Rightarrow> string list" where
  "folder_parts base p =
     (if base = [] then parent_folder p
      else case relative_to p base of None \<Rightarrow> parent_folder p | Some rel \<Rightarrow> butlast rel)"

definition relative_path_of :: "string \<Rightarrow> string \<Rightarrow> string option" where
  "relative_path_of base p =
     (if base = [] then Some (path_string (pure_parts p)) else map_option path_string (relative_to p base))"

subsection \<open>Code chunks\<close>

definition chunk_type_map :: "(string, string) dict" where
  "chunk_type_map = [(''function_declaration'', ''function''), (''function_definition'', ''function''), (''arrow_function'', ''function''),
     (''function'', ''function''), (''function_item'', ''function''), (''method_declaration'', ''method''), (''method_definition'', ''method''),
     (''class_declaration'', ''class''), (''class_definition'', ''class''), (''class_specifier'', ''class''),
     (''interface_declaration'', ''interface''), (''type_alias_declaration'', ''type''), (''type_declaration'', ''type''),
     (''enum_declaration'', ''enum''), (''enum_specifier'', ''enum''), (''enum_item'', ''enum''), (''struct_declaration'', ''struct''),
     (''struct_specifier'', ''struct''), (''struct_item'', ''struct''), (''union_specifier'', ''union''),
     (''namespace_definition'', ''namespace''), (''namespace_declaration'', ''namespace''), (''impl_item'', ''impl''),
     (''trait_item'', ''trait''), (''mod_item'', ''module''), (''macro_definition'', ''macro''),
     (''constructor_declaration'', ''constructor''), (''destructor_declaration'', ''destructor''), (''property_declaration'', ''property''),
     (''event_declaration'', ''event''), (''template_declaration'', ''template''), (''concept_definition'', ''concept''),
     (''annotation_type_declaration'', ''annotation''), (''script_element'', ''script''), (''style_element'', ''style''),
     (''section'', ''section''), (''preamble'', ''preamble''), (''document'', ''document''), (''binding'', ''binding''),
     (''let_expression'', ''let'')]"

definition meta_string :: "chunk_meta \<Rightarrow> string \<Rightarrow> string option" where
  "meta_string m key = (case dict_get m key of Some (JStr s) \<Rightarrow> Some s | _ \<Rightarrow> None)"

definition meta_set :: "chunk_meta \<Rightarrow> string \<Rightarrow> bool" where
  "meta_set m key \<longleftrightarrow> (case dict_get m key of None \<Rightarrow> False | Some v \<Rightarrow> json_truthy v)"

definition nix_type :: "chunk_meta \<Rightarrow> string \<Rightarrow> string" where
  "nix_type m ty =
     (case meta_string m ''nix_pattern'' of
        Some f \<Rightarrow> if f \<in> {''mkOption'', ''mkEnableOption'', ''mkPackageOption'', ''mkSinkUndeclaredOptions''} then ''option''
          else if meta_string m ''nix_category'' = Some ''service'' then ''service_config''
          else if meta_string m ''nix_category'' = Some ''imports'' then ''imports'' else ty
      | None \<Rightarrow> if meta_string m ''nix_category'' = Some ''service'' then ''service_config''
          else if meta_string m ''nix_category'' = Some ''imports'' then ''imports'' else ty)"

definition chunk_type_of :: "tree_chunk \<Rightarrow> string" where
  "chunk_type_of t =
     (let m = tc_metadata t; ty = dict_get_or chunk_type_map (tc_node_type t) (tc_node_type t);
          ty1 = (if tc_language t = ''nix'' \<and> ty = ''binding'' then nix_type m ty else ty)
      in if truthy (meta_string m ''parent_name'') \<and> ty1 = ''function'' then ''method'' else ty1)"

definition semantic_tags :: "(string \<times> string) list" where
  "semantic_tags = [(''is_async'', ''async''), (''is_generator'', ''generator''), (''is_export'', ''export''), (''has_generics'', ''generic''),
     (''is_component'', ''component''), (''is_option_declaration'', ''nixos-option''), (''is_conditional'', ''nixos-conditional''),
     (''is_merge'', ''nixos-merge'')]"

definition tags_of :: "tree_chunk \<Rightarrow> string list" where
  "tags_of t =
     map snd (filter (\<lambda>(key, _). meta_set (tc_metadata t) key) semantic_tags) @
     (case meta_string (tc_metadata t) ''nix_category'' of Some c \<Rightarrow> if c \<noteq> [] then [''nix-'' @ c] else [] | None \<Rightarrow> []) @ [tc_language t]"

definition string_items :: "chunk_meta \<Rightarrow> string \<Rightarrow> string list" where
  "string_items m key = (case dict_get m key of
     Some (JArr vs) \<Rightarrow> concat (map (\<lambda>v. case v of JStr s \<Rightarrow> [s] | _ \<Rightarrow> []) vs) | _ \<Rightarrow> [])"

definition convert_tree_chunk :: "string \<Rightarrow> string \<Rightarrow> string \<Rightarrow> tree_chunk \<Rightarrow> code_chunk" where
  "convert_tree_chunk base rel p t =
     post_init \<lparr>c_content = tc_content t, c_type = chunk_type_of t, c_start = tc_start_line t, c_end = tc_end_line t,
       c_file = path_string (pure_parts p), c_rel = rel, c_folders = folder_parts base p, c_name = meta_string (tc_metadata t) ''name'',
       c_parent = meta_string (tc_metadata t) ''parent_name'', c_doc = meta_string (tc_metadata t) ''docstring'',
       c_decorators = string_items (tc_metadata t) ''decorators'', c_imports = [], c_complexity = 0, c_tags = tags_of t\<rparr>"

text \<open>A path outside the root raises once there is a chunk to convert.\<close>

definition convert_tree_chunks :: "string \<Rightarrow> string \<Rightarrow> tree_chunk list \<Rightarrow> code_chunk list option" where
  "convert_tree_chunks base p ts =
     (if ts = [] then Some []
      else map_option (\<lambda>rel. map (convert_tree_chunk base rel p) ts) (relative_path_of base p))"

subsection \<open>A file, a directory\<close>

definition nix_option_path :: "string \<Rightarrow> bool" where
  "nix_option_path p \<longleftrightarrow>
     (let q = map (\<lambda>c. if c = CHR 0x5C then CHR ''/'' else c) p in ends_with q ''.nix'' \<and> find_sub q ''nix/modules/'' \<noteq> None)"

definition chunk_nix_option_file :: "chunk_env \<Rightarrow> string \<Rightarrow> code_chunk list option" where
  "chunk_nix_option_file env p =
     (case ce_read env p of
        None \<Rightarrow> None
      | Some source_code \<Rightarrow>
          if \<not> can_build env NixOption then None
          else case run_chunker env NixOption source_code of
              None \<Rightarrow> None
            | Some ts \<Rightarrow> map_option (map (\<lambda>c. if c_folders c = [] then c\<lparr>c_folders := folder_parts (ce_root env) p\<rparr> else c))
                (convert_tree_chunks (ce_root env) p ts))"

definition chunk_merged_file :: "chunk_env \<Rightarrow> string \<Rightarrow> code_chunk list option" where
  "chunk_merged_file env p =
     (case convert_tree_chunks (ce_root env) p (tree_chunk_file env p) of
        None \<Rightarrow> None
      | Some chunks \<Rightarrow> (case ce_reread env p of
          None \<Rightarrow> Some chunks
        | Some source_code \<Rightarrow>
            map_option (\<lambda>rel. merge_file_chunks chunks source_code (path_string (pure_parts p)) rel (folder_parts (ce_root env) p) max_chunk_nws)
              (relative_path_of (ce_root env) p)))"

text \<open>Every exception is logged and answered with no chunks.\<close>

definition chunk_file :: "chunk_env \<Rightarrow> string \<Rightarrow> code_chunk list" where
  "chunk_file env p =
     (if \<not> is_supported p then []
      else case (if nix_option_path p \<and> ce_nix_options env then chunk_nix_option_file env p else chunk_merged_file env p) of
          None \<Rightarrow> [] | Some chunks \<Rightarrow> chunks)"

definition ignored_dirs :: "string list" where
  "ignored_dirs = [''__pycache__'', ''.git'', ''.hg'', ''.svn'', ''.venv'', ''venv'', ''env'', ''.env'', ''.direnv'', ''node_modules'',
     ''.pnpm-store'', ''.yarn'', ''.pytest_cache'', ''.mypy_cache'', ''.ruff_cache'', ''.pytype'', ''.ipynb_checkpoints'', ''build'', ''dist'',
     ''out'', ''public'', ''.next'', ''.nuxt'', ''.svelte-kit'', ''.angular'', ''.astro'', ''.vite'', ''.cache'', ''.parcel-cache'', ''.turbo'',
     ''coverage'', ''.coverage'', ''.nyc_output'', ''.gradle'', ''.idea'', ''.vscode'', ''.docusaurus'', ''.vercel'', ''.serverless'',
     ''.terraform'', ''.mvn'', ''.tox'', ''target'', ''bin'', ''obj'', ''logs'', ''.claude_code_search'']"

text \<open>\<open>found ext\<close> lists what \<open>rglob\<close> finds for a suffix; \<open>None\<close> when the directory does not exist.\<close>

definition chunk_directory :: "chunk_env \<Rightarrow> (string \<Rightarrow> string list) option \<Rightarrow> string list \<Rightarrow> code_chunk list" where
  "chunk_directory env found extensions =
     (case found of
        None \<Rightarrow> []
      | Some files \<Rightarrow>
          let wanted = (if extensions = [] then dict_keys language_map else filter (\<lambda>x. x \<in> set (dict_keys language_map)) (remdups extensions))
          in concat (map (\<lambda>ext. concat (map (\<lambda>p. if list_ex (\<lambda>part. part \<in> set ignored_dirs) (pure_parts p) then [] else chunk_file env p)
               (files ext))) wanted))"

end
