(* ===== verification/Chunk_Trees.thy ===== *)
theory Chunk_Trees
  imports Chunkers Chunk_Coverage
begin

text \<open>
  What the traversal of a syntax tree emits, against a list of the tree's nodes with their ancestors, and the
  line ranges of its chunks.
\<close>

subsection \<open>The emitted nodes\<close>

text \<open>The nodes in preorder, each with its ancestors, the nearest first.\<close>

fun tree_nodes :: "syntax_node list \<Rightarrow> syntax_node \<Rightarrow> (syntax_node list \<times> syntax_node) list" where
  "tree_nodes anc (SNode ty a b r e kids) =
     (anc, SNode ty a b r e kids) # concat (map (tree_nodes (SNode ty a b r e kids # anc)) kids)"

definition splits :: "language \<Rightarrow> syntax_node \<Rightarrow> bool" where
  "splits lg n \<longleftrightarrow> sn_type n \<in> set (lg_types lg)"

definition is_class :: "syntax_node \<Rightarrow> bool" where
  "is_class n \<longleftrightarrow> sn_type n \<in> set class_types"

definition open_above :: "language \<Rightarrow> syntax_node list \<Rightarrow> bool" where
  "open_above lg anc \<longleftrightarrow> list_all (\<lambda>n. splits lg n \<longrightarrow> is_class n) anc"

definition emitted :: "language \<Rightarrow> syntax_node list \<times> syntax_node \<Rightarrow> bool" where
  "emitted lg x \<longleftrightarrow> (case x of (anc, n) \<Rightarrow> splits lg n \<and> open_above lg anc)"

definition parent_meta :: "language \<Rightarrow> bytes \<Rightarrow> syntax_node list \<Rightarrow> chunk_meta" where
  "parent_meta lg source anc = (case List.find (splits lg) anc of None \<Rightarrow> [] | Some p \<Rightarrow> class_info (lg_metadata lg source p))"

definition emit :: "language \<Rightarrow> bytes \<Rightarrow> syntax_node list \<times> syntax_node \<Rightarrow> tree_chunk" where
  "emit lg source x = (case x of (anc, n) \<Rightarrow> chunk_of lg source (parent_meta lg source anc) n)"

lemma emitted_pair: "emitted lg (anc, n) \<longleftrightarrow> splits lg n \<and> open_above lg anc"
  by (simp add: emitted_def)

lemma name_of_parent: "name_of (dict_update m (parent_meta lg source anc)) = name_of m"
  by (auto simp: parent_meta_def class_info_def dict_update_def name_of_def dict_simps split: option.split)

lemma closed_above: "\<not> open_above lg anc \<Longrightarrow> filter (emitted lg) (tree_nodes anc n) = []"
proof (induction anc n rule: tree_nodes.induct)
  case (1 anc ty a b r e kids)
  then show ?case by (auto simp: emitted_def open_above_def filter_concat comp_def)
qed

lemma traverse_emits:
  "open_above lg anc \<Longrightarrow> traverse lg source (parent_meta lg source anc) n = map (emit lg source) (filter (emitted lg) (tree_nodes anc n))"
proof (induction anc n rule: tree_nodes.induct)
  case (1 anc ty a b r e kids)
  let ?n = "SNode ty a b r e kids"
  have inner: "concat (map (traverse lg source (parent_meta lg source (?n # anc))) kids) =
      map (emit lg source) (filter (emitted lg) (concat (map (tree_nodes (?n # anc)) kids)))" if o: "open_above lg (?n # anc)"
  proof -
    have "map (traverse lg source (parent_meta lg source (?n # anc))) kids =
        map (\<lambda>k. map (emit lg source) (filter (emitted lg) (tree_nodes (?n # anc) k))) kids"
      using "1.IH" [OF _ o] by (intro map_cong) auto
    then show ?thesis by (simp only: filter_concat map_concat map_map comp_def)
  qed
  have cut: "filter (emitted lg) (concat (map (tree_nodes (?n # anc)) kids)) = []" if "\<not> open_above lg (?n # anc)"
    using closed_above [OF that] by (auto simp: filter_concat comp_def)
  consider (other) "\<not> splits lg ?n" | (leaf) "splits lg ?n" "\<not> is_class ?n" | (cls) "splits lg ?n" "is_class ?n" by blast
  then show ?case
  proof cases
    case other
    then have "parent_meta lg source (?n # anc) = parent_meta lg source anc" by (simp add: parent_meta_def)
    moreover have "open_above lg (?n # anc)" using other "1.prems" by (simp add: open_above_def)
    ultimately show ?thesis using inner other by (simp add: emitted_pair splits_def)
  next
    case leaf
    then have "\<not> open_above lg (?n # anc)" by (simp add: open_above_def)
    then show ?thesis using cut leaf "1.prems" by (simp add: emitted_pair splits_def is_class_def emit_def)
  next
    case cls
    then have o: "open_above lg (?n # anc)" using "1.prems" by (simp add: open_above_def)
    have "class_info (tc_metadata (chunk_of lg source (parent_meta lg source anc) ?n)) = parent_meta lg source (?n # anc)"
      using cls by (simp add: chunk_of_def class_info_def name_of_parent) (simp add: parent_meta_def class_info_def)
    then show ?thesis using inner [OF o] cls "1.prems" by (simp add: emitted_pair splits_def is_class_def emit_def Let_def)
  qed
qed

text \<open>
  C21. A chunker that inherits the traversal emits, in the order of the text, one chunk for exactly those nodes of a
  splittable type whose splittable ancestors are all classes, with the name of the nearest one as parent; a source with
  text and no such node is one module chunk.
\<close>

theorem chunks_are_outermost_units:
  "chunk_code parse lg source_code =
     (let source = utf8_encode source_code;
          units = map (emit lg source) (filter (emitted lg) (tree_nodes [] (parse source)))
      in if units = [] \<and> has_text source_code
         then [module_chunk (lg_name lg) [(''type'', JStr ''module'')] (int (length (py_splitlines source_code))) source_code]
         else units)"
  using traverse_emits [of lg "[]" "utf8_encode source_code" "parse (utf8_encode source_code)"]
  by (simp add: chunk_code_def or_module_def Let_def open_above_def parent_meta_def)

end
