(* ===== verification/Chunk_Lines.thy ===== *)
theory Chunk_Lines
  imports Chunkers Chunk_Coverage
begin

text \<open>
  The line ranges of the chunks of every chunker: within the file, for a syntax tree whose rows are. The sections of a
  TOML file tile it.
\<close>

subsection \<open>Lines\<close>

definition tree_chunk_ok :: "int \<Rightarrow> tree_chunk \<Rightarrow> bool" where
  "tree_chunk_ok n t \<longleftrightarrow> 1 \<le> tc_start_line t \<and> tc_start_line t \<le> tc_end_line t \<and> tc_end_line t \<le> n"

text \<open>A text whose only line ends are newlines, so that \<open>splitlines\<close> and \<open>split('\n')\<close> agree on them.\<close>

definition plain_lines :: "string \<Rightarrow> bool" where
  "plain_lines s \<longleftrightarrow> list_all (\<lambda>c. \<not> line_end c \<or> c = newline) s"

lemma newline_ends [simp]: "line_end newline"
  by (simp add: line_end_def newline_def)

lemma split_lines_length: "length (split_lines s) = Suc (count_list s newline)"
  by (induction s) (auto split: list.split)

lemma splitlines_count:
  "plain_lines s \<Longrightarrow> length (py_splitlines s) \<le> Suc (count_list s newline)"
proof (induction s rule: py_splitlines.induct)
  case (1 s)
  let ?w = "takeWhile (\<lambda>c. \<not> line_end c) s"
  show ?case
  proof (cases "dropWhile (\<lambda>c. \<not> line_end c) s")
    case Nil
    then show ?thesis by (subst py_splitlines.simps) (simp del: dropWhile_eq_Nil_conv)
  next
    case (Cons c t)
    have s: "s = ?w @ c # t" using Cons by (metis takeWhile_dropWhile_id)
    have sub: "set (c # t) \<subseteq> set s" using Cons by (metis set_dropWhileD subsetI)
    have "line_end c" using Cons by (metis hd_dropWhile list.distinct(1) list.sel(1))
    then have c: "c = newline" and t: "plain_lines t" using "1.prems" sub by (auto simp: plain_lines_def list_all_iff)
    then have ncr: "c \<noteq> CHR 0x0D" by (simp add: newline_def)
    have "s \<noteq> []" using s by auto
    with "1.IH" [OF _ Cons] t ncr have "length (py_splitlines t) \<le> Suc (count_list t newline)" by simp
    moreover have "count_list s newline = Suc (count_list t newline)"
    proof -
      have "count_list ?w newline = 0" by (auto simp: count_list_0_iff dest: set_takeWhileD)
      then show ?thesis using arg_cong [OF s, of "\<lambda>x. count_list x newline"] c by simp
    qed
    ultimately show ?thesis using Cons ncr \<open>s \<noteq> []\<close> by (subst py_splitlines.simps) simp
  qed
qed

lemma splitlines_bounds:
  assumes "plain_lines s" "has_text s"
  shows "1 \<le> length (py_splitlines s)" "length (py_splitlines s) \<le> length (split_lines s)"
proof -
  have "s \<noteq> []" using assms(2) by auto
  then show "1 \<le> length (py_splitlines s)" by (subst py_splitlines.simps) simp
  show "length (py_splitlines s) \<le> length (split_lines s)"
    using splitlines_count [OF assms(1)] by (simp add: split_lines_length)
qed

lemma or_module_ok:
  assumes "list_all (tree_chunk_ok n) cs" "has_text s \<Longrightarrow> 1 \<le> e \<and> e \<le> n"
  shows "list_all (tree_chunk_ok n) (or_module lang md e s cs)"
  using assms by (auto simp: or_module_def module_chunk_def tree_chunk_ok_def)

subsection \<open>Syntax trees\<close>

text \<open>The rows of every node are rows of the text, in order.\<close>

fun rows_ok :: "nat \<Rightarrow> syntax_node \<Rightarrow> bool" where
  "rows_ok n (SNode ty a b r e kids) \<longleftrightarrow> r \<le> e \<and> e < n \<and> list_all (rows_ok n) kids"

lemma chunk_of_ok: "rows_ok n t \<Longrightarrow> tree_chunk_ok (int n) (chunk_of lg source parent t)"
  by (cases t) (simp add: chunk_of_def tree_chunk_ok_def)

lemma traverse_ok: "rows_ok n t \<Longrightarrow> list_all (tree_chunk_ok (int n)) (traverse lg source parent t)"
proof (induction lg source parent t rule: traverse.induct)
  case (1 lg source parent ty a b r e kids)
  have "tree_chunk_ok (int n) (chunk_of lg source parent (SNode ty a b r e kids))" by (rule chunk_of_ok [OF "1.prems"])
  with 1 show ?case by (auto simp: Let_def list_all_iff)
qed

lemma extract_chunks_ok: "rows_ok n t \<Longrightarrow> list_all (tree_chunk_ok (int n)) (extract_chunks source parent t)"
proof (induction source parent t rule: extract_chunks.induct)
  case (1 source parent ty a b r e kids)
  have "tree_chunk_ok (int n) (chunk_of nix source parent (SNode ty a b r e kids))" by (rule chunk_of_ok [OF "1.prems"])
  with 1 show ?case by (auto simp: Let_def list_all_iff)
qed

lemma heading_chunks_ok:
  assumes "sorted_wrt (<) (map sn_row hs)" "list_all (\<lambda>h. sn_row h < length ls) hs"
  shows "list_all (tree_chunk_ok (int (length ls))) (heading_chunks ls source hs)"
  using assms
  by (induction ls source hs rule: heading_chunks.induct) (auto simp: heading_chunk_def tree_chunk_ok_def Let_def)

subsection \<open>Scanning lines\<close>

lemma scan_invariant:
  assumes "P 0 st" "\<And>m st. m < length ls \<Longrightarrow> P m st \<Longrightarrow> P (Suc m) (f (i + int m) (ls ! m) st)"
  shows "P (length ls) (scan_lines f i ls st)"
  using assms
proof (induction ls arbitrary: P i st)
  case (Cons ln ls)
  have one: "P (Suc 0) (f i ln st)" using Cons.prems(2) [of 0 st] Cons.prems(1) by simp
  have step: "P (Suc (Suc m)) (f (i + 1 + int m) (ls ! m) s)" if "m < length ls" "P (Suc m) s" for m s
    using Cons.prems(2) [of "Suc m" s] that by (simp add: add.assoc)
  show ?case using Cons.IH [of "\<lambda>m. P (Suc m)", OF one step] by simp
qed simp

definition scan_ok :: "int \<Rightarrow> scan_state \<Rightarrow> bool" where
  "scan_ok m st \<longleftrightarrow> (ss_name st = None \<or> 1 \<le> ss_start st \<and> ss_start st \<le> m) \<and> list_all (tree_chunk_ok m) (ss_chunks st)"

lemma scan_ok_start: "scan_ok 0 start_scan"
  by (simp add: scan_ok_def start_scan_def)

lemma scan_ok_mono: "scan_ok m st \<Longrightarrow> m \<le> n \<Longrightarrow> scan_ok n st"
  by (force simp: scan_ok_def tree_chunk_ok_def list_all_iff)

lemma scan_ok_emit: "scan_ok m st \<Longrightarrow> scan_ok m (emit_section lang overlap k m st)"
  by (auto simp: scan_ok_def emit_section_def section_chunk_def tree_chunk_ok_def Let_def split: option.split)

lemma scan_ok_open: "scan_ok m st \<Longrightarrow> 0 \<le> m \<Longrightarrow> scan_ok (m + 1) (open_section nm (m + 1) ln st)"
  using scan_ok_mono [of m st "m + 1"] by (simp add: scan_ok_def open_section_def)

lemma scan_ok_add: "scan_ok m (add_line ln st) = scan_ok m st"
  by (simp add: scan_ok_def add_line_def)

lemma scan_ok_preamble: "scan_ok m st \<Longrightarrow> 0 \<le> m \<Longrightarrow> scan_ok (m + 1) (st\<lparr>ss_name := Some nm, ss_start := m + 1\<rparr>)"
  using scan_ok_mono [of m st "m + 1"] by (simp add: scan_ok_def)

lemma toml_line_ok: "scan_ok m st \<Longrightarrow> 0 \<le> m \<Longrightarrow> scan_ok (m + 1) (toml_line overlap (m + 1) ln st)"
  using scan_ok_open [OF scan_ok_emit] scan_ok_mono [of m st "m + 1"] scan_ok_preamble
  by (auto simp: toml_line_def scan_ok_add split: option.split)

lemma yaml_line_ok: "scan_ok m st \<Longrightarrow> 0 \<le> m \<Longrightarrow> scan_ok (m + 1) (yaml_line overlap (m + 1) ln st)"
  using scan_ok_open [OF scan_ok_emit] scan_ok_mono [of m st "m + 1"]
  by (auto simp: yaml_line_def scan_ok_add split: option.split)

text \<open>The contract of the step of a line scanner, and what it gives for the whole file.\<close>

locale line_scanner =
  fixes step :: "int \<Rightarrow> string \<Rightarrow> scan_state \<Rightarrow> scan_state"
  assumes step_ok: "scan_ok m st \<Longrightarrow> 0 \<le> m \<Longrightarrow> scan_ok (m + 1) (step (m + 1) ln st)"
begin

lemma scanned_ok: "scan_ok (int (length ls)) (scan_lines step 1 ls start_scan)"
  by (rule scan_invariant [of "\<lambda>m. scan_ok (int m)"]) (use step_ok [of "int _"] scan_ok_start in \<open>auto simp: add.commute\<close>)

lemma sections_ok:
  "list_all (tree_chunk_ok (int (length ls)))
     (ss_chunks (emit_section lang overlap k (int (length ls)) (scan_lines step 1 ls start_scan)))"
  using scan_ok_emit [OF scanned_ok] by (simp add: scan_ok_def)

end

interpretation toml_scanner: line_scanner "toml_line overlap" for overlap
  by unfold_locales (rule toml_line_ok)

interpretation yaml_scanner: line_scanner "yaml_line overlap" for overlap
  by unfold_locales (rule yaml_line_ok)

lemma chunk_toml_ok: "list_all (tree_chunk_ok (int (length (split_lines s)))) (chunk_toml overlap s)"
  unfolding chunk_toml_def Let_def by (intro or_module_ok toml_scanner.sections_ok) (auto simp: split_lines_length)

lemma chunk_yaml_ok: "list_all (tree_chunk_ok (int (length (split_lines s)))) (chunk_yaml overlap s)"
  unfolding chunk_yaml_def Let_def by (intro or_module_ok yaml_scanner.sections_ok) (auto simp: split_lines_length)

lemma hcl_blocks_ok:
  "1 \<le> i \<Longrightarrow> i + int (length ls) \<le> n + 1 \<Longrightarrow> list_all (tree_chunk_ok n) (hcl_blocks overlap i prev ls)"
proof (induction overlap i prev ls rule: hcl_blocks.induct)
  case (2 overlap i prev ln ls)
  show ?case
  proof (cases "block_start (py_strip ln)")
    case None
    with 2 show ?thesis by simp
  next
    case (Some wl)
    obtain w labels where w: "wl = (w, labels)" by fastforce
    obtain block rest where b: "take_block (braces ln) ls = (block, rest)" by fastforce
    have "block @ rest = ls" by (rule take_block_append [OF b])
    then have len: "int (length ls) = int (length block) + int (length rest)" by auto
    then show ?thesis
      using "2.IH"(2) [OF Some w [symmetric] b [symmetric] refl refl] "2.prems" Some w b by (simp add: tree_chunk_ok_def Let_def)
  qed
qed simp

lemma chunk_hcl_ok: "list_all (tree_chunk_ok (int (length (split_lines s)))) (chunk_hcl overlap s)"
  unfolding chunk_hcl_def Let_def by (intro or_module_ok hcl_blocks_ok) (auto simp: split_lines_length)

end
