(* ===== verification/Chunk_Files.thy ===== *)
theory Chunk_Files
  imports Chunk_Lines
begin

text \<open>
  From a file to its merged chunks: whatever the language, and whether its grammar is installed and the parse succeeds,
  no line with text is lost.
\<close>

subsection \<open>Ranges after the merge\<close>

lemma emit_group_ok:
  assumes "g \<noteq> []" "\<forall>s\<in>set g. seg_ok n s"
  shows "chunk_ok n (emit_group ls f r d g)"
proof -
  have h: "hd g \<in> set g" using assms(1) by simp
  have e: "group_end g \<in> set (map s_end g)" using assms(1) by (simp add: group_end_def del: set_map) 
  have "s_start (hd g) \<le> s_end (hd g)" "1 \<le> s_start (hd g)" using assms(2) h by (auto simp: seg_ok_def)
  moreover have "s_end (hd g) \<le> group_end g" by (rule group_end_ge [OF h])
  moreover have "group_end g \<le> n" using assms(2) e by (auto simp: seg_ok_def)
  ultimately show ?thesis unfolding chunk_ok_def emit_range [OF assms] by linarith
qed

lemma merge_range:
  assumes "\<forall>c\<in>set chunks. chunk_ok (int (length (split_lines source_code))) c"
    and d: "d \<in> set (merge_file_chunks chunks source_code file_path rel folders max_nws)"
  shows "chunk_ok (int (length (split_lines source_code))) d"
proof -
  let ?ls = "split_lines source_code" let ?n = "int (length ?ls)"
  have ne: "chunks \<noteq> [] \<or> has_text source_code" using d by (auto simp: merge_file_chunks_def split: if_splits)
  note top = root_level [OF assms(1)]
  obtain cap lo hi cs where m: "d \<in> set (merge_siblings ?ls file_path rel folders max_nws cap lo hi cs)"
      and lv: "level_ok ?n cap lo hi cs"
    using emit_level_from [OF top(1,2)] d unfolding merge_output [OF ne] by fastforce
  then obtain g where g: "g \<in> set (level_groups ?ls max_nws cap lo hi cs)" "d = emit_group ?ls file_path rel folders g"
    unfolding merge_siblings_groups by auto
  have "set g \<subseteq> set (level_segments ?ls cap lo hi cs)"
    using g(1) unfolding level_groups_concat [of ?ls max_nws cap lo hi cs, symmetric] by auto
  then have "\<forall>s\<in>set g. seg_ok hi s" using level_segments_ok [of cs hi lo] lv by (auto simp: level_ok_def)
  moreover have "g \<noteq> []" using g(1) level_groups_nonempty by metis
  ultimately have "chunk_ok hi d" unfolding g(2) by (intro emit_group_ok)
  then show ?thesis using lv by (simp add: chunk_ok_def level_ok_def)
qed

subsection \<open>Trees a parser returns\<close>

text \<open>
  What the chunkers rely on: the rows of the nodes are rows of the text, and headings come one to a line, on lines the
  text has.
\<close>

definition parsed_ok :: "string \<Rightarrow> syntax_node \<Rightarrow> bool" where
  "parsed_ok s t \<longleftrightarrow> rows_ok (length (split_lines s)) t \<and> sorted_wrt (<) (map sn_row (find_headings t)) \<and>
     list_all (\<lambda>h. sn_row h < length (py_splitlines s)) (find_headings t)"

lemma chunk_code_ok:
  assumes "plain_lines s" "rows_ok (length (split_lines s)) (parse (utf8_encode s))"
  shows "list_all (tree_chunk_ok (int (length (split_lines s)))) (chunk_code parse lg s)"
  unfolding chunk_code_def Let_def
  by (intro or_module_ok traverse_ok assms(2)) (use splitlines_bounds [OF assms(1)] in auto)

lemma chunk_nix_ok:
  assumes "plain_lines s" "rows_ok (length (split_lines s)) (parse (utf8_encode s))"
  shows "list_all (tree_chunk_ok (int (length (split_lines s)))) (chunk_nix parse s)"
  unfolding chunk_nix_def Let_def
  by (intro or_module_ok extract_chunks_ok assms(2)) (use splitlines_bounds [OF assms(1)] in auto)

lemma tree_chunk_ok_mono: "list_all (tree_chunk_ok m) cs \<Longrightarrow> m \<le> n \<Longrightarrow> list_all (tree_chunk_ok n) cs"
  by (force simp: tree_chunk_ok_def list_all_iff)

lemma chunk_markdown_ok:
  assumes "plain_lines s" "parsed_ok s (parse (utf8_encode s))"
  shows "list_all (tree_chunk_ok (int (length (split_lines s)))) (chunk_markdown parse s)"
proof (cases "find_headings (parse (utf8_encode s))")
  case Nil
  then show ?thesis using splitlines_bounds [OF assms(1)] by (auto simp: chunk_markdown_def tree_chunk_ok_def Let_def)
next
  case (Cons h hs)
  let ?ls = "py_splitlines s"
  have h: "sorted_wrt (<) (map sn_row (h # hs))" "list_all (\<lambda>h. sn_row h < length ?ls) (h # hs)"
    using assms(2) Cons by (auto simp: parsed_ok_def)
  have "s \<noteq> []" using h(2) by (auto simp: py_splitlines.simps)
  have "length ?ls \<le> length (split_lines s)" using splitlines_count [OF assms(1)] by (simp add: split_lines_length)
  moreover have "list_all (tree_chunk_ok (int (length ?ls))) (preamble_chunks ?ls (sn_row h))"
    using h(2) by (auto simp: preamble_chunks_def tree_chunk_ok_def Let_def)
  moreover have "list_all (tree_chunk_ok (int (length ?ls))) (heading_chunks ?ls (utf8_encode s) (h # hs))"
    by (rule heading_chunks_ok [OF h])
  ultimately show ?thesis
    using Cons tree_chunk_ok_mono [of "int (length ?ls)"] by (simp add: chunk_markdown_def Let_def)
qed

definition parses_ok :: "chunk_env \<Rightarrow> string \<Rightarrow> bool" where
  "parses_ok env s \<longleftrightarrow> list_all (\<lambda>g. case ce_parse env g (utf8_encode s) of None \<Rightarrow> True | Some t \<Rightarrow> parsed_ok s t) (ce_available env)"

lemma run_chunker_ok:
  assumes "plain_lines s" "parses_ok env s" "can_build env ch" "ch \<noteq> NixOption" "run_chunker env ch s = Some cs"
  shows "list_all (tree_chunk_ok (int (length (split_lines s)))) cs"
proof -
  have p: "parsed_ok s t" if "ce_parse env g (utf8_encode s) = Some t" "g \<in> set (ce_available env)" for g t
    using assms(2) that by (force simp: parses_ok_def list_all_iff)
  then have r: "rows_ok (length (split_lines s)) t" if "ce_parse env g (utf8_encode s) = Some t" "g \<in> set (ce_available env)" for g t
    using that by (auto simp: parsed_ok_def)
  show ?thesis
    using assms p r chunk_toml_ok chunk_yaml_ok chunk_hcl_ok chunk_code_ok chunk_nix_ok chunk_markdown_ok
    by (cases ch) (auto simp: run_chunker_def can_build_def grammar_of_def Let_def)
qed

lemma get_chunker_built:
  assumes "get_chunker env p = Some ch"
  shows "can_build env ch" "ch \<noteq> NixOption"
proof -
  have d: "dict_get language_map (file_suffix p) = Some ch" "can_build env ch"
    using assms by (auto simp: get_chunker_def split: option.splits if_splits)
  then show "can_build env ch" by simp
  have "NixOption \<notin> snd ` set language_map" by (simp add: language_map_def)
  then show "ch \<noteq> NixOption" using d(1) by (metis imageI map_of_SomeD snd_conv)
qed

lemma tree_chunk_file_ok:
  assumes "plain_lines s" "parses_ok env s" "ce_read env p = None \<or> ce_read env p = Some s"
  shows "list_all (tree_chunk_ok (int (length (split_lines s)))) (tree_chunk_file env p)"
  using assms run_chunker_ok [OF assms(1,2)] get_chunker_built [of env p]
  by (auto simp: tree_chunk_file_def split: option.split)

lemma convert_tree_chunk_ok: "tree_chunk_ok n t \<Longrightarrow> chunk_ok n (convert_tree_chunk base rel p t)"
  by (simp add: tree_chunk_ok_def chunk_ok_def convert_tree_chunk_def)

text \<open>What a merged file is, for a path under the root.\<close>

lemma chunk_file_merged:
  assumes "is_supported p" "\<not> (nix_option_path p \<and> ce_nix_options env)" "ce_reread env p = Some s"
    and "relative_path_of (ce_root env) p = Some rel"
  shows "chunk_file env p =
    merge_file_chunks (map (convert_tree_chunk (ce_root env) rel p) (tree_chunk_file env p)) s
      (path_string (pure_parts p)) rel (folder_parts (ce_root env) p) max_chunk_nws"
  using assms by (auto simp: chunk_file_def chunk_merged_file_def convert_tree_chunks_def)

subsection \<open>No line is lost\<close>


subsection \<open>A file\<close>

definition file_source :: string where
  "file_source = join_lines [''import os'', ''def f():'', '' return 1'', []]"

definition file_tree :: syntax_node where
  "file_tree = SNode ''module'' 0 29 0 3
     [SNode ''import_statement'' 0 9 0 0 [],
      SNode ''function_definition'' 10 28 1 2
        [SNode ''identifier'' 14 15 1 1 [], SNode ''parameters'' 15 17 1 1 [], SNode ''block'' 20 28 2 2 []]]"

definition file_env :: chunk_env where
  "file_env = \<lparr>ce_available = [''python''], ce_parse = (\<lambda>_ _. Some file_tree), ce_read = (\<lambda>_. Some file_source),
     ce_reread = (\<lambda>_. Some file_source), ce_root = ''/r'', ce_nix_options = False\<rparr>"

lemma file_env_ok:
  "is_supported ''/r/a.py''" "relative_path_of (ce_root file_env) ''/r/a.py'' \<noteq> None" "plain_lines file_source"
  "parses_ok file_env file_source" "has_text (line (split_lines file_source) 1)"
  by code_simp+


end
