(* ===== verification/Toml_Sections.thy ===== *)
theory Toml_Sections
  imports Chunk_Lines
begin

text \<open>
  The sections of a TOML file: they tile the file from its first line with text on, and begin there and at the headers.
\<close>

subsection \<open>Sections so far\<close>

definition spans :: "tree_chunk list \<Rightarrow> int list" where
  "spans cs = concat (map (\<lambda>c. [tc_start_line c .. tc_end_line c]) cs)"

definition section_starts :: "string list \<Rightarrow> int \<Rightarrow> int \<Rightarrow> int list" where
  "section_starts ls k m = filter (\<lambda>l. l = k \<or> toml_header (line ls l) \<noteq> None) [k .. m]"

definition carries :: "string list \<Rightarrow> tree_chunk \<Rightarrow> bool" where
  "carries ls c \<longleftrightarrow> suffix (join_lines (map (line ls) [tc_start_line c .. tc_end_line c])) (tc_content c)"

definition blank_before :: "string list \<Rightarrow> int \<Rightarrow> bool" where
  "blank_before ls k \<longleftrightarrow> list_all (\<lambda>l. \<not> has_text (line ls l)) [1 .. k - 1]"

definition tiled :: "string list \<Rightarrow> int \<Rightarrow> int \<Rightarrow> tree_chunk list \<Rightarrow> bool" where
  "tiled ls k m cs \<longleftrightarrow> spans cs = [k .. m] \<and> map tc_start_line cs = section_starts ls k m \<and> list_all (carries ls) cs"

text \<open>With a section open since line \<open>ss_start\<close>.\<close>

definition section_open :: "string list \<Rightarrow> int \<Rightarrow> int \<Rightarrow> scan_state \<Rightarrow> bool" where
  "section_open ls k m st \<longleftrightarrow>
     ss_name st \<noteq> None \<and> k \<le> ss_start st \<and> ss_start st \<le> m \<and> has_text (line ls (ss_start st)) \<and>
     suffix (map (line ls) [ss_start st .. m]) (ss_lines st) \<and>
     spans (ss_chunks st) = [k .. ss_start st - 1] \<and> map tc_start_line (ss_chunks st) @ [ss_start st] = section_starts ls k m \<and>
     list_all (carries ls) (ss_chunks st)"

definition no_section :: "string list \<Rightarrow> int \<Rightarrow> scan_state \<Rightarrow> bool" where
  "no_section ls m st \<longleftrightarrow> ss_name st = None \<and> ss_chunks st = [] \<and> blank_before ls (m + 1)"

lemma join_lines_suffix: "ys \<noteq> [] \<Longrightarrow> suffix (join_lines ys) (join_lines (xs @ ys))"
proof (induction xs)
  case (Cons x xs)
  have "join_lines (x # xs @ ys) = x @ newline # join_lines (xs @ ys)"
    using Cons.prems by (cases "xs @ ys") (auto simp: join_lines_def)
  then show ?case using Cons by (simp add: suffix_Cons suffix_appendI flip: append_Cons)
qed simp

lemma upto_split: "a \<le> b + 1 \<Longrightarrow> b \<le> c \<Longrightarrow> [a .. b] @ [b + 1 .. c] = [a .. (c::int)]"
  by (cases "a = b + 1") (use upto_split2 [of a b c] in auto)

lemma emit_tiled:
  assumes "section_open ls k m st"
  shows "tiled ls k m (ss_chunks (emit_section ''toml'' overlap 0 m st))"
proof -
  let ?xs = "map (line ls) [ss_start st .. m]"
  obtain nm where nm: "ss_name st = Some nm" using assms by (auto simp: section_open_def)
  have ne: "?xs \<noteq> []" and ne': "line ls (ss_start st) \<in> set ?xs" using assms by (auto simp: section_open_def)
  obtain pre where pre: "ss_lines st = pre @ ?xs" using assms by (auto simp: section_open_def suffix_def)
  have "has_text (join_lines (ss_lines st))"
    unfolding has_text_join pre using ne' assms by (auto simp: section_open_def)
  moreover have "ss_lines st \<noteq> []" using pre ne by simp
  ultimately have "ss_chunks (emit_section ''toml'' overlap 0 m st) =
      ss_chunks st @ [section_chunk ''toml'' nm (ss_start st) m (ss_overlap st @ join_lines (ss_lines st))]" (is "_ = _ @ [?c]")
    using nm by (simp add: emit_section_def Let_def)
  moreover have "carries ls ?c"
    using join_lines_suffix [OF ne, of pre] pre by (simp add: carries_def section_chunk_def suffix_appendI)
  moreover have "[k .. ss_start st - 1] @ [ss_start st .. m] = [k .. m]"
    using upto_split [of k "ss_start st - 1" m] assms by (simp add: section_open_def)
  ultimately show ?thesis
    using assms by (simp add: tiled_def section_open_def spans_def section_chunk_def)
qed

lemma header_has_text: "toml_header ln \<noteq> None \<Longrightarrow> has_text ln"
proof -
  assume "toml_header ln \<noteq> None"
  then have st: "starts_with (dropWhile is_space ln) ''[''"
    by (auto simp: toml_header_def Let_def split: if_splits)
  have "dropWhile is_space ln \<noteq> []"
  proof
    assume "dropWhile is_space ln = []"
    with st show False by (simp only: starts_with_def) simp
  qed
  then show ?thesis by (metis dropWhile_eq_Nil_conv has_text_def list_ex_iff)
qed

lemma section_starts_next:
  assumes "k \<le> m"
  shows "section_starts ls k (m + 1) =
    section_starts ls k m @ (if toml_header (line ls (m + 1)) \<noteq> None then [m + 1] else [])"
  using assms upto_rec2 [of k "m + 1"] by (simp add: section_starts_def)

lemma section_starts_first: "section_starts ls k k = [k]"
  by (simp add: section_starts_def)

lemma blank_next: "0 \<le> m \<Longrightarrow> blank_before ls (m + 1) \<Longrightarrow> \<not> has_text (line ls (m + 1)) \<Longrightarrow> blank_before ls (2 + m)"
  using upto_rec2 [of 1 "m + 1"] by (simp add: blank_before_def add.commute [of 1 m])

subsection \<open>One line\<close>

definition toml_scanned :: "string list \<Rightarrow> int \<Rightarrow> scan_state \<Rightarrow> bool" where
  "toml_scanned ls m st \<longleftrightarrow> no_section ls m st \<or> (\<exists>k\<ge>1. blank_before ls k \<and> section_open ls k m st)"

lemma open_first:
  assumes "no_section ls m st" "0 \<le> m" "has_text ln" "ln = line ls (m + 1)" "suffix [ln] ws"
  shows "toml_scanned ls (m + 1) (st\<lparr>ss_name := Some nm, ss_start := m + 1, ss_lines := ws\<rparr>)"
  unfolding toml_scanned_def
  by (intro disjI2 exI [of _ "m + 1"])
    (use assms in \<open>auto simp: no_section_def section_open_def spans_def section_starts_first\<close>)

lemma open_next:
  assumes "tiled ls k m (ss_chunks st)" "1 \<le> k" "k \<le> m" "blank_before ls k" "ln = line ls (m + 1)" "toml_header ln \<noteq> None"
  shows "toml_scanned ls (m + 1) (open_section nm (m + 1) ln st)"
  unfolding toml_scanned_def
  by (intro disjI2 exI [of _ k])
    (use assms header_has_text in \<open>auto simp: tiled_def section_open_def open_section_def section_starts_next\<close>)

lemma keep_open:
  assumes "section_open ls k m st" "ln = line ls (m + 1)" "toml_header ln = None"
  shows "section_open ls k (m + 1) (add_line ln st)"
  using assms upto_rec2 [of "ss_start st" "m + 1"]
  by (auto simp: section_open_def add_line_def section_starts_next)

lemma toml_line_scanned:
  assumes "toml_scanned ls m st" "0 \<le> m" "ln = line ls (m + 1)"
  shows "toml_scanned ls (m + 1) (toml_line overlap (m + 1) ln st)"
proof -
  consider (none) "no_section ls m st" | (some) k where "1 \<le> k" "blank_before ls k" "section_open ls k m st"
    using assms(1) by (auto simp: toml_scanned_def)
  then show ?thesis
  proof cases
    case none
    then have nm: "ss_name st = None" by (simp add: no_section_def)
    then have e: "emit_section ''toml'' overlap 0 m st = st" by (simp add: emit_section_def)
    consider (header) nm where "toml_header ln = Some nm" | (words) "toml_header ln = None" "has_text ln"
      | (blank) "toml_header ln = None" "\<not> has_text ln" by blast
    then show ?thesis
    proof cases
      case header
      then show ?thesis
        using open_first [OF none assms(2) header_has_text assms(3), of "[ln]" "py_strip nm"] e
        by (simp add: toml_line_def open_section_def)
    next
      case words
      then show ?thesis
        using open_first [OF none assms(2) words(2) assms(3), of "ss_lines st @ [ln]" "''_preamble''"] nm
        by (simp add: toml_line_def add_line_def)
    next
      case blank
      then show ?thesis
        using none nm assms blank_next [of m ls] by (simp add: toml_line_def add_line_def toml_scanned_def no_section_def)
    qed
  next
    case some
    then have k: "k \<le> m" and nm: "ss_name st \<noteq> None" by (auto simp: section_open_def)
    show ?thesis
    proof (cases "toml_header ln")
      case None
      then have "toml_line overlap (m + 1) ln st = add_line ln st" using nm by (auto simp: toml_line_def)
      then show ?thesis using keep_open [OF some(3) assms(3) None] some by (auto simp: toml_scanned_def)
    next
      case (Some h)
      then show ?thesis
        using open_next [OF emit_tiled [OF some(3)] some(1) k some(2) assms(3)] by (simp add: toml_line_def)
    qed
  qed
qed

lemma toml_scanned_all:
  "toml_scanned ls (int (length ls)) (scan_lines (toml_line overlap) 1 ls start_scan)"
proof (rule scan_invariant [of "\<lambda>m. toml_scanned ls (int m)"])
  show "toml_scanned ls (int 0) start_scan"
    by (simp add: toml_scanned_def no_section_def start_scan_def blank_before_def)
  fix m st assume "m < length ls" "toml_scanned ls (int m) st"
  then have "toml_scanned ls (int m + 1) (toml_line overlap (int m + 1) (ls ! m) st)"
    by (intro toml_line_scanned) (simp_all add: line_def)
  then show "toml_scanned ls (int (Suc m)) (toml_line overlap (1 + int m) (ls ! m) st)" by (simp add: add.commute)
qed


end
