(* ===== verification/PathValidation.thy ===== *)
theory PathValidation
  imports SyntaxTree
begin

text \<open>
  Which directories may be indexed (\<open>search/path_validation.py\<close>) and which index formats this build reads
  (\<open>search/index_format.py\<close>).

  A resolved path is the list of its names below the root directory. \<open>Path.resolve\<close>, the home directory and the
  listing of a directory are parameters.
\<close>

subsection \<open>Project roots\<close>

type_synonym abs_path = "string list"

definition sensitive_dir_names :: "string list" where
  "sensitive_dir_names = [''.ssh'', ''.gnupg'', ''.gpg'', ''.aws'', ''.azure'', ''.config'', ''.docker'', ''.kube'', ''.helm'', ''.vault'',
     ''.credentials'', ''.password-store'']"

definition sensitive_system_prefixes :: "string list" where
  "sensitive_system_prefixes = [''/etc'', ''/var'', ''/root'', ''/proc'', ''/sys'', ''/boot'', ''/dev'']"

text \<open>What the walk sees of an entry: whether it is a directory, and whether it has a \<open>.git\<close> (or asking raises).\<close>

record probe =
  pr_is_dir :: bool
  pr_has_git :: "bool option"

text \<open>\<open>pe_entries\<close> ends where the listing ends or raises.\<close>

record path_env =
  pe_resolve :: "string \<Rightarrow> abs_path option"
  pe_home :: abs_path
  pe_allowed :: string
  pe_entries :: "abs_path \<Rightarrow> probe list"

datatype refusal = EmptyPath | Unresolvable | HomeDirectory | FilesystemRoot | OutsideAllowed | SensitiveDirectory string
  | SystemDirectory string | WorkspaceRoot

definition abs_text :: "abs_path \<Rightarrow> string" where
  "abs_text p = CHR ''/'' # join ''/'' p"

definition is_under :: "abs_path \<Rightarrow> abs_path \<Rightarrow> bool" where
  "is_under child parent \<longleftrightarrow> take (length parent) child = parent"

definition get_allowed_roots :: "path_env \<Rightarrow> abs_path list option" where
  "get_allowed_roots env =
     (let raw = py_strip (pe_allowed env);
          entries = filter (\<lambda>e. e \<noteq> []) (map py_strip (split_by (\<lambda>c. c = CHR '','') raw));
          roots = List.map_filter (pe_resolve env) entries
      in if raw = [] \<or> roots = [] then None else Some roots)"

definition is_sensitive_path :: "path_env \<Rightarrow> abs_path \<Rightarrow> refusal option" where
  "is_sensitive_path env p =
     (case (if is_under p (pe_home env) then List.find (\<lambda>part. part \<in> set sensitive_dir_names) (drop (length (pe_home env)) p) else None) of
        Some part \<Rightarrow> Some (SensitiveDirectory part)
      | None \<Rightarrow> map_option SystemDirectory
          (List.find (\<lambda>pre. abs_text p = pre \<or> starts_with (abs_text p) (pre @ ''/'')) sensitive_system_prefixes))"

fun too_many_gits :: "nat \<Rightarrow> nat \<Rightarrow> probe list \<Rightarrow> bool" where
  "too_many_gits visited gits [] = False"
| "too_many_gits visited gits (x # xs) =
     (if 50 < visited + 1 then False
      else if \<not> pr_is_dir x then too_many_gits (visited + 1) gits xs
      else case pr_has_git x of
          None \<Rightarrow> False
        | Some g \<Rightarrow> if g then 5 < gits + 1 \<or> too_many_gits (visited + 1) (gits + 1) xs else too_many_gits (visited + 1) gits xs)"

definition refuse_as_project_root_reason :: "path_env \<Rightarrow> string \<Rightarrow> refusal option" where
  "refuse_as_project_root_reason env path =
     (if path = [] then Some EmptyPath
      else case pe_resolve env path of
        None \<Rightarrow> Some Unresolvable
      | Some p \<Rightarrow>
          if p = pe_home env then Some HomeDirectory
          else if p = [] then Some FilesystemRoot
          else if (case get_allowed_roots env of None \<Rightarrow> False | Some roots \<Rightarrow> \<not> list_ex (is_under p) roots) then Some OutsideAllowed
          else case is_sensitive_path env p of
              Some r \<Rightarrow> Some r
            | None \<Rightarrow> if too_many_gits 0 0 (pe_entries env p) then Some WorkspaceRoot else None)"

definition is_path_within_root :: "abs_path \<Rightarrow> abs_path \<Rightarrow> bool" where
  "is_path_within_root p base \<longleftrightarrow> is_under p base"

subsection \<open>Index formats\<close>

datatype format_status = IndexFormatNewer | IndexFormatUnsupported

definition index_format_version :: int where
  "index_format_version = 1"

definition min_supported_index_format :: int where
  "min_supported_index_format = 1"

definition stored_format_version :: "(string, json) dict \<Rightarrow> int option" where
  "stored_format_version project_info =
     (case dict_get_or project_info ''index_format_version'' (JInt 1) of JInt v \<Rightarrow> Some v | _ \<Rightarrow> None)"

definition format_incompatibility :: "(string, json) dict \<Rightarrow> format_status option" where
  "format_incompatibility project_info =
     (case stored_format_version project_info of
        None \<Rightarrow> Some IndexFormatUnsupported
      | Some v \<Rightarrow>
          if index_format_version < v then Some IndexFormatNewer
          else if v < min_supported_index_format then Some IndexFormatUnsupported else None)"

subsection \<open>What is accepted\<close>

lemma is_under_append: "is_under p q \<longleftrightarrow> (\<exists>rest. p = q @ rest)"
  unfolding is_under_def by (metis append_eq_conv_conj append_take_drop_id)

definition nested_gits :: "probe list \<Rightarrow> nat" where
  "nested_gits xs =
     length (filter (\<lambda>x. pr_is_dir x \<and> pr_has_git x = Some True) (takeWhile (\<lambda>x. pr_is_dir x \<longrightarrow> pr_has_git x \<noteq> None) xs))"

lemma too_many_gits_iff: "gits \<le> 5 \<Longrightarrow> too_many_gits visited gits xs \<longleftrightarrow> 5 < gits + nested_gits (take (50 - visited) xs)"
proof (induction visited gits xs rule: too_many_gits.induct)
  case (2 visited gits x xs)
  show ?case
  proof (cases "visited < 50")
    case True
    then have t: "take (50 - visited) (x # xs) = x # take (50 - (visited + 1)) xs"
      using Suc_diff_Suc [of visited 50] by (metis Suc_eq_plus1 take_Suc_Cons)
    consider (other) "\<not> pr_is_dir x" | (raises) "pr_is_dir x" "pr_has_git x = None" | (plain) "pr_is_dir x" "pr_has_git x = Some False"
      | (git) "pr_is_dir x" "pr_has_git x = Some True" by (cases "pr_has_git x") auto
    then show ?thesis
    proof cases
      case git
      then show ?thesis using 2(2) [of True] 2(4) True unfolding t by (cases "gits = 5") (auto simp: nested_gits_def)
    qed (use 2(1) 2(3) [of False] 2(4) True in \<open>auto simp: nested_gits_def t simp del: take_Cons'\<close>)
  next
    case False
    then show ?thesis using 2(4) by (simp add: nested_gits_def)
  qed
qed (simp add: nested_gits_def)

lemma first_refusal:
  "(case a of Some x \<Rightarrow> Some (f x) | None \<Rightarrow> map_option g b) = None \<longleftrightarrow> a = None \<and> b = None"
  by (simp split: option.split)

text \<open>A path lies under a system directory when its first name is that directory's.\<close>

lemma before_slash:
  assumes "CHR ''/'' \<notin> set m"
  shows "takeWhile (\<lambda>c. c \<noteq> CHR ''/'') (m @ CHR ''/'' # z) = m"
  using assms by (induction m) auto

lemma system_prefix:
  assumes "CHR ''/'' \<notin> set n" "CHR ''/'' \<notin> set m"
  shows "abs_text (n # rest) = CHR ''/'' # m \<or> starts_with (abs_text (n # rest)) (CHR ''/'' # m @ ''/'') \<longleftrightarrow> n = m"
proof (cases rest)
  case Nil
  then show ?thesis using assms by (auto simp: abs_text_def starts_with_prefix prefix_def)
next
  case (Cons r rs)
  then have t: "abs_text (n # rest) = CHR ''/'' # n @ CHR ''/'' # join ''/'' rest" by (simp add: abs_text_def)
  have "n = m" if "n @ CHR ''/'' # x = m @ CHR ''/'' # y" for x y
    using arg_cong [OF that, of "takeWhile (\<lambda>c. c \<noteq> CHR ''/'')"] assms by (simp add: before_slash)
  moreover have "n @ CHR ''/'' # x \<noteq> m" for x using assms by auto
  ultimately show ?thesis unfolding t by (auto simp: starts_with_prefix prefix_def)
qed

definition system_names :: "string list" where
  "system_names = map tl sensitive_system_prefixes"

lemma system_found:
  assumes "CHR ''/'' \<notin> set n"
  shows "List.find (\<lambda>pre. abs_text (n # rest) = pre \<or> starts_with (abs_text (n # rest)) (pre @ ''/'')) sensitive_system_prefixes = None \<longleftrightarrow>
    n \<notin> set system_names"
proof -
  have p: "sensitive_system_prefixes = map (\<lambda>m. CHR ''/'' # m) system_names"
    "list_all (\<lambda>m. CHR ''/'' \<notin> set m) system_names"
    by (simp_all add: system_names_def sensitive_system_prefixes_def)
  show ?thesis
    using system_prefix [OF assms] p(2) unfolding find_None_iff p(1) by (auto simp: list_all_iff)
qed

lemma refusal_none:
  assumes "pe_resolve env path = Some p"
  shows "refuse_as_project_root_reason env path = None \<longleftrightarrow>
    path \<noteq> [] \<and> p \<noteq> pe_home env \<and> p \<noteq> [] \<and>
    \<not> (case get_allowed_roots env of None \<Rightarrow> False | Some roots \<Rightarrow> \<not> list_ex (is_under p) roots) \<and>
    is_sensitive_path env p = None \<and> \<not> too_many_gits 0 0 (pe_entries env p)"
  by (cases "is_sensitive_path env p") (simp_all add: refuse_as_project_root_reason_def assms)


definition demo_paths_env :: path_env where
  "demo_paths_env = \<lparr>pe_resolve = (\<lambda>s. Some (path_parts s)), pe_home = [''home'', ''ann''], pe_allowed = ''/home/ann, /srv'',
     pe_entries = (\<lambda>_. [\<lparr>pr_is_dir = True, pr_has_git = Some True\<rparr>])\<rparr>"


lemma readable_formats:
  "format_incompatibility project_info = None \<longleftrightarrow>
   dict_get project_info ''index_format_version'' = None \<or> dict_get project_info ''index_format_version'' = Some (JInt 1)"
  by (auto simp: format_incompatibility_def stored_format_version_def dict_get_or_def index_format_version_def
      min_supported_index_format_def split: option.splits json.splits)

end
