(* ===== verification/Spec2Isabelle.thy ===== *)
theory Spec2Isabelle
  imports SnapshotStore EpochManifest Chunk_Nesting IndexStore_Query Publication_Crash IncrementalIndex_Demo WriterLock_Safe IndexJobs_Life
    IndexIdentity_Sound IndexIdentity_Publish QuerySignals_Bounds Search_Sound Query_Cache Chunk_Trees Chunk_Files Toml_Sections PathValidation
begin

text \<open>
  A verification development of the indexing and search core of \<open>code-search\<close>, a semantic code search server in
  Python.
  File names below are relative to \<open>src/\<close>.

  THE PROGRAM. A project directory is walked into a Merkle tree of content hashes. The tree is compared with the
  stored snapshot of the last run; the files that changed are cut into chunks, adjacent small chunks are merged,
  the chunks are embedded, and an index manager keeps the vectors (FAISS), the position list of chunk ids, the
  metadata table and the keyword table (FTS5) of an index directory in step. A finished working set is published
  as an immutable generation, named by an epoch manifest, and mirrored at the root of the index directory, under
  locks that exclude other threads and processes. The server runs this as a foreground job, or before a search,
  and records for which state of the checkout the index was built. A query is embedded and looked up in the vectors
  and in the keyword table; the two rankings are fused, boosted by what the query names, cut to one chunk per file,
  and reordered by the configured reranker.

  THE THEORIES. Each component has a theory of definitions, named after the code, followed by theories of proofs.

  \<^item> \<open>Prelude\<close>: Python's strings, slices, dictionaries (association lists in insertion order), sorting, JSON
    values, and \<open>bindr\<close>/\<open>map_result\<close> for code that raises (\<open>Inl\<close> the error).
  \<^item> \<open>Merkle\<close>, \<open>Merkle_Walk\<close>: \<open>merkle/merkle_dag.py\<close>. The file system is a finite tree of entries; the walk
    passes the DAG and the successive answers of the cancellation poll explicitly.
  \<^item> \<open>ChangeDetect\<close>, \<open>SnapshotStore\<close>: \<open>merkle/change_detector.py\<close>, \<open>merkle/snapshot_manager.py\<close>. The storage
    directory is an ordered map from file names to JSON and times; the detector reads it through the interface
    \<open>snapshot_source\<close>, interpreted on the snapshot manager.
  \<^item> \<open>EpochManifest\<close>: \<open>search/epoch_manifest.py\<close>; a commit is the list of directory states a crash can leave.
  \<^item> \<open>ChunkMerge\<close>, \<open>Chunk_Coverage\<close>, \<open>Chunk_Nesting\<close>: \<open>chunking/chunk_merging.py\<close> and \<open>chunking/code_chunk.py\<close>.
  \<^item> \<open>SyntaxTree\<close>, \<open>Grammars\<close>, \<open>LineChunkers\<close>, \<open>NixChunkers\<close>, \<open>Chunkers\<close>, then \<open>Chunk_Trees\<close>, \<open>Chunk_Lines\<close>,
    \<open>Chunk_Files\<close>, \<open>Toml_Sections\<close>: \<open>chunking/base_chunker.py\<close>, \<open>chunking/languages\<close>, \<open>chunking/tree_sitter.py\<close>,
    \<open>chunking/multi_language_chunker.py\<close>. A parser is a partial function from source to a tree; a language is a record
    of its node types and metadata; the locale \<open>line_scanner\<close> is the contract of the chunkers that scan lines.
  \<^item> \<open>MetadataStore\<close>: \<open>search/metadata_store.py\<close>, with the interface \<open>kv_interface\<close> its clients use.
  \<^item> \<open>IndexStore\<close>, \<open>IndexSearch\<close>, then \<open>IndexStore_Live\<close>, \<open>IndexStore_Correct\<close>, \<open>IndexStore_Query\<close>: the working set
    of \<open>CodeIndexManager\<close> in \<open>search/indexer.py\<close>. The record \<open>store\<close> has one field per artifact. The abstraction
    \<open>live\<close> maps chunk ids to vector and metadata, \<open>store_ok\<close> is the invariant, and the locale \<open>chunk_index\<close> is what
    the incremental indexer relies on.
  \<^item> \<open>Publication\<close>, \<open>Publication_Save\<close>, then \<open>Publication_Frame\<close> to \<open>Publication_Crash\<close>: generations, recovery,
    rollback, pruning, transactions, saving and clearing in \<open>search/indexer.py\<close>. An action yields its result
    together with every disk state it passes through, so that a crash is a choice of one of them.
  \<^item> \<open>IncrementalIndex\<close>, \<open>IncrementalIndex_Correct\<close>, \<open>IncrementalIndex_Runs\<close>, \<open>IncrementalIndex_Demo\<close>:
    \<open>search/incremental_indexer.py\<close>, which composes the components above; publication appears there as the atomic
    step the publication theories justify.
  \<^item> \<open>WriterLock\<close>, \<open>WriterLock_Safe\<close>: the two lock classes of \<open>search/indexer.py\<close>, with a transition relation over
    processes and threads (enter, wait, leave, fork, die) and its inductive invariant.
  \<^item> \<open>IndexJobs\<close>, \<open>IndexJobs_Life\<close>: \<open>search/index_jobs.py\<close> and the updates \<open>mcp_server/code_search_server.py\<close> makes
    of the foreground job.
  \<^item> \<open>IndexIdentity\<close>, \<open>IndexIdentity_Sound\<close>, \<open>IndexIdentity_Publish\<close>: \<open>search/index_identity.py\<close>,
    \<open>search/identity_checks.py\<close> and \<open>_update_project_info\<close> of the server.
  \<^item> \<open>QuerySignals\<close>, \<open>QuerySignals_Bounds\<close>: \<open>search/query_signals.py\<close> and the expansion of \<open>search/query_expansion.py\<close>;
    each regular expression is a scanner.
  \<^item> \<open>Rerank\<close>, \<open>Rerank_Order\<close>: \<open>search/llm_judge.py\<close>, \<open>search/sonnet_reranker.py\<close>, \<open>search/openai_reranker.py\<close>,
    \<open>search/listwise_sonnet_reranker.py\<close>, \<open>search/reranker.py\<close>. The locale \<open>engine\<close> is the contract of an engine,
    interpreted on the three that ask a language model.
  \<^item> \<open>HybridSearch\<close>, \<open>SearchModes\<close>, then \<open>Fusion_Ranks\<close>, \<open>Search_Rerank\<close>, \<open>Search_Sound\<close>, \<open>Query_Cache\<close>:
    \<open>search/searcher.py\<close>, \<open>search/retrieval.py\<close>, \<open>search/fusion.py\<close>, \<open>search/pipeline.py\<close>,
    \<open>search/reranker_registry.py\<close>. The record \<open>searcher\<close> is the state (working set, query cache, stage records),
    \<open>search_env\<close> the configuration and the outside world; \<open>search_engine\<close> extends \<open>engine\<close> by what the registry does.
  \<^item> \<open>PathValidation\<close>: \<open>search/path_validation.py\<close> and \<open>search/index_format.py\<close>.

  WHAT IS SHOWN, by component.

  \<^item> Merkle tree and changes: the walk tracks exactly the visible files; a content change reaches the
    root hash; the snapshot round trip; re-chunking what the detector names brings an index up to date; an
    unchanged project compares clean. Two theorems record limits: cancellation is only seen at the first poll,
    and the quick check of the root hash misses a renaming.
  \<^item> Chunking: the traversal emits exactly the outermost units, and those in classes, with their parents; TOML sections
    tile the file; from the file to its merged chunks every line with text stays covered, in every language and on every
    error path but an unreadable file; in the merge containers are respected and sizes bounded.
  \<^item> Manifest and metadata: crashes during a commit never lose the published epoch, a damaged
    manifest is never served, and only committed rows survive a close.
  \<^item> Index manager: every sequence of operations refines a finite map of live chunks; vector, keyword
    and similarity search return live chunks only, the best ones within the stated bound on stale vectors.
  \<^item> Publication: from any interleaving of operations and crashes the next recovery reaches a
    validated generation; a save is all or nothing; pruning keeps what a manifest names.
  \<^item> Indexing runs: a successful run leaves exactly the chunks of the current tree, incremental and
    full runs agree, a failed run changes nothing. Chunks a lost snapshot no longer lists stay.
  \<^item> Locks, jobs and identities: mutual exclusion across processes and forks; the job's readers never
    raise and an accepted cancel reaches the job; equal fingerprints mean equal states; an index is called ready
    only when the source was the same before and after the run.
  \<^item> Search: over a consistent store every mode returns different live chunks with their own metadata, accepted by the
    filters, one per file in hybrid mode; fusion is the sum of reciprocal ranks; every reranker only chooses among its
    candidates, and one that could not be applied keeps their order; the query cache is a least-recently-used cache
    over normal forms; the signal boost has five levels.
  \<^item> Project roots: exactly which paths are accepted; none in a system directory or, below home, in a credential directory is.

  TERMINATION AND BOUNDS. No definition uses fuel. The loops of the code run over finite lists or trees, so the
  recursion is structural, on the lines left of a file, or on the size of a tree with its measure (the walk, JSON trees, the levels of the merge
  pass, nested submodules). Python's integers are unbounded, hence \<open>int\<close> and \<open>nat\<close>; the one fixed width, the length
  prefix of a fingerprint frame, is kept as eight bytes with the overflow check of \<open>to_bytes\<close>. Scores are
  rationals where the code has floats (of any type in the index). Characters are bytes of UTF-8 text; in queries and
  in chunked sources they are Latin-1 code points.

  NOT MODELLED. SHA-256, MD5, UTF-8 decoding, path resolution and clocks are parameters, as are the embedder, the
  tree-sitter parsers and the set of installed grammars, and the results of FAISS, FTS5, Git and file reading, each with the documented
  facts the code relies on as hypotheses. Absence of hash collisions is assumed only for the inputs a theorem
  compares. Left out of modelled files: binary quantisation and the GPU move of the FAISS index, the publication of
  an already indexed root (\<open>publish_root_generation\<close>), the record counters of the epoch manifest, the Windows branch
  and the directory registry of the locks, \<open>normalize_remote_url\<close> (a parameter), message texts, logging and timing.
  The replies of language models, with their timeouts and exceptions, the rewritten query, page-rank scores and the
  active synonyms are parameters of the search. Left out altogether: the server's request handlers (glue over the
  modelled components), the embedders (calls of models and services), parsing of the configuration,
  reports, scripts and benchmarks.
\<close>

end
